(* ===== verification/Prelude.thy ===== *)
theory Prelude
  imports Main "HOL-Library.Word" "HOL-Library.Sublist"
begin

text \<open>
  Shared vocabulary of the development: the machine integer type of the eScript
  virtual machine, the three-valued truth values used where the code compares
  addresses, the \<^verbatim>\<open>std::string\<close> operations the sources call, decimal
  notation, and the collections of simplification rules the component theories fill.
\<close>

unbundle bit_operations_syntax

named_theorems kleene_simps \<open>unfolding rules of the three-valued connectives\<close>
named_theorems dispatch_simps \<open>the virtual methods of the value classes\<close>
named_theorems stream_simps \<open>formatted extraction from a stream\<close>

type_synonym int32 = "32 word"

section \<open>32-bit integers\<close>

lemma sint_of_int32:
  "- (2 ^ 31) \<le> i \<Longrightarrow> i < 2 ^ 31 \<Longrightarrow> sint (word_of_int i :: int32) = i"
  by (simp add: signed_of_int signed_take_bit_int_eq_self)

lemma sint32_bounds: "- (2 ^ 31) \<le> sint (i :: int32)" "sint (i :: int32) < 2 ^ 31"
  using sint_ge[of i] sint_lt[of i] by simp_all

section \<open>Three-valued truth\<close>

text \<open>
  \<open>None\<close> is the truth value of a comparison whose outcome the C++ code takes from
  the addresses of two objects.
\<close>

type_synonym tri = "bool option"

definition k_not :: "tri \<Rightarrow> tri" where
  [kleene_simps]: "k_not = map_option Not"

definition k_or :: "tri \<Rightarrow> tri \<Rightarrow> tri" where
  [kleene_simps]: "k_or a b =
     (if a = Some True \<or> b = Some True then Some True
      else if a = None \<or> b = None then None else Some False)"

definition k_and :: "tri \<Rightarrow> tri \<Rightarrow> tri" where
  [kleene_simps]: "k_and a b =
     (if a = Some False \<or> b = Some False then Some False
      else if a = None \<or> b = None then None else Some True)"

lemma k_not_simps [simp]:
  "k_not (Some b) = Some (\<not> b)" "k_not None = None"
  by (simp_all add: k_not_def)

lemma k_or_simps [simp]:
  "k_or (Some a) (Some b) = Some (a \<or> b)" "k_or (Some True) x = Some True"
  "k_or (Some False) x = x" "k_or x (Some True) = Some True" "k_or x (Some False) = x"
  by (cases x; simp add: k_or_def)+

lemma k_and_simps [simp]:
  "k_and (Some a) (Some b) = Some (a \<and> b)" "k_and (Some False) x = Some False"
  "k_and (Some True) x = x" "k_and x (Some False) = Some False" "k_and x (Some True) = x"
  by (cases x; simp add: k_and_def)+

lemma k_and_eq_True [simp]: "k_and a b = Some True \<longleftrightarrow> a = Some True \<and> b = Some True"
  by (auto simp: k_and_def)

lemma k_or_eq_False [simp]: "k_or a b = Some False \<longleftrightarrow> a = Some False \<and> b = Some False"
  by (auto simp: k_or_def)

lemma k_and_commute: "k_and a b = k_and b a"
  by (auto simp: k_and_def)

section \<open>Byte strings\<close>

text \<open>
  A \<^verbatim>\<open>std::string\<close> is the list of its bytes. \<open>npos\<close> is \<open>None\<close>.
\<close>

definition byte :: "char \<Rightarrow> nat" where
  "byte c = of_char c"

fun find_sub :: "string \<Rightarrow> string \<Rightarrow> nat option" where
  "find_sub n [] = (if n = [] then Some 0 else None)"
| "find_sub n (c # cs) =
     (if prefix n (c # cs) then Some 0 else map_option Suc (find_sub n cs))"

definition str_find :: "string \<Rightarrow> string \<Rightarrow> nat \<Rightarrow> nat option" where
  "str_find h n pos =
     (if length h < pos then None else map_option (\<lambda>i. pos + i) (find_sub n (drop pos h)))"

definition str_replace :: "string \<Rightarrow> nat \<Rightarrow> nat \<Rightarrow> string \<Rightarrow> string" where
  "str_replace s pos n r = take pos s @ r @ drop (pos + n) s"

definition substr :: "string \<Rightarrow> nat \<Rightarrow> nat \<Rightarrow> string" where
  "substr s pos n = take n (drop pos s)"

definition c_str :: "string \<Rightarrow> string" where
  "c_str s = takeWhile (\<lambda>c. c \<noteq> CHR 0x00) s"

fun str_lt :: "string \<Rightarrow> string \<Rightarrow> bool" where
  "str_lt [] ys = (ys \<noteq> [])"
| "str_lt (x # xs) [] = False"
| "str_lt (x # xs) (y # ys) =
     (byte x < byte y \<or> byte x = byte y \<and> str_lt xs ys)"

lemma byte_eq_iff [simp]: "byte a = byte b \<longleftrightarrow> a = b"
  by (simp add: byte_def)

lemma str_lt_irrefl [simp]: "\<not> str_lt s s"
  by (induction s) auto

lemma str_lt_trans: "str_lt a b \<Longrightarrow> str_lt b c \<Longrightarrow> str_lt a c"
proof (induction a b arbitrary: c rule: str_lt.induct)
  case (1 ys)
  then show ?case by (cases ys; cases c) auto
next
  case (2 x xs)
  then show ?case by simp
next
  case (3 x xs y ys)
  then show ?case by (cases c) auto
qed

lemma str_lt_total: "a \<noteq> b \<Longrightarrow> str_lt a b \<or> str_lt b a"
proof (induction a b rule: str_lt.induct)
  case (1 ys)
  then show ?case by (cases ys) auto
next
  case (3 x xs y ys)
  then show ?case using byte_eq_iff[of x y] by (auto simp del: byte_eq_iff)
qed simp

lemma str_lt_asym: "str_lt a b \<Longrightarrow> \<not> str_lt b a"
  using str_lt_irrefl str_lt_trans by blast

lemma find_sub_length: "find_sub n h = Some i \<Longrightarrow> i + length n \<le> length h"
proof (induction n h arbitrary: i rule: find_sub.induct)
  case (2 n c cs)
  then show ?case by (auto dest: prefix_length_le split: if_splits)
qed (auto split: if_splits)

lemma find_sub_prefix: "find_sub n h = Some i \<Longrightarrow> prefix n (drop i h)"
proof (induction n h arbitrary: i rule: find_sub.induct)
  case (2 n c cs)
  then show ?case by (auto split: if_splits)
qed (auto split: if_splits)

lemma find_sub_take: "find_sub n h = Some i \<Longrightarrow> take (length n) (drop i h) = n"
  by (drule find_sub_prefix) (auto simp: prefix_def)

lemma find_sub_least: "find_sub n h = Some i \<Longrightarrow> j < i \<Longrightarrow> \<not> prefix n (drop j h)"
proof (induction n h arbitrary: i j rule: find_sub.induct)
  case (2 n c cs)
  then show ?case by (cases j) (auto split: if_splits)
qed (auto split: if_splits)

lemma find_sub_None: "find_sub n h = None \<longleftrightarrow> \<not> sublist n h"
proof (induction n h rule: find_sub.induct)
  case (1 n)
  then show ?case by simp
next
  case (2 n c cs)
  then show ?case by (auto simp: sublist_Cons_right)
qed

section \<open>Decimal notation\<close>

definition digit_char :: "nat \<Rightarrow> char" where
  "digit_char d = char_of (48 + d)"

definition is_digit :: "char \<Rightarrow> bool" where
  "is_digit c \<longleftrightarrow> 48 \<le> byte c \<and> byte c \<le> 57"

definition digit_val :: "char \<Rightarrow> nat" where
  "digit_val c = byte c - 48"

fun show_nat :: "nat \<Rightarrow> string" where
  "show_nat n =
     (if n < 10 then [digit_char n] else show_nat (n div 10) @ [digit_char (n mod 10)])"

declare show_nat.simps [simp del]

definition show_int :: "int \<Rightarrow> string" where
  "show_int i = (if i < 0 then CHR ''-'' # show_nat (nat (- i)) else show_nat (nat i))"

definition read_nat :: "string \<Rightarrow> nat" where
  "read_nat ds = foldl (\<lambda>v c. 10 * v + digit_val c) 0 ds"

lemma byte_digit_char: "d < 10 \<Longrightarrow> byte (digit_char d) = 48 + d"
  by (simp add: byte_def digit_char_def)

lemma is_digit_digit_char [simp]: "d < 10 \<Longrightarrow> is_digit (digit_char d)"
  by (simp add: is_digit_def byte_digit_char)

lemma digit_val_digit_char [simp]: "d < 10 \<Longrightarrow> digit_val (digit_char d) = d"
  by (simp add: digit_val_def byte_digit_char)

lemma show_nat_nonempty [simp]: "show_nat n \<noteq> []"
  by (subst show_nat.simps) simp

lemma show_nat_digits: "list_all is_digit (show_nat n)"
proof (induction n rule: show_nat.induct)
  case (1 n)
  then show ?case by (subst show_nat.simps) auto
qed

lemma read_nat_append: "read_nat (xs @ [c]) = 10 * read_nat xs + digit_val c"
  by (simp add: read_nat_def)

lemma read_show_nat [simp]: "read_nat (show_nat n) = n"
proof (induction n rule: show_nat.induct)
  case (1 n)
  show ?case
  proof (cases "n < 10")
    case True
    then show ?thesis by (subst show_nat.simps) (simp add: read_nat_def)
  next
    case False
    with 1 show ?thesis by (subst show_nat.simps) (simp add: read_nat_append)
  qed
qed

lemma is_digit_not_space:
  "is_digit c \<Longrightarrow> c \<noteq> CHR '' '' \<and> c \<noteq> CHR 0x09 \<and> c \<noteq> CHR 0x0A \<and> c \<noteq> CHR 0x0B \<and>
     c \<noteq> CHR 0x0C \<and> c \<noteq> CHR 0x0D \<and> c \<noteq> CHR ''-'' \<and> c \<noteq> CHR ''+'' \<and> c \<noteq> CHR '':''"
  by (auto simp: is_digit_def byte_def)

end
