(* ===== verification/Streams.thy ===== *)
theory Streams
  imports Prelude
begin

text \<open>
  The part of the C++ standard library's input streams the sources use: formatted
  extraction (\<^verbatim>\<open>operator>>\<close>) of characters, \<^verbatim>\<open>int\<close> and
  \<^verbatim>\<open>unsigned\<close> values in the classic locale, and \<^verbatim>\<open>std::getline\<close>. A
  stream is its unread characters, the \<^verbatim>\<open>skipws\<close> format flag and the two
  state bits. An extraction returns \<open>None\<close> when it left \<open>failbit\<close> set.
\<close>

record istream =
  buf :: string
  skipws :: bool
  failbit :: bool
  eofbit :: bool

definition istream_of :: "string \<Rightarrow> istream" where
  "istream_of s = \<lparr>buf = s, skipws = True, failbit = False, eofbit = False\<rparr>"

definition good :: "istream \<Rightarrow> bool" where
  "good is \<longleftrightarrow> \<not> failbit is \<and> \<not> eofbit is"

definition isspace :: "char \<Rightarrow> bool" where
  "isspace c \<longleftrightarrow> byte c = 32 \<or> 9 \<le> byte c \<and> byte c \<le> 13"

definition set_fail :: "istream \<Rightarrow> istream" where
  "set_fail is = is\<lparr>failbit := True\<rparr>"

text \<open>The sentry of a formatted extraction: \<open>True\<close> when extraction may proceed.\<close>

definition sentry :: "istream \<Rightarrow> bool \<times> istream" where
  "sentry is =
     (if \<not> good is then (False, set_fail is)
      else if skipws is
      then (let rest = dropWhile isspace (buf is)
            in if rest = [] then (False, is\<lparr>buf := [], failbit := True, eofbit := True\<rparr>)
               else (True, is\<lparr>buf := rest\<rparr>))
      else (True, is))"

definition get_char :: "istream \<Rightarrow> char option \<times> istream" where
  "get_char is =
     (case sentry is of
        (False, is') \<Rightarrow> (None, is')
      | (True, is') \<Rightarrow>
          (case buf is' of
             [] \<Rightarrow> (None, is'\<lparr>failbit := True, eofbit := True\<rparr>)
           | c # cs \<Rightarrow> (Some c, is'\<lparr>buf := cs\<rparr>)))"

text \<open>
  The characters of an integer: an optional sign and the longest run of digits. The
  result is the sign, the digits and the unread rest.
\<close>

definition scan_sign :: "string \<Rightarrow> bool \<times> string" where
  "scan_sign s =
     (case s of
        [] \<Rightarrow> (False, [])
      | c # cs \<Rightarrow>
          if c = CHR ''-'' then (True, cs) else if c = CHR ''+'' then (False, cs) else (False, s))"

definition scan_int :: "string \<Rightarrow> bool \<times> string \<times> string" where
  "scan_int s =
     (let (neg, t) = scan_sign s in (neg, takeWhile is_digit t, dropWhile is_digit t))"

definition get_number :: "(bool \<Rightarrow> nat \<Rightarrow> int option) \<Rightarrow> istream \<Rightarrow> int option \<times> istream" where
  "get_number conv is =
     (case sentry is of
        (False, is') \<Rightarrow> (None, is')
      | (True, is') \<Rightarrow>
          (let (neg, ds, rest) = scan_int (buf is');
               v = (if ds = [] then None else conv neg (read_nat ds));
               is'' = is'\<lparr>buf := rest, eofbit := (rest = [])\<rparr>
           in (v, if v = None then set_fail is'' else is'')))"

text \<open>
  \<^verbatim>\<open>is >> i\<close> for an \<^verbatim>\<open>int\<close> fails outside its range;
  \<^verbatim>\<open>is >> u\<close> for an \<^verbatim>\<open>unsigned\<close> takes a minus sign and negates
  modulo \<open>2 ^ 32\<close>.
\<close>

definition int_conv :: "bool \<Rightarrow> nat \<Rightarrow> int option" where
  "int_conv neg m =
     (let v = (if neg then - int m else int m)
      in if - (2 ^ 31) \<le> v \<and> v < 2 ^ 31 then Some v else None)"

definition unsigned_conv :: "bool \<Rightarrow> nat \<Rightarrow> int option" where
  "unsigned_conv neg m =
     (if m < 2 ^ 32 then Some ((if neg then - int m else int m) mod 2 ^ 32) else None)"

definition get_int :: "istream \<Rightarrow> int option \<times> istream" where
  "get_int = get_number int_conv"

definition get_unsigned :: "istream \<Rightarrow> int option \<times> istream" where
  "get_unsigned = get_number unsigned_conv"

definition getline :: "istream \<Rightarrow> string \<times> istream" where
  "getline is =
     (if \<not> good is then ([], set_fail is)
      else (let line = takeWhile (\<lambda>c. c \<noteq> CHR 0x0A) (buf is);
                rest = dropWhile (\<lambda>c. c \<noteq> CHR 0x0A) (buf is)
            in if rest = []
               then (line, is\<lparr>buf := [], eofbit := True, failbit := (buf is = [])\<rparr>)
               else (line, is\<lparr>buf := tl rest\<rparr>)))"

section \<open>Extraction never lengthens the stream\<close>

lemma sentry_length:
  "sentry is = (b, is') \<Longrightarrow> length (buf is') \<le> length (buf is)"
  by (auto simp: sentry_def set_fail_def Let_def length_dropWhile_le split: if_splits)

lemma get_char_length:
  "get_char is = (Some c, is') \<Longrightarrow> length (buf is') < length (buf is)"
  by (auto simp: get_char_def split: prod.splits bool.splits list.splits dest!: sentry_length)

lemma get_char_length_le: "length (buf (snd (get_char is))) \<le> length (buf is)"
  by (auto simp: get_char_def split: prod.splits bool.splits list.splits dest!: sentry_length)

lemma scan_sign_length: "length (snd (scan_sign s)) \<le> length s"
  by (auto simp: scan_sign_def split: list.splits)

lemma get_number_length: "length (buf (snd (get_number conv is))) \<le> length (buf is)"
proof -
  have "length (snd (snd (scan_int s))) \<le> length s" for s
    using scan_sign_length[of s] length_dropWhile_le[of is_digit "snd (scan_sign s)"]
    by (cases "scan_sign s") (simp add: scan_int_def)
  then have scan: "scan_int s = (n, ds, r) \<Longrightarrow> length r \<le> length s" for s n ds r
    by (metis snd_conv)
  show ?thesis
  proof (cases "sentry is")
    case (Pair b is')
    show ?thesis
    proof (cases b)
      case True
      obtain n ds r where sc: "scan_int (buf is') = (n, ds, r)" by (cases "scan_int (buf is')")
      show ?thesis using sentry_length[OF Pair] scan[OF sc] Pair True sc
        by (auto simp: get_number_def set_fail_def Let_def)
    next
      case False
      then show ?thesis using sentry_length[OF Pair] Pair by (simp add: get_number_def)
    qed
  qed
qed

lemma getline_length: "length (buf (snd (getline is))) \<le> length (buf is)"
  using length_dropWhile_le[of "\<lambda>c. c \<noteq> CHR 0x0A" "buf is"]
  by (auto simp: getline_def set_fail_def Let_def)

lemma get_int_length: "length (buf (snd (get_int is))) \<le> length (buf is)"
  by (simp add: get_int_def get_number_length)

lemma get_unsigned_length: "length (buf (snd (get_unsigned is))) \<le> length (buf is)"
  by (simp add: get_unsigned_def get_number_length)

lemmas extract_length =
  get_char_length_le get_int_length get_unsigned_length getline_length

section \<open>Extraction from a stream in its initial format\<close>

text \<open>
  \<open>ready s\<close> is the stream state between two values of a packed text: whitespace is
  skipped and no state bit is set.
\<close>

definition ready :: "string \<Rightarrow> istream" where
  "ready s = \<lparr>buf = s, skipws = True, failbit = False, eofbit = False\<rparr>"

definition ended :: "string \<Rightarrow> bool \<Rightarrow> istream" where
  "ended s e = \<lparr>buf = s, skipws = True, failbit = False, eofbit = e\<rparr>"

lemma istream_of_ready: "istream_of s = ready s"
  by (simp add: istream_of_def ready_def)

lemma get_char_ready [stream_simps]:
  "\<not> isspace c \<Longrightarrow> get_char (ready (c # cs)) = (Some c, ready cs)"
  by (simp add: get_char_def sentry_def good_def ready_def)

lemma digit_not_space: "is_digit c \<Longrightarrow> \<not> isspace c"
  by (auto simp: is_digit_def isspace_def)

lemma digit_not_sign: "is_digit c \<Longrightarrow> c \<noteq> CHR ''-'' \<and> c \<noteq> CHR ''+''"
  by (auto simp: is_digit_def byte_def)

lemma takeWhile_digits:
  "list_all is_digit ds \<Longrightarrow> (rest \<noteq> [] \<longrightarrow> \<not> is_digit (hd rest)) \<Longrightarrow>
     takeWhile is_digit (ds @ rest) = ds \<and> dropWhile is_digit (ds @ rest) = rest"
proof (induction ds)
  case Nil
  then show ?case by (cases rest) auto
qed simp

lemma scan_int_digits:
  assumes "list_all is_digit ds" "ds \<noteq> []" "rest \<noteq> [] \<longrightarrow> \<not> is_digit (hd rest)"
  shows "scan_int (ds @ rest) = (False, ds, rest)"
    and "scan_int (CHR ''-'' # ds @ rest) = (True, ds, rest)"
proof -
  obtain c cs where ds: "ds = c # cs" using assms(2) by (cases ds) auto
  have c: "c \<noteq> CHR ''-''" "c \<noteq> CHR ''+''" using assms(1) digit_not_sign ds by simp_all
  note tw = takeWhile_digits[OF assms(1,3)]
  have "scan_sign (ds @ rest) = (False, ds @ rest)" using c by (simp add: ds scan_sign_def)
  then show "scan_int (ds @ rest) = (False, ds, rest)" using tw by (simp only: scan_int_def) simp
  show "scan_int (CHR ''-'' # ds @ rest) = (True, ds, rest)"
    using tw by (simp add: scan_int_def scan_sign_def)
qed

lemma get_number_digits:
  assumes "list_all is_digit ds" "ds \<noteq> []" "rest \<noteq> [] \<longrightarrow> \<not> is_digit (hd rest)"
    and "conv False (read_nat ds) = Some v"
  shows "get_number conv (ready (ds @ rest)) = (Some v, ended rest (rest = []))"
proof -
  obtain c cs where ds: "ds = c # cs" using assms(2) by (cases ds) auto
  then have "\<not> isspace c" using assms(1) digit_not_space by simp
  then have "sentry (ready (ds @ rest)) = (True, ready (ds @ rest))"
    by (simp add: sentry_def good_def ready_def ds)
  then show ?thesis
    using assms scan_int_digits(1)[OF assms(1-3)]
    by (simp add: get_number_def ready_def ended_def)
qed

lemma get_number_minus_digits:
  assumes "list_all is_digit ds" "ds \<noteq> []" "rest \<noteq> [] \<longrightarrow> \<not> is_digit (hd rest)"
    and "conv True (read_nat ds) = Some v"
  shows "get_number conv (ready (CHR ''-'' # ds @ rest)) = (Some v, ended rest (rest = []))"
proof -
  have "\<not> isspace (CHR ''-'')" by (simp add: isspace_def byte_def)
  then have "sentry (ready (CHR ''-'' # ds @ rest)) = (True, ready (CHR ''-'' # ds @ rest))"
    by (simp add: sentry_def good_def ready_def)
  then show ?thesis
    using assms scan_int_digits(2)[OF assms(1-3)]
    by (simp add: get_number_def ready_def ended_def)
qed

lemma ended_False [simp]: "ended rest False = ready rest"
  by (simp add: ended_def ready_def)

lemma get_unsigned_show:
  assumes "n < 2 ^ 32" "rest \<noteq> []" "\<not> is_digit (hd rest)"
  shows "get_unsigned (ready (show_nat n @ rest)) = (Some (int n), ready rest)"
  using get_number_digits[OF show_nat_digits, of n rest unsigned_conv "int n"] assms
  by (simp add: get_unsigned_def unsigned_conv_def)

lemma get_int_show:
  assumes "- (2 ^ 31) \<le> i" "i < 2 ^ 31" "rest \<noteq> [] \<longrightarrow> \<not> is_digit (hd rest)"
  shows "get_int (ready (show_int i @ rest)) = (Some i, ended rest (rest = []))"
proof (cases "i < 0")
  case True
  then show ?thesis
    using get_number_minus_digits[OF show_nat_digits, of "nat (- i)" rest int_conv i] assms
    by (simp add: get_int_def int_conv_def show_int_def)
next
  case False
  then show ?thesis
    using get_number_digits[OF show_nat_digits, of "nat i" rest int_conv i] assms
    by (simp add: get_int_def int_conv_def show_int_def)
qed

end
