(* ===== verification/Doubles.thy ===== *)
theory Doubles
  imports Streams
begin

text \<open>
  The C++ type \<^verbatim>\<open>double\<close> as IEEE 754 binary64, the representation of every
  platform the server is built for: finite values with sign, significand and exponent,
  infinities and a NaN, arithmetic rounded to nearest with ties to even, and the
  \<^verbatim>\<open>%g\<close>-style text of \<^verbatim>\<open>operator<<\<close> with its default
  precision of six digits. \<open>DFin s m e\<close> is \<open>(-1)^s * m * 2^e\<close>; every operation
  yields the canonical form, with \<open>2^52 \<le> m < 2^53\<close> unless \<open>e = -1074\<close>.
\<close>

datatype dbl = DNaN | DInf bool | DFin bool nat int

fun nbits :: "nat \<Rightarrow> nat" where
  "nbits n = (if n = 0 then 0 else Suc (nbits (n div 2)))"

declare nbits.simps [simp del]

definition dzero :: "bool \<Rightarrow> dbl" where
  "dzero s = DFin s 0 (-1074)"

text \<open>The representable value nearest to \<open>n / d\<close> (\<open>d > 0\<close>).\<close>

definition round_to :: "nat \<Rightarrow> nat \<Rightarrow> int \<Rightarrow> nat" where
  "round_to n d e =
     (let n' = (if 0 \<le> e then n else n * 2 ^ nat (- e));
          d' = (if 0 \<le> e then d * 2 ^ nat e else d);
          q = n' div d'; r = n' mod d'
      in if d' < 2 * r \<or> d' = 2 * r \<and> odd q then q + 1 else q)"

definition floor_to :: "nat \<Rightarrow> nat \<Rightarrow> int \<Rightarrow> nat" where
  "floor_to n d e =
     (if 0 \<le> e then n div (d * 2 ^ nat e) else (n * 2 ^ nat (- e)) div d)"

definition dround :: "bool \<Rightarrow> nat \<Rightarrow> nat \<Rightarrow> dbl" where
  "dround s n d =
     (if n = 0 then dzero s
      else
        (let e0 = max (-1074) (int (nbits n) - int (nbits d) - 53);
             e1 = (if floor_to n d e0 < 2 ^ 53 then e0 else e0 + 1);
             m = round_to n d e1;
             (m', e') = (if m = 2 ^ 53 then (2 ^ 52, e1 + 1) else (m, e1))
         in if 971 < e' then DInf s else DFin s m' e'))"

definition dround_int :: "bool \<Rightarrow> nat \<Rightarrow> int \<Rightarrow> dbl" where
  "dround_int s m e =
     (if 0 \<le> e then dround s (m * 2 ^ nat e) 1 else dround s m (2 ^ nat (- e)))"

definition d_of_int :: "int \<Rightarrow> dbl" where
  "d_of_int i = dround (i < 0) (nat \<bar>i\<bar>) 1"

fun d_neg :: "dbl \<Rightarrow> dbl" where
  "d_neg DNaN = DNaN"
| "d_neg (DInf s) = DInf (\<not> s)"
| "d_neg (DFin s m e) = DFin (\<not> s) m e"

fun d_abs :: "dbl \<Rightarrow> dbl" where
  "d_abs DNaN = DNaN"
| "d_abs (DInf s) = DInf False"
| "d_abs (DFin s m e) = DFin False m e"

text \<open>The signed significand of a finite value at the exponent \<open>e0\<close>, at most its own.\<close>

definition signif :: "bool \<Rightarrow> nat \<Rightarrow> int \<Rightarrow> int \<Rightarrow> int" where
  "signif s m e e0 = (if s then -1 else 1) * int (m * 2 ^ nat (e - e0))"

fun d_add :: "dbl \<Rightarrow> dbl \<Rightarrow> dbl" where
  "d_add (DFin s m e) (DFin t n f) =
     (let e0 = min e f; v = signif s m e e0 + signif t n f e0
      in if v = 0 then dzero (s \<and> t) else dround_int (v < 0) (nat \<bar>v\<bar>) e0)"
| "d_add DNaN y = DNaN"
| "d_add x DNaN = DNaN"
| "d_add (DInf s) (DInf t) = (if s = t then DInf s else DNaN)"
| "d_add (DInf s) y = DInf s"
| "d_add x (DInf t) = DInf t"

definition d_sub :: "dbl \<Rightarrow> dbl \<Rightarrow> dbl" where
  "d_sub x y = d_add x (d_neg y)"

fun d_mul :: "dbl \<Rightarrow> dbl \<Rightarrow> dbl" where
  "d_mul (DFin s m e) (DFin t n f) = dround_int (s \<noteq> t) (m * n) (e + f)"
| "d_mul DNaN y = DNaN"
| "d_mul x DNaN = DNaN"
| "d_mul (DInf s) (DInf t) = DInf (s \<noteq> t)"
| "d_mul (DInf s) (DFin t n f) = (if n = 0 then DNaN else DInf (s \<noteq> t))"
| "d_mul (DFin s m e) (DInf t) = (if m = 0 then DNaN else DInf (s \<noteq> t))"

fun d_div :: "dbl \<Rightarrow> dbl \<Rightarrow> dbl" where
  "d_div (DFin s m e) (DFin t n f) =
     (if n = 0 then (if m = 0 then DNaN else DInf (s \<noteq> t))
      else if f \<le> e then dround (s \<noteq> t) (m * 2 ^ nat (e - f)) n
      else dround (s \<noteq> t) m (n * 2 ^ nat (f - e)))"
| "d_div DNaN y = DNaN"
| "d_div x DNaN = DNaN"
| "d_div (DInf s) (DInf t) = DNaN"
| "d_div (DInf s) (DFin t n f) = DInf (s \<noteq> t)"
| "d_div (DFin s m e) (DInf t) = dzero (s \<noteq> t)"

fun d_eq :: "dbl \<Rightarrow> dbl \<Rightarrow> bool" where
  "d_eq (DFin s m e) (DFin t n f) =
     (let e0 = min e f in signif s m e e0 = signif t n f e0)"
| "d_eq (DInf s) (DInf t) = (s = t)"
| "d_eq x y = False"

fun d_lt :: "dbl \<Rightarrow> dbl \<Rightarrow> bool" where
  "d_lt (DFin s m e) (DFin t n f) =
     (let e0 = min e f in signif s m e e0 < signif t n f e0)"
| "d_lt (DInf s) (DInf t) = (s \<and> \<not> t)"
| "d_lt (DInf s) (DFin t n f) = s"
| "d_lt (DFin s m e) (DInf t) = (\<not> t)"
| "d_lt x y = False"

definition d_is_zero :: "dbl \<Rightarrow> bool" where
  "d_is_zero x = d_eq x (dzero False)"

text \<open>
  \<^verbatim>\<open>static_cast<int>\<close>: truncation, undefined outside the range of \<^verbatim>\<open>int\<close>.
\<close>

fun d_trunc :: "dbl \<Rightarrow> int option" where
  "d_trunc (DFin s m e) =
     (let a = (if 0 \<le> e then m * 2 ^ nat e else m div 2 ^ nat (- e))
      in Some (if s then - int a else int a))"
| "d_trunc x = None"

definition d_to_int :: "dbl \<Rightarrow> int option" where
  "d_to_int x =
     (case d_trunc x of
        None \<Rightarrow> None
      | Some i \<Rightarrow> if - (2 ^ 31) \<le> i \<and> i < 2 ^ 31 then Some i else None)"

section \<open>Text\<close>

definition dec_exponent :: "nat \<Rightarrow> nat \<Rightarrow> int" where
  "dec_exponent n d =
     (let k = int (length (show_nat n)) - int (length (show_nat d));
          le = (if 0 \<le> k then d * 10 ^ nat k \<le> n else d \<le> n * 10 ^ nat (- k))
      in if le then k else k - 1)"

definition round_dec :: "nat \<Rightarrow> nat \<Rightarrow> int \<Rightarrow> nat" where
  "round_dec n d x =
     (let n' = (if 0 \<le> x then n * 10 ^ nat x else n);
          d' = (if 0 \<le> x then d else d * 10 ^ nat (- x));
          q = n' div d'; r = n' mod d'
      in if d' < 2 * r \<or> d' = 2 * r \<and> odd q then q + 1 else q)"

definition strip_zeros :: "string \<Rightarrow> string" where
  "strip_zeros ds = rev (dropWhile (\<lambda>c. c = CHR ''0'') (rev ds))"

definition with_point :: "string \<Rightarrow> string \<Rightarrow> string" where
  "with_point ip fp = (let f = strip_zeros fp in if f = [] then ip else ip @ ''.'' @ f)"

definition show_exp :: "int \<Rightarrow> string" where
  "show_exp x =
     (let ds = show_nat (nat \<bar>x\<bar>)
      in (if x < 0 then ''e-'' else ''e+'') @ (if length ds < 2 then ''0'' else []) @ ds)"

definition show_pos :: "nat \<Rightarrow> nat \<Rightarrow> string" where
  "show_pos n d =
     (let x0 = dec_exponent n d;
          m0 = round_dec n d (5 - x0);
          (m, x) = (if m0 = 10 ^ 6 then (10 ^ 5, x0 + 1) else (m0, x0));
          ds = show_nat m
      in if - 4 \<le> x \<and> x < 6
         then (if 0 \<le> x then with_point (take (nat x + 1) ds) (drop (nat x + 1) ds)
               else with_point ''0'' (replicate (nat (- x) - 1) (CHR ''0'') @ ds))
         else with_point (take 1 ds) (drop 1 ds) @ show_exp x)"

fun d_show :: "dbl \<Rightarrow> string" where
  "d_show DNaN = ''nan''"
| "d_show (DInf s) = (if s then ''-inf'' else ''inf'')"
| "d_show (DFin s m e) =
     (if s then ''-'' else []) @
     (if m = 0 then ''0''
      else if 0 \<le> e then show_pos (m * 2 ^ nat e) 1 else show_pos m (2 ^ nat (- e)))"

text \<open>
  \<^verbatim>\<open>is >> d\<close>: sign, digits with at most one point, and an exponent part; the
  extraction fails when there is no digit or the exponent has none, or on overflow.
\<close>

definition scan_frac :: "string \<Rightarrow> string \<times> string" where
  "scan_frac s =
     (case s of
        CHR ''.'' # t \<Rightarrow> (takeWhile is_digit t, dropWhile is_digit t)
      | _ \<Rightarrow> ([], s))"

definition scan_exp :: "string \<Rightarrow> int option \<times> string" where
  "scan_exp s =
     (case s of
        [] \<Rightarrow> (Some 0, s)
      | c # t \<Rightarrow>
          if c = CHR ''e'' \<or> c = CHR ''E''
          then (let (neg, ds, rest) = scan_int t
                in (if ds = [] then None
                    else Some (if neg then - int (read_nat ds) else int (read_nat ds)), rest))
          else (Some 0, s))"

definition dbl_of_dec :: "bool \<Rightarrow> nat \<Rightarrow> int \<Rightarrow> dbl" where
  "dbl_of_dec s m x =
     (if 0 \<le> x then dround s (m * 10 ^ nat x) 1 else dround s m (10 ^ nat (- x)))"

definition get_double :: "istream \<Rightarrow> dbl option \<times> istream" where
  "get_double is =
     (case sentry is of
        (False, is') \<Rightarrow> (None, is')
      | (True, is') \<Rightarrow>
          (let (neg, ip, r1) = scan_int (buf is');
               (fp, r2) = scan_frac r1;
               (x, r3) = (if ip @ fp = [] then (None, r2) else scan_exp r2);
               v = (case x of
                      None \<Rightarrow> None
                    | Some x' \<Rightarrow>
                        (case dbl_of_dec neg (read_nat (ip @ fp)) (x' - int (length fp)) of
                           DInf _ \<Rightarrow> None
                         | d \<Rightarrow> Some d));
               is'' = is'\<lparr>buf := r3, eofbit := (r3 = [])\<rparr>
           in (v, if v = None then set_fail is'' else is'')))"

section \<open>Order\<close>

lemma signif_shift:
  "e1 \<le> e0 \<Longrightarrow> e0 \<le> e \<Longrightarrow> signif s m e e1 = signif s m e e0 * 2 ^ nat (e0 - e1)"
proof -
  assume "e1 \<le> e0" "e0 \<le> e"
  then have "nat (e - e1) = nat (e - e0) + nat (e0 - e1)" by simp
  then show ?thesis by (simp add: signif_def power_add)
qed

text \<open>A common exponent below both decides the comparison.\<close>

lemma d_lt_common:
  assumes "c \<le> e" "c \<le> f"
  shows "d_lt (DFin s m e) (DFin t n f) \<longleftrightarrow> signif s m e c < signif t n f c"
  using assms signif_shift[of c "min e f" e s m] signif_shift[of c "min e f" f t n]
  by (simp add: Let_def)

lemma d_eq_common:
  assumes "c \<le> e" "c \<le> f"
  shows "d_eq (DFin s m e) (DFin t n f) \<longleftrightarrow> signif s m e c = signif t n f c"
  using assms signif_shift[of c "min e f" e s m] signif_shift[of c "min e f" f t n]
  by (simp add: Let_def)

declare d_lt.simps(1) [simp del] d_eq.simps(1) [simp del]

lemma d_lt_irrefl [simp]: "\<not> d_lt x x"
  by (cases x) (auto simp: d_lt.simps(1))

lemma d_lt_trans: "d_lt x y \<Longrightarrow> d_lt y z \<Longrightarrow> d_lt x z"
proof (cases x; cases y; cases z)
  fix s m e s1 m1 e1 s2 m2 e2
  assume *: "d_lt x y" "d_lt y z" "x = DFin s m e" "y = DFin s1 m1 e1" "z = DFin s2 m2 e2"
  define c where "c = min e (min e1 e2)"
  have "c \<le> e" "c \<le> e1" "c \<le> e2" by (simp_all add: c_def)
  note common = d_lt_common[OF this(1,2)] d_lt_common[OF this(2,3)] d_lt_common[OF this(1,3)]
    d_eq_common[OF this(1,2)] d_eq_common[OF this(2,3)] d_eq_common[OF this(1,3)]
  from * show ?thesis by (simp add: common)
qed auto

lemma d_lt_total: "x \<noteq> DNaN \<Longrightarrow> y \<noteq> DNaN \<Longrightarrow> d_lt x y \<or> d_eq x y \<or> d_lt y x"
proof (cases x; cases y)
  fix s m e s1 m1 e1
  assume "x = DFin s m e" "y = DFin s1 m1 e1"
  then show ?thesis
    using d_lt_common[of "min e e1"] d_eq_common[of "min e e1"] by auto
qed auto

lemma d_eq_sym: "d_eq x y = d_eq y x"
  by (cases x; cases y) (auto simp: d_eq.simps(1) min.commute Let_def)

lemma d_eq_refl: "d_eq x x \<longleftrightarrow> x \<noteq> DNaN"
  by (cases x) (auto simp: d_eq.simps(1))

lemma d_eq_not_lt: "d_eq x y \<Longrightarrow> \<not> d_lt x y"
  by (cases x; cases y) (auto simp: d_eq.simps(1) d_lt.simps(1) Let_def)

lemma d_eq_lt_trans: "d_eq x y \<Longrightarrow> d_lt y z \<Longrightarrow> d_lt x z"
proof (cases x; cases y; cases z)
  fix s m e s1 m1 e1 s2 m2 e2
  assume *: "d_eq x y" "d_lt y z" "x = DFin s m e" "y = DFin s1 m1 e1" "z = DFin s2 m2 e2"
  define c where "c = min e (min e1 e2)"
  have "c \<le> e" "c \<le> e1" "c \<le> e2" by (simp_all add: c_def)
  note common = d_lt_common[OF this(1,2)] d_lt_common[OF this(2,3)] d_lt_common[OF this(1,3)]
    d_eq_common[OF this(1,2)] d_eq_common[OF this(2,3)] d_eq_common[OF this(1,3)]
  from * show ?thesis by (simp add: common)
qed auto

lemma d_lt_eq_trans: "d_lt x y \<Longrightarrow> d_eq y z \<Longrightarrow> d_lt x z"
proof (cases x; cases y; cases z)
  fix s m e s1 m1 e1 s2 m2 e2
  assume *: "d_lt x y" "d_eq y z" "x = DFin s m e" "y = DFin s1 m1 e1" "z = DFin s2 m2 e2"
  define c where "c = min e (min e1 e2)"
  have "c \<le> e" "c \<le> e1" "c \<le> e2" by (simp_all add: c_def)
  note common = d_lt_common[OF this(1,2)] d_lt_common[OF this(2,3)] d_lt_common[OF this(1,3)]
    d_eq_common[OF this(1,2)] d_eq_common[OF this(2,3)] d_eq_common[OF this(1,3)]
  from * show ?thesis by (simp add: common)
qed auto

lemma d_eq_trans: "d_eq x y \<Longrightarrow> d_eq y z \<Longrightarrow> d_eq x z"
proof (cases x; cases y; cases z)
  fix s m e s1 m1 e1 s2 m2 e2
  assume *: "d_eq x y" "d_eq y z" "x = DFin s m e" "y = DFin s1 m1 e1" "z = DFin s2 m2 e2"
  define c where "c = min e (min e1 e2)"
  have "c \<le> e" "c \<le> e1" "c \<le> e2" by (simp_all add: c_def)
  note common = d_lt_common[OF this(1,2)] d_lt_common[OF this(2,3)] d_lt_common[OF this(1,3)]
    d_eq_common[OF this(1,2)] d_eq_common[OF this(2,3)] d_eq_common[OF this(1,3)]
  from * show ?thesis by (simp add: common)
qed auto

lemma dround_not_NaN: "dround s n d \<noteq> DNaN"
  unfolding dround_def dzero_def Let_def case_prod_unfold by (simp only: dbl.distinct if_False split: if_split) simp

lemma d_of_int_not_NaN [simp]: "d_of_int i \<noteq> DNaN"
  unfolding d_of_int_def by (rule dround_not_NaN)

section \<open>Integers are represented exactly\<close>

lemma nbits_simps [simp]: "nbits 0 = 0" "nbits (Suc 0) = 1"
  by (simp_all add: nbits.simps[of 0] nbits.simps[of "Suc 0"])

lemma nbits_bounds: "n < 2 ^ nbits n \<and> (0 < n \<longrightarrow> 2 ^ (nbits n - 1) \<le> n)"
proof (induction n rule: nbits.induct)
  case (1 n)
  show ?case
  proof (cases "n = 0")
    case True
    then show ?thesis by simp
  next
    case False
    have eq: "nbits n = Suc (nbits (n div 2))" using False by (subst nbits.simps) simp
    from 1 False have IH: "n div 2 < 2 ^ nbits (n div 2)"
      "0 < n div 2 \<longrightarrow> 2 ^ (nbits (n div 2) - 1) \<le> n div 2" by auto
    show ?thesis
    proof (cases "n = 1")
      case True
      then show ?thesis by simp
    next
      case n1: False
      with False have pos: "0 < n div 2" by simp
      then have "nbits (n div 2) = Suc (nbits (n div 2) - 1)"
        by (subst nbits.simps, subst (2) nbits.simps) simp
      then have "2 ^ nbits (n div 2) = 2 * (2::nat) ^ (nbits (n div 2) - 1)"
        by (metis power_Suc)
      then show ?thesis using IH pos eq by (simp add: less_eq_div_iff_mult_less_eq, linarith)
    qed
  qed
qed

lemma nbits_le: "n < 2 ^ k \<Longrightarrow> nbits n \<le> k"
proof (cases "n = 0")
  case True
  then show ?thesis by (simp add: nbits.simps[of 0])
next
  case False
  assume "n < 2 ^ k"
  with False nbits_bounds[of n] have "(2::nat) ^ (nbits n - 1) < 2 ^ k" by (meson le_less_trans neq0_conv)
  then have "nbits n - 1 < k" by (rule power_less_imp_less_exp[rotated]) simp
  then show ?thesis by simp
qed

lemma nbits_pos: "0 < n \<Longrightarrow> 0 < nbits n"
  by (subst nbits.simps) simp

lemma dround_exact:
  assumes "0 < n" "n < 2 ^ 53"
  shows "dround s n 1 = DFin s (n * 2 ^ (53 - nbits n)) (int (nbits n) - 53)"
proof -
  define k where "k = nbits n"
  have k: "0 < k" "k \<le> 53" using assms nbits_pos nbits_le by (auto simp: k_def)
  have lo: "2 ^ (k - 1) \<le> n" and hi: "n < 2 ^ k"
    using assms nbits_bounds by (auto simp: k_def)
  have n1: "nbits 1 = 1" by simp
  have "(2::nat) ^ 53 = 2 ^ (k - 1) * 2 ^ (54 - k)" using k by (simp flip: power_add)
  also have "\<dots> \<le> n * 2 ^ (54 - k)" using lo by simp
  finally have big: "2 ^ 53 \<le> n * 2 ^ (54 - k)" .
  have "n * 2 ^ (53 - k) < 2 ^ k * 2 ^ (53 - k)" using hi by simp
  also have "\<dots> = (2::nat) ^ 53" using k by (simp flip: power_add)
  finally have small: "n * 2 ^ (53 - k) < 2 ^ 53" .
  define e0 where "e0 = max (- 1074) (int (nbits n) - int (nbits 1) - 53)"
  have e0: "e0 = int k - 54" using k n1 by (simp add: k_def e0_def)
  have fl: "floor_to n 1 e0 = n * 2 ^ (54 - k)"
    using k by (simp add: floor_to_def e0 nat_diff_distrib)
  have rd: "round_to n 1 (e0 + 1) = n * 2 ^ (53 - k)"
    using k by (auto simp: round_to_def e0 nat_diff_distrib Let_def)
  have step: "(if floor_to n 1 e0 < 2 ^ 53 then e0 else e0 + 1) = e0 + 1"
    using big fl by simp
  have "dround s n 1 =
     (let m = n * 2 ^ (53 - k); (m', e') = (if m = 2 ^ 53 then (2 ^ 52, e0 + 2) else (m, e0 + 1))
      in if 971 < e' then DInf s else DFin s m' e')"
    using assms(1) unfolding dround_def e0_def[symmetric] step Let_def rd by (simp add: add.commute)
  then show ?thesis using small k by (simp add: e0 k_def Let_def)
qed

lemma d_of_int_exact:
  assumes "\<bar>i\<bar> < 2 ^ 53"
  obtains s m e where "d_of_int i = DFin s m e" "-1074 \<le> e" "e \<le> 0"
    "\<And>c. c \<le> e \<Longrightarrow> signif s m e c = i * 2 ^ nat (- c)"
proof (cases "i = 0")
  case True
  then show ?thesis
    using that[of False 0 "-1074"] by (simp add: d_of_int_def dround_def dzero_def signif_def)
next
  case False
  define n k where "n = nat \<bar>i\<bar>" and "k = nbits n"
  have n: "0 < n" "n < 2 ^ 53" using False assms by (auto simp: n_def nat_less_iff)
  have k: "0 < k" "k \<le> 53" using n nbits_pos nbits_le by (auto simp: k_def)
  have i: "(if i < 0 then - 1 else 1) * int n = i" by (simp add: n_def)
  show ?thesis
  proof (rule that)
    show "d_of_int i = DFin (i < 0) (n * 2 ^ (53 - k)) (int k - 53)"
      using dround_exact[OF n] by (simp add: d_of_int_def n_def k_def)
    show "- 1074 \<le> int k - 53" "int k - 53 \<le> 0" using k by auto
    fix c :: int assume c: "c \<le> int k - 53"
    have "53 - k + nat (int k - 53 - c) = nat (- c)" using c k by linarith
    then have "n * 2 ^ (53 - k) * 2 ^ nat (int k - 53 - c) = n * 2 ^ nat (- c)"
      by (metis mult.assoc power_add)
    then show "signif (i < 0) (n * 2 ^ (53 - k)) (int k - 53) c = i * 2 ^ nat (- c)"
      unfolding signif_def using i by (metis (no_types, lifting) mult.assoc of_nat_mult of_nat_numeral of_nat_power)
  qed
qed

lemma d_lt_of_int:
  assumes "\<bar>i\<bar> < 2 ^ 53" "\<bar>j\<bar> < 2 ^ 53"
  shows "d_lt (d_of_int i) (d_of_int j) \<longleftrightarrow> i < j"
proof -
  obtain s m e where x: "d_of_int i = DFin s m e" "\<And>c. c \<le> e \<Longrightarrow> signif s m e c = i * 2 ^ nat (- c)"
    using d_of_int_exact[OF assms(1)] by metis
  obtain t n f where y: "d_of_int j = DFin t n f" "\<And>c. c \<le> f \<Longrightarrow> signif t n f c = j * 2 ^ nat (- c)"
    using d_of_int_exact[OF assms(2)] by metis
  show ?thesis using d_lt_common[of "min e f" e f s m t n] x(2)[of "min e f"] y(2)[of "min e f"]
    by (simp add: x(1) y(1))
qed

lemma d_eq_of_int:
  assumes "\<bar>i\<bar> < 2 ^ 53" "\<bar>j\<bar> < 2 ^ 53"
  shows "d_eq (d_of_int i) (d_of_int j) \<longleftrightarrow> i = j"
proof -
  obtain s m e where x: "d_of_int i = DFin s m e" "\<And>c. c \<le> e \<Longrightarrow> signif s m e c = i * 2 ^ nat (- c)"
    using d_of_int_exact[OF assms(1)] by metis
  obtain t n f where y: "d_of_int j = DFin t n f" "\<And>c. c \<le> f \<Longrightarrow> signif t n f c = j * 2 ^ nat (- c)"
    using d_of_int_exact[OF assms(2)] by metis
  show ?thesis using d_eq_common[of "min e f" e f s m t n] x(2)[of "min e f"] y(2)[of "min e f"]
    by (simp add: x(1) y(1))
qed

end
