(* ===== verification/OrdMaps.thy ===== *)
theory OrdMaps
  imports Prelude
begin

text \<open>
  \<^verbatim>\<open>std::map\<close> with a comparison predicate, as the association list of its
  entries in iteration order. \<open>omap_set\<close> is \<^verbatim>\<open>m[k] = v\<close>, which keeps the key
  object already present. The locale states what the sources rely on when they hand a
  comparison to the container: on the keys in use it is a strict weak ordering.
\<close>

fun omap_find :: "('k \<Rightarrow> 'k \<Rightarrow> bool) \<Rightarrow> 'k \<Rightarrow> ('k \<times> 'v) list \<Rightarrow> 'v option" where
  "omap_find lt k [] = None"
| "omap_find lt k ((k', v) # m) =
     (if lt k' k then omap_find lt k m else if lt k k' then None else Some v)"

fun omap_set :: "('k \<Rightarrow> 'k \<Rightarrow> bool) \<Rightarrow> 'k \<Rightarrow> 'v \<Rightarrow> ('k \<times> 'v) list \<Rightarrow> ('k \<times> 'v) list" where
  "omap_set lt k v [] = [(k, v)]"
| "omap_set lt k v ((k', v') # m) =
     (if lt k' k then (k', v') # omap_set lt k v m
      else if lt k k' then (k, v) # (k', v') # m else (k', v) # m)"

fun omap_erase :: "('k \<Rightarrow> 'k \<Rightarrow> bool) \<Rightarrow> 'k \<Rightarrow> ('k \<times> 'v) list \<Rightarrow> ('k \<times> 'v) list" where
  "omap_erase lt k [] = []"
| "omap_erase lt k ((k', v') # m) =
     (if lt k' k then (k', v') # omap_erase lt k m else if lt k k' then (k', v') # m else m)"

definition omap_count :: "('k \<Rightarrow> 'k \<Rightarrow> bool) \<Rightarrow> 'k \<Rightarrow> ('k \<times> 'v) list \<Rightarrow> nat" where
  "omap_count lt k m = (if omap_find lt k m = None then 0 else 1)"

text \<open>The map after \<^verbatim>\<open>m[k] = v\<close> for each entry of a list, in order.\<close>

definition omap_sets ::
  "('k \<Rightarrow> 'k \<Rightarrow> bool) \<Rightarrow> ('k \<times> 'v) list \<Rightarrow> ('k \<times> 'v) list \<Rightarrow> ('k \<times> 'v) list" where
  "omap_sets lt kvs m = foldl (\<lambda>m (k, v). omap_set lt k v m) m kvs"

text \<open>
  What an iterator finds that looks its last key up and steps on: the entry after it, or
  nothing when the key is gone or was the last.
\<close>

fun omap_next :: "('k \<Rightarrow> 'k \<Rightarrow> bool) \<Rightarrow> 'k \<Rightarrow> ('k \<times> 'v) list \<Rightarrow> ('k \<times> 'v) option" where
  "omap_next lt k [] = None"
| "omap_next lt k ((k', v) # m) =
     (if lt k' k then omap_next lt k m else if lt k k' then None
      else (case m of [] \<Rightarrow> None | kv # _ \<Rightarrow> Some kv))"

section \<open>The interface\<close>

text \<open>A store of values under keys, some of which the store does not distinguish.\<close>

locale keyed_store =
  fixes lookup :: "'k \<Rightarrow> 's \<Rightarrow> 'v option"
    and update :: "'k \<Rightarrow> 'v \<Rightarrow> 's \<Rightarrow> 's"
    and delete :: "'k \<Rightarrow> 's \<Rightarrow> 's"
    and valid :: "'s \<Rightarrow> bool" and key :: "'k \<Rightarrow> bool" and same :: "'k \<Rightarrow> 'k \<Rightarrow> bool"
  assumes valid_update: "valid s \<Longrightarrow> key k \<Longrightarrow> valid (update k v s)"
    and valid_delete: "valid s \<Longrightarrow> valid (delete k s)"
    and lookup_update: "valid s \<Longrightarrow> key k \<Longrightarrow> key x \<Longrightarrow>
      lookup x (update k v s) = (if same k x then Some v else lookup x s)"
    and lookup_delete: "valid s \<Longrightarrow> key k \<Longrightarrow> key x \<Longrightarrow>
      lookup x (delete k s) = (if same k x then None else lookup x s)"
    and same_refl: "key k \<Longrightarrow> same k k"
begin

text \<open>Updates in a row: the last one of a key counts.\<close>

definition updates :: "('k \<times> 'v) list \<Rightarrow> 's \<Rightarrow> 's" where
  "updates kvs s = foldl (\<lambda>s (k, v). update k v s) s kvs"

lemma updates_snoc: "updates (kvs @ [(k, v)]) s = update k v (updates kvs s)"
  by (simp add: updates_def)

lemma valid_updates: "valid s \<Longrightarrow> \<forall>(k, v) \<in> set kvs. key k \<Longrightarrow> valid (updates kvs s)"
  by (induction kvs rule: rev_induct) (auto simp: updates_def valid_update)

lemma lookup_updates:
  "valid s \<Longrightarrow> \<forall>(k, v) \<in> set kvs. key k \<Longrightarrow> key x \<Longrightarrow>
     lookup x (updates kvs s) =
       (case List.find (\<lambda>(k, v). same k x) (rev kvs) of
          Some (k, v) \<Rightarrow> Some v | None \<Rightarrow> lookup x s)"
proof (induction kvs rule: rev_induct)
  case Nil
  then show ?case by (simp add: updates_def)
next
  case (snoc kv kvs)
  obtain k v where kv: "kv = (k, v)" by (cases kv)
  have "valid (updates kvs s)" "key k" using snoc.prems valid_updates[of s kvs] kv by auto
  then show ?case using snoc kv by (simp add: updates_snoc lookup_update)
qed

lemma update_delete: "valid s \<Longrightarrow> key k \<Longrightarrow> lookup k (delete k (update k v s)) = None"
  by (simp add: lookup_delete valid_update same_refl)

end

locale weak_order =
  fixes lt :: "'k \<Rightarrow> 'k \<Rightarrow> bool" and key :: "'k \<Rightarrow> bool"
  assumes irrefl: "key a \<Longrightarrow> \<not> lt a a"
    and trans: "key a \<Longrightarrow> key b \<Longrightarrow> key c \<Longrightarrow> lt a b \<Longrightarrow> lt b c \<Longrightarrow> lt a c"
    and neg_trans: "key a \<Longrightarrow> key b \<Longrightarrow> key c \<Longrightarrow> \<not> lt a b \<Longrightarrow> \<not> lt b c \<Longrightarrow> \<not> lt a c"
begin

definition equiv :: "'k \<Rightarrow> 'k \<Rightarrow> bool" where
  "equiv a b \<longleftrightarrow> \<not> lt a b \<and> \<not> lt b a"

definition wf :: "('k \<times> 'v) list \<Rightarrow> bool" where
  "wf m \<longleftrightarrow> sorted_wrt (\<lambda>a b. lt (fst a) (fst b)) m \<and> (\<forall>(k, v) \<in> set m. key k)"

lemma asym: "key a \<Longrightarrow> key b \<Longrightarrow> lt a b \<Longrightarrow> \<not> lt b a"
  using irrefl trans by blast

lemma equiv_refl: "key a \<Longrightarrow> equiv a a"
  by (simp add: equiv_def irrefl)

lemma equiv_sym: "equiv a b \<Longrightarrow> equiv b a"
  by (simp add: equiv_def)

lemma equiv_trans: "key a \<Longrightarrow> key b \<Longrightarrow> key c \<Longrightarrow> equiv a b \<Longrightarrow> equiv b c \<Longrightarrow> equiv a c"
  unfolding equiv_def using neg_trans by blast

lemma equiv_lt: "key a \<Longrightarrow> key b \<Longrightarrow> key c \<Longrightarrow> equiv a b \<Longrightarrow> lt a c \<longleftrightarrow> lt b c"
  unfolding equiv_def using neg_trans by blast

lemma equiv_lt': "key a \<Longrightarrow> key b \<Longrightarrow> key c \<Longrightarrow> equiv a b \<Longrightarrow> lt c a \<longleftrightarrow> lt c b"
  unfolding equiv_def using neg_trans by blast

lemma wf_Nil [simp]: "wf []"
  by (simp add: wf_def)

lemma wf_Cons [simp]:
  "wf ((k, v) # m) \<longleftrightarrow> key k \<and> (\<forall>k' \<in> fst ` set m. lt k k') \<and> wf m"
  by (auto simp: wf_def)

lemma wf_key: "wf m \<Longrightarrow> (k, v) \<in> set m \<Longrightarrow> key k"
  by (auto simp: wf_def)

lemma keys_set: "x \<in> fst ` set (omap_set lt k v m) \<Longrightarrow> x = k \<or> x \<in> fst ` set m"
  by (induction lt k v m rule: omap_set.induct) (auto split: if_splits)

lemma wf_set: "wf m \<Longrightarrow> key k \<Longrightarrow> wf (omap_set lt k v m)"
proof (induction m)
  case Nil
  then show ?case by simp
next
  case (Cons kv m)
  obtain k' v' where kv: "kv = (k', v')" by (cases kv)
  have k': "key k'" "wf m" "\<forall>x \<in> fst ` set m. lt k' x" using Cons.prems kv by auto
  have keys: "key x" if "x \<in> fst ` set m" for x
    using k'(2) that by (auto dest: wf_key)
  consider "lt k' k" | "\<not> lt k' k" "lt k k'" | "\<not> lt k' k" "\<not> lt k k'" by blast
  then show ?case
  proof cases
    case 1
    then have "\<forall>x \<in> fst ` set (omap_set lt k v m). lt k' x"
      using k'(3) keys_set[of _ k v m] by blast
    with 1 show ?thesis using Cons k' kv by simp
  next
    case 2
    have "lt k x" if "x \<in> fst ` set m" for x
      using trans[OF Cons.prems(2) k'(1) keys[OF that] 2(2)] k'(3) that by blast
    then show ?thesis using Cons.prems 2 k' kv by auto
  next
    case 3
    then show ?thesis using Cons.prems k' kv by auto
  qed
qed

lemma keys_erase: "x \<in> fst ` set (omap_erase lt k m) \<Longrightarrow> x \<in> fst ` set m"
  by (induction lt k m rule: omap_erase.induct) (auto split: if_splits)

lemma wf_erase: "wf m \<Longrightarrow> wf (omap_erase lt k m)"
proof (induction m)
  case (Cons kv m)
  obtain k' v' where kv: "kv = (k', v')" by (cases kv)
  then have "\<forall>x \<in> fst ` set (omap_erase lt k m). lt k' x"
    using Cons.prems keys_erase[of _ k m] unfolding kv wf_Cons by blast
  with Cons kv show ?case by simp
qed simp

lemma find_below: "wf m \<Longrightarrow> key k \<Longrightarrow> (\<forall>x \<in> fst ` set m. lt k x) \<Longrightarrow> omap_find lt k m = None"
  by (cases m) (auto dest: asym)

lemma find_set:
  "wf m \<Longrightarrow> key k \<Longrightarrow> key x \<Longrightarrow>
     omap_find lt x (omap_set lt k v m) = (if equiv k x then Some v else omap_find lt x m)"
proof (induction m)
  case Nil
  then show ?case by (auto simp: equiv_def)
next
  case (Cons kv m)
  obtain k' v' where kv: "kv = (k', v')" by (cases kv)
  have k': "key k'" "wf m" using Cons.prems kv by auto
  have IH: "omap_find lt x (omap_set lt k v m) = (if equiv k x then Some v else omap_find lt x m)"
    using Cons k' by blast
  note ks = Cons.prems(2,3) k'(1)
  consider "lt k' k" | "\<not> lt k' k" "lt k k'" | "equiv k' k" by (auto simp: equiv_def)
  then show ?case
  proof cases
    case 1
    then have "equiv k x \<Longrightarrow> lt k' x" using equiv_lt'[OF ks(1,2,3)] by blast
    with 1 IH show ?thesis by (auto simp: kv)
  next
    case 2
    then have "equiv k x \<Longrightarrow> lt x k'" using equiv_lt[OF ks(1,2,3)] by blast
    moreover have "lt x k \<Longrightarrow> lt x k'" using trans[OF ks(2,1,3)] 2 by blast
    ultimately show ?thesis using 2 asym[OF ks(2,3)] by (auto simp: kv equiv_def)
  next
    case 3
    then have "lt k' x = lt k x" "lt x k' = lt x k"
      using equiv_lt[OF ks(3,1,2)] equiv_lt'[OF ks(3,1,2)] by auto
    with 3 show ?thesis by (auto simp: kv equiv_def)
  qed
qed

lemma find_erase:
  "wf m \<Longrightarrow> key k \<Longrightarrow> key x \<Longrightarrow>
     omap_find lt x (omap_erase lt k m) = (if equiv k x then None else omap_find lt x m)"
proof (induction m)
  case (Cons kv m)
  obtain k' v' where kv: "kv = (k', v')" by (cases kv)
  have k': "key k'" "wf m" "\<forall>y \<in> fst ` set m. lt k' y" using Cons.prems kv by auto
  have IH: "omap_find lt x (omap_erase lt k m) = (if equiv k x then None else omap_find lt x m)"
    using Cons k' by blast
  note ks = Cons.prems(2,3) k'(1)
  have above: "\<not> lt k' x \<Longrightarrow> omap_find lt x m = None"
  proof (rule find_below[OF k'(2) ks(2)])
    assume "\<not> lt k' x"
    then show "\<forall>y \<in> fst ` set m. lt x y"
      using k' neg_trans[OF ks(3,2)] wf_key by (metis (no_types, opaque_lifting) imageE prod.collapse)
  qed
  consider "lt k' k" | "\<not> lt k' k" "lt k k'" | "equiv k' k" by (auto simp: equiv_def)
  then show ?case
  proof cases
    case 1
    then have "equiv k x \<Longrightarrow> lt k' x" using equiv_lt'[OF ks(1,2,3)] by blast
    with 1 IH show ?thesis by (auto simp: kv)
  next
    case 2
    then have "equiv k x \<Longrightarrow> lt x k'" using equiv_lt[OF ks(1,2,3)] by blast
    then have "equiv k x \<Longrightarrow> omap_find lt x (kv # m) = None"
      using asym[OF ks(2,3)] by (simp add: kv)
    with 2 show ?thesis by (simp add: kv)
  next
    case 3
    then have eq: "lt k' x = lt k x" "lt x k' = lt x k"
      using equiv_lt[OF ks(3,1,2)] equiv_lt'[OF ks(3,1,2)] by auto
    with 3 above show ?thesis by (auto simp: kv equiv_def)
  qed
qed simp

lemma set_above: "(\<forall>x \<in> fst ` set m. lt x k) \<Longrightarrow> omap_set lt k v m = m @ [(k, v)]"
  by (induction m) auto

lemma wf_append:
  "wf (m @ m') \<longleftrightarrow> wf m \<and> wf m' \<and> (\<forall>x \<in> fst ` set m. \<forall>y \<in> fst ` set m'. lt x y)"
  by (auto simp: wf_def sorted_wrt_append)

lemma sets_wf: "wf (m @ kvs) \<Longrightarrow> omap_sets lt kvs m = m @ kvs"
proof (induction kvs arbitrary: m)
  case Nil
  then show ?case by (simp add: omap_sets_def)
next
  case (Cons kv kvs)
  obtain k v where kv: "kv = (k, v)" by (cases kv)
  have "omap_set lt k v m = m @ [(k, v)]"
    using Cons.prems by (intro set_above) (auto simp: kv wf_append)
  moreover have "omap_sets lt kvs (m @ [(k, v)]) = (m @ [(k, v)]) @ kvs"
    using Cons.prems by (intro Cons.IH) (simp add: kv)
  ultimately show ?case by (simp add: omap_sets_def kv)
qed

lemma wf_keys: "map fst m = map fst m' \<Longrightarrow> wf m \<longleftrightarrow> wf m'"
proof (induction m arbitrary: m')
  case (Cons kv m)
  then obtain v' n where "m' = (fst kv, v') # n" "map fst m = map fst n" by (cases m') auto
  moreover have "fst ` set m = fst ` set n" using calculation(2) by (metis list.set_map)
  ultimately show ?case using Cons.IH[of n] by (cases kv) simp
qed simp

lemma length_set:
  "length (omap_set lt k v m) = (if omap_find lt k m = None then Suc (length m) else length m)"
  by (induction lt k v m rule: omap_set.induct) auto

lemma length_erase: "length (omap_erase lt k m) = length m - omap_count lt k m"
proof (induction lt k m rule: omap_erase.induct)
  case (2 lt k k' v' m)
  then show ?case by (cases m) (auto simp: omap_count_def)
qed simp

end

text \<open>A map with a strict weak ordering is a keyed store, up to equivalence of keys.\<close>

sublocale weak_order \<subseteq> store: keyed_store "omap_find lt" "omap_set lt" "omap_erase lt" wf key equiv
  by unfold_locales (auto simp: wf_set wf_erase find_set find_erase equiv_refl)

text \<open>Stepping from key to key visits the entries in order.\<close>

context weak_order begin

lemma next_entry:
  "wf (m @ (k, v) # m') \<Longrightarrow> omap_next lt k (m @ (k, v) # m') = (case m' of [] \<Rightarrow> None | kv # _ \<Rightarrow> Some kv)"
proof (induction m)
  case Nil
  then show ?case by (simp add: irrefl)
next
  case (Cons kv m)
  then show ?case by (cases kv) auto
qed

lemma next_gone: "omap_find lt k m = None \<Longrightarrow> omap_next lt k m = None"
  by (induction lt k m rule: omap_find.induct) (auto split: if_splits)

end

section \<open>Case-insensitive names\<close>

definition tolower :: "char \<Rightarrow> char" where
  "tolower c = (if 65 \<le> byte c \<and> byte c \<le> 90 then char_of (byte c + 32) else c)"

definition ci_key :: "string \<Rightarrow> string" where
  "ci_key s = map tolower (c_str s)"

definition ci_less :: "string \<Rightarrow> string \<Rightarrow> bool" where
  "ci_less x1 x2 = str_lt (ci_key x1) (ci_key x2)"

interpretation ci: weak_order ci_less "\<lambda>_. True"
proof unfold_locales
  fix a b c :: string
  show "\<not> ci_less a a" by (simp add: ci_less_def)
  show "ci_less a b \<Longrightarrow> ci_less b c \<Longrightarrow> ci_less a c"
    unfolding ci_less_def by (rule str_lt_trans)
  show "\<not> ci_less a b \<Longrightarrow> \<not> ci_less b c \<Longrightarrow> \<not> ci_less a c"
    unfolding ci_less_def using str_lt_total str_lt_trans by metis
qed

lemma ci_equiv_iff: "ci.equiv a b \<longleftrightarrow> ci_key a = ci_key b"
  unfolding ci.equiv_def ci_less_def using str_lt_total by (metis str_lt_irrefl)

end
