(* ===== verification/Objects.thy ===== *)
theory Objects
  imports Doubles OrdMaps
begin

text \<open>
  The values of the eScript language (\<^verbatim>\<open>pol-core/bscript\<close>): the type codes of
  \<^verbatim>\<open>BObjectImp::BObjectType\<close>, the value classes as one datatype, their type
  names, truth values and text. A container holds the values its
  \<^verbatim>\<open>BObjectRef\<close> elements refer to; an array element is \<open>None\<close> when the
  reference is null. Application objects, whose classes live outside the language, are
  not among the values.
\<close>

section \<open>Type codes\<close>

datatype BObjectType =
    OTUnknown | OTUninit | OTString | OTLong | OTDouble | OTArray | OTApplicPtr | OTApplicObj
  | OTError | OTDictionary | OTStruct | OTPacket | OTBinaryFile | OTXMLFile | OTXMLNode
  | OTXMLAttributes | OTPolCoreRef | OTAccountRef | OTConfigFileRef | OTConfigElemRef
  | OTDataFileRef | OTDataElemRef | OTGuildRef | OTPartyRef | OTBoundingBox | OTDebugContext
  | OTScriptExRef | OTPackage | OTMenuRef | OTMobileRef | OTOfflineMobileRef | OTItemRef
  | OTBoatRef | OTMultiRef | OTClientRef | OTSQLConnection | OTSQLResultSet | OTSQLRow
  | OTBoolean | OTFuncRef

fun ot_code :: "BObjectType \<Rightarrow> nat" where
  "ot_code OTUnknown = 0" | "ot_code OTUninit = 1" | "ot_code OTString = 2"
| "ot_code OTLong = 3" | "ot_code OTDouble = 4" | "ot_code OTArray = 5"
| "ot_code OTApplicPtr = 6" | "ot_code OTApplicObj = 7" | "ot_code OTError = 8"
| "ot_code OTDictionary = 9" | "ot_code OTStruct = 10" | "ot_code OTPacket = 11"
| "ot_code OTBinaryFile = 12" | "ot_code OTXMLFile = 13" | "ot_code OTXMLNode = 14"
| "ot_code OTXMLAttributes = 15" | "ot_code OTPolCoreRef = 16" | "ot_code OTAccountRef = 17"
| "ot_code OTConfigFileRef = 18" | "ot_code OTConfigElemRef = 19" | "ot_code OTDataFileRef = 20"
| "ot_code OTDataElemRef = 21" | "ot_code OTGuildRef = 22" | "ot_code OTPartyRef = 23"
| "ot_code OTBoundingBox = 24" | "ot_code OTDebugContext = 25" | "ot_code OTScriptExRef = 26"
| "ot_code OTPackage = 27" | "ot_code OTMenuRef = 28" | "ot_code OTMobileRef = 29"
| "ot_code OTOfflineMobileRef = 30" | "ot_code OTItemRef = 31" | "ot_code OTBoatRef = 32"
| "ot_code OTMultiRef = 33" | "ot_code OTClientRef = 34" | "ot_code OTSQLConnection = 35"
| "ot_code OTSQLResultSet = 36" | "ot_code OTSQLRow = 37" | "ot_code OTBoolean = 38"
| "ot_code OTFuncRef = 39"

definition ot_of_code :: "nat \<Rightarrow> BObjectType" where
  "ot_of_code n =
     [OTUnknown, OTUninit, OTString, OTLong, OTDouble, OTArray, OTApplicPtr, OTApplicObj,
      OTError, OTDictionary, OTStruct, OTPacket, OTBinaryFile, OTXMLFile, OTXMLNode,
      OTXMLAttributes, OTPolCoreRef, OTAccountRef, OTConfigFileRef, OTConfigElemRef,
      OTDataFileRef, OTDataElemRef, OTGuildRef, OTPartyRef, OTBoundingBox, OTDebugContext,
      OTScriptExRef, OTPackage, OTMenuRef, OTMobileRef, OTOfflineMobileRef, OTItemRef,
      OTBoatRef, OTMultiRef, OTClientRef, OTSQLConnection, OTSQLResultSet, OTSQLRow,
      OTBoolean, OTFuncRef] ! n"

lemma ot_of_code_code: "ot_of_code (ot_code t) = t"
  by (cases t) (simp_all add: ot_of_code_def)

lemma ot_code_inject [simp]: "ot_code a = ot_code b \<longleftrightarrow> a = b"
  using ot_of_code_code by metis

text \<open>The default ordering of two values of different types is the order of the codes.\<close>

instantiation BObjectType :: linorder
begin

definition less_eq_BObjectType :: "BObjectType \<Rightarrow> BObjectType \<Rightarrow> bool" where
  "a \<le> b \<longleftrightarrow> ot_code a \<le> ot_code b"

definition less_BObjectType :: "BObjectType \<Rightarrow> BObjectType \<Rightarrow> bool" where
  "a < b \<longleftrightarrow> ot_code a < ot_code b"

instance
  by intro_classes (auto simp: less_eq_BObjectType_def less_BObjectType_def)

end

definition typestr :: "BObjectType \<Rightarrow> string" where
  "typestr typ =
     (case typ of
        OTUnknown \<Rightarrow> ''Unknown''
      | OTUninit \<Rightarrow> ''Uninit''
      | OTString \<Rightarrow> ''String''
      | OTLong \<Rightarrow> ''Integer''
      | OTDouble \<Rightarrow> ''Double''
      | OTArray \<Rightarrow> ''Array''
      | OTApplicPtr \<Rightarrow> ''ApplicPtr''
      | OTApplicObj \<Rightarrow> ''ApplicObj''
      | OTError \<Rightarrow> ''Error''
      | OTDictionary \<Rightarrow> ''Dictionary''
      | OTStruct \<Rightarrow> ''Struct''
      | OTPacket \<Rightarrow> ''Packet''
      | OTBinaryFile \<Rightarrow> ''BinaryFile''
      | OTBoolean \<Rightarrow> ''Boolean''
      | OTFuncRef \<Rightarrow> ''FunctionReference''
      | _ \<Rightarrow> ''Undefined'')"

section \<open>Values\<close>

text \<open>
  \<open>ObjArray names elems\<close> carries the member names of an old-style structure
  (\<^verbatim>\<open>name_arr\<close>) and the elements (\<^verbatim>\<open>ref_arr\<close>). A structure and an
  error hold a \<^verbatim>\<open>std::map\<close> from member names, a dictionary one from values.
\<close>

datatype BObjectImp =
    UninitObject
  | BString string
  | BLong int32
  | BDouble dbl
  | ObjArray "string list" "BObjectImp option list"
  | BError "(string \<times> BObjectImp) list"
  | BDictionary "(BObjectImp \<times> BObjectImp) list"
  | BStruct "(string \<times> BObjectImp) list"
  | BBoolean bool
  | BFunctionRef nat int32 string

lemmas value_split = BObjectImp.split
lemmas value_splits = BObjectImp.splits

definition otype :: "BObjectImp \<Rightarrow> BObjectType" where
  "otype v =
     (case v of
        UninitObject \<Rightarrow> OTUninit
      | BString _ \<Rightarrow> OTString
      | BLong _ \<Rightarrow> OTLong
      | BDouble _ \<Rightarrow> OTDouble
      | ObjArray _ _ \<Rightarrow> OTArray
      | BError _ \<Rightarrow> OTError
      | BDictionary _ \<Rightarrow> OTDictionary
      | BStruct _ \<Rightarrow> OTStruct
      | BBoolean _ \<Rightarrow> OTBoolean
      | BFunctionRef _ _ _ \<Rightarrow> OTFuncRef)"

lemma otype_simps [simp]:
  "otype UninitObject = OTUninit" "otype (BString s) = OTString" "otype (BLong i) = OTLong"
  "otype (BDouble d) = OTDouble" "otype (ObjArray ns es) = OTArray" "otype (BError c) = OTError"
  "otype (BDictionary dm) = OTDictionary" "otype (BStruct c) = OTStruct"
  "otype (BBoolean b) = OTBoolean" "otype (BFunctionRef pc n sn) = OTFuncRef"
  by (simp_all add: otype_def)

definition isa :: "BObjectImp \<Rightarrow> BObjectType \<Rightarrow> bool" where
  "isa v t \<longleftrightarrow> t = otype v"

text \<open>\<^verbatim>\<open>new BError( "..." )\<close>.\<close>

definition mk_error :: "string \<Rightarrow> BObjectImp" where
  "mk_error err = BError (omap_set ci_less ''errortext'' (BString err) [])"

lemma otype_mk_error [simp]: "otype (mk_error e) = OTError"
  by (simp add: mk_error_def)

section \<open>Truth\<close>

definition isTrue :: "BObjectImp \<Rightarrow> bool" where
  "isTrue v =
     (case v of
        UninitObject \<Rightarrow> False
      | BString s \<Rightarrow> s \<noteq> []
      | BLong i \<Rightarrow> i \<noteq> 0
      | BDouble d \<Rightarrow> \<not> d_eq d (dzero False)
      | BError _ \<Rightarrow> False
      | BBoolean b \<Rightarrow> b
      | BFunctionRef _ _ _ \<Rightarrow> False
      | _ \<Rightarrow> True)"

section \<open>Text\<close>

fun join_with :: "string \<Rightarrow> string list \<Rightarrow> string" where
  "join_with sep [] = []"
| "join_with sep [s] = s"
| "join_with sep (s # t # ss) = s @ sep @ join_with sep (t # ss)"

text \<open>\<open>quoted v s\<close> is the formatted text of \<open>v\<close> when its plain text is \<open>s\<close>.\<close>

definition quoted :: "BObjectImp \<Rightarrow> string \<Rightarrow> string" where
  "quoted v s = (case v of BString _ \<Rightarrow> [CHR 0x22] @ s @ [CHR 0x22] | _ \<Rightarrow> s)"

abbreviation elems_size :: "BObjectImp option list \<Rightarrow> nat" where
  "elems_size \<equiv> size_list (size_option size)"

abbreviation members_size :: "(string \<times> BObjectImp) list \<Rightarrow> nat" where
  "members_size \<equiv> size_list (size_prod (\<lambda>_. 0) size)"

abbreviation entries_size :: "(BObjectImp \<times> BObjectImp) list \<Rightarrow> nat" where
  "entries_size \<equiv> size_list (size_prod size size)"

function (sequential) getStringRep :: "BObjectImp \<Rightarrow> string"
  and ObjArray_reps :: "BObjectImp option list \<Rightarrow> string list"
  and BStruct_reps :: "(string \<times> BObjectImp) list \<Rightarrow> string list"
  and BDictionary_reps :: "(BObjectImp \<times> BObjectImp) list \<Rightarrow> string list"
where
  "getStringRep UninitObject = ''<uninitialized object>''"
| "getStringRep (BString s) = s"
| "getStringRep (BLong i) = show_int (sint i)"
| "getStringRep (BDouble d) = d_show d"
| "getStringRep (ObjArray _ es) = ''{ '' @ join_with '', '' (ObjArray_reps es) @ '' }''"
| "getStringRep (BError c) = ''error{ '' @ join_with '', '' (BStruct_reps c) @ '' }''"
| "getStringRep (BDictionary m) = ''dict{ '' @ join_with '', '' (BDictionary_reps m) @ '' }''"
| "getStringRep (BStruct c) = ''struct{ '' @ join_with '', '' (BStruct_reps c) @ '' }''"
| "getStringRep (BBoolean b) = (if b then ''true'' else ''false'')"
| "getStringRep (BFunctionRef _ _ _) = ''FunctionObject''"
| "ObjArray_reps [] = []"
| "ObjArray_reps (None # es) = [] # ObjArray_reps es"
| "ObjArray_reps (Some v # es) = getStringRep v # ObjArray_reps es"
| "BStruct_reps [] = []"
| "BStruct_reps ((k, v) # c) = (k @ '' = '' @ quoted v (getStringRep v)) # BStruct_reps c"
| "BDictionary_reps [] = []"
| "BDictionary_reps ((k, v) # m) =
     (quoted k (getStringRep k) @ '' -> '' @ quoted v (getStringRep v)) # BDictionary_reps m"
  by pat_completeness auto
termination
  by (relation "measure (case_sum (case_sum size elems_size) (case_sum members_size entries_size))")
    auto

definition getFormattedStringRep :: "BObjectImp \<Rightarrow> string" where
  "getFormattedStringRep v = quoted v (getStringRep v)"

end
