(* ===== verification/Compare.thy ===== *)
theory Compare
  imports Objects
begin

text \<open>
  The comparison operators of the value classes, one definition per class that overrides
  them, and the virtual dispatch. \<open>None\<close> is the outcome the code takes from object
  addresses: \<^verbatim>\<open>BObjectImp::operator==\<close> compares the two pointers and
  \<^verbatim>\<open>BObjectImp::operator<\<close> orders values of one type by address. The lemmas
  show when that happens, that the order of dictionary keys is a strict weak ordering,
  as \<^verbatim>\<open>std::map\<close> requires, and where equality fails to be symmetric.
\<close>

section \<open>Equality\<close>

definition BObjectImp_eq :: "BObjectImp \<Rightarrow> BObjectImp \<Rightarrow> tri" where
  [dispatch_simps]: "BObjectImp_eq self objimp =
     (if otype self \<noteq> otype objimp then Some False else None)"

definition UninitObject_eq :: "BObjectImp \<Rightarrow> tri" where
  [dispatch_simps]: "UninitObject_eq imp = Some (isa imp OTError \<or> isa imp OTUninit)"

definition BError_eq :: "BObjectImp \<Rightarrow> tri" where
  [dispatch_simps]: "BError_eq imp = Some (isa imp OTError \<or> isa imp OTUninit)"

definition BLong_eq :: "int32 \<Rightarrow> BObjectImp \<Rightarrow> tri" where
  [dispatch_simps]: "BLong_eq lval objimp =
     (case objimp of
        BLong i \<Rightarrow> Some (lval = i)
      | BDouble d \<Rightarrow> Some (d_eq (d_of_int (sint lval)) d)
      | BBoolean b \<Rightarrow> Some (isTrue (BLong lval) = b)
      | _ \<Rightarrow> Some False)"

definition eq_epsilon :: dbl where
  "eq_epsilon = dround False 1 100000000"

definition Double_eq :: "dbl \<Rightarrow> BObjectImp \<Rightarrow> tri" where
  [dispatch_simps]: "Double_eq dval objimp =
     (case objimp of
        BDouble d \<Rightarrow> Some (d_lt (d_abs (d_sub dval d)) eq_epsilon)
      | BLong i \<Rightarrow> Some (d_lt (d_abs (d_sub dval (d_of_int (sint i)))) eq_epsilon)
      | BBoolean b \<Rightarrow> Some (isTrue (BDouble dval) = b)
      | _ \<Rightarrow> Some False)"

definition BBoolean_eq :: "bool \<Rightarrow> BObjectImp \<Rightarrow> tri" where
  [dispatch_simps]: "BBoolean_eq bval objimp = Some (bval = isTrue objimp)"

definition BFunctionRef_eq :: "BObjectImp \<Rightarrow> tri" where
  [dispatch_simps]: "BFunctionRef_eq objimp = Some False"

definition String_eq :: "string \<Rightarrow> BObjectImp \<Rightarrow> tri" where
  [dispatch_simps]: "String_eq val objimp =
     (case objimp of
        BString s \<Rightarrow> Some (val = s)
      | BBoolean b \<Rightarrow> Some (isTrue (BString val) = b)
      | _ \<Rightarrow> BObjectImp_eq (BString val) objimp)"

function (sequential) bobj_eq :: "BObjectImp \<Rightarrow> BObjectImp \<Rightarrow> tri"
  and ObjArray_eq :: "BObjectImp option list \<Rightarrow> BObjectImp option list \<Rightarrow> tri"
where
  "bobj_eq UninitObject w = UninitObject_eq w"
| "bobj_eq (BString s) w = String_eq s w"
| "bobj_eq (BLong i) w = BLong_eq i w"
| "bobj_eq (BDouble d) w = Double_eq d w"
| "bobj_eq (ObjArray ns es) (ObjArray ms fs) =
     (if length fs \<noteq> length es then Some False else ObjArray_eq es fs)"
| "bobj_eq (ObjArray ns es) w = Some False"
| "bobj_eq (BError c) w = BError_eq w"
| "bobj_eq (BBoolean b) w = BBoolean_eq b w"
| "bobj_eq (BFunctionRef pc n sn) w = BFunctionRef_eq w"
| "bobj_eq (BDictionary m) w = BObjectImp_eq (BDictionary m) w"
| "bobj_eq (BStruct c) w = BObjectImp_eq (BStruct c) w"
| "ObjArray_eq (Some x # xs) (Some y # ys) = k_and (bobj_eq x y) (ObjArray_eq xs ys)"
| "ObjArray_eq (None # xs) (None # ys) = ObjArray_eq xs ys"
| "ObjArray_eq [] ys = Some True"
| "ObjArray_eq xs ys = Some False"
  by pat_completeness auto
termination
  by (relation "measure (case_sum (size \<circ> fst) (elems_size \<circ> fst))") auto

section \<open>Order\<close>

definition is_void :: "BObjectImp \<Rightarrow> bool" where
  "is_void v \<longleftrightarrow> isa v OTError \<or> isa v OTUninit"

definition BObjectImp_lt :: "BObjectImp \<Rightarrow> BObjectImp \<Rightarrow> tri" where
  [dispatch_simps]: "BObjectImp_lt self objimp =
     (if is_void objimp \<and> \<not> is_void self then Some False
      else if otype self = otype objimp then None
      else Some (otype self < otype objimp))"

definition UninitObject_lt :: "BObjectImp \<Rightarrow> tri" where
  [dispatch_simps]: "UninitObject_lt imp = Some (\<not> (isa imp OTError \<or> isa imp OTUninit))"

definition BError_lt :: "BObjectImp \<Rightarrow> tri" where
  [dispatch_simps]: "BError_lt imp = Some (\<not> (isa imp OTError \<or> isa imp OTUninit))"

definition BLong_lt :: "int32 \<Rightarrow> BObjectImp \<Rightarrow> tri" where
  [dispatch_simps]: "BLong_lt lval objimp =
     (case objimp of
        BLong i \<Rightarrow> Some (sint lval < sint i)
      | BDouble d \<Rightarrow> Some (d_lt (d_of_int (sint lval)) d)
      | _ \<Rightarrow> BObjectImp_lt (BLong lval) objimp)"

definition Double_lt :: "dbl \<Rightarrow> BObjectImp \<Rightarrow> tri" where
  [dispatch_simps]: "Double_lt dval objimp =
     (case objimp of
        BDouble d \<Rightarrow> Some (d_lt dval d)
      | BLong i \<Rightarrow> Some (d_lt dval (d_of_int (sint i)))
      | _ \<Rightarrow> BObjectImp_lt (BDouble dval) objimp)"

definition String_lt :: "string \<Rightarrow> BObjectImp \<Rightarrow> tri" where
  [dispatch_simps]: "String_lt val objimp =
     (case objimp of
        BString s \<Rightarrow> Some (str_lt val s)
      | _ \<Rightarrow> BObjectImp_lt (BString val) objimp)"

definition bobj_lt :: "BObjectImp \<Rightarrow> BObjectImp \<Rightarrow> tri" where
  "bobj_lt v w =
     (case v of
        UninitObject \<Rightarrow> UninitObject_lt w
      | BError _ \<Rightarrow> BError_lt w
      | BLong i \<Rightarrow> BLong_lt i w
      | BDouble d \<Rightarrow> Double_lt d w
      | BString s \<Rightarrow> String_lt s w
      | _ \<Rightarrow> BObjectImp_lt v w)"

definition bobj_le :: "BObjectImp \<Rightarrow> BObjectImp \<Rightarrow> tri" where
  "bobj_le v w = k_or (bobj_eq v w) (bobj_lt v w)"

definition bobj_gt :: "BObjectImp \<Rightarrow> BObjectImp \<Rightarrow> tri" where
  "bobj_gt v w = k_not (k_or (bobj_eq v w) (bobj_lt v w))"

definition bobj_ge :: "BObjectImp \<Rightarrow> BObjectImp \<Rightarrow> tri" where
  "bobj_ge v w = k_not (bobj_lt v w)"

definition bobj_ne :: "BObjectImp \<Rightarrow> BObjectImp \<Rightarrow> tri" where
  "bobj_ne v w = k_not (bobj_eq v w)"

text \<open>\<^verbatim>\<open>ObjArray::contains\<close>: the one-based index of the first equal element.\<close>

fun ObjArray_contains :: "BObjectImp option list \<Rightarrow> BObjectImp \<Rightarrow> nat \<Rightarrow> nat option" where
  "ObjArray_contains [] imp i = Some 0"
| "ObjArray_contains (None # es) imp i = ObjArray_contains es imp (i + 1)"
| "ObjArray_contains (Some v # es) imp i =
     (case bobj_eq v imp of
        None \<Rightarrow> None
      | Some True \<Rightarrow> Some (i + 1)
      | Some False \<Rightarrow> ObjArray_contains es imp (i + 1))"

section \<open>Outcomes that depend on addresses\<close>

lemma bobj_lt_None:
  "bobj_lt a b = None \<longleftrightarrow>
     otype a = otype b \<and> otype a \<in> {OTArray, OTDictionary, OTStruct, OTBoolean, OTFuncRef}"
  by (cases a; cases b) (simp_all add: bobj_lt_def dispatch_simps is_void_def isa_def)

section \<open>Symmetry of equality\<close>

text \<open>Values without real numbers and truth values, at any depth of arrays.\<close>

function (sequential) exact :: "BObjectImp \<Rightarrow> bool"
  and exact_elems :: "BObjectImp option list \<Rightarrow> bool"
where
  "exact (BDouble _) = False"
| "exact (BBoolean _) = False"
| "exact (ObjArray _ es) = exact_elems es"
| "exact _ = True"
| "exact_elems [] = True"
| "exact_elems (None # es) = exact_elems es"
| "exact_elems (Some v # es) = (exact v \<and> exact_elems es)"
  by pat_completeness auto
termination
  by (relation "measure (case_sum size elems_size)") auto

lemma bobj_eq_sym_aux:
  "exact a \<Longrightarrow> exact b \<Longrightarrow> bobj_eq a b = bobj_eq b a"
  "exact_elems es \<Longrightarrow> exact_elems fs \<Longrightarrow> length es = length fs \<Longrightarrow>
     ObjArray_eq es fs = ObjArray_eq fs es"
proof (induction a b and es fs rule: bobj_eq_ObjArray_eq.induct)
  case (1 w)
  then show ?case by (cases w) (auto simp: dispatch_simps isa_def)
next
  case (2 s w)
  then show ?case by (cases w) (auto simp: dispatch_simps isa_def)
next
  case (3 i w)
  then show ?case by (cases w) (auto simp: dispatch_simps isa_def)
next
  case (7 c w)
  then show ?case by (cases w) (auto simp: dispatch_simps isa_def)
next
  case (9 pc n sn w)
  then show ?case by (cases w) (auto simp: dispatch_simps isa_def)
next
  case (10 m w)
  then show ?case by (cases w) (auto simp: dispatch_simps isa_def)
next
  case (11 c w)
  then show ?case by (cases w) (auto simp: dispatch_simps isa_def)
qed (auto simp: dispatch_simps isa_def)

section \<open>The order of dictionary keys\<close>

text \<open>
  The keys a script can use are strings, integers and reals
  (\<^verbatim>\<open>BDictionary::array_assign\<close> and the methods refuse others). A NaN is not
  ordered with anything, so it is excluded.
\<close>

definition dict_key :: "BObjectImp \<Rightarrow> bool" where
  "dict_key v =
     (case v of BString _ \<Rightarrow> True | BLong _ \<Rightarrow> True | BDouble d \<Rightarrow> d \<noteq> DNaN | _ \<Rightarrow> False)"

definition dict_less :: "BObjectImp \<Rightarrow> BObjectImp \<Rightarrow> bool" where
  "dict_less a b \<longleftrightarrow> bobj_lt a b = Some True"

text \<open>The place of a key: strings come first, numbers follow in numeric order.\<close>

definition key_rank :: "BObjectImp \<Rightarrow> string + dbl" where
  "key_rank v =
     (case v of
        BString s \<Rightarrow> Inl s | BLong i \<Rightarrow> Inr (d_of_int (sint i)) | BDouble d \<Rightarrow> Inr d
      | _ \<Rightarrow> Inl [])"

fun rank_less :: "string + dbl \<Rightarrow> string + dbl \<Rightarrow> bool" where
  "rank_less (Inl s) (Inl t) = str_lt s t"
| "rank_less (Inl s) (Inr y) = True"
| "rank_less (Inr x) (Inl t) = False"
| "rank_less (Inr x) (Inr y) = d_lt x y"

lemma sint32_small: "\<bar>sint (i :: int32)\<bar> < 2 ^ 53"
  using sint32_bounds[of i] by (simp add: abs_less_iff)

lemma dict_less_rank:
  "dict_key a \<Longrightarrow> dict_key b \<Longrightarrow> dict_less a b \<longleftrightarrow> rank_less (key_rank a) (key_rank b)"
  using d_lt_of_int[OF sint32_small sint32_small]
  by (cases a; cases b) (simp_all add: dict_key_def dict_less_def bobj_lt_def dispatch_simps
      key_rank_def is_void_def isa_def less_BObjectType_def)

lemma dict_key_rank: "dict_key a \<Longrightarrow> key_rank a \<noteq> Inr DNaN"
  by (cases a) (auto simp: dict_key_def key_rank_def)

lemma rank_less_irrefl: "\<not> rank_less x x"
  by (cases x) simp_all

lemma rank_less_trans: "rank_less x y \<Longrightarrow> rank_less y z \<Longrightarrow> rank_less x z"
  by (cases x; cases y; cases z) (auto intro: str_lt_trans d_lt_trans)

lemma rank_less_neg_trans:
  assumes "x \<noteq> Inr DNaN" "y \<noteq> Inr DNaN" "z \<noteq> Inr DNaN" "\<not> rank_less x y" "\<not> rank_less y z"
  shows "\<not> rank_less x z"
proof (cases x; cases y; cases z)
  fix a b c assume *: "x = Inl a" "y = Inl b" "z = Inl c"
  have "a = b \<or> str_lt b a" "b = c \<or> str_lt c b" using assms * str_lt_total by auto
  then have "a = c \<or> str_lt c a" using str_lt_trans by blast
  then show ?thesis using * str_lt_asym by auto
next
  fix a b c assume *: "x = Inr a" "y = Inr b" "z = Inr c"
  have "d_eq b a \<or> d_lt b a" "d_eq c b \<or> d_lt c b"
    using assms * d_lt_total[of a b] d_lt_total[of b c] d_eq_sym by auto
  then have "d_eq c a \<or> d_lt c a" using d_lt_trans d_lt_eq_trans d_eq_lt_trans d_eq_trans by blast
  then show ?thesis using * d_eq_sym d_eq_not_lt d_lt_trans d_lt_irrefl
    by (metis rank_less.simps(4))
qed (use assms in auto)

interpretation dk: weak_order dict_less dict_key
proof unfold_locales
  fix a b c :: "BObjectImp"
  assume keys: "dict_key a" "dict_key b" "dict_key c"
  note ranks = dict_less_rank[OF keys(1,2)] dict_less_rank[OF keys(2,3)] dict_less_rank[OF keys(1,3)]
  show "dict_less a b \<Longrightarrow> dict_less b c \<Longrightarrow> dict_less a c"
    unfolding ranks by (rule rank_less_trans)
  show "\<not> dict_less a b \<Longrightarrow> \<not> dict_less b c \<Longrightarrow> \<not> dict_less a c"
    unfolding ranks by (rule rank_less_neg_trans[OF keys[THEN dict_key_rank]])
next
  fix a assume "dict_key a"
  then show "\<not> dict_less a a" by (simp add: dict_less_rank rank_less_irrefl)
qed

text \<open>On keys the comparison never looks at addresses.\<close>

lemma dict_key_determined: "dict_key a \<Longrightarrow> dict_key b \<Longrightarrow> bobj_lt a b \<noteq> None"
  by (auto simp: bobj_lt_None dict_key_def split: value_splits)

section \<open>Properties\<close>

text \<open>
  The order of two values is decided by the addresses of the objects exactly when both
  have the same type and that type has no order of its own: arrays, dictionaries, structs,
  truth values and function references.
\<close>

theorem order_by_address:
  "bobj_lt a b = None \<longleftrightarrow>
     otype a = otype b \<and> otype a \<in> {OTArray, OTDictionary, OTStruct, OTBoolean, OTFuncRef}"
  by (rule bobj_lt_None)

text \<open>
  Equality is symmetric between values that contain no real numbers and no truth values
  outside the keys and members of containers.
\<close>

theorem equality_symmetric:
  assumes "exact a" "exact b"
  shows "bobj_eq a b = bobj_eq b a"
  by (rule bobj_eq_sym_aux(1)[OF assms])

lemma equality_symmetric_witness:
  "bobj_eq (ObjArray [] [Some (BLong 1), None]) (ObjArray [] [Some (BLong 1), Some (BString ''a'')]) =
   bobj_eq (ObjArray [] [Some (BLong 1), Some (BString ''a'')]) (ObjArray [] [Some (BLong 1), None])"
  by (rule equality_symmetric) simp_all

text \<open>
  Equality is not symmetric in general: a truth value equals every value of the same truth,
  while an array, an error or an uninitialised value never equals a truth value; and a real
  equals an integer within a tolerance that the integer does not grant the real.
\<close>

theorem equality_asymmetric:
  "bobj_eq (BBoolean True) (ObjArray ns es) = Some True \<and>
   bobj_eq (ObjArray ns es) (BBoolean True) = Some False \<and>
   bobj_eq (BBoolean False) UninitObject = Some True \<and>
   bobj_eq UninitObject (BBoolean False) = Some False \<and>
   bobj_eq (BDouble (DFin False (2 ^ 52 + 2 ^ 20) (-52))) (BLong 1) = Some True \<and>
   bobj_eq (BLong 1) (BDouble (DFin False (2 ^ 52 + 2 ^ 20) (-52))) = Some False"
proof -
  have one: "d_of_int 1 = DFin False (2 ^ 52) (-52)"
    by (simp add: d_of_int_def dround_def floor_to_def round_to_def nbits.simps)
  have diff: "d_sub (DFin False (2 ^ 52 + 2 ^ 20) (-52)) (DFin False (2 ^ 52) (-52)) = DFin False (2 ^ 52) (-84)"
    by (simp add: d_sub_def signif_def dround_int_def dround_def floor_to_def round_to_def nbits.simps)
  have eps: "eq_epsilon = DFin False 6044629098073146 (-79)"
    by (simp add: eq_epsilon_def dround_def floor_to_def round_to_def nbits.simps)
  have "d_lt (d_abs (d_sub (DFin False (2 ^ 52 + 2 ^ 20) (-52)) (d_of_int 1))) eq_epsilon"
    unfolding one diff eps by (simp add: d_lt.simps signif_def)
  then have "bobj_eq (BDouble (DFin False (2 ^ 52 + 2 ^ 20) (-52))) (BLong 1) = Some True"
    by (simp add: Double_eq_def)
  moreover have "bobj_eq (BLong 1) (BDouble (DFin False (2 ^ 52 + 2 ^ 20) (-52))) = Some False"
    by (simp add: dispatch_simps one d_eq.simps signif_def)
  ultimately show ?thesis by (simp add: dispatch_simps isa_def isTrue_def del: power_numeral)
qed

text \<open>
  C24. The comparison of dictionary keys (strings, integers and reals other than NaN) is a
  strict weak ordering, as \<^verbatim>\<open>std::map\<close> demands, and never looks at addresses.
\<close>

theorem dictionary_keys_ordered:
  assumes "dict_key a" "dict_key b" "dict_key c"
  shows "bobj_lt a b \<noteq> None \<and> bobj_lt a a = Some False \<and>
    (bobj_lt a b = Some True \<longrightarrow> bobj_lt b c = Some True \<longrightarrow> bobj_lt a c = Some True) \<and>
    (bobj_lt a b = Some False \<longrightarrow> bobj_lt b c = Some False \<longrightarrow> bobj_lt a c = Some False)"
proof -
  have False_iff: "bobj_lt x y = Some False \<longleftrightarrow> \<not> dict_less x y" if "dict_key x" "dict_key y" for x y
    using dict_key_determined[OF that] by (auto simp: dict_less_def)
  show ?thesis
    using assms dict_key_determined dk.irrefl dk.trans dk.neg_trans
    unfolding False_iff[OF assms(1,2)] False_iff[OF assms(2,3)] False_iff[OF assms(1,3)]
      False_iff[OF assms(1,1)] dict_less_def[symmetric] by blast
qed

lemma dictionary_keys_ordered_witness:
  "bobj_lt (BString ''b'') (BLong 3) = Some True \<and> bobj_lt (BLong 3) (BLong 7) = Some True \<and>
   bobj_lt (BString ''b'') (BLong 7) = Some True"
proof -
  have "bobj_lt (BString ''b'') (BLong 3) = Some True" "bobj_lt (BLong 3) (BLong 7) = Some True"
    by code_simp+
  then show ?thesis
    using dictionary_keys_ordered[of "BString ''b''" "BLong 3" "BLong 7"] by (simp add: dict_key_def)
qed

end
