(* ===== verification/Packing.thy ===== *)
theory Packing
  imports Compare Streams
begin

text \<open>
  The text form of values: \<^verbatim>\<open>pack\<close>, \<^verbatim>\<open>packonto\<close> and
  \<^verbatim>\<open>unpack\<close> of the value classes, with which scripts and the data files of the
  server store values. Reading follows the nesting of the text, so \<open>unpack\<close> has a depth
  bound as fuel; more fuel than the stream has characters is always enough. A result is
  \<open>AddressDependent\<close> when a dictionary text has two keys of a type that is ordered by
  object addresses.
\<close>

section \<open>Writing\<close>

definition String_packonto :: "string \<Rightarrow> string" where
  "String_packonto val = CHR ''S'' # show_nat (length val) @ CHR '':'' # val"

definition String_pack :: "string \<Rightarrow> string" where
  "String_pack val = CHR ''s'' # val"

definition BLong_packonto :: "int32 \<Rightarrow> string" where
  "BLong_packonto lval = CHR ''i'' # show_int (sint lval)"

definition Double_packonto :: "dbl \<Rightarrow> string" where
  "Double_packonto dval = CHR ''r'' # d_show dval"

definition BBoolean_packonto :: "bool \<Rightarrow> string" where
  "BBoolean_packonto bval = CHR ''b'' # show_nat (if bval then 1 else 0)"

definition count_head :: "char \<Rightarrow> nat \<Rightarrow> string" where
  "count_head packtype n = packtype # show_nat n @ [CHR '':'']"

function (sequential) packonto :: "BObjectImp \<Rightarrow> string"
  and ObjArray_packonto :: "BObjectImp option list \<Rightarrow> string"
  and BStruct_packonto :: "(string \<times> BObjectImp) list \<Rightarrow> string"
  and BDictionary_packonto :: "(BObjectImp \<times> BObjectImp) list \<Rightarrow> string"
where
  "packonto (BString s) = String_packonto s"
| "packonto (BLong i) = BLong_packonto i"
| "packonto (BDouble d) = Double_packonto d"
| "packonto (BBoolean b) = BBoolean_packonto b"
| "packonto (ObjArray _ es) = count_head CHR ''a'' (length es) @ ObjArray_packonto es"
| "packonto (BStruct c) = count_head CHR ''t'' (length c) @ BStruct_packonto c"
| "packonto (BError c) = count_head CHR ''e'' (length c) @ BStruct_packonto c"
| "packonto (BDictionary m) = count_head CHR ''d'' (length m) @ BDictionary_packonto m"
| "packonto UninitObject = ''u''"
| "packonto (BFunctionRef _ _ _) = ''u''"
| "ObjArray_packonto [] = []"
| "ObjArray_packonto (None # es) = CHR ''x'' # ObjArray_packonto es"
| "ObjArray_packonto (Some v # es) = packonto v @ ObjArray_packonto es"
| "BStruct_packonto [] = []"
| "BStruct_packonto ((k, v) # c) = String_packonto k @ packonto v @ BStruct_packonto c"
| "BDictionary_packonto [] = []"
| "BDictionary_packonto ((k, v) # m) = packonto k @ packonto v @ BDictionary_packonto m"
  by pat_completeness auto
termination
  by (relation "measure (case_sum (case_sum size elems_size) (case_sum members_size entries_size))")
    auto

definition pack :: "BObjectImp \<Rightarrow> string" where
  "pack v = (case v of BString s \<Rightarrow> String_pack s | _ \<Rightarrow> packonto v)"

section \<open>Reading\<close>

datatype 'a unpacked = Unpacked 'a | AddressDependent | OutOfFuel

fun map_unpacked :: "('a \<Rightarrow> 'b) \<Rightarrow> 'a unpacked \<Rightarrow> 'b unpacked" where
  "map_unpacked f (Unpacked x) = Unpacked (f x)"
| "map_unpacked f AddressDependent = AddressDependent"
| "map_unpacked f OutOfFuel = OutOfFuel"

text \<open>The results of reading several values, when all of them are determined.\<close>

fun all_unpacked :: "'a unpacked list \<Rightarrow> 'a list unpacked" where
  "all_unpacked [] = Unpacked []"
| "all_unpacked (OutOfFuel # rs) = OutOfFuel"
| "all_unpacked (Unpacked x # rs) = map_unpacked ((#) x) (all_unpacked rs)"
| "all_unpacked (AddressDependent # rs) =
     (case all_unpacked rs of OutOfFuel \<Rightarrow> OutOfFuel | _ \<Rightarrow> AddressDependent)"

fun read_times :: "(istream \<Rightarrow> 'a \<times> istream) \<Rightarrow> nat \<Rightarrow> istream \<Rightarrow> 'a list \<times> istream" where
  "read_times g 0 is = ([], is)"
| "read_times g (Suc n) is =
     (let (x, is1) = g is; (xs, is2) = read_times g n is1 in (x # xs, is2))"

definition failed :: "string \<Rightarrow> BObjectImp unpacked" where
  "failed msg = Unpacked (mk_error msg)"

definition BLong_unpack :: "istream \<Rightarrow> BObjectImp unpacked \<times> istream" where
  "BLong_unpack is =
     (case get_int is of
        (Some lv, is') \<Rightarrow> (Unpacked (BLong (word_of_int lv)), is')
      | (None, is') \<Rightarrow> (failed ''Error extracting Integer value'', is'))"

definition Double_unpack :: "istream \<Rightarrow> BObjectImp unpacked \<times> istream" where
  "Double_unpack is =
     (case get_double is of
        (Some dv, is') \<Rightarrow> (Unpacked (BDouble dv), is')
      | (None, is') \<Rightarrow> (failed ''Error extracting Real value'', is'))"

definition BBoolean_unpack :: "istream \<Rightarrow> BObjectImp unpacked \<times> istream" where
  "BBoolean_unpack is =
     (case get_int is of
        (Some lv, is') \<Rightarrow> (Unpacked (BBoolean (lv \<noteq> 0)), is')
      | (None, is') \<Rightarrow> (failed ''Error extracting Boolean value'', is'))"

definition String_unpack :: "istream \<Rightarrow> BObjectImp unpacked \<times> istream" where
  "String_unpack is = (let (tmp, is') = getline is in (Unpacked (BString tmp), is'))"

text \<open>
  \<^verbatim>\<open>is >> size >> colon\<close> and the checks on them. \<open>least\<close> is the smallest count
  the class accepts, \<open>what\<close> the subject of its messages.
\<close>

datatype head_result = Count nat | Head_error string

definition read_head ::
  "int \<Rightarrow> string \<Rightarrow> string \<Rightarrow> string \<Rightarrow> istream \<Rightarrow> head_result \<times> istream" where
  "read_head least unable invalid nocolon is =
     (case get_unsigned is of
        (None, is1) \<Rightarrow> (Head_error unable, snd (get_char is1))
      | (Some n, is1) \<Rightarrow>
          (case get_char is1 of
             (None, is2) \<Rightarrow> (Head_error unable, is2)
           | (Some colon, is2) \<Rightarrow>
               if sint (word_of_int n :: int32) < least then (Head_error invalid, is2)
               else if colon \<noteq> CHR '':'' then (Head_error nocolon, is2)
               else (Count (nat n), is2)))"

text \<open>The characters of a string; \<open>None\<close> when the stream ends or holds a NUL.\<close>

fun read_chars :: "nat \<Rightarrow> istream \<Rightarrow> string option \<times> istream" where
  "read_chars 0 is = (Some [], is)"
| "read_chars (Suc n) is =
     (case get_char is of
        (None, is1) \<Rightarrow> (None, is1)
      | (Some ch, is1) \<Rightarrow>
          if ch = CHR 0x00 then (None, is1)
          else (let (r, is2) = read_chars n is1 in (map_option ((#) ch) r, is2)))"

definition String_unpackWithLen :: "istream \<Rightarrow> BObjectImp unpacked \<times> istream" where
  "String_unpackWithLen is =
     (case read_head 0 ''Unable to unpack string length.''
             ''Unable to unpack string length. Invalid length!''
             ''Unable to unpack string length. Bad format. Colon not found!'' is of
        (Head_error e, is1) \<Rightarrow> (failed e, is1)
      | (Count len, is1) \<Rightarrow>
          (case read_chars len (is1\<lparr>skipws := False\<rparr>) of
             (None, is2) \<Rightarrow>
               (failed ''Unable to unpack string length. String length excessive.'', is2)
           | (Some tmp, is2) \<Rightarrow> (Unpacked (BString tmp), is2\<lparr>skipws := True\<rparr>)))"

text \<open>An element read as uninitialised leaves the reference of the array null.\<close>

definition array_ref :: "BObjectImp \<Rightarrow> BObjectImp option" where
  "array_ref imp = (if isa imp OTUninit then None else Some imp)"

definition ObjArray_unpack ::
  "(istream \<Rightarrow> BObjectImp unpacked \<times> istream) \<Rightarrow> istream \<Rightarrow> BObjectImp unpacked \<times> istream" where
  "ObjArray_unpack unpack is =
     (case read_head 0 ''Unable to unpack array elemcount''
             ''Unable to unpack array elemcount. Invalid length!''
             ''Unable to unpack array elemcount. Bad format. Colon not found!'' is of
        (Head_error e, is1) \<Rightarrow> (failed e, is1)
      | (Count arrsize, is1) \<Rightarrow>
          (let (rs, is2) = read_times unpack arrsize is1
           in (map_unpacked (\<lambda>vs. ObjArray [] (map array_ref vs)) (all_unpacked rs), is2)))"

text \<open>A key and its value.\<close>

definition read_entry ::
  "(istream \<Rightarrow> BObjectImp unpacked \<times> istream) \<Rightarrow> istream \<Rightarrow> (BObjectImp \<times> BObjectImp) unpacked \<times> istream" where
  "read_entry unpack is =
     (let (k, is1) = unpack is; (v, is2) = unpack is1
      in (case (k, v) of
            (OutOfFuel, _) \<Rightarrow> OutOfFuel
          | (_, OutOfFuel) \<Rightarrow> OutOfFuel
          | (Unpacked k, Unpacked v) \<Rightarrow> Unpacked (k, v)
          | _ \<Rightarrow> AddressDependent, is2))"

definition struct_entry ::
  "(string \<times> BObjectImp) list \<Rightarrow> BObjectImp \<times> BObjectImp \<Rightarrow> (string \<times> BObjectImp) list" where
  "struct_entry contents kv =
     (case fst kv of BString key \<Rightarrow> omap_set ci_less key (snd kv) contents | _ \<Rightarrow> contents)"

definition read_members ::
  "(istream \<Rightarrow> BObjectImp unpacked \<times> istream) \<Rightarrow> nat \<Rightarrow> istream
     \<Rightarrow> (string \<times> BObjectImp) list unpacked \<times> istream" where
  "read_members unpack n is =
     (let (rs, is1) = read_times (read_entry unpack) n is
      in (map_unpacked (foldl struct_entry []) (all_unpacked rs), is1))"

definition struct_unpack ::
  "int \<Rightarrow> ((string \<times> BObjectImp) list \<Rightarrow> BObjectImp) \<Rightarrow> (istream \<Rightarrow> BObjectImp unpacked \<times> istream)
     \<Rightarrow> istream \<Rightarrow> BObjectImp unpacked \<times> istream" where
  "struct_unpack least build unpack is =
     (case read_head least ''Unable to unpack struct elemcount''
             ''Unable to unpack struct elemcount. Length given must be positive integer!''
             ''Unable to unpack struct elemcount. Bad format. Colon not found!'' is of
        (Head_error e, is1) \<Rightarrow> (failed e, is1)
      | (Count n, is1) \<Rightarrow>
          (let (r, is2) = read_members unpack n is1 in (map_unpacked build r, is2)))"

definition BStruct_unpack ::
  "(istream \<Rightarrow> BObjectImp unpacked \<times> istream) \<Rightarrow> istream \<Rightarrow> BObjectImp unpacked \<times> istream" where
  "BStruct_unpack = struct_unpack 0 BStruct"

text \<open>An error must have at least one member.\<close>

definition BError_unpack ::
  "(istream \<Rightarrow> BObjectImp unpacked \<times> istream) \<Rightarrow> istream \<Rightarrow> BObjectImp unpacked \<times> istream" where
  "BError_unpack = struct_unpack 1 BError"

text \<open>\<^verbatim>\<open>contents_[keyobj].set(...)\<close>, for a key of any type.\<close>

definition key_undetermined :: "BObjectImp \<Rightarrow> (BObjectImp \<times> BObjectImp) list \<Rightarrow> bool" where
  "key_undetermined k contents \<longleftrightarrow>
     (\<exists>(k', v) \<in> set contents. bobj_lt k k' = None \<or> bobj_lt k' k = None)"

fun dict_entries ::
  "(BObjectImp \<times> BObjectImp) list \<Rightarrow> (BObjectImp \<times> BObjectImp) list \<Rightarrow> (BObjectImp \<times> BObjectImp) list unpacked" where
  "dict_entries contents [] = Unpacked contents"
| "dict_entries contents ((k, v) # kvs) =
     (if key_undetermined k contents then AddressDependent
      else dict_entries (omap_set dict_less k v contents) kvs)"

fun bind_unpacked :: "'a unpacked \<Rightarrow> ('a \<Rightarrow> 'b unpacked) \<Rightarrow> 'b unpacked" where
  "bind_unpacked (Unpacked x) f = f x"
| "bind_unpacked AddressDependent f = AddressDependent"
| "bind_unpacked OutOfFuel f = OutOfFuel"

definition BDictionary_unpack ::
  "(istream \<Rightarrow> BObjectImp unpacked \<times> istream) \<Rightarrow> istream \<Rightarrow> BObjectImp unpacked \<times> istream" where
  "BDictionary_unpack unpack is =
     (case read_head 0 ''Unable to unpack dictionary elemcount''
             ''Unable to unpack dictionary elemcount. Length given must be positive integer!''
             ''Unable to unpack dictionary elemcount. Bad format. Colon not found!'' is of
        (Head_error e, is1) \<Rightarrow> (failed e, is1)
      | (Count n, is1) \<Rightarrow>
          (let (rs, is2) = read_times (read_entry unpack) n is1
           in (bind_unpacked (all_unpacked rs) (\<lambda>kvs. map_unpacked BDictionary (dict_entries [] kvs)),
               is2)))"

primrec unpack :: "nat \<Rightarrow> istream \<Rightarrow> BObjectImp unpacked \<times> istream" where
  "unpack 0 is = (OutOfFuel, is)"
| "unpack (Suc fuel) is =
     (case get_char is of
        (None, is1) \<Rightarrow> (failed ''Unable to extract type character'', is1)
      | (Some typech, is1) \<Rightarrow>
          if typech = CHR ''s'' then String_unpack is1
          else if typech = CHR ''S'' then String_unpackWithLen is1
          else if typech = CHR ''i'' then BLong_unpack is1
          else if typech = CHR ''r'' then Double_unpack is1
          else if typech = CHR ''u'' then (Unpacked UninitObject, is1)
          else if typech = CHR ''a'' then ObjArray_unpack (unpack fuel) is1
          else if typech = CHR ''d'' then BDictionary_unpack (unpack fuel) is1
          else if typech = CHR ''t'' then BStruct_unpack (unpack fuel) is1
          else if typech = CHR ''e'' then BError_unpack (unpack fuel) is1
          else if typech = CHR ''x'' then (Unpacked UninitObject, is1)
          else if typech = CHR ''b'' then BBoolean_unpack is1
          else (failed (''Unknown object type '' @ [CHR 0x27, typech, CHR 0x27]), is1))"

text \<open>\<^verbatim>\<open>BObjectImp::unpack( const char* )\<close>.\<close>

definition unpack_str :: "string \<Rightarrow> BObjectImp unpacked" where
  "unpack_str pstr = fst (unpack (Suc (length (c_str pstr))) (istream_of (c_str pstr)))"

section \<open>Reading never lengthens the stream\<close>

definition shrinks :: "(istream \<Rightarrow> 'a \<times> istream) \<Rightarrow> bool" where
  "shrinks g \<longleftrightarrow> (\<forall>is. length (buf (snd (g is))) \<le> length (buf is))"

lemma shrinksI: "(\<And>is. length (buf (snd (g is))) \<le> length (buf is)) \<Longrightarrow> shrinks g"
  by (simp add: shrinks_def)

lemma shrinksD: "shrinks g \<Longrightarrow> g is = (x, is') \<Longrightarrow> length (buf is') \<le> length (buf is)"
  unfolding shrinks_def by (metis snd_conv)

lemma shrinks_get_char: "shrinks get_char"
  by (simp add: shrinks_def extract_length)

lemma shrinks_get_int: "shrinks get_int"
  by (simp add: shrinks_def extract_length)

lemma shrinks_get_unsigned: "shrinks get_unsigned"
  by (simp add: shrinks_def extract_length)

lemma shrinks_getline: "shrinks getline"
  by (simp add: shrinks_def extract_length)

lemma scan_int_length: "scan_int s = (n, ds, r) \<Longrightarrow> length r \<le> length s"
  using scan_sign_length[of s] length_dropWhile_le[of is_digit "snd (scan_sign s)"]
  by (cases "scan_sign s") (auto simp: scan_int_def)

lemma scan_frac_length: "scan_frac s = (ds, r) \<Longrightarrow> length r \<le> length s"
  using length_dropWhile_le[of is_digit "tl s"]
  by (cases s) (auto simp: scan_frac_def split: char.splits bool.splits if_splits)

lemma scan_exp_length: "scan_exp s = (x, r) \<Longrightarrow> length r \<le> length s"
  by (cases s) (auto simp: scan_exp_def Let_def split: if_splits prod.splits dest!: scan_int_length)

lemma shrinks_get_double: "shrinks get_double"
proof (rule shrinksI)
  fix "is"
  obtain b is' where s: "sentry is = (b, is')" by (cases "sentry is")
  obtain n ip r1 where si: "scan_int (buf is') = (n, ip, r1)" by (cases "scan_int (buf is')") auto
  obtain fp r2 where sf: "scan_frac r1 = (fp, r2)" by (cases "scan_frac r1")
  obtain x r3 where sx: "scan_exp r2 = (x, r3)" by (cases "scan_exp r2")
  show "length (buf (snd (get_double is))) \<le> length (buf is)"
    using sentry_length[OF s] scan_int_length[OF si] scan_frac_length[OF sf] scan_exp_length[OF sx]
    by (cases b; cases "ip @ fp = []")
      (simp_all add: get_double_def s si sf sx set_fail_def Let_def)
qed

lemma shrinks_read_times: "shrinks g \<Longrightarrow> shrinks (read_times g n)"
proof (induction n)
  case 0
  then show ?case by (simp add: shrinks_def)
next
  case (Suc n)
  show ?case
  proof (rule shrinksI)
    fix "is"
    obtain x is1 where 1: "g is = (x, is1)" by (cases "g is")
    obtain xs is2 where 2: "read_times g n is1 = (xs, is2)" by (cases "read_times g n is1")
    show "length (buf (snd (read_times g (Suc n) is))) \<le> length (buf is)"
      using shrinksD[OF Suc.prems 1] shrinksD[OF Suc.IH[OF Suc.prems] 2] by (simp add: 1 2)
  qed
qed

lemma shrinks_read_head: "shrinks (read_head least a b c)"
proof (rule shrinksI)
  fix "is"
  obtain n is1 where 1: "get_unsigned is = (n, is1)" by (cases "get_unsigned is")
  obtain ch is2 where 2: "get_char is1 = (ch, is2)" by (cases "get_char is1")
  show "length (buf (snd (read_head least a b c is))) \<le> length (buf is)"
    using shrinksD[OF shrinks_get_unsigned 1] shrinksD[OF shrinks_get_char 2]
    by (simp add: read_head_def 1 2 split: option.splits)
qed

lemma shrinks_read_chars: "shrinks (read_chars n)"
proof (rule shrinksI)
  fix "is"
  show "length (buf (snd (read_chars n is))) \<le> length (buf is)"
  proof (induction n arbitrary: "is")
    case (Suc n)
    obtain ch is1 where 1: "get_char is = (ch, is1)" by (cases "get_char is")
    obtain r is2 where 2: "read_chars n is1 = (r, is2)" by (cases "read_chars n is1")
    show ?case using shrinksD[OF shrinks_get_char 1] Suc.IH[of is1] by (simp add: 1 2 split: option.splits)
  qed simp
qed

lemma shrinks_read_entry: "shrinks g \<Longrightarrow> shrinks (read_entry g)"
proof (rule shrinksI)
  fix "is" assume g: "shrinks g"
  obtain k is1 where 1: "g is = (k, is1)" by (cases "g is")
  obtain v is2 where 2: "g is1 = (v, is2)" by (cases "g is1")
  show "length (buf (snd (read_entry g is))) \<le> length (buf is)"
    using shrinksD[OF g 1] shrinksD[OF g 2] by (simp add: read_entry_def 1 2)
qed

text \<open>A reader that reads a head and then its elements.\<close>

lemma shrinks_body:
  assumes "\<And>n. shrinks (g n)"
  shows "shrinks (\<lambda>is. case read_head least a b c is of
      (Head_error e, is1) \<Rightarrow> (failed e, is1) | (Count n, is1) \<Rightarrow> g n is1)"
proof (rule shrinksI)
  fix "is"
  obtain h is1 where 1: "read_head least a b c is = (h, is1)" by (cases "read_head least a b c is")
  have "length (buf is1) \<le> length (buf is)" by (rule shrinksD[OF shrinks_read_head 1])
  moreover have "length (buf (snd (g n is1))) \<le> length (buf is1)" for n
    using assms by (simp add: shrinks_def)
  ultimately show "length (buf (snd (case read_head least a b c is of
      (Head_error e, is1) \<Rightarrow> (failed e, is1) | (Count n, is1) \<Rightarrow> g n is1))) \<le> length (buf is)"
    using 1 le_trans by (cases h) fastforce+
qed

lemma shrinks_map: "shrinks g \<Longrightarrow> shrinks (\<lambda>is. let (x, is') = g is in (f x, is'))"
  by (simp add: shrinks_def split_def Let_def)

lemma shrinks_String_unpackWithLen: "shrinks String_unpackWithLen"
  unfolding String_unpackWithLen_def
proof (rule shrinks_body)
  fix n
  have "length (buf (snd (read_chars n (is\<lparr>skipws := False\<rparr>)))) \<le> length (buf is)" for "is"
    using shrinks_read_chars[of n, unfolded shrinks_def, rule_format, of "is\<lparr>skipws := False\<rparr>"]
    by simp
  then show "shrinks (\<lambda>is1. case read_chars n (is1\<lparr>skipws := False\<rparr>) of
      (None, is2) \<Rightarrow> (failed ''Unable to unpack string length. String length excessive.'', is2)
    | (Some tmp, is2) \<Rightarrow> (Unpacked (BString tmp), is2\<lparr>skipws := True\<rparr>))"
    by (intro shrinksI) (simp add: split_def split: option.split)
qed

lemma shrinks_ObjArray_unpack: "shrinks g \<Longrightarrow> shrinks (ObjArray_unpack g)"
  unfolding ObjArray_unpack_def by (intro shrinks_body shrinks_map shrinks_read_times)

lemma shrinks_BDictionary_unpack: "shrinks g \<Longrightarrow> shrinks (BDictionary_unpack g)"
  unfolding BDictionary_unpack_def
  by (intro shrinks_body shrinks_map shrinks_read_times shrinks_read_entry)

lemma struct_unpack_eq:
  "struct_unpack least build g is =
     (case read_head least ''Unable to unpack struct elemcount''
             ''Unable to unpack struct elemcount. Length given must be positive integer!''
             ''Unable to unpack struct elemcount. Bad format. Colon not found!'' is of
        (Head_error e, is1) \<Rightarrow> (failed e, is1)
      | (Count n, is1) \<Rightarrow>
          (let (rs, is2) = read_times (read_entry g) n is1
           in (map_unpacked build (map_unpacked (foldl struct_entry []) (all_unpacked rs)), is2)))"
  by (simp add: struct_unpack_def read_members_def Let_def split: head_result.split prod.split)

lemma shrinks_struct_unpack: "shrinks g \<Longrightarrow> shrinks (struct_unpack least build g)"
  unfolding struct_unpack_eq[abs_def]
  by (intro shrinks_body shrinks_map shrinks_read_times shrinks_read_entry)

lemma shrinks_unpack: "shrinks (unpack fuel)"
proof (induction fuel)
  case 0
  then show ?case by (simp add: shrinks_def)
next
  case (Suc fuel)
  note parts = shrinks_getline shrinks_get_int shrinks_get_double shrinks_String_unpackWithLen
    shrinks_ObjArray_unpack[OF Suc] shrinks_BDictionary_unpack[OF Suc]
    shrinks_struct_unpack[OF Suc]
  show ?case
  proof (rule shrinksI)
    fix "is"
    obtain ch is1 where 1: "get_char is = (ch, is1)" by (cases "get_char is")
    have le: "length (buf is1) \<le> length (buf is)" by (rule shrinksD[OF shrinks_get_char 1])
    have "length (buf (snd (unpack (Suc fuel) is))) \<le> length (buf is1)"
      using parts
      by (simp add: shrinks_def 1 String_unpack_def BLong_unpack_def Double_unpack_def BBoolean_unpack_def
          BStruct_unpack_def BError_unpack_def Let_def split_def split: option.split)
    then show "length (buf (snd (unpack (Suc fuel) is))) \<le> length (buf is)" using le by simp
  qed
qed

section \<open>Enough fuel\<close>

definition suffices :: "(istream \<Rightarrow> 'a unpacked \<times> istream) \<Rightarrow> nat \<Rightarrow> bool" where
  "suffices g n \<longleftrightarrow> (\<forall>is. length (buf is) < n \<longrightarrow> fst (g is) \<noteq> OutOfFuel)"

lemma all_unpacked_OutOfFuel: "all_unpacked rs = OutOfFuel \<longleftrightarrow> OutOfFuel \<in> set rs"
proof (induction rs rule: all_unpacked.induct)
  case (3 x rs)
  then show ?case by (cases "all_unpacked rs") auto
next
  case (4 rs)
  then show ?case by (cases "all_unpacked rs") auto
qed auto

lemma map_unpacked_OutOfFuel [simp]: "map_unpacked f r = OutOfFuel \<longleftrightarrow> r = OutOfFuel"
  by (cases r) simp_all

lemma suffices_read_times:
  assumes "suffices g n" "shrinks g" "length (buf is) < n"
  shows "OutOfFuel \<notin> set (fst (read_times g k is))"
  using assms(3)
proof (induction k arbitrary: "is")
  case (Suc k)
  obtain x is1 where 1: "g is = (x, is1)" by (cases "g is")
  have "length (buf is1) < n" using shrinksD[OF assms(2) 1] Suc.prems by simp
  then show ?case
    using Suc.IH[of is1] assms(1) Suc.prems 1
    by (auto simp: suffices_def split_def Let_def)
qed simp

lemma suffices_read_entry:
  assumes "suffices g n" "shrinks g"
  shows "suffices (read_entry g) n"
proof -
  have "fst (read_entry g is) \<noteq> OutOfFuel" if "length (buf is) < n" for "is"
  proof -
    obtain k is1 where 1: "g is = (k, is1)" by (cases "g is")
    obtain v is2 where 2: "g is1 = (v, is2)" by (cases "g is1")
    have "length (buf is1) < n" using shrinksD[OF assms(2) 1] that by simp
    then have "k \<noteq> OutOfFuel" "v \<noteq> OutOfFuel"
      using assms(1) that 1 2 unfolding suffices_def by (metis fst_conv)+
    then show ?thesis by (simp add: read_entry_def 1 2 split: unpacked.splits)
  qed
  then show ?thesis by (simp add: suffices_def)
qed

lemma dict_entries_fuel: "dict_entries m kvs \<noteq> OutOfFuel"
  by (induction m kvs rule: dict_entries.induct) auto

lemma suffices_elements:
  assumes "suffices g n" "shrinks g" "length (buf is) < n"
  shows "all_unpacked (fst (read_times g k is)) \<noteq> OutOfFuel"
  using suffices_read_times[OF assms] by (simp add: all_unpacked_OutOfFuel)

lemma suffices_body:
  assumes "\<And>k. suffices (g k) n"
  shows "suffices (\<lambda>is. case read_head least a b c is of
      (Head_error e, is1) \<Rightarrow> (failed e, is1) | (Count k, is1) \<Rightarrow> g k is1) n"
proof -
  have "fst (case read_head least a b c is of
      (Head_error e, is1) \<Rightarrow> (failed e, is1) | (Count k, is1) \<Rightarrow> g k is1) \<noteq> OutOfFuel"
    if "length (buf is) < n" for "is"
  proof -
    obtain h is1 where 1: "read_head least a b c is = (h, is1)" by (cases "read_head least a b c is")
    have "length (buf is1) < n" using shrinksD[OF shrinks_read_head 1] that by simp
    then show ?thesis using assms 1 by (cases h) (simp_all add: suffices_def failed_def)
  qed
  then show ?thesis by (simp add: suffices_def)
qed

lemma suffices_elements':
  assumes "suffices g n" "shrinks g" "\<And>r. f r = OutOfFuel \<longleftrightarrow> r = OutOfFuel"
  shows "suffices (\<lambda>is. let (rs, is') = read_times g k is in (f (all_unpacked rs), is')) n"
  using suffices_elements[OF assms(1,2)] assms(3) by (simp add: suffices_def split_def Let_def)

lemma suffices_containers:
  assumes "suffices g n" "shrinks g"
  shows "suffices (ObjArray_unpack g) n" "suffices (BDictionary_unpack g) n"
    and "suffices (struct_unpack least build g) n"
proof -
  have bind: "bind_unpacked r (\<lambda>kvs. map_unpacked BDictionary (dict_entries [] kvs)) = OutOfFuel
      \<longleftrightarrow> r = OutOfFuel" for r
    using dict_entries_fuel by (cases r) auto
  note entry = suffices_read_entry[OF assms] shrinks_read_entry[OF assms(2)]
  show "suffices (ObjArray_unpack g) n"
    unfolding ObjArray_unpack_def by (intro suffices_body suffices_elements' assms) simp
  show "suffices (BDictionary_unpack g) n"
    unfolding BDictionary_unpack_def by (intro suffices_body suffices_elements' entry bind)
  show "suffices (struct_unpack least build g) n"
    unfolding struct_unpack_eq[abs_def] by (intro suffices_body suffices_elements' entry) simp
qed

lemma suffices_unpack: "suffices (unpack fuel) fuel"
proof (induction fuel)
  case 0
  then show ?case by (simp add: suffices_def)
next
  case (Suc fuel)
  note parts = suffices_containers[OF Suc shrinks_unpack]
  have "fst (unpack (Suc fuel) is) \<noteq> OutOfFuel" if "length (buf is) < Suc fuel" for "is"
  proof (cases "get_char is")
    case (Pair ch is1)
    show ?thesis
    proof (cases ch)
      case None
      then show ?thesis by (simp add: Pair failed_def)
    next
      case (Some c)
      then have "length (buf is1) < fuel" using get_char_length Pair that by fastforce
      then show ?thesis
        using parts
        by (simp add: suffices_def Pair Some String_unpack_def BLong_unpack_def Double_unpack_def
            BBoolean_unpack_def String_unpackWithLen_def BStruct_unpack_def BError_unpack_def
            failed_def Let_def split_def split: option.split head_result.split)
    qed
  qed
  then show ?case by (simp add: suffices_def)
qed

lemma unpack_str_returns: "unpack_str s \<noteq> OutOfFuel"
  using suffices_unpack[of "Suc (length (c_str s))"]
  by (simp add: unpack_str_def suffices_def istream_of_def)

end
