(* ===== verification/Roundtrip.thy ===== *)
theory Roundtrip
  imports Packing
begin

text \<open>
  What \<^verbatim>\<open>unpack\<close> makes of a packed value. The text of a value is read back up to
  what the format drops: a null reference and an uninitialised element of an array are the
  same, a function reference comes back uninitialised, and the member names of an old-style
  structure are lost. Reals are excluded, since their text has six digits; so are empty
  errors, strings with a NUL and containers of \<open>2 ^ 31\<close> elements.
\<close>

section \<open>Values that can be read back\<close>

definition text_ok :: "string \<Rightarrow> bool" where
  "text_ok s \<longleftrightarrow> length s < 2 ^ 31 \<and> CHR 0x00 \<notin> set s"

function (sequential) packable :: "BObjectImp \<Rightarrow> bool"
  and packable_elems :: "BObjectImp option list \<Rightarrow> bool"
  and packable_members :: "(string \<times> BObjectImp) list \<Rightarrow> bool"
  and packable_entries :: "(BObjectImp \<times> BObjectImp) list \<Rightarrow> bool"
where
  "packable (BString s) = text_ok s"
| "packable (BDouble d) = False"
| "packable (ObjArray _ es) = (length es < 2 ^ 31 \<and> packable_elems es)"
| "packable (BStruct c) = (length c < 2 ^ 31 \<and> ci.wf c \<and> packable_members c)"
| "packable (BError c) = (c \<noteq> [] \<and> length c < 2 ^ 31 \<and> ci.wf c \<and> packable_members c)"
| "packable (BDictionary m) = (length m < 2 ^ 31 \<and> dk.wf m \<and> packable_entries m)"
| "packable _ = True"
| "packable_elems [] = True"
| "packable_elems (None # es) = packable_elems es"
| "packable_elems (Some v # es) = (packable v \<and> packable_elems es)"
| "packable_members [] = True"
| "packable_members ((k, v) # c) = (text_ok k \<and> packable v \<and> packable_members c)"
| "packable_entries [] = True"
| "packable_entries ((k, v) # m) = (packable k \<and> packable v \<and> packable_entries m)"
  by pat_completeness auto
termination
  by (relation "measure (case_sum (case_sum size elems_size) (case_sum members_size entries_size))")
    auto

text \<open>The value that is read back.\<close>

function (sequential) stored :: "BObjectImp \<Rightarrow> BObjectImp"
  and stored_elems :: "BObjectImp option list \<Rightarrow> BObjectImp list"
  and stored_members :: "(string \<times> BObjectImp) list \<Rightarrow> (string \<times> BObjectImp) list"
  and stored_entries :: "(BObjectImp \<times> BObjectImp) list \<Rightarrow> (BObjectImp \<times> BObjectImp) list"
where
  "stored (ObjArray _ es) = ObjArray [] (map array_ref (stored_elems es))"
| "stored (BStruct c) = BStruct (stored_members c)"
| "stored (BError c) = BError (stored_members c)"
| "stored (BDictionary m) = BDictionary (stored_entries m)"
| "stored (BFunctionRef _ _ _) = UninitObject"
| "stored v = v"
| "stored_elems [] = []"
| "stored_elems (None # es) = UninitObject # stored_elems es"
| "stored_elems (Some v # es) = stored v # stored_elems es"
| "stored_members [] = []"
| "stored_members ((k, v) # c) = (k, stored v) # stored_members c"
| "stored_entries [] = []"
| "stored_entries ((k, v) # m) = (stored k, stored v) # stored_entries m"
  by pat_completeness auto
termination
  by (relation "measure (case_sum (case_sum size elems_size) (case_sum members_size entries_size))")
    auto

section \<open>Reading a text followed by another\<close>

definition digit_first :: "string \<Rightarrow> bool" where
  "digit_first s \<longleftrightarrow> s \<noteq> [] \<and> is_digit (hd s)"

text \<open>
  The reader stopped at \<open>rest\<close>; \<^verbatim>\<open>eofbit\<close> may be set only at the end.
\<close>

definition at_rest :: "'a \<times> istream \<Rightarrow> 'a \<Rightarrow> string \<Rightarrow> bool" where
  "at_rest r x rest \<longleftrightarrow> (\<exists>e. r = (x, ended rest e) \<and> (rest \<noteq> [] \<longrightarrow> \<not> e))"

lemma at_restI: "rest \<noteq> [] \<longrightarrow> \<not> e \<Longrightarrow> at_rest (x, ended rest e) x rest"
  by (auto simp: at_rest_def)

lemma at_rest_ready [simp]: "at_rest (x, ready rest) x rest"
  using at_restI[of rest False] by simp

lemma at_rest_nonempty: "rest \<noteq> [] \<Longrightarrow> at_rest r x rest \<longleftrightarrow> r = (x, ready rest)"
  by (auto simp: at_rest_def) (metis ended_False)

lemma at_rest_map: "at_rest r x rest \<Longrightarrow> at_rest (let (y, is') = r in (f y, is')) (f x) rest"
  by (auto simp: at_rest_def)

definition returns :: "(istream \<Rightarrow> 'a unpacked \<times> istream) \<Rightarrow> string \<Rightarrow> 'a \<Rightarrow> bool" where
  "returns g s x \<longleftrightarrow>
     (\<forall>rest. \<not> digit_first rest \<longrightarrow> at_rest (g (ready (s @ rest))) (Unpacked x) rest)"

lemma returnsI:
  "(\<And>rest. \<not> digit_first rest \<Longrightarrow> at_rest (g (ready (s @ rest))) (Unpacked x) rest) \<Longrightarrow> returns g s x"
  by (simp add: returns_def)

lemma returnsD:
  "returns g s x \<Longrightarrow> \<not> digit_first rest \<Longrightarrow> at_rest (g (ready (s @ rest))) (Unpacked x) rest"
  by (simp add: returns_def)

lemma returns_start:
  "returns g s x \<Longrightarrow> rest \<noteq> [] \<Longrightarrow> \<not> digit_first rest \<Longrightarrow> g (ready (s @ rest)) = (Unpacked x, ready rest)"
  by (rule at_rest_nonempty[THEN iffD1, OF _ returnsD])

definition starts :: "string \<Rightarrow> bool" where
  "starts s \<longleftrightarrow> s \<noteq> [] \<and> \<not> digit_first s"

lemma starts_append: "starts s \<Longrightarrow> starts (s @ t)"
  by (cases s) (auto simp: starts_def digit_first_def)

lemma starts_rest: "starts s \<Longrightarrow> s @ t \<noteq> [] \<and> \<not> digit_first (s @ t)"
  using starts_append by (simp add: starts_def)

lemma returns_times:
  assumes "list_all2 (\<lambda>s x. returns g s x \<and> starts s) ss xs" "\<not> digit_first rest"
  shows "at_rest (read_times g (length xs) (ready (concat ss @ rest))) (map Unpacked xs) rest"
  using assms(1)
proof (induction ss xs rule: list_all2_induct)
  case Nil
  then show ?case by simp
next
  case (Cons s ss x xs)
  show ?case
  proof (cases "concat ss @ rest = []")
    case True
    then have "ss = []" using Cons(2) by (cases ss) (auto simp: starts_def list_all2_Cons1)
    moreover have "xs = []" using Cons(2) \<open>ss = []\<close> by simp
    ultimately show ?thesis
      using at_rest_map[OF returnsD[OF Cons(1)[THEN conjunct1] assms(2)], of "\<lambda>y. [y]"] by simp
  next
    case False
    have "\<not> digit_first (concat ss @ rest)"
      using Cons(2) assms(2) starts_rest by (cases ss) (auto simp: list_all2_Cons1)
    then have "g (ready (s @ concat ss @ rest)) = (Unpacked x, ready (concat ss @ rest))"
      using Cons(1) False returns_start[of g s x "concat ss @ rest"] by simp
    then show ?thesis using at_rest_map[OF Cons(3), of "(#) (Unpacked x)"] by simp
  qed
qed

lemma all_unpacked_map [simp]: "all_unpacked (map Unpacked xs) = Unpacked xs"
  by (induction xs) auto

lemma returns_entry:
  assumes "returns g s x" "returns g t y" "starts t"
  shows "returns (read_entry g) (s @ t) (x, y)"
proof (rule returnsI)
  fix rest assume r: "\<not> digit_first rest"
  have "g (ready (s @ t @ rest)) = (Unpacked x, ready (t @ rest))"
    using returns_start[OF assms(1)] starts_rest[OF assms(3)] by blast
  then show "at_rest (read_entry g (ready ((s @ t) @ rest))) (Unpacked (x, y)) rest"
    using at_rest_map[OF returnsD[OF assms(2) r], of "\<lambda>v. case (Unpacked x, v) of
            (OutOfFuel, _) \<Rightarrow> OutOfFuel
          | (_, OutOfFuel) \<Rightarrow> OutOfFuel
          | (Unpacked k, Unpacked v) \<Rightarrow> Unpacked (k, v)
          | _ \<Rightarrow> AddressDependent"]
    by (simp add: read_entry_def)
qed

section \<open>Heads and strings\<close>

lemma read_head_count:
  assumes "n < 2 ^ 31" "least \<le> int n"
  shows "read_head least a b c (ready (show_nat n @ CHR '':'' # rest)) = (Count n, ready rest)"
proof -
  have "get_unsigned (ready (show_nat n @ CHR '':'' # rest)) = (Some (int n), ready (CHR '':'' # rest))"
    using assms(1) by (intro get_unsigned_show) (auto simp: is_digit_def byte_def)
  moreover have "get_char (ready (CHR '':'' # rest)) = (Some CHR '':'', ready rest)"
    by (rule get_char_ready) (simp add: isspace_def byte_def)
  moreover have "sint (word_of_int (int n) :: int32) = int n"
    using assms(1) by (intro sint_of_int32) simp_all
  ultimately show ?thesis using assms(2) by (simp add: read_head_def)
qed

lemma read_chars_all:
  assumes "CHR 0x00 \<notin> set s"
  shows "read_chars (length s) ((ready (s @ rest))\<lparr>skipws := False\<rparr>)
    = (Some s, (ready rest)\<lparr>skipws := False\<rparr>)"
  using assms
proof (induction s)
  case (Cons c s)
  have "get_char ((ready ((c # s) @ rest))\<lparr>skipws := False\<rparr>)
      = (Some c, (ready (s @ rest))\<lparr>skipws := False\<rparr>)"
    by (simp add: get_char_def sentry_def good_def ready_def)
  then show ?case using Cons by (auto simp: Let_def)
qed simp

lemma String_unpackWithLen_ok:
  assumes "text_ok s"
  shows "String_unpackWithLen (ready (show_nat (length s) @ CHR '':'' # s @ rest))
    = (Unpacked (BString s), ready rest)"
proof -
  have len: "length s < 2 ^ 31" "CHR 0x00 \<notin> set s" using assms by (auto simp: text_ok_def)
  show ?thesis
    using read_chars_all[OF len(2), of rest] read_head_count[OF len(1), of 0]
    by (simp add: String_unpackWithLen_def) (simp add: ready_def)
qed

lemma get_char_letter:
  "\<not> isspace c \<Longrightarrow> get_char (ready (c # cs)) = (Some c, ready cs)"
  by (rule get_char_ready)

lemma letters [simp]:
  "\<not> isspace CHR ''S''" "\<not> isspace CHR ''i''" "\<not> isspace CHR ''b''" "\<not> isspace CHR ''u''"
  "\<not> isspace CHR ''x''" "\<not> isspace CHR ''a''" "\<not> isspace CHR ''t''" "\<not> isspace CHR ''e''"
  "\<not> isspace CHR ''d''" "\<not> isspace CHR ''r''"
  by (simp_all add: isspace_def byte_def)

lemma returns_String: "text_ok s \<Longrightarrow> 0 < f \<Longrightarrow> returns (unpack f) (String_packonto s) (BString s)"
  by (cases f) (auto intro!: returnsI simp: String_packonto_def get_char_ready String_unpackWithLen_ok)

section \<open>Containers\<close>

text \<open>The texts of the elements.\<close>

fun elem_text :: "BObjectImp option \<Rightarrow> string" where
  "elem_text None = ''x''"
| "elem_text (Some v) = packonto v"

lemma ObjArray_packonto_concat: "ObjArray_packonto es = concat (map elem_text es)"
proof (induction es)
  case (Cons e es)
  then show ?case by (cases e) simp_all
qed simp

lemma BStruct_packonto_concat:
  "BStruct_packonto c = concat (map (\<lambda>(k, v). String_packonto k @ packonto v) c)"
  by (induction c) auto

lemma BDictionary_packonto_concat:
  "BDictionary_packonto m = concat (map (\<lambda>(k, v). packonto k @ packonto v) m)"
  by (induction m) auto

lemma count_head_starts: "\<not> is_digit c \<Longrightarrow> starts (count_head c n @ s)"
  by (simp add: starts_def digit_first_def count_head_def)

lemma starts_packonto: "starts (packonto v)"
  by (cases v) (auto simp: starts_def digit_first_def count_head_def String_packonto_def
      BLong_packonto_def Double_packonto_def BBoolean_packonto_def is_digit_def byte_def)

lemma starts_elem_text: "starts (elem_text e)"
proof (cases e)
  case None
  then show ?thesis by (simp add: starts_def digit_first_def is_digit_def byte_def)
qed (simp add: starts_packonto)

lemma starts_String_packonto: "starts (String_packonto s)"
  using starts_packonto[of "BString s"] by simp

text \<open>A container reader on a packed container.\<close>

lemma returns_elements:
  assumes "list_all2 (\<lambda>s x. returns g s x \<and> starts s) ss xs" "length xs < 2 ^ 31"
    and "least \<le> int (length xs)" "\<not> digit_first rest"
  shows "at_rest
    (case read_head least a b c (ready (show_nat (length xs) @ CHR '':'' # concat ss @ rest)) of
        (Head_error e, is1) \<Rightarrow> (failed e, is1)
      | (Count n, is1) \<Rightarrow> (let (rs, is2) = read_times g n is1 in (f (all_unpacked rs), is2)))
    (f (Unpacked xs)) rest"
  using at_rest_map[OF returns_times[OF assms(1,4)], of "\<lambda>rs. f (all_unpacked rs)"]
    read_head_count[OF assms(2,3)] by simp

lemma unpack_letter:
  "unpack (Suc f) (ready (CHR ''a'' # s)) = ObjArray_unpack (unpack f) (ready s)"
  "unpack (Suc f) (ready (CHR ''t'' # s)) = BStruct_unpack (unpack f) (ready s)"
  "unpack (Suc f) (ready (CHR ''e'' # s)) = BError_unpack (unpack f) (ready s)"
  "unpack (Suc f) (ready (CHR ''d'' # s)) = BDictionary_unpack (unpack f) (ready s)"
  by (simp_all add: get_char_ready)

lemmas unpack_array = unpack_letter(1)[unfolded ObjArray_unpack_def]
lemmas unpack_struct = unpack_letter(2)[unfolded BStruct_unpack_def struct_unpack_eq]
lemmas unpack_error = unpack_letter(3)[unfolded BError_unpack_def struct_unpack_eq]
lemmas unpack_dictionary = unpack_letter(4)[unfolded BDictionary_unpack_def]

lemma returns_container:
  assumes "\<And>s. unpack (Suc f) (ready (ch # s)) = (case read_head least a b c (ready s) of
        (Head_error e, is1) \<Rightarrow> (failed e, is1)
      | (Count n, is1) \<Rightarrow> (let (rs, is2) = read_times g n is1 in (h (all_unpacked rs), is2)))"
    and "list_all2 (\<lambda>s x. returns g s x \<and> starts s) ss xs" "length xs < 2 ^ 31"
    and "least \<le> int (length xs)" "h (Unpacked xs) = Unpacked v"
  shows "returns (unpack (Suc f)) (count_head ch (length xs) @ concat ss) v"
proof (rule returnsI)
  fix rest assume "\<not> digit_first rest"
  from returns_elements[OF assms(2-4) this, where a = a and b = b and c = c and f = h]
  show "at_rest (unpack (Suc f) (ready ((count_head ch (length xs) @ concat ss) @ rest)))
      (Unpacked v) rest"
    unfolding count_head_def append_Cons append_assoc append_Nil assms(1) assms(5) .
qed

lemma returns_ObjArray:
  assumes "list_all2 (\<lambda>s x. returns (unpack f) s x \<and> starts s) ss xs" "length xs < 2 ^ 31"
  shows "returns (unpack (Suc f)) (count_head CHR ''a'' (length xs) @ concat ss)
    (ObjArray [] (map array_ref xs))"
  by (rule returns_container[OF unpack_array assms]) simp_all

lemma returns_BStruct:
  assumes "list_all2 (\<lambda>s x. returns (read_entry (unpack f)) s x \<and> starts s) ss kvs"
    and "length kvs < 2 ^ 31"
  shows "returns (unpack (Suc f)) (count_head CHR ''t'' (length kvs) @ concat ss)
    (BStruct (foldl struct_entry [] kvs))"
  by (rule returns_container[OF unpack_struct assms]) simp_all

lemma returns_BError:
  assumes "list_all2 (\<lambda>s x. returns (read_entry (unpack f)) s x \<and> starts s) ss kvs"
    and "length kvs < 2 ^ 31" "kvs \<noteq> []"
  shows "returns (unpack (Suc f)) (count_head CHR ''e'' (length kvs) @ concat ss)
    (BError (foldl struct_entry [] kvs))"
proof -
  have one: "1 \<le> int (length kvs)" using assms(3) by (cases kvs) auto
  show ?thesis
    by (rule returns_container[OF unpack_error assms(1,2) one]) simp
qed

lemma returns_BDictionary:
  assumes "list_all2 (\<lambda>s x. returns (read_entry (unpack f)) s x \<and> starts s) ss kvs"
    and "length kvs < 2 ^ 31" "dict_entries [] kvs = Unpacked m"
  shows "returns (unpack (Suc f)) (count_head CHR ''d'' (length kvs) @ concat ss) (BDictionary m)"
  by (rule returns_container[OF unpack_dictionary assms(1,2)]) (simp_all add: assms(3))

section \<open>The round trip\<close>

lemma stored_members_keys: "map fst (stored_members c) = map fst c"
  by (induction c) auto

lemma stored_key: "dict_key k \<Longrightarrow> stored k = k"
  by (cases k) (simp_all add: dict_key_def)

lemma stored_entries_keys: "dk.wf m \<Longrightarrow> map fst (stored_entries m) = map fst m"
  by (induction m) (auto simp: stored_key)

lemma length_stored [simp]:
  "length (stored_elems es) = length es" "length (stored_members c) = length c"
  "length (stored_entries m) = length m"
proof -
  show "length (stored_elems es) = length es"
  proof (induction es)
    case (Cons e es)
    then show ?case by (cases e) simp_all
  qed simp
  show "length (stored_members c) = length c" by (induction c) auto
  show "length (stored_entries m) = length m" by (induction m) auto
qed

lemma struct_entries:
  "foldl struct_entry m (map (\<lambda>(k, v). (BString k, v)) c) = omap_sets ci_less c m"
  by (induction c arbitrary: m) (auto simp: struct_entry_def omap_sets_def)

lemma struct_entries_wf:
  "ci.wf c \<Longrightarrow> foldl struct_entry [] (map (\<lambda>(k, v). (BString k, v)) c) = c"
  using ci.sets_wf[of "[]" c] by (simp add: struct_entries)

lemma dict_entries_wf: "dk.wf (m @ kvs) \<Longrightarrow> dict_entries m kvs = Unpacked (m @ kvs)"
proof (induction kvs arbitrary: m)
  case (Cons kv kvs)
  obtain k v where kv: "kv = (k, v)" by (cases kv)
  have k: "dict_key k" "\<forall>x \<in> fst ` set m. dict_less x k" "dk.wf m"
    using Cons.prems by (auto simp: kv dk.wf_append)
  have "\<not> key_undetermined k m"
    using dict_key_determined[OF k(1)] dict_key_determined[OF _ k(1)] dk.wf_key[OF k(3)]
    unfolding key_undetermined_def by blast
  moreover have "omap_set dict_less k v m = m @ [(k, v)]" by (rule dk.set_above[OF k(2)])
  moreover have "dict_entries (m @ [(k, v)]) kvs = Unpacked ((m @ [(k, v)]) @ kvs)"
    using Cons.prems by (intro Cons.IH) (simp add: kv)
  ultimately show ?case by (simp add: kv)
qed simp

lemma returns_BLong: "0 < f \<Longrightarrow> returns (unpack f) (BLong_packonto i) (BLong i)"
proof (rule returnsI)
  fix rest assume f: "0 < f" and r: "\<not> digit_first rest"
  obtain g where g: "f = Suc g" using f by (cases f) auto
  have "get_int (ready (show_int (sint i) @ rest)) = (Some (sint i), ended rest (rest = []))"
    using sint32_bounds[of i] r by (intro get_int_show) (auto simp: digit_first_def)
  then show "at_rest (unpack f (ready (BLong_packonto i @ rest))) (Unpacked (BLong i)) rest"
    by (simp add: g BLong_packonto_def get_char_ready BLong_unpack_def at_restI)
qed

lemma returns_BBoolean: "0 < f \<Longrightarrow> returns (unpack f) (BBoolean_packonto b) (BBoolean b)"
proof (rule returnsI)
  fix rest assume f: "0 < f" and r: "\<not> digit_first rest"
  obtain g where g: "f = Suc g" using f by (cases f) auto
  have num: "show_nat n = show_int (int n)" for n by (simp add: show_int_def)
  have "get_int (ready (show_nat n @ rest)) = (Some (int n), ended rest (rest = []))" if "n \<le> 1" for n
    unfolding num using that r by (intro get_int_show) (auto simp: digit_first_def)
  from this[of "if b then 1 else 0"]
  show "at_rest (unpack f (ready (BBoolean_packonto b @ rest))) (Unpacked (BBoolean b)) rest"
    by (cases b) (simp_all add: g BBoolean_packonto_def get_char_ready BBoolean_unpack_def at_restI)
qed

lemma returns_letter_u: "0 < f \<Longrightarrow> returns (unpack f) ''u'' UninitObject"
  by (cases f) (auto intro!: returnsI simp: get_char_ready)

lemma returns_letter_x: "0 < f \<Longrightarrow> returns (unpack f) ''x'' UninitObject"
  by (cases f) (auto intro!: returnsI simp: get_char_ready)

lemma starts_length: "starts s \<Longrightarrow> length s \<le> f \<Longrightarrow> 0 < f"
  by (cases s) (auto simp: starts_def)

lemma length_count_head: "2 < length (count_head c n)"
  using show_nat_nonempty[of n] by (cases "show_nat n") (auto simp: count_head_def)

lemma body_fuel:
  assumes "length (count_head c n @ s) \<le> f"
  obtains g where "f = Suc g" "length s < g"
proof -
  have "2 < f" using assms length_count_head[of c n] by simp
  then show thesis using that[of "f - 1"] assms length_count_head[of c n] by simp
qed

lemma returns_unpack:
  shows "packable v \<Longrightarrow> length (packonto v) \<le> f \<Longrightarrow> returns (unpack f) (packonto v) (stored v)"
    and "packable_elems es \<Longrightarrow> length (ObjArray_packonto es) < f \<Longrightarrow>
      list_all2 (\<lambda>s x. returns (unpack f) s x \<and> starts s) (map elem_text es) (stored_elems es)"
    and "packable_members c \<Longrightarrow> length (BStruct_packonto c) < f \<Longrightarrow>
      list_all2 (\<lambda>s x. returns (read_entry (unpack f)) s x \<and> starts s)
        (map (\<lambda>(k, v). String_packonto k @ packonto v) c)
        (map (\<lambda>(k, v). (BString k, v)) (stored_members c))"
    and "packable_entries m \<Longrightarrow> length (BDictionary_packonto m) < f \<Longrightarrow>
      list_all2 (\<lambda>s x. returns (read_entry (unpack f)) s x \<and> starts s)
        (map (\<lambda>(k, v). packonto k @ packonto v) m) (stored_entries m)"
proof (induction v and es and c and m arbitrary: f and f and f and f
    rule: packonto_ObjArray_packonto_BStruct_packonto_BDictionary_packonto.induct)
  case (1 s)
  then have "0 < f" using starts_String_packonto[of s] by (cases f) (auto simp: starts_def)
  then show ?case using 1 returns_String by simp
next
  case (2 i)
  then show ?case using returns_BLong starts_length[OF starts_packonto[of "BLong i"]] by simp
next
  case (3 d)
  then show ?case by simp
next
  case (4 b)
  then show ?case using returns_BBoolean starts_length[OF starts_packonto[of "BBoolean b"]] by simp
next
  case (5 ns es)
  obtain g where g: "f = Suc g" "length (ObjArray_packonto es) < g"
    by (rule body_fuel[of "CHR ''a''" "length es" "ObjArray_packonto es" f]) (use 5 in simp_all)
  show ?case
    using returns_ObjArray[OF "5.IH"[OF _ g(2)]] "5.prems"(1) by (simp add: g(1) ObjArray_packonto_concat del: unpack.simps)
next
  case (6 c)
  obtain g where g: "f = Suc g" "length (BStruct_packonto c) < g"
    by (rule body_fuel[of "CHR ''t''" "length c" "BStruct_packonto c" f]) (use 6 in simp_all)
  have "ci.wf (stored_members c)" using 6 ci.wf_keys[OF stored_members_keys] by simp
  then show ?case
    using returns_BStruct[OF "6.IH"[OF _ g(2)]] "6.prems"(1)
    by (simp add: g(1) BStruct_packonto_concat struct_entries_wf del: unpack.simps)
next
  case (7 c)
  obtain g where g: "f = Suc g" "length (BStruct_packonto c) < g"
    by (rule body_fuel[of "CHR ''e''" "length c" "BStruct_packonto c" f]) (use 7 in simp_all)
  have "ci.wf (stored_members c)" using 7 ci.wf_keys[OF stored_members_keys] by simp
  moreover have "stored_members c \<noteq> []" using "7.prems"(1) by (cases c) auto
  ultimately show ?case
    using returns_BError[OF "7.IH"[OF _ g(2)]] "7.prems"(1)
    by (simp add: g(1) BStruct_packonto_concat struct_entries_wf del: unpack.simps)
next
  case (8 m)
  obtain g where g: "f = Suc g" "length (BDictionary_packonto m) < g"
    by (rule body_fuel[of "CHR ''d''" "length m" "BDictionary_packonto m" f]) (use 8 in simp_all)
  have "dk.wf (stored_entries m)" using 8 dk.wf_keys[OF stored_entries_keys] by simp
  then have "dict_entries [] (stored_entries m) = Unpacked (stored_entries m)"
    using dict_entries_wf[of "[]"] by simp
  then show ?case
    using returns_BDictionary[OF "8.IH"[OF _ g(2)]] "8.prems"(1)
    by (simp add: g(1) BDictionary_packonto_concat del: unpack.simps)
next
  case 9
  then show ?case using returns_letter_u by simp
next
  case (10 pc n sn)
  then show ?case using returns_letter_u by simp
next
  case 11
  then show ?case by simp
next
  case (12 es)
  then show ?case using returns_letter_x starts_elem_text[of None] by simp
next
  case (13 v es)
  then show ?case using starts_packonto[of v] by simp
next
  case 14
  then show ?case by simp
next
  case (15 k v c)
  have "0 < f" using "15.prems"(2) by simp
  then have "returns (unpack f) (String_packonto k) (BString k)"
    using "15.prems"(1) returns_String by simp
  moreover have "returns (unpack f) (packonto v) (stored v)" using 15 by simp
  ultimately show ?case
    using 15 returns_entry starts_packonto starts_append[OF starts_String_packonto] by simp
next
  case 16
  then show ?case by simp
next
  case (17 k v m)
  then show ?case using returns_entry starts_packonto starts_append[OF starts_packonto] by simp
qed

section \<open>Whole texts\<close>

lemma show_nat_no_nul [simp]: "CHR 0x00 \<notin> set (show_nat n)"
  using show_nat_digits[of n] by (auto simp: list_all_iff is_digit_def byte_def)

lemma show_int_no_nul [simp]: "CHR 0x00 \<notin> set (show_int i)"
  by (simp add: show_int_def)

lemma packonto_no_nul:
  "packable v \<Longrightarrow> CHR 0x00 \<notin> set (packonto v)"
  "packable_elems es \<Longrightarrow> CHR 0x00 \<notin> set (ObjArray_packonto es)"
  "packable_members c \<Longrightarrow> CHR 0x00 \<notin> set (BStruct_packonto c)"
  "packable_entries m \<Longrightarrow> CHR 0x00 \<notin> set (BDictionary_packonto m)"
  by (induction v and es and c and m
      rule: packonto_ObjArray_packonto_BStruct_packonto_BDictionary_packonto.induct)
    (auto simp: String_packonto_def BLong_packonto_def BBoolean_packonto_def count_head_def
      text_ok_def)

lemma c_str_no_nul: "CHR 0x00 \<notin> set s \<Longrightarrow> c_str s = s"
  by (auto simp: c_str_def takeWhile_eq_all_conv)

lemma unpack_packonto:
  assumes "packable v"
  shows "unpack_str (packonto v) = Unpacked (stored v)"
proof -
  have "at_rest (unpack (Suc (length (packonto v))) (ready (packonto v @ []))) (Unpacked (stored v)) []"
    by (rule returnsD[OF returns_unpack(1)[OF assms]]) (simp_all add: digit_first_def)
  then show ?thesis
    by (auto simp: unpack_str_def c_str_no_nul[OF packonto_no_nul(1)[OF assms]] istream_of_ready
        at_rest_def simp del: unpack.simps)
qed

text \<open>A string on its own is packed up to the end of the line.\<close>

lemma unpack_pack_String:
  assumes "CHR 0x00 \<notin> set s"
  shows "unpack_str (pack (BString s)) = Unpacked (BString (takeWhile (\<lambda>c. c \<noteq> CHR 0x0A) s))"
proof -
  have "get_char (ready (CHR ''s'' # s)) = (Some CHR ''s'', ready s)"
    by (rule get_char_ready) (simp add: isspace_def byte_def)
  moreover have "fst (getline (ready s)) = takeWhile (\<lambda>c. c \<noteq> CHR 0x0A) s"
    by (simp add: getline_def good_def ready_def Let_def)
  moreover have "c_str (CHR ''s'' # s) = CHR ''s'' # s" using assms by (intro c_str_no_nul) simp
  ultimately show ?thesis
    by (simp add: unpack_str_def pack_def String_pack_def istream_of_ready String_unpack_def split_def)
qed

section \<open>A real in front of an error\<close>

definition real_one :: dbl where
  "real_one = DFin False (2 ^ 52) (-52)"

lemma show_real_one: "d_show real_one = ''1''"
proof -
  have "char_of (48 :: nat) = CHR ''0''" "char_of (49 :: nat) = CHR ''1''" by code_simp+
  then show ?thesis
    by (simp add: real_one_def show_pos_def dec_exponent_def round_dec_def show_nat.simps
        with_point_def strip_zeros_def digit_char_def Let_def)
qed

lemma read_real_one_error:
  "get_double (ready (CHR ''1'' # CHR ''e'' # CHR ''1'' # CHR '':'' # cs)) =
     (Some (d_of_int 10), ready (CHR '':'' # cs))"
  by (simp add: get_double_def sentry_def good_def ready_def isspace_def byte_def scan_int_def
      scan_sign_def is_digit_def scan_frac_def scan_exp_def read_nat_def digit_val_def dbl_of_dec_def
      d_of_int_def dround_def floor_to_def round_to_def nbits.simps Let_def)

lemma unpack_no_type: "unpack (Suc n) (ready (CHR '':'' # cs)) =
  (failed (''Unknown object type '' @ [CHR 0x27, CHR '':'', CHR 0x27]), ready cs)"
  by (simp add: get_char_ready isspace_def byte_def)

lemma unpack_real_one: "unpack (Suc n) (ready (''r1e1:'' @ cs)) =
  (Unpacked (BDouble (d_of_int 10)), ready (CHR '':'' # cs))"
  using read_real_one_error[of cs] by (simp add: get_char_ready isspace_def byte_def Double_unpack_def)

lemma show_small: "show_nat 1 = ''1''" "show_nat (Suc 0) = ''1''" "show_nat 2 = ''2''" "show_nat 9 = ''9''"
  by code_simp+

lemma pack_real_error:
  "packonto (ObjArray [] [Some (BDouble real_one), Some (mk_error msg)]) =
     ''a2:r1e1:S9:errortext'' @ String_packonto msg"
proof -
  have "length [Some (BDouble real_one), Some (mk_error msg)] = 2" "length ''errortext'' = 9"
    "length [(''errortext'', BString msg)] = 1" by simp_all
  then show ?thesis
    by (simp add: count_head_def Double_packonto_def show_real_one mk_error_def String_packonto_def
        show_small del: list.size)
qed

lemma unpack_real_error:
  "unpack (Suc (Suc n)) (ready (''a2:r1e1:'' @ cs)) =
     (Unpacked (ObjArray [] [Some (BDouble (d_of_int 10)),
        Some (mk_error (''Unknown object type '' @ [CHR 0x27, CHR '':'', CHR 0x27]))]), ready cs)"
proof -
  have "read_head 0 a b c (ready (''2:'' @ r)) = (Count 2, ready r)" for a b c r
    using read_head_count[of 2 0 a b c r] by (simp add: show_small)
  moreover have "read_times g 2 is = (let (x, is1) = g is; (y, is2) = g is1 in ([x, y], is2))"
    for g :: "istream \<Rightarrow> BObjectImp unpacked \<times> istream" and "is"
    by (simp add: numeral_2_eq_2 split_def Let_def)
  moreover have "get_char (ready (''a2:'' @ r)) = (Some CHR ''a'', ready (''2:'' @ r))" for r
    by (simp add: get_char_ready isspace_def byte_def)
  ultimately show ?thesis
    using unpack_real_one[of n cs] unpack_no_type[of n cs]
    by (simp add: ObjArray_unpack_def failed_def array_ref_def isa_def del: unpack.simps(2))
      (simp add: ObjArray_unpack_def failed_def array_ref_def isa_def)
qed

section \<open>Properties\<close>

text \<open>
  C2. Reading back the packed text of a value gives the value, up to what the format drops:
  \<open>stored\<close> makes function references and null references uninitialised and forgets the
  member names of old-style structures. \<open>packable\<close> says of which values this holds: they hold
  no reals (see below), no strings with a zero byte, no errors without members, which are
  packed as \<^verbatim>\<open>e0:\<close> and refused, and less than 2 to the 31st elements and characters each.
\<close>

theorem unpack_inverts_pack:
  assumes "packable v"
  shows "unpack_str (packonto v) = Unpacked (stored v)"
  by (rule unpack_packonto[OF assms])

lemma unpack_inverts_pack_witness:
  "unpack_str (packonto (ObjArray [] [Some (BStruct [(''a'', BString ''1:x'')]), None, Some (BLong (- 1))])) =
   Unpacked (ObjArray [] [Some (BStruct [(''a'', BString ''1:x'')]), None, Some (BLong (- 1))])"
proof -
  have "packable (ObjArray [] [Some (BStruct [(''a'', BString ''1:x'')]), None, Some (BLong (- 1))])"
    by (simp add: text_ok_def ci.wf_def)
  then show ?thesis
    using unpack_inverts_pack by (fastforce simp: array_ref_def isa_def)
qed

text \<open>
  C36. Unpacking ends on every text: a nesting bound of one more than the characters of the
  text is never reached.
\<close>

theorem unpack_returns: "unpack_str s \<noteq> OutOfFuel"
  by (rule unpack_str_returns)

text \<open>
  A string packed on its own is read back only up to its first line break.
\<close>

theorem packed_string_cut:
  assumes "CHR 0x00 \<notin> set s"
  shows "unpack_str (pack (BString s)) = Unpacked (BString (takeWhile (\<lambda>c. c \<noteq> CHR 0x0A) s))"
  by (rule unpack_pack_String[OF assms])

lemma packed_string_cut_witness:
  "unpack_str (pack (BString [CHR ''a'', CHR 0x0A, CHR ''b''])) = Unpacked (BString ''a'')"
  using packed_string_cut[of "[CHR ''a'', CHR 0x0A, CHR ''b'']"] by simp

text \<open>
  A real number followed by an error does not survive packing: the type letter and the
  count of the error are read as the exponent of the real, and 1.0 comes back as 10.0 with
  an error that the type is unknown.
\<close>

theorem packed_real_swallows_error:
  "unpack_str (packonto (ObjArray [] [Some (BDouble real_one), Some (mk_error msg)])) =
   Unpacked (ObjArray [] [Some (BDouble (d_of_int 10)),
     Some (mk_error (''Unknown object type '' @ [CHR 0x27, CHR '':'', CHR 0x27]))])"
proof -
  let ?s = "''a2:r1e1:S9:errortext'' @ String_packonto msg"
  obtain n cs where "length (c_str ?s) = Suc n" "c_str ?s = ''a2:r1e1:'' @ cs"
    by (simp add: c_str_def)
  then show ?thesis
    unfolding unpack_str_def pack_real_error istream_of_ready by (simp only: unpack_real_error fst_conv)
qed

end
