(* ===== verification/Arith.thy ===== *)
theory Arith
  imports Compare "HOL-Library.Signed_Division"
begin

text \<open>
  The arithmetic and bit operators of the value classes. An operator is dispatched twice:
  \<^verbatim>\<open>right.selfPlusObjImp( left )\<close> calls \<^verbatim>\<open>left.selfPlusObj( *this )\<close> with the
  right operand at its own static type, which selects the overload. The datatype \<open>arg\<close>
  is that statically typed right operand. There is a definition for each class that
  overrides an operator, one for the defaults of \<^verbatim>\<open>BObjectImp\<close>, and one for the
  dispatch. The names ending in \<open>_in\<close> are the compound assignments, which change the left
  operand in place or replace it in the \<^verbatim>\<open>BObject\<close> that holds it; their result is the
  value held afterwards.

  Integer addition, subtraction and multiplication wrap at 32 bits, as the compiled code
  does. An operation whose operands give no result in C++ (a quotient that does not fit, a
  shift by a count outside 0..31, a real outside the range of \<^verbatim>\<open>int\<close>) is \<open>None\<close>.
\<close>

section \<open>Statically typed operands\<close>

datatype arg =
    as_imp "BObjectImp"
  | as_long int32
  | as_double dbl
  | as_string string
  | as_array "string list" "BObjectImp option list"

text \<open>The overload each class's \<^verbatim>\<open>selfXxxObjImp\<close> selects for itself.\<close>

definition plus_arg :: "BObjectImp \<Rightarrow> arg" where
  [dispatch_simps]: "plus_arg right =
     (case right of
        BLong i \<Rightarrow> as_long i
      | BDouble d \<Rightarrow> as_double d
      | BString s \<Rightarrow> as_string s
      | ObjArray ns es \<Rightarrow> as_array ns es
      | _ \<Rightarrow> as_imp right)"

definition minus_arg :: "BObjectImp \<Rightarrow> arg" where
  [dispatch_simps]: "minus_arg right =
     (case right of
        BLong i \<Rightarrow> as_long i
      | BDouble d \<Rightarrow> as_double d
      | BString s \<Rightarrow> as_string s
      | _ \<Rightarrow> as_imp right)"

definition times_arg :: "BObjectImp \<Rightarrow> arg" where
  [dispatch_simps]: "times_arg right =
     (case right of BLong i \<Rightarrow> as_long i | BDouble d \<Rightarrow> as_double d | _ \<Rightarrow> as_imp right)"

definition div_arg :: "BObjectImp \<Rightarrow> arg" where
  [dispatch_simps]: "div_arg right =
     (case right of BLong i \<Rightarrow> as_long i | BDouble d \<Rightarrow> as_double d | _ \<Rightarrow> as_imp right)"

text \<open>\<^verbatim>\<open>Double\<close> overrides none of the remaining operators.\<close>

definition long_arg :: "BObjectImp \<Rightarrow> arg" where
  [dispatch_simps]: "long_arg right = (case right of BLong i \<Rightarrow> as_long i | _ \<Rightarrow> as_imp right)"

section \<open>Defaults\<close>

text \<open>Every overload returns a copy of the left operand, in place it does nothing.\<close>

definition BObjectImp_selfPlusObj :: "BObjectImp \<Rightarrow> arg \<Rightarrow> BObjectImp" where
  [dispatch_simps]: "BObjectImp_selfPlusObj self objimp = self"

definition BObjectImp_selfMinusObj :: "BObjectImp \<Rightarrow> arg \<Rightarrow> BObjectImp" where
  [dispatch_simps]: "BObjectImp_selfMinusObj self objimp = self"

definition BObjectImp_selfTimesObj :: "BObjectImp \<Rightarrow> arg \<Rightarrow> BObjectImp" where
  [dispatch_simps]: "BObjectImp_selfTimesObj self objimp = self"

definition BObjectImp_selfDividedByObj :: "BObjectImp \<Rightarrow> arg \<Rightarrow> BObjectImp" where
  [dispatch_simps]: "BObjectImp_selfDividedByObj self objimp = self"

definition BObjectImp_selfModulusObj :: "BObjectImp \<Rightarrow> arg \<Rightarrow> BObjectImp" where
  [dispatch_simps]: "BObjectImp_selfModulusObj self objimp = self"

definition BObjectImp_selfBitShiftRightObj :: "BObjectImp \<Rightarrow> arg \<Rightarrow> BObjectImp" where
  [dispatch_simps]: "BObjectImp_selfBitShiftRightObj self objimp = self"

definition BObjectImp_selfBitShiftLeftObj :: "BObjectImp \<Rightarrow> arg \<Rightarrow> BObjectImp" where
  [dispatch_simps]: "BObjectImp_selfBitShiftLeftObj self objimp = self"

definition BObjectImp_selfBitAndObj :: "BObjectImp \<Rightarrow> arg \<Rightarrow> BObjectImp" where
  [dispatch_simps]: "BObjectImp_selfBitAndObj self objimp = self"

definition BObjectImp_selfBitOrObj :: "BObjectImp \<Rightarrow> arg \<Rightarrow> BObjectImp" where
  [dispatch_simps]: "BObjectImp_selfBitOrObj self objimp = self"

definition BObjectImp_selfBitXorObj :: "BObjectImp \<Rightarrow> arg \<Rightarrow> BObjectImp" where
  [dispatch_simps]: "BObjectImp_selfBitXorObj self objimp = self"

section \<open>Strings and arrays\<close>

definition String_selfPlusObj :: "string \<Rightarrow> arg \<Rightarrow> BObjectImp" where
  [dispatch_simps]: "String_selfPlusObj val objimp =
     (case objimp of
        as_imp v \<Rightarrow> BString (val @ getStringRep v)
      | as_long i \<Rightarrow> BString (val @ getStringRep (BLong i))
      | as_double d \<Rightarrow> BString (val @ getStringRep (BDouble d))
      | as_string s \<Rightarrow> BString (val @ getStringRep (BString s))
      | as_array ns es \<Rightarrow> BString (val @ getStringRep (ObjArray ns es)))"

definition String_selfPlusObj_in :: "string \<Rightarrow> arg \<Rightarrow> BObjectImp" where
  [dispatch_simps]: "String_selfPlusObj_in val objimp =
     (case objimp of
        as_imp v \<Rightarrow> BString (val @ getStringRep v)
      | as_long i \<Rightarrow> BString (val @ getStringRep (BLong i))
      | as_double d \<Rightarrow> BString (val @ getStringRep (BDouble d))
      | as_string s \<Rightarrow> BString (val @ getStringRep (BString s))
      | as_array ns es \<Rightarrow> BString (val @ getStringRep (ObjArray ns es)))"

definition String_remove :: "string \<Rightarrow> string \<Rightarrow> string" where
  "String_remove val rm =
     (case str_find val rm 0 of None \<Rightarrow> val | Some pos \<Rightarrow> str_replace val pos (length rm) [])"

definition String_selfMinusObj :: "string \<Rightarrow> arg \<Rightarrow> BObjectImp" where
  [dispatch_simps]: "String_selfMinusObj val objimp =
     (case objimp of
        as_imp v \<Rightarrow> BString (String_remove val (getStringRep v))
      | as_long i \<Rightarrow> BString (String_remove val (getStringRep (BLong i)))
      | as_double d \<Rightarrow> BString (String_remove val (getStringRep (BDouble d)))
      | as_string s \<Rightarrow> BString (String_remove val s)
      | as_array ns es \<Rightarrow> BString (String_remove val (getStringRep (ObjArray ns es))))"

definition String_selfMinusObj_in :: "string \<Rightarrow> arg \<Rightarrow> BObjectImp" where
  [dispatch_simps]: "String_selfMinusObj_in val objimp =
     (case objimp of
        as_imp v \<Rightarrow> BString (String_remove val (getStringRep v))
      | as_long i \<Rightarrow> BString (String_remove val (getStringRep (BLong i)))
      | as_double d \<Rightarrow> BString (String_remove val (getStringRep (BDouble d)))
      | as_string s \<Rightarrow> BString (String_remove val s)
      | as_array ns es \<Rightarrow> BString (String_remove val (getStringRep (ObjArray ns es))))"

definition ObjArray_selfPlusObj :: "string list \<Rightarrow> BObjectImp option list \<Rightarrow> arg \<Rightarrow> BObjectImp" where
  [dispatch_simps]: "ObjArray_selfPlusObj ns es objimp =
     (case objimp of
        as_imp v \<Rightarrow> ObjArray ns (es @ [Some v])
      | as_long i \<Rightarrow> ObjArray ns (es @ [Some (BLong i)])
      | as_double d \<Rightarrow> ObjArray ns (es @ [Some (BDouble d)])
      | as_string s \<Rightarrow> ObjArray ns (es @ [Some (BString s)])
      | as_array ns' es' \<Rightarrow> ObjArray ns (es @ es'))"

definition ObjArray_selfPlusObj_in :: "string list \<Rightarrow> BObjectImp option list \<Rightarrow> arg \<Rightarrow> BObjectImp" where
  [dispatch_simps]: "ObjArray_selfPlusObj_in ns es objimp =
     (case objimp of
        as_imp v \<Rightarrow> ObjArray ns (es @ [Some v])
      | as_long i \<Rightarrow> ObjArray ns (es @ [Some (BLong i)])
      | as_double d \<Rightarrow> ObjArray ns (es @ [Some (BDouble d)])
      | as_string s \<Rightarrow> ObjArray ns (es @ [Some (BString s)])
      | as_array ns' es' \<Rightarrow> ObjArray ns (es @ es'))"

section \<open>Integers\<close>

definition divide_error :: "BObjectImp" where
  "divide_error = mk_error ''Divide by Zero''"

text \<open>\<^verbatim>\<open>a / b\<close> and \<^verbatim>\<open>a % b\<close> on \<^verbatim>\<open>int\<close> for a non-zero divisor.\<close>

definition c_div :: "int32 \<Rightarrow> int32 \<Rightarrow> int32 option" where
  "c_div a b =
     (if sint a = - (2 ^ 31) \<and> sint b = - 1 then None
      else Some (word_of_int (sint a sdiv sint b)))"

definition c_mod :: "int32 \<Rightarrow> int32 \<Rightarrow> int32 option" where
  "c_mod a b =
     (if sint a = - (2 ^ 31) \<and> sint b = - 1 then None
      else Some (word_of_int (sint a smod sint b)))"

definition c_shr :: "int32 \<Rightarrow> int32 \<Rightarrow> int32 option" where
  "c_shr a n =
     (if 0 \<le> sint n \<and> sint n < 32 then Some (word_of_int (drop_bit (nat (sint n)) (sint a)))
      else None)"

definition c_shl :: "int32 \<Rightarrow> int32 \<Rightarrow> int32 option" where
  "c_shl a n =
     (if 0 \<le> sint n \<and> sint n < 32 then Some (push_bit (nat (sint n)) a) else None)"

definition BLong_selfPlusObj :: "int32 \<Rightarrow> arg \<Rightarrow> BObjectImp" where
  [dispatch_simps]: "BLong_selfPlusObj lval objimp =
     (case objimp of
        as_long i \<Rightarrow> BLong (lval + i)
      | as_double d \<Rightarrow> BDouble (d_add (d_of_int (sint lval)) d)
      | as_string s \<Rightarrow> BString (getStringRep (BLong lval) @ s)
      | _ \<Rightarrow> BObjectImp_selfPlusObj (BLong lval) objimp)"

definition BLong_selfPlusObj_in :: "int32 \<Rightarrow> arg \<Rightarrow> BObjectImp" where
  [dispatch_simps]: "BLong_selfPlusObj_in lval objimp =
     (case objimp of
        as_long i \<Rightarrow> BLong (lval + i)
      | as_double d \<Rightarrow> BLong_selfPlusObj lval objimp
      | as_string s \<Rightarrow> BLong_selfPlusObj lval objimp
      | _ \<Rightarrow> BLong lval)"

definition BLong_selfMinusObj :: "int32 \<Rightarrow> arg \<Rightarrow> BObjectImp" where
  [dispatch_simps]: "BLong_selfMinusObj lval objimp =
     (case objimp of
        as_long i \<Rightarrow> BLong (lval - i)
      | as_double d \<Rightarrow> BDouble (d_sub (d_of_int (sint lval)) d)
      | as_string s \<Rightarrow> String_selfMinusObj (getStringRep (BLong lval)) (as_string s)
      | _ \<Rightarrow> BObjectImp_selfMinusObj (BLong lval) objimp)"

definition BLong_selfMinusObj_in :: "int32 \<Rightarrow> arg \<Rightarrow> BObjectImp" where
  [dispatch_simps]: "BLong_selfMinusObj_in lval objimp =
     (case objimp of
        as_long i \<Rightarrow> BLong (lval - i)
      | as_double d \<Rightarrow> BLong_selfMinusObj lval objimp
      | as_string s \<Rightarrow> BLong_selfMinusObj lval objimp
      | _ \<Rightarrow> BLong lval)"

definition BLong_selfTimesObj :: "int32 \<Rightarrow> arg \<Rightarrow> BObjectImp" where
  [dispatch_simps]: "BLong_selfTimesObj lval objimp =
     (case objimp of
        as_long i \<Rightarrow> BLong (lval * i)
      | as_double d \<Rightarrow> BDouble (d_mul (d_of_int (sint lval)) d)
      | _ \<Rightarrow> BObjectImp_selfTimesObj (BLong lval) objimp)"

definition BLong_selfTimesObj_in :: "int32 \<Rightarrow> arg \<Rightarrow> BObjectImp" where
  [dispatch_simps]: "BLong_selfTimesObj_in lval objimp =
     (case objimp of
        as_long i \<Rightarrow> BLong (lval * i)
      | as_double d \<Rightarrow> BLong_selfTimesObj lval objimp
      | _ \<Rightarrow> BLong lval)"

definition BLong_selfDividedByObj :: "int32 \<Rightarrow> arg \<Rightarrow> BObjectImp option" where
  [dispatch_simps]: "BLong_selfDividedByObj lval objimp =
     (case objimp of
        as_long i \<Rightarrow> if i = 0 then Some divide_error else map_option BLong (c_div lval i)
      | as_double d \<Rightarrow>
          if d_eq d (dzero False) then Some divide_error
          else Some (BDouble (d_div (d_of_int (sint lval)) d))
      | _ \<Rightarrow> Some (BObjectImp_selfDividedByObj (BLong lval) objimp))"

definition BLong_selfDividedByObj_in :: "int32 \<Rightarrow> arg \<Rightarrow> BObjectImp option" where
  [dispatch_simps]: "BLong_selfDividedByObj_in lval objimp =
     (case objimp of
        as_long i \<Rightarrow> if i = 0 then Some divide_error else map_option BLong (c_div lval i)
      | as_double d \<Rightarrow> BLong_selfDividedByObj lval objimp
      | _ \<Rightarrow> Some (BLong lval))"

text \<open>
  The overload for a real converts the divisor to \<^verbatim>\<open>int\<close> first and gives a real; no
  dispatch selects it (\<open>modulus_ignores_real\<close> below).
\<close>

definition BLong_selfModulusObj :: "int32 \<Rightarrow> arg \<Rightarrow> BObjectImp option" where
  [dispatch_simps]: "BLong_selfModulusObj lval objimp =
     (case objimp of
        as_long i \<Rightarrow> if i = 0 then Some divide_error else map_option BLong (c_mod lval i)
      | as_double d \<Rightarrow>
          (case d_to_int d of
             None \<Rightarrow> None
           | Some i \<Rightarrow>
               if i = 0 then Some divide_error
               else map_option (\<lambda>r. BDouble (d_of_int (sint r))) (c_mod lval (word_of_int i)))
      | _ \<Rightarrow> Some (BObjectImp_selfModulusObj (BLong lval) objimp))"

definition BLong_selfModulusObj_in :: "int32 \<Rightarrow> arg \<Rightarrow> BObjectImp option" where
  [dispatch_simps]: "BLong_selfModulusObj_in lval objimp =
     (case objimp of
        as_long i \<Rightarrow> if i = 0 then Some divide_error else map_option BLong (c_mod lval i)
      | as_double d \<Rightarrow> BLong_selfModulusObj lval objimp
      | _ \<Rightarrow> Some (BLong lval))"

definition BLong_selfBitShiftRightObj :: "int32 \<Rightarrow> arg \<Rightarrow> BObjectImp option" where
  [dispatch_simps]: "BLong_selfBitShiftRightObj lval objimp =
     (case objimp of
        as_long i \<Rightarrow> map_option BLong (c_shr lval i)
      | _ \<Rightarrow> Some (BObjectImp_selfBitShiftRightObj (BLong lval) objimp))"

definition BLong_selfBitShiftLeftObj :: "int32 \<Rightarrow> arg \<Rightarrow> BObjectImp option" where
  [dispatch_simps]: "BLong_selfBitShiftLeftObj lval objimp =
     (case objimp of
        as_long i \<Rightarrow> map_option BLong (c_shl lval i)
      | _ \<Rightarrow> Some (BObjectImp_selfBitShiftLeftObj (BLong lval) objimp))"

definition BLong_selfBitAndObj :: "int32 \<Rightarrow> arg \<Rightarrow> BObjectImp" where
  [dispatch_simps]: "BLong_selfBitAndObj lval objimp =
     (case objimp of
        as_long i \<Rightarrow> BLong (lval AND i)
      | _ \<Rightarrow> BObjectImp_selfBitAndObj (BLong lval) objimp)"

definition BLong_selfBitOrObj :: "int32 \<Rightarrow> arg \<Rightarrow> BObjectImp" where
  [dispatch_simps]: "BLong_selfBitOrObj lval objimp =
     (case objimp of
        as_long i \<Rightarrow> BLong (lval OR i)
      | _ \<Rightarrow> BObjectImp_selfBitOrObj (BLong lval) objimp)"

definition BLong_selfBitXorObj :: "int32 \<Rightarrow> arg \<Rightarrow> BObjectImp" where
  [dispatch_simps]: "BLong_selfBitXorObj lval objimp =
     (case objimp of
        as_long i \<Rightarrow> BLong (lval XOR i)
      | _ \<Rightarrow> BObjectImp_selfBitXorObj (BLong lval) objimp)"

section \<open>Reals\<close>

definition Double_selfPlusObj :: "dbl \<Rightarrow> arg \<Rightarrow> BObjectImp" where
  [dispatch_simps]: "Double_selfPlusObj dval objimp =
     (case objimp of
        as_long i \<Rightarrow> BDouble (d_add dval (d_of_int (sint i)))
      | as_double d \<Rightarrow> BDouble (d_add dval d)
      | as_string s \<Rightarrow> BString (getStringRep (BDouble dval) @ s)
      | _ \<Rightarrow> BObjectImp_selfPlusObj (BDouble dval) objimp)"

definition Double_selfPlusObj_in :: "dbl \<Rightarrow> arg \<Rightarrow> BObjectImp" where
  [dispatch_simps]: "Double_selfPlusObj_in dval objimp =
     (case objimp of
        as_long i \<Rightarrow> Double_selfPlusObj dval objimp
      | as_double d \<Rightarrow> BDouble (d_add dval d)
      | as_string s \<Rightarrow> Double_selfPlusObj dval objimp
      | _ \<Rightarrow> BDouble dval)"

definition Double_selfMinusObj :: "dbl \<Rightarrow> arg \<Rightarrow> BObjectImp" where
  [dispatch_simps]: "Double_selfMinusObj dval objimp =
     (case objimp of
        as_long i \<Rightarrow> BDouble (d_sub dval (d_of_int (sint i)))
      | as_double d \<Rightarrow> BDouble (d_sub dval d)
      | as_string s \<Rightarrow> String_selfMinusObj (getStringRep (BDouble dval)) (as_string s)
      | _ \<Rightarrow> BObjectImp_selfMinusObj (BDouble dval) objimp)"

definition Double_selfMinusObj_in :: "dbl \<Rightarrow> arg \<Rightarrow> BObjectImp" where
  [dispatch_simps]: "Double_selfMinusObj_in dval objimp =
     (case objimp of
        as_long i \<Rightarrow> BDouble (d_sub dval (d_of_int (sint i)))
      | as_double d \<Rightarrow> BDouble (d_sub dval d)
      | as_string s \<Rightarrow> Double_selfMinusObj dval objimp
      | _ \<Rightarrow> BDouble dval)"

definition Double_selfTimesObj :: "dbl \<Rightarrow> arg \<Rightarrow> BObjectImp" where
  [dispatch_simps]: "Double_selfTimesObj dval objimp =
     (case objimp of
        as_long i \<Rightarrow> BDouble (d_mul dval (d_of_int (sint i)))
      | as_double d \<Rightarrow> BDouble (d_mul dval d)
      | _ \<Rightarrow> BObjectImp_selfTimesObj (BDouble dval) objimp)"

definition Double_selfTimesObj_in :: "dbl \<Rightarrow> arg \<Rightarrow> BObjectImp" where
  [dispatch_simps]: "Double_selfTimesObj_in dval objimp =
     (case objimp of
        as_long i \<Rightarrow> BDouble (d_mul dval (d_of_int (sint i)))
      | as_double d \<Rightarrow> BDouble (d_mul dval d)
      | _ \<Rightarrow> BDouble dval)"

definition Double_selfDividedByObj :: "dbl \<Rightarrow> arg \<Rightarrow> BObjectImp" where
  [dispatch_simps]: "Double_selfDividedByObj dval objimp =
     (case objimp of
        as_long i \<Rightarrow>
          if i = 0 then divide_error else BDouble (d_div dval (d_of_int (sint i)))
      | as_double d \<Rightarrow>
          if d_eq d (dzero False) then divide_error else BDouble (d_div dval d)
      | _ \<Rightarrow> BObjectImp_selfDividedByObj (BDouble dval) objimp)"

definition Double_selfDividedByObj_in :: "dbl \<Rightarrow> arg \<Rightarrow> BObjectImp" where
  [dispatch_simps]: "Double_selfDividedByObj_in dval objimp =
     (case objimp of
        as_long i \<Rightarrow>
          if i = 0 then divide_error else BDouble (d_div dval (d_of_int (sint i)))
      | as_double d \<Rightarrow>
          if d_is_zero d then divide_error else BDouble (d_div dval d)
      | _ \<Rightarrow> BDouble dval)"

section \<open>Dispatch\<close>

definition selfPlusObjImp :: "BObjectImp \<Rightarrow> BObjectImp \<Rightarrow> BObjectImp" where
  "selfPlusObjImp right left =
     (case left of
        BString s \<Rightarrow> String_selfPlusObj s (plus_arg right)
      | BLong i \<Rightarrow> BLong_selfPlusObj i (plus_arg right)
      | BDouble d \<Rightarrow> Double_selfPlusObj d (plus_arg right)
      | ObjArray ns es \<Rightarrow> ObjArray_selfPlusObj ns es (plus_arg right)
      | _ \<Rightarrow> BObjectImp_selfPlusObj left (plus_arg right))"

definition selfMinusObjImp :: "BObjectImp \<Rightarrow> BObjectImp \<Rightarrow> BObjectImp" where
  "selfMinusObjImp right left =
     (case left of
        BString s \<Rightarrow> String_selfMinusObj s (minus_arg right)
      | BLong i \<Rightarrow> BLong_selfMinusObj i (minus_arg right)
      | BDouble d \<Rightarrow> Double_selfMinusObj d (minus_arg right)
      | _ \<Rightarrow> BObjectImp_selfMinusObj left (minus_arg right))"

definition selfTimesObjImp :: "BObjectImp \<Rightarrow> BObjectImp \<Rightarrow> BObjectImp" where
  "selfTimesObjImp right left =
     (case left of
        BLong i \<Rightarrow> BLong_selfTimesObj i (times_arg right)
      | BDouble d \<Rightarrow> Double_selfTimesObj d (times_arg right)
      | _ \<Rightarrow> BObjectImp_selfTimesObj left (times_arg right))"

definition selfDividedByObjImp :: "BObjectImp \<Rightarrow> BObjectImp \<Rightarrow> BObjectImp option" where
  "selfDividedByObjImp right left =
     (case left of
        BLong i \<Rightarrow> BLong_selfDividedByObj i (div_arg right)
      | BDouble d \<Rightarrow> Some (Double_selfDividedByObj d (div_arg right))
      | _ \<Rightarrow> Some (BObjectImp_selfDividedByObj left (div_arg right)))"

definition selfModulusObjImp :: "BObjectImp \<Rightarrow> BObjectImp \<Rightarrow> BObjectImp option" where
  "selfModulusObjImp right left =
     (case left of
        BLong i \<Rightarrow> BLong_selfModulusObj i (long_arg right)
      | _ \<Rightarrow> Some (BObjectImp_selfModulusObj left (long_arg right)))"

definition selfBitShiftRightObjImp :: "BObjectImp \<Rightarrow> BObjectImp \<Rightarrow> BObjectImp option" where
  "selfBitShiftRightObjImp right left =
     (case left of
        BLong i \<Rightarrow> BLong_selfBitShiftRightObj i (long_arg right)
      | _ \<Rightarrow> Some (BObjectImp_selfBitShiftRightObj left (long_arg right)))"

definition selfBitShiftLeftObjImp :: "BObjectImp \<Rightarrow> BObjectImp \<Rightarrow> BObjectImp option" where
  "selfBitShiftLeftObjImp right left =
     (case left of
        BLong i \<Rightarrow> BLong_selfBitShiftLeftObj i (long_arg right)
      | _ \<Rightarrow> Some (BObjectImp_selfBitShiftLeftObj left (long_arg right)))"

definition selfBitAndObjImp :: "BObjectImp \<Rightarrow> BObjectImp \<Rightarrow> BObjectImp" where
  "selfBitAndObjImp right left =
     (case left of
        BLong i \<Rightarrow> BLong_selfBitAndObj i (long_arg right)
      | _ \<Rightarrow> BObjectImp_selfBitAndObj left (long_arg right))"

definition selfBitOrObjImp :: "BObjectImp \<Rightarrow> BObjectImp \<Rightarrow> BObjectImp" where
  "selfBitOrObjImp right left =
     (case left of
        BLong i \<Rightarrow> BLong_selfBitOrObj i (long_arg right)
      | _ \<Rightarrow> BObjectImp_selfBitOrObj left (long_arg right))"

definition selfBitXorObjImp :: "BObjectImp \<Rightarrow> BObjectImp \<Rightarrow> BObjectImp" where
  "selfBitXorObjImp right left =
     (case left of
        BLong i \<Rightarrow> BLong_selfBitXorObj i (long_arg right)
      | _ \<Rightarrow> BObjectImp_selfBitXorObj left (long_arg right))"

text \<open>Compound assignment: the value of the left object afterwards.\<close>

definition operPlusEqual :: "BObjectImp \<Rightarrow> BObjectImp \<Rightarrow> BObjectImp" where
  "operPlusEqual left objimp =
     (case left of
        BString s \<Rightarrow> String_selfPlusObj_in s (plus_arg objimp)
      | BLong i \<Rightarrow> BLong_selfPlusObj_in i (plus_arg objimp)
      | BDouble d \<Rightarrow> Double_selfPlusObj_in d (plus_arg objimp)
      | ObjArray ns es \<Rightarrow> ObjArray_selfPlusObj_in ns es (plus_arg objimp)
      | _ \<Rightarrow> left)"

definition operMinusEqual :: "BObjectImp \<Rightarrow> BObjectImp \<Rightarrow> BObjectImp" where
  "operMinusEqual left objimp =
     (case left of
        BString s \<Rightarrow> String_selfMinusObj_in s (minus_arg objimp)
      | BLong i \<Rightarrow> BLong_selfMinusObj_in i (minus_arg objimp)
      | BDouble d \<Rightarrow> Double_selfMinusObj_in d (minus_arg objimp)
      | _ \<Rightarrow> left)"

definition operTimesEqual :: "BObjectImp \<Rightarrow> BObjectImp \<Rightarrow> BObjectImp" where
  "operTimesEqual left objimp =
     (case left of
        BLong i \<Rightarrow> BLong_selfTimesObj_in i (times_arg objimp)
      | BDouble d \<Rightarrow> Double_selfTimesObj_in d (times_arg objimp)
      | _ \<Rightarrow> left)"

definition operDivideEqual :: "BObjectImp \<Rightarrow> BObjectImp \<Rightarrow> BObjectImp option" where
  "operDivideEqual left objimp =
     (case left of
        BLong i \<Rightarrow> BLong_selfDividedByObj_in i (div_arg objimp)
      | BDouble d \<Rightarrow> Some (Double_selfDividedByObj_in d (div_arg objimp))
      | _ \<Rightarrow> Some left)"

definition operModulusEqual :: "BObjectImp \<Rightarrow> BObjectImp \<Rightarrow> BObjectImp option" where
  "operModulusEqual left objimp =
     (case left of
        BLong i \<Rightarrow> BLong_selfModulusObj_in i (long_arg objimp)
      | _ \<Rightarrow> Some left)"

text \<open>Unary operators.\<close>

definition inverse :: "BObjectImp \<Rightarrow> BObjectImp" where
  "inverse v =
     (case v of BLong i \<Rightarrow> BLong (- i) | BDouble d \<Rightarrow> BDouble (d_neg d) | _ \<Rightarrow> UninitObject)"

definition bitnot :: "BObjectImp \<Rightarrow> BObjectImp" where
  "bitnot v = (case v of BLong i \<Rightarrow> BLong (NOT i) | _ \<Rightarrow> v)"

definition selfPlusPlus :: "BObjectImp \<Rightarrow> BObjectImp" where
  "selfPlusPlus v =
     (case v of
        BLong i \<Rightarrow> BLong (i + 1)
      | BDouble d \<Rightarrow> BDouble (d_add d (d_of_int 1))
      | _ \<Rightarrow> v)"

definition selfMinusMinus :: "BObjectImp \<Rightarrow> BObjectImp" where
  "selfMinusMinus v =
     (case v of
        BLong i \<Rightarrow> BLong (i - 1)
      | BDouble d \<Rightarrow> BDouble (d_sub d (d_of_int 1))
      | _ \<Rightarrow> v)"

lemmas operator_defs =
  selfPlusObjImp_def selfMinusObjImp_def selfTimesObjImp_def selfDividedByObjImp_def
  selfModulusObjImp_def selfBitShiftRightObjImp_def selfBitShiftLeftObjImp_def
  selfBitAndObjImp_def selfBitOrObjImp_def selfBitXorObjImp_def

lemmas compound_defs =
  operPlusEqual_def operMinusEqual_def operTimesEqual_def operDivideEqual_def
  operModulusEqual_def

section \<open>Removing a substring\<close>

lemma String_remove_eq:
  "String_remove s t =
     (case find_sub t s of None \<Rightarrow> s | Some i \<Rightarrow> take i s @ drop (i + length t) s)"
  by (simp add: String_remove_def str_find_def str_replace_def option.map_ident split: option.splits)

lemma String_remove_prefix [simp]: "String_remove (t @ s) t = s"
proof -
  have "find_sub t u = Some 0" if "prefix t u" for u
    using that by (cases u) auto
  then have "find_sub t (t @ s) = Some 0" by simp
  then show ?thesis by (simp add: String_remove_eq)
qed

lemma String_remove_absent: "\<not> sublist t s \<Longrightarrow> String_remove s t = s"
  using find_sub_None[of t s] by (simp add: String_remove_eq)

lemma String_remove_splits:
  assumes "sublist t s"
  obtains a b where "s = a @ t @ b" "String_remove s t = a @ b"
proof -
  obtain i where i: "find_sub t s = Some i" using assms find_sub_None[of t s] by auto
  have "s = take i s @ t @ drop (i + length t) s"
    using find_sub_take[OF i] by (metis add.commute append_take_drop_id drop_drop)
  then show thesis using that[of "take i s" "drop (i + length t) s"] i
    by (simp add: String_remove_eq)
qed

section \<open>Division of integers\<close>

text \<open>Apart from the one overflowing quotient the machine result is the exact one.\<close>

lemma sint_nonzero: "(b :: int32) \<noteq> 0 \<Longrightarrow> sint b \<noteq> 0"
  using signed_word_eqI[of b 0] by auto

lemma c_div_exact:
  assumes "b \<noteq> 0" "c_div a b = Some q"
  shows "sint q = sint a sdiv sint b"
proof -
  let ?q = "sint a sdiv sint b"
  have q: "q = word_of_int ?q" and ov: "\<not> (sint a = - (2 ^ 31) \<and> sint b = - 1)"
    using assms by (auto simp: c_div_def split: if_splits)
  have rng: "\<bar>?q\<bar> \<le> \<bar>sint a\<bar>" using sdiv_int_range[of "sint a" "sint b"] by auto
  have "?q \<noteq> 2 ^ 31"
  proof
    assume eq: "?q = 2 ^ 31"
    then have a: "sint a = - (2 ^ 31)" using rng sint32_bounds[of a] by linarith
    have "0 \<le> \<bar>sint a\<bar> div \<bar>sint b\<bar>"
      using sint_nonzero[OF assms(1)] by (simp add: pos_imp_zdiv_nonneg_iff)
    then have "\<bar>sint a\<bar> div \<bar>sint b\<bar> = 2 ^ 31"
      using arg_cong[OF eq, of abs] sint_nonzero[OF assms(1)] a
      by (simp add: signed_divide_int_def abs_mult abs_sgn_eq)
    then have "\<bar>sint b\<bar> = 1"
      using a int_div_less_self[of "\<bar>sint a\<bar>" "\<bar>sint b\<bar>"] sint_nonzero[OF assms(1)]
      by (cases "1 < \<bar>sint b\<bar>") auto
    with ov a have "sint b = 1" by linarith
    with a eq show False by simp
  qed
  then show ?thesis
    unfolding q using rng sint32_bounds[of a] by (intro sint_of_int32) linarith+
qed

lemma c_mod_exact:
  assumes "b \<noteq> 0" "c_mod a b = Some r"
  shows "sint r = sint a smod sint b"
proof -
  have r: "r = word_of_int (sint a smod sint b)"
    using assms by (auto simp: c_mod_def split: if_splits)
  have "sint b \<noteq> 0" using assms(1) by (rule sint_nonzero)
  then have "\<bar>sint a smod sint b\<bar> < \<bar>sint b\<bar>"
    using smod_int_range[of "sint b" "sint a"] by auto
  then show ?thesis
    unfolding r using sint32_bounds[of b] by (intro sint_of_int32) linarith+
qed

lemma c_div_defined: "c_div a b = None \<longleftrightarrow> sint a = - (2 ^ 31) \<and> sint b = - 1"
  by (simp add: c_div_def)

lemma c_mod_defined: "c_mod a b = None \<longleftrightarrow> c_div a b = None"
  by (simp add: c_mod_def c_div_def)

lemma c_div_mod:
  assumes "b \<noteq> 0" "c_div a b = Some q" "c_mod a b = Some r"
  shows "a = q * b + r"
proof -
  have q: "q = word_of_int (sint a sdiv sint b)" and r: "r = word_of_int (sint a smod sint b)"
    using assms by (auto simp: c_div_def c_mod_def split: if_splits)
  have "a = word_of_int (sint a)" by simp
  also have "sint a = (sint a sdiv sint b) * sint b + sint a smod sint b"
    by (simp only: sdiv_mult_smod_eq)
  also have "word_of_int ((sint a sdiv sint b) * sint b + sint a smod sint b) = q * b + r"
    by (simp add: q r)
  finally show ?thesis .
qed

section \<open>Compound assignment\<close>

text \<open>The in-place operators leave what the pure operators return.\<close>

lemma d_is_zero_eq: "d_is_zero d = d_eq d (dzero False)"
  by (cases d) (auto simp: d_is_zero_def dzero_def)

lemma compound_plus: "operPlusEqual l r = selfPlusObjImp r l"
  by (cases l) (auto simp: operator_defs compound_defs dispatch_simps split: arg.splits)

lemma compound_minus: "operMinusEqual l r = selfMinusObjImp r l"
  by (cases l) (auto simp: operator_defs compound_defs dispatch_simps split: arg.splits)

lemma compound_times: "operTimesEqual l r = selfTimesObjImp r l"
  by (cases l) (auto simp: operator_defs compound_defs dispatch_simps split: arg.splits)

lemma compound_divide: "operDivideEqual l r = selfDividedByObjImp r l"
  by (cases l)
    (auto simp: operator_defs compound_defs dispatch_simps d_is_zero_eq split: arg.splits)

lemma compound_modulus: "operModulusEqual l r = selfModulusObjImp r l"
  by (cases l) (auto simp: operator_defs compound_defs dispatch_simps split: arg.splits)

section \<open>The modulus of a real\<close>

lemma modulus_ignores_real: "selfModulusObjImp (BDouble d) left = Some left"
  by (cases left) (auto simp: operator_defs dispatch_simps)

end
