(* ===== verification/Instructions.thy ===== *)
theory Instructions
  imports Arith
begin

text \<open>
  The instructions of the virtual machine that take their operands from the value stack
  and push a new value (\<^verbatim>\<open>Executor::ins_*\<close> in
  \<^verbatim>\<open>pol-core/bscript/executor.cpp\<close>). The head of the list is the top of the stack. The
  result is \<open>None\<close> when the stack is too short (the code reads past its end), when the
  operator has no defined result, and when a comparison is decided by object addresses.
\<close>

type_synonym stack = "BObjectImp list"

definition int_bool :: "bool \<Rightarrow> BObjectImp" where
  "int_bool b = BLong (if b then 1 else 0)"

section \<open>Binary instructions\<close>

fun ins_add :: "stack \<Rightarrow> stack option" where
  "ins_add (right # left # st) = Some (selfPlusObjImp right left # st)"
| "ins_add _ = None"

fun ins_subtract :: "stack \<Rightarrow> stack option" where
  "ins_subtract (right # left # st) = Some (selfMinusObjImp right left # st)"
| "ins_subtract _ = None"

fun ins_mult :: "stack \<Rightarrow> stack option" where
  "ins_mult (right # left # st) = Some (selfTimesObjImp right left # st)"
| "ins_mult _ = None"

fun ins_div :: "stack \<Rightarrow> stack option" where
  "ins_div (right # left # st) = map_option (\<lambda>v. v # st) (selfDividedByObjImp right left)"
| "ins_div _ = None"

fun ins_modulus :: "stack \<Rightarrow> stack option" where
  "ins_modulus (right # left # st) = map_option (\<lambda>v. v # st) (selfModulusObjImp right left)"
| "ins_modulus _ = None"

fun ins_bitshift_right :: "stack \<Rightarrow> stack option" where
  "ins_bitshift_right (right # left # st) =
     map_option (\<lambda>v. v # st) (selfBitShiftRightObjImp right left)"
| "ins_bitshift_right _ = None"

fun ins_bitshift_left :: "stack \<Rightarrow> stack option" where
  "ins_bitshift_left (right # left # st) =
     map_option (\<lambda>v. v # st) (selfBitShiftLeftObjImp right left)"
| "ins_bitshift_left _ = None"

fun ins_bitwise_and :: "stack \<Rightarrow> stack option" where
  "ins_bitwise_and (right # left # st) = Some (selfBitAndObjImp right left # st)"
| "ins_bitwise_and _ = None"

fun ins_bitwise_xor :: "stack \<Rightarrow> stack option" where
  "ins_bitwise_xor (right # left # st) = Some (selfBitXorObjImp right left # st)"
| "ins_bitwise_xor _ = None"

fun ins_bitwise_or :: "stack \<Rightarrow> stack option" where
  "ins_bitwise_or (right # left # st) = Some (selfBitOrObjImp right left # st)"
| "ins_bitwise_or _ = None"

text \<open>Both operands of the logical operators are on the stack: nothing is short-circuited.\<close>

fun ins_logical_and :: "stack \<Rightarrow> stack option" where
  "ins_logical_and (right # left # st) = Some (int_bool (isTrue left \<and> isTrue right) # st)"
| "ins_logical_and _ = None"

fun ins_logical_or :: "stack \<Rightarrow> stack option" where
  "ins_logical_or (right # left # st) = Some (int_bool (isTrue left \<or> isTrue right) # st)"
| "ins_logical_or _ = None"

fun ins_notequal :: "stack \<Rightarrow> stack option" where
  "ins_notequal (right # left # st) = map_option (\<lambda>b. int_bool b # st) (bobj_ne left right)"
| "ins_notequal _ = None"

fun ins_equal :: "stack \<Rightarrow> stack option" where
  "ins_equal (right # left # st) = map_option (\<lambda>b. int_bool b # st) (bobj_eq left right)"
| "ins_equal _ = None"

fun ins_lessthan :: "stack \<Rightarrow> stack option" where
  "ins_lessthan (right # left # st) = map_option (\<lambda>b. int_bool b # st) (bobj_lt left right)"
| "ins_lessthan _ = None"

fun ins_lessequal :: "stack \<Rightarrow> stack option" where
  "ins_lessequal (right # left # st) = map_option (\<lambda>b. int_bool b # st) (bobj_le left right)"
| "ins_lessequal _ = None"

fun ins_greaterthan :: "stack \<Rightarrow> stack option" where
  "ins_greaterthan (right # left # st) = map_option (\<lambda>b. int_bool b # st) (bobj_gt left right)"
| "ins_greaterthan _ = None"

fun ins_greaterequal :: "stack \<Rightarrow> stack option" where
  "ins_greaterequal (right # left # st) = map_option (\<lambda>b. int_bool b # st) (bobj_ge left right)"
| "ins_greaterequal _ = None"

section \<open>Constants and unary instructions\<close>

definition ins_long :: "int32 \<Rightarrow> stack \<Rightarrow> stack option" where
  "ins_long lval st = Some (BLong lval # st)"

definition ins_double :: "dbl \<Rightarrow> stack \<Rightarrow> stack option" where
  "ins_double dval st = Some (BDouble dval # st)"

text \<open>\<^verbatim>\<open>new String( ins.token.tokval() )\<close> takes a C string.\<close>

definition ins_string :: "string \<Rightarrow> stack \<Rightarrow> stack option" where
  "ins_string tokval st = Some (BString (c_str tokval) # st)"

definition ins_error :: "stack \<Rightarrow> stack option" where
  "ins_error st = Some (BError [] # st)"

definition ins_struct :: "stack \<Rightarrow> stack option" where
  "ins_struct st = Some (BStruct [] # st)"

definition ins_array :: "stack \<Rightarrow> stack option" where
  "ins_array st = Some (ObjArray [] [] # st)"

definition ins_dictionary :: "stack \<Rightarrow> stack option" where
  "ins_dictionary st = Some (BDictionary [] # st)"

definition ins_uninit :: "stack \<Rightarrow> stack option" where
  "ins_uninit st = Some (UninitObject # st)"

fun ins_unminus :: "stack \<Rightarrow> stack option" where
  "ins_unminus (v # st) = Some (inverse v # st)"
| "ins_unminus [] = None"

fun ins_logical_not :: "stack \<Rightarrow> stack option" where
  "ins_logical_not (v # st) = Some (int_bool (\<not> isTrue v) # st)"
| "ins_logical_not [] = None"

fun ins_bitwise_not :: "stack \<Rightarrow> stack option" where
  "ins_bitwise_not (v # st) = Some (bitnot v # st)"
| "ins_bitwise_not [] = None"

definition ins_nop :: "stack \<Rightarrow> stack option" where
  "ins_nop st = Some st"

lemma isTrue_int_bool [simp]: "isTrue (int_bool b) = b"
  by (simp add: int_bool_def isTrue_def)

section \<open>Properties\<close>

text \<open>
  Sum, difference and product of two integers are the exact results reduced to the signed
  32-bit range.
\<close>

theorem integer_arithmetic_wraps:
  "\<exists>s d p. selfPlusObjImp (BLong b) (BLong a) = BLong s \<and>
     selfMinusObjImp (BLong b) (BLong a) = BLong d \<and>
     selfTimesObjImp (BLong b) (BLong a) = BLong p \<and>
     sint s = (sint a + sint b + 2 ^ 31) mod 2 ^ 32 - 2 ^ 31 \<and>
     sint d = (sint a - sint b + 2 ^ 31) mod 2 ^ 32 - 2 ^ 31 \<and>
     sint p = (sint a * sint b + 2 ^ 31) mod 2 ^ 32 - 2 ^ 31"
proof -
  have "signed_take_bit 31 i = (i + 2 ^ 31) mod 2 ^ 32 - 2 ^ 31" for i :: int
    by (simp add: signed_take_bit_eq_take_bit_shift take_bit_eq_mod)
  then show ?thesis by (simp add: operator_defs dispatch_simps sint_word_ariths)
qed

text \<open>
  C32. An integer quotient that fits is truncated toward zero, the remainder has the sign of
  the dividend, and the two agree: \<open>a = q * b + r\<close>.
\<close>

theorem integer_division:
  assumes "b \<noteq> 0" "\<not> (sint a = - (2 ^ 31) \<and> sint b = - 1)"
  shows "\<exists>q r. selfDividedByObjImp (BLong b) (BLong a) = Some (BLong q) \<and>
    selfModulusObjImp (BLong b) (BLong a) = Some (BLong r) \<and>
    sint q = sint a sdiv sint b \<and> sint r = sint a smod sint b \<and> a = q * b + r"
proof -
  obtain q r where "c_div a b = Some q" "c_mod a b = Some r"
    using assms(2) by (auto simp: c_div_def c_mod_def)
  then show ?thesis
    using assms(1) c_div_exact c_mod_exact c_div_mod by (simp add: operator_defs dispatch_simps)
qed

lemma integer_division_witness:
  "\<exists>q r. selfDividedByObjImp (BLong 3) (BLong (- 7)) = Some (BLong q) \<and>
    selfModulusObjImp (BLong 3) (BLong (- 7)) = Some (BLong r) \<and> sint q = - 2 \<and> sint r = - 1"
proof -
  have "sint (- 7 :: int32) = - 7" "sint (3 :: int32) = 3" by simp_all
  then show ?thesis
    using integer_division[of 3 "- 7"] by (auto simp: signed_divide_int_def signed_modulo_int_def)
qed

text \<open>
  Division of an integer or a real by the integer or real zero gives an error value, with
  the operator and with the compound assignment, and so does the modulus of integers.
\<close>

lemma division_by_zero:
  assumes "z = BLong 0 \<or> z = BDouble (dzero False)" "otype a \<in> {OTLong, OTDouble}"
  shows "selfDividedByObjImp z a = Some divide_error \<and> operDivideEqual a z = Some divide_error \<and>
    (z = BLong 0 \<longrightarrow> otype a = OTLong \<longrightarrow>
       selfModulusObjImp z a = Some divide_error \<and> operModulusEqual a z = Some divide_error)"
proof -
  have zero: "d_eq (dzero False) (dzero False)" by code_simp
  show ?thesis
    using assms zero d_is_zero_eq
    by (cases a) (auto simp: operator_defs compound_defs dispatch_simps)
qed

lemma division_by_zero_witness:
  "selfDividedByObjImp (BDouble (dzero False)) (BLong 5) = Some divide_error"
  using division_by_zero[of "BDouble (dzero False)" "BLong 5"] by simp

text \<open>
  C31. The compound assignments hold the value the binary operators give.
\<close>

theorem compound_assignment:
  "operPlusEqual l r = selfPlusObjImp r l \<and> operMinusEqual l r = selfMinusObjImp r l \<and>
   operTimesEqual l r = selfTimesObjImp r l \<and> operDivideEqual l r = selfDividedByObjImp r l \<and>
   operModulusEqual l r = selfModulusObjImp r l"
  by (simp add: compound_plus compound_minus compound_times compound_divide compound_modulus)

text \<open>
  The modulus by a real leaves the left operand as it is, although
  \<^verbatim>\<open>BLong::selfModulusObj( const Double& )\<close> is written to compute a remainder.
\<close>

theorem modulus_by_real: "selfModulusObjImp (BDouble d) left = Some left"
  by (rule modulus_ignores_real)

text \<open>
  Subtracting a text from a string removes its first occurrence: what was put in front
  comes off again, a text that does not occur changes nothing, and otherwise the string
  splits around the removed text with no earlier occurrence.
\<close>

theorem string_subtraction:
  "selfMinusObjImp (BString t) (BString (t @ s)) = BString s \<and>
   (\<not> sublist t s \<longrightarrow> selfMinusObjImp (BString t) (BString s) = BString s) \<and>
   (sublist t s \<longrightarrow> (\<exists>a b. s = a @ t @ b \<and> selfMinusObjImp (BString t) (BString s) = BString (a @ b) \<and>
     (\<forall>j < length a. \<not> prefix t (drop j s))))"
proof -
  have minus: "selfMinusObjImp (BString t) (BString u) = BString (String_remove u t)" for u
    by (simp add: operator_defs dispatch_simps)
  have "\<exists>a b. s = a @ t @ b \<and> String_remove s t = a @ b \<and> (\<forall>j < length a. \<not> prefix t (drop j s))"
    if sub: "sublist t s"
  proof -
    obtain i where i: "find_sub t s = Some i"
      using sub find_sub_None[of t s] by (cases "find_sub t s") auto
    have "s = take i s @ t @ drop (i + length t) s"
      using find_sub_take[OF i] by (metis append_take_drop_id drop_drop add.commute)
    moreover have "\<forall>j < length (take i s). \<not> prefix t (drop j s)"
      using find_sub_least[OF i] by simp
    ultimately show ?thesis
      using i by (intro exI[of _ "take i s"] exI[of _ "drop (i + length t) s"]) (simp add: String_remove_eq)
  qed
  then show ?thesis by (auto simp: minus String_remove_absent)
qed

lemma string_subtraction_witness:
  "\<exists>a b. ''banana'' = a @ ''an'' @ b \<and>
     selfMinusObjImp (BString ''an'') (BString ''banana'') = BString (a @ b)"
  using string_subtraction[of "''an''" "''banana''"] by (auto simp: sublist_Cons_right)

text \<open>
  Shifting an integer right by 0 to 31 places divides it by the power of two, rounding
  down; shifting left multiplies it modulo \<open>2 ^ 32\<close>.
\<close>

theorem integer_shifts:
  assumes "n < 32"
  shows "\<exists>r l. selfBitShiftRightObjImp (BLong (word_of_nat n)) (BLong a) = Some (BLong r) \<and>
    selfBitShiftLeftObjImp (BLong (word_of_nat n)) (BLong a) = Some (BLong l) \<and>
    sint r = sint a div 2 ^ n \<and> l = a * 2 ^ n"
proof -
  have n: "sint (word_of_nat n :: int32) = int n"
    using assms sint_of_int32[of "int n"] by simp
  have "- (2 ^ 31) \<le> sint a div 2 ^ n \<and> sint a div 2 ^ n < 2 ^ 31"
    using sint32_bounds[of a] zdiv_mono2[of "sint a" 1 "2 ^ n"] zdiv_mono2_neg[of "sint a" 1 "2 ^ n"]
      pos_imp_zdiv_neg_iff[of "2 ^ n" "sint a"]
    by (cases "0 \<le> sint a") auto
  then show ?thesis
    using assms n by (simp add: operator_defs dispatch_simps c_shr_def c_shl_def sint_of_int32
        drop_bit_eq_div push_bit_eq_mult)
qed

lemma integer_shifts_witness:
  "\<exists>r. selfBitShiftRightObjImp (BLong 2) (BLong (- 7)) = Some (BLong r) \<and> sint r = - 2"
proof -
  have "sint (- 7 :: int32) = - 7" by simp
  then show ?thesis using integer_shifts[of 2 "- 7"] by auto
qed

end
