(* ===== verification/Optimizer.thy ===== *)
theory Optimizer
  imports Instructions
begin

text \<open>
  The expression optimiser of the compiler (\<^verbatim>\<open>pol-core/bscript/compiler.cpp\<close>). An
  expression is a list of tokens in postfix order. One pass folds operators whose operands
  are constants, one folds unary operators, one rewrites assignments; the passes repeat
  until the number of tokens stays the same. A result is a value, an exception, or
  \<open>Undefined\<close> where the compiler itself evaluates an expression with no defined
  result or reads outside the token list.
\<close>

section \<open>Tokens\<close>

text \<open>
  The identifiers the optimiser tells apart are constructors of \<open>BTokenId\<close>; it treats
  the others alike, of which the executor knows those in \<open>other_id\<close>.
\<close>

datatype other_id =
    RSV_JMPIFTRUE | RSV_JMPIFFALSE | RSV_GOTO | RSV_GOSUB | RSV_RETURN | RSV_EXIT
  | RSV_LOCAL | RSV_GLOBAL | INS_INITFOR | INS_NEXTFOR | INS_CASEJMP | INS_DECLARE_ARRAY
  | INS_POP_PARAM | INS_POP_PARAM_BYREF | INS_GET_ARG
  | CTRL_LEAVE_BLOCK | CTRL_PROGEND | CTRL_STATEMENTBEGIN
  | TOK_ERROR | TOK_STRUCT | TOK_ARRAY | TOK_DICTIONARY | TOK_IDENT | INS_UNINIT
  | TOK_IN | TOK_INSERTINTO | TOK_DELMEMBER | TOK_CHKMEMBER
  | Unnamed nat

datatype BTokenId =
    TOK_LONG | TOK_DOUBLE | TOK_STRING
  | TOK_ADD | TOK_SUBTRACT | TOK_MULT | TOK_DIV | TOK_MODULUS
  | TOK_LESSTHAN | TOK_LESSEQ | TOK_GRTHAN | TOK_GREQ | TOK_AND | TOK_OR | TOK_EQUAL | TOK_NEQ
  | TOK_BSLEFT | TOK_BSRIGHT | TOK_BITAND | TOK_BITOR | TOK_BITXOR
  | TOK_UNPLUS | TOK_UNMINUS | TOK_LOG_NOT | TOK_BITWISE_NOT
  | TOK_ASSIGN | INS_ASSIGN_CONSUME | TOK_CONSUMER | TOK_MEMBER
  | TOK_PLUSEQUAL | TOK_MINUSEQUAL | TOK_TIMESEQUAL | TOK_DIVIDEEQUAL | TOK_MODULUSEQUAL
  | TOK_ARRAY_SUBSCRIPT | INS_MULTISUBSCRIPT | INS_SUBSCRIPT_ASSIGN
  | INS_SUBSCRIPT_ASSIGN_CONSUME | INS_MULTISUBSCRIPT_ASSIGN
  | TOK_LOCALVAR | TOK_GLOBALVAR | INS_ASSIGN_LOCALVAR | INS_ASSIGN_GLOBALVAR
  | INS_GET_MEMBER | INS_SET_MEMBER | INS_SET_MEMBER_CONSUME
  | INS_GET_MEMBER_ID | INS_SET_MEMBER_ID | INS_SET_MEMBER_ID_CONSUME
  | INS_SET_MEMBER_ID_CONSUME_PLUSEQUAL | INS_SET_MEMBER_ID_CONSUME_MINUSEQUAL
  | INS_SET_MEMBER_ID_CONSUME_TIMESEQUAL | INS_SET_MEMBER_ID_CONSUME_DIVIDEEQUAL
  | INS_SET_MEMBER_ID_CONSUME_MODULUSEQUAL
  | TOK_UNPLUSPLUS | TOK_UNMINUSMINUS | TOK_UNPLUSPLUS_POST | TOK_UNMINUSMINUS_POST
  | INS_SET_MEMBER_ID_UNPLUSPLUS | INS_SET_MEMBER_ID_UNMINUSMINUS
  | INS_SET_MEMBER_ID_UNPLUSPLUS_POST | INS_SET_MEMBER_ID_UNMINUSMINUS_POST
  | INS_ADDMEMBER2 | INS_ADDMEMBER_ASSIGN | INS_DICTIONARY_ADDMEMBER
  | CTRL_JSR_USERFUNC | CTRL_MAKELOCAL
  | TOK_OTHER other_id

datatype BTokenType =
    TYP_OPERAND | TYP_OPERATOR | TYP_UNARY_OPERATOR | TYP_FUNC | TYP_METHOD | TYP_USERFUNC
  | TYP_OTHER nat

text \<open>
  \<open>userfunc\<close> is the place of the function in the table of functions, \<open>None\<close> the null
  pointer, \<open>nparams\<close> is \<^verbatim>\<open>userfunc->parameters.size()\<close>, \<open>tokval\<close> the C string.
\<close>

record token =
  tid :: BTokenId
  ttype :: BTokenType
  tlval :: int32
  tdval :: dbl
  tokval :: string
  nparams :: nat
  module :: nat
  userfunc :: "nat option"

datatype 'a outcome = Done 'a | Throws string | Undefined

section \<open>Operators with constant operands\<close>

text \<open>\<^verbatim>\<open>nullptr\<close>, no folding, is \<open>Done None\<close>.\<close>

definition optimize_long_operation :: "token \<Rightarrow> token \<Rightarrow> token \<Rightarrow> token option outcome" where
  "optimize_long_operation left oper right =
     (let l = tlval left; r = tlval right;
          fold = (\<lambda>v. Done (Some (left\<lparr>tlval := v\<rparr>)));
          fold_bool = (\<lambda>b. Done (Some (left\<lparr>tlval := (if b then 1 else 0)\<rparr>)));
          fold_opt = (\<lambda>v. case v of None \<Rightarrow> Undefined | Some v \<Rightarrow> Done (Some (left\<lparr>tlval := v\<rparr>)))
      in case tid oper of
        TOK_ADD \<Rightarrow> fold (l + r)
      | TOK_SUBTRACT \<Rightarrow> fold (l - r)
      | TOK_MULT \<Rightarrow> fold (l * r)
      | TOK_DIV \<Rightarrow>
          if r = 0 then Throws ''Program would divide by zero'' else fold_opt (c_div l r)
      | TOK_EQUAL \<Rightarrow> fold_bool (l = r)
      | TOK_NEQ \<Rightarrow> fold_bool (l \<noteq> r)
      | TOK_LESSTHAN \<Rightarrow> fold_bool (sint l < sint r)
      | TOK_LESSEQ \<Rightarrow> fold_bool (sint l \<le> sint r)
      | TOK_GRTHAN \<Rightarrow> fold_bool (sint l > sint r)
      | TOK_GREQ \<Rightarrow> fold_bool (sint l \<ge> sint r)
      | TOK_AND \<Rightarrow> fold_bool (l \<noteq> 0 \<and> r \<noteq> 0)
      | TOK_OR \<Rightarrow> fold_bool (l \<noteq> 0 \<or> r \<noteq> 0)
      | TOK_BSRIGHT \<Rightarrow> fold_opt (c_shr l r)
      | TOK_BSLEFT \<Rightarrow> fold_opt (c_shl l r)
      | TOK_BITAND \<Rightarrow> fold (l AND r)
      | TOK_BITOR \<Rightarrow> fold (l OR r)
      | TOK_BITXOR \<Rightarrow> fold (l XOR r)
      | _ \<Rightarrow> Done None)"

definition optimize_double_operation :: "token \<Rightarrow> token \<Rightarrow> token \<Rightarrow> token option outcome" where
  "optimize_double_operation left oper right =
     (let l = tdval left; r = tdval right; fold = (\<lambda>v. Done (Some (left\<lparr>tdval := v\<rparr>)))
      in case tid oper of
        TOK_ADD \<Rightarrow> fold (d_add l r)
      | TOK_SUBTRACT \<Rightarrow> fold (d_sub l r)
      | TOK_MULT \<Rightarrow> fold (d_mul l r)
      | TOK_DIV \<Rightarrow>
          if d_eq r (dzero False) then Throws ''Program would divide by zero''
          else fold (d_div l r)
      | _ \<Rightarrow> fold (dzero False))"

definition optimize_string_operation :: "token \<Rightarrow> token \<Rightarrow> token \<Rightarrow> token option outcome" where
  "optimize_string_operation left oper right =
     (case tid oper of
        TOK_ADD \<Rightarrow>
          (let combined = c_str (tokval left) @ c_str (tokval right)
           in Done (Some (left\<lparr>tokval := c_str combined\<rparr>)))
      | _ \<Rightarrow> Done None)"

definition optimize_long_unary :: "token \<Rightarrow> token \<Rightarrow> token option" where
  "optimize_long_unary oper val =
     (case tid oper of
        TOK_UNMINUS \<Rightarrow> Some (val\<lparr>tlval := - tlval val\<rparr>)
      | TOK_LOG_NOT \<Rightarrow> Some (val\<lparr>tlval := (if tlval val = 0 then 1 else 0)\<rparr>)
      | TOK_BITWISE_NOT \<Rightarrow> Some (val\<lparr>tlval := NOT (tlval val)\<rparr>)
      | _ \<Rightarrow> None)"

definition optimize_double_unary :: "token \<Rightarrow> token \<Rightarrow> token option" where
  "optimize_double_unary oper val =
     (case tid oper of
        TOK_UNMINUS \<Rightarrow> Some (val\<lparr>tdval := d_neg (tdval val)\<rparr>)
      | _ \<Rightarrow> None)"

definition optimize_string_unary :: "token \<Rightarrow> token \<Rightarrow> token option" where
  "optimize_string_unary oper val = None"

definition optimize_pair :: "token \<Rightarrow> token \<Rightarrow> token \<Rightarrow> token option outcome" where
  "optimize_pair left oper right =
     (if tid left \<noteq> tid right then Done None
      else case tid left of
        TOK_LONG \<Rightarrow> optimize_long_operation left oper right
      | TOK_DOUBLE \<Rightarrow> optimize_double_operation left oper right
      | TOK_STRING \<Rightarrow> optimize_string_operation left oper right
      | _ \<Rightarrow> Done None)"

text \<open>The loop over the tokens; after a folding the index still advances.\<close>

function optimize_binary_from :: "nat \<Rightarrow> token list \<Rightarrow> token list outcome" where
  "optimize_binary_from i tokens =
     (if length tokens \<le> i then Done tokens
      else let oper = tokens ! i
      in if ttype oper \<noteq> TYP_OPERATOR then optimize_binary_from (i + 1) tokens
         else if i < 2 then Throws ''Unbalanced binary operator''
         else case optimize_pair (tokens ! (i - 2)) oper (tokens ! (i - 1)) of
             Throws e \<Rightarrow> Throws e
           | Undefined \<Rightarrow> Undefined
           | Done None \<Rightarrow> optimize_binary_from (i + 1) tokens
           | Done (Some ntoken) \<Rightarrow>
               optimize_binary_from (i + 1) (take (i - 2) tokens @ ntoken # drop (i + 1) tokens))"
  by pat_completeness auto
termination
  by (relation "measure (\<lambda>(i, tokens). length tokens - i)") auto

declare optimize_binary_from.simps [simp del]

definition optimize_binary_operations :: "token list \<Rightarrow> token list outcome" where
  "optimize_binary_operations = optimize_binary_from 0"

definition optimize_single :: "token \<Rightarrow> token \<Rightarrow> token option" where
  "optimize_single oper val =
     (case tid val of
        TOK_LONG \<Rightarrow> optimize_long_unary oper val
      | TOK_DOUBLE \<Rightarrow> optimize_double_unary oper val
      | TOK_STRING \<Rightarrow> optimize_string_unary oper val
      | _ \<Rightarrow> None)"

function optimize_unary_from :: "nat \<Rightarrow> token list \<Rightarrow> token list outcome" where
  "optimize_unary_from i tokens =
     (if length tokens \<le> i then Done tokens
      else let oper = tokens ! i
      in if ttype oper \<noteq> TYP_UNARY_OPERATOR then optimize_unary_from (i + 1) tokens
         else if i < 1 then Throws ''Unbalanced unary operator''
         else if tid oper = TOK_UNPLUS
         then optimize_unary_from (i + 1) (take i tokens @ drop (i + 1) tokens)
         else case optimize_single oper (tokens ! (i - 1)) of
             None \<Rightarrow> optimize_unary_from (i + 1) tokens
           | Some ntoken \<Rightarrow>
               optimize_unary_from (i + 1) (take (i - 1) tokens @ ntoken # drop (i + 1) tokens))"
  by pat_completeness auto
termination
  by (relation "measure (\<lambda>(i, tokens). length tokens - i)") auto

declare optimize_unary_from.simps [simp del]

definition optimize_unary_operations :: "token list \<Rightarrow> token list outcome" where
  "optimize_unary_operations = optimize_unary_from 0"

section \<open>The extent of an operand\<close>

text \<open>The operands a token takes; \<open>None\<close> is the failed assertion.\<close>

definition num_children :: "token \<Rightarrow> nat option" where
  "num_children tkn =
     (if ttype tkn = TYP_OPERAND
      then (if tid tkn = INS_ADDMEMBER_ASSIGN then Some 2
            else if tid tkn = INS_ADDMEMBER2 then Some 1 else Some 0)
      else if tid tkn = INS_ADDMEMBER_ASSIGN then Some 2
      else if tid tkn = INS_DICTIONARY_ADDMEMBER then Some 3
      else if tid tkn = INS_MULTISUBSCRIPT then Some (nat (1 + sint (tlval tkn)))
      else if tid tkn = INS_MULTISUBSCRIPT_ASSIGN then Some (nat (1 + sint (tlval tkn)))
      else if ttype tkn = TYP_OPERATOR then Some 2
      else if ttype tkn = TYP_UNARY_OPERATOR then Some 1
      else if ttype tkn = TYP_FUNC then Some (nparams tkn)
      else if ttype tkn = TYP_METHOD then Some (nat (1 + sint (tlval tkn)))
      else if ttype tkn = TYP_USERFUNC then Some 1
      else if tid tkn = CTRL_JSR_USERFUNC then Some (1 + nparams tkn)
      else if tid tkn = CTRL_MAKELOCAL then Some 0
      else None)"

text \<open>
  \<open>get_num_tokens tokens idx\<close> counts the tokens of the operand that ends at \<open>idx\<close>;
  \<open>get_num_children\<close> is its loop over the children.
\<close>

function (sequential) get_num_tokens :: "token list \<Rightarrow> int \<Rightarrow> nat option"
  and get_num_children :: "token list \<Rightarrow> int \<Rightarrow> nat \<Rightarrow> nat \<Rightarrow> nat option"
where
  "get_num_tokens tokens idx =
     (if idx < 0 \<or> int (length tokens) \<le> idx then None
      else case num_children (tokens ! nat idx) of
          None \<Rightarrow> None
        | Some children \<Rightarrow> get_num_children tokens idx children 1)"
| "get_num_children tokens idx 0 count = Some count"
| "get_num_children tokens idx (Suc n) count =
     (case get_num_tokens tokens (idx - int count) of
        None \<Rightarrow> None
      | Some c \<Rightarrow> get_num_children tokens idx n (count + c))"
  by pat_completeness auto
termination
  by (relation "measures [case_sum (\<lambda>(ts, i). nat (i + 1)) (\<lambda>(ts, i, n, c). nat (i + 1 - int c)),
        case_sum (\<lambda>_. 0) (\<lambda>_. 1), case_sum (\<lambda>_. 0) (\<lambda>(ts, i, n, c). n)]") auto

declare get_num_tokens.simps [simp del]

section \<open>Assignments\<close>

definition remove_at :: "nat \<Rightarrow> 'a list \<Rightarrow> 'a list" where
  "remove_at k xs = take k xs @ drop (k + 1) xs"

text \<open>
  \<^verbatim>\<open>optimize_token\<close>: \<open>Done (True, ts)\<close> when it rewrote the expression.
  \<open>known\<close> is \<^verbatim>\<open>getKnownObjMember\<close>, the table of member names and their numbers,
  and \<open>opt_members\<close> the compiler option \<^verbatim>\<open>OptimizeObjectMembers\<close>.
\<close>

definition optimize_assign :: "token list \<Rightarrow> nat \<Rightarrow> (bool \<times> token list) outcome" where
  "optimize_assign tokens i =
     (let oper = tokens ! i in
      case get_num_tokens tokens (int i - 1) of
        None \<Rightarrow> Undefined
      | Some n \<Rightarrow>
          if int i - 1 < 0 \<or> int i - 1 - int n < 0 then Throws ''Unbalanced operator''
          else let left_idx = i - 1 - n; left = tokens ! left_idx;
                   rewrite = (\<lambda>oper'. Done (True, remove_at left_idx (tokens[i := oper'])))
               in case tid left of
                 TOK_ARRAY_SUBSCRIPT \<Rightarrow>
                   rewrite (oper\<lparr>tid := INS_SUBSCRIPT_ASSIGN, ttype := TYP_UNARY_OPERATOR,
                                 tlval := tlval left\<rparr>)
               | INS_MULTISUBSCRIPT \<Rightarrow>
                   rewrite (oper\<lparr>tid := INS_MULTISUBSCRIPT_ASSIGN, ttype := TYP_UNARY_OPERATOR,
                                 tlval := tlval left\<rparr>)
               | INS_GET_MEMBER \<Rightarrow>
                   rewrite (oper\<lparr>tid := INS_SET_MEMBER, ttype := TYP_UNARY_OPERATOR,
                                 tokval := tokval left\<rparr>)
               | INS_GET_MEMBER_ID \<Rightarrow>
                   rewrite (oper\<lparr>tid := INS_SET_MEMBER_ID, ttype := TYP_UNARY_OPERATOR,
                                 tokval := show_int (sint (tlval left)), tlval := tlval left\<rparr>)
               | _ \<Rightarrow> Done (False, tokens))"

definition optimize_assign_consume :: "token list \<Rightarrow> nat \<Rightarrow> (bool \<times> token list) outcome" where
  "optimize_assign_consume tokens i =
     (let oper = tokens ! i in
      case get_num_tokens tokens (int i - 1) of
        None \<Rightarrow> Undefined
      | Some n \<Rightarrow>
          if int i - 1 - int n < 0 then Undefined
          else let left_idx = i - 1 - n; left = tokens ! left_idx;
                   rewrite = (\<lambda>ins. Done (True, remove_at left_idx (tokens[i :=
                     oper\<lparr>tid := ins, ttype := TYP_UNARY_OPERATOR, tlval := tlval left,
                          tokval := tokval left\<rparr>])))
               in if tid left = TOK_LOCALVAR then rewrite INS_ASSIGN_LOCALVAR
                  else if tid left = TOK_GLOBALVAR then rewrite INS_ASSIGN_GLOBALVAR
                  else Done (False, tokens))"

definition consumed_form :: "BTokenId \<Rightarrow> BTokenId option" where
  "consumed_form ins =
     (case ins of
        TOK_ASSIGN \<Rightarrow> Some INS_ASSIGN_CONSUME
      | INS_SUBSCRIPT_ASSIGN \<Rightarrow> Some INS_SUBSCRIPT_ASSIGN_CONSUME
      | INS_SET_MEMBER \<Rightarrow> Some INS_SET_MEMBER_CONSUME
      | INS_SET_MEMBER_ID \<Rightarrow> Some INS_SET_MEMBER_ID_CONSUME
      | _ \<Rightarrow> None)"

definition optimize_consumer :: "token list \<Rightarrow> nat \<Rightarrow> (bool \<times> token list) outcome" where
  "optimize_consumer tokens i =
     (let operand = tokens ! (i - 1) in
      case consumed_form (tid operand) of
        None \<Rightarrow> Done (False, tokens)
      | Some ins \<Rightarrow>
          if i + 1 = length tokens
          then Done (True, butlast (tokens[i - 1 := operand\<lparr>tid := ins\<rparr>])) else Undefined)"

definition member_step_form :: "BTokenId \<Rightarrow> BTokenId" where
  "member_step_form ins =
     (case ins of
        TOK_UNPLUSPLUS \<Rightarrow> INS_SET_MEMBER_ID_UNPLUSPLUS
      | TOK_UNMINUSMINUS \<Rightarrow> INS_SET_MEMBER_ID_UNMINUSMINUS
      | TOK_UNPLUSPLUS_POST \<Rightarrow> INS_SET_MEMBER_ID_UNPLUSPLUS_POST
      | _ \<Rightarrow> INS_SET_MEMBER_ID_UNMINUSMINUS_POST)"

definition optimize_step :: "token list \<Rightarrow> nat \<Rightarrow> (bool \<times> token list) outcome" where
  "optimize_step tokens i =
     (let operand = tokens ! (i - 1) in
      if 0 < i \<and> tid operand = INS_GET_MEMBER_ID
      then Done (True, remove_at i
             (tokens[i - 1 := operand\<lparr>tid := member_step_form (tid (tokens ! i))\<rparr>]))
      else Done (True, tokens))"

definition compound_member_form :: "BTokenId \<Rightarrow> BTokenId option" where
  "compound_member_form ins =
     (case ins of
        TOK_PLUSEQUAL \<Rightarrow> Some INS_SET_MEMBER_ID_CONSUME_PLUSEQUAL
      | TOK_MINUSEQUAL \<Rightarrow> Some INS_SET_MEMBER_ID_CONSUME_MINUSEQUAL
      | TOK_TIMESEQUAL \<Rightarrow> Some INS_SET_MEMBER_ID_CONSUME_TIMESEQUAL
      | TOK_DIVIDEEQUAL \<Rightarrow> Some INS_SET_MEMBER_ID_CONSUME_DIVIDEEQUAL
      | TOK_MODULUSEQUAL \<Rightarrow> Some INS_SET_MEMBER_ID_CONSUME_MODULUSEQUAL
      | _ \<Rightarrow> None)"

text \<open>
  The last two tokens decide whether the expression is a compound assignment to a member;
  \<open>tokens\<close> already has the merged member token \<open>oper\<close> at \<open>i - 1\<close>.
\<close>

definition optimize_compound_member :: "token list \<Rightarrow> nat \<Rightarrow> token \<Rightarrow> token list" where
  "optimize_compound_member tokens i oper =
     (let consumed = (tid (last tokens) = TOK_CONSUMER);
          operand = (if consumed then tokens ! (length tokens - 2) else last tokens)
      in case compound_member_form (tid operand) of
           None \<Rightarrow> tokens
         | Some ins \<Rightarrow>
             remove_at (i - 1) (butlast (if consumed then butlast tokens else tokens))
               @ [oper\<lparr>tid := ins, tokval := show_int (sint (tlval oper))\<rparr>])"

definition optimize_member ::
  "(string \<Rightarrow> int32 option) \<Rightarrow> bool \<Rightarrow> token list \<Rightarrow> nat \<Rightarrow> (bool \<times> token list) outcome" where
  "optimize_member known opt_members tokens i =
     (let oper = tokens ! i; operand = tokens ! (i - 1) in
      if tid operand \<noteq> TOK_STRING
      then Throws ''Expected an identifier to follow the member (.) operator.''
      else case known (c_str (tokval operand)) of
          Some ins \<Rightarrow>
            if opt_members
            then (let oper' = oper\<lparr>tid := INS_GET_MEMBER_ID, ttype := TYP_UNARY_OPERATOR,
                                   tlval := ins\<rparr>;
                      tokens' = remove_at (i - 1) (tokens[i := oper'])
                  in Done (True, if i < 3 then optimize_compound_member tokens' i oper' else tokens'))
            else Done (True, remove_at (i - 1) (tokens[i :=
                   oper\<lparr>tid := INS_GET_MEMBER, ttype := TYP_UNARY_OPERATOR,
                        tokval := tokval operand\<rparr>]))
        | None \<Rightarrow>
            Done (True, remove_at (i - 1) (tokens[i :=
              oper\<lparr>tid := INS_GET_MEMBER, ttype := TYP_UNARY_OPERATOR,
                   tokval := tokval operand\<rparr>])))"

definition optimize_token ::
  "(string \<Rightarrow> int32 option) \<Rightarrow> bool \<Rightarrow> token list \<Rightarrow> nat \<Rightarrow> (bool \<times> token list) outcome" where
  "optimize_token known opt_members tokens i =
     (let oper = tokens ! i in
      if ttype oper = TYP_OPERATOR \<and> tid oper = TOK_ASSIGN then optimize_assign tokens i
      else if tid oper = INS_ASSIGN_CONSUME then optimize_assign_consume tokens i
      else if tid oper = TOK_CONSUMER then optimize_consumer tokens i
      else if tid oper \<in> {TOK_UNPLUSPLUS, TOK_UNPLUSPLUS_POST, TOK_UNMINUSMINUS,
                          TOK_UNMINUSMINUS_POST} then optimize_step tokens i
      else if tid oper = TOK_MEMBER then optimize_member known opt_members tokens i
      else Done (False, tokens))"

function optimize_assignments_from ::
  "(string \<Rightarrow> int32 option) \<Rightarrow> bool \<Rightarrow> nat \<Rightarrow> token list \<Rightarrow> token list outcome" where
  "optimize_assignments_from known opt_members i tokens =
     (if length tokens \<le> i then Done tokens
      else case optimize_token known opt_members tokens i of
          Throws e \<Rightarrow> Throws e
        | Undefined \<Rightarrow> Undefined
        | Done (True, tokens') \<Rightarrow> Done tokens'
        | Done (False, _) \<Rightarrow> optimize_assignments_from known opt_members (i + 1) tokens)"
  by pat_completeness auto
termination
  by (relation "measure (\<lambda>(known, opt_members, i, tokens). length tokens - i)") auto

declare optimize_assignments_from.simps [simp del]

definition optimize_assignments ::
  "(string \<Rightarrow> int32 option) \<Rightarrow> bool \<Rightarrow> token list \<Rightarrow> token list outcome" where
  "optimize_assignments known opt_members = optimize_assignments_from known opt_members 1"

fun and_then :: "'a outcome \<Rightarrow> ('a \<Rightarrow> 'b outcome) \<Rightarrow> 'b outcome" where
  "and_then (Done x) f = f x"
| "and_then (Throws e) f = Throws e"
| "and_then Undefined f = Undefined"

definition optimize_once ::
  "(string \<Rightarrow> int32 option) \<Rightarrow> bool \<Rightarrow> token list \<Rightarrow> token list outcome" where
  "optimize_once known opt_members tokens =
     and_then (and_then (optimize_binary_operations tokens) optimize_unary_operations)
       (optimize_assignments known opt_members)"

section \<open>No pass lengthens an expression\<close>

lemma optimize_binary_from_length:
  "optimize_binary_from i ts = Done ts' \<Longrightarrow> length ts' \<le> length ts"
proof (induction i ts arbitrary: ts' rule: optimize_binary_from.induct)
  case (1 i ts)
  let ?skip = "optimize_binary_from (i + 1) ts"
  note simp = optimize_binary_from.simps[of i ts]
  consider "length ts \<le> i" | "i < length ts" "ttype (ts ! i) \<noteq> TYP_OPERATOR"
    | "i < length ts" "ttype (ts ! i) = TYP_OPERATOR" by linarith
  then show ?case
  proof cases
    case 1
    then show ?thesis using "1.prems" simp by simp
  next
    case 2
    then show ?thesis using "1.prems" "1.IH"(1) simp by simp
  next
    case 3
    show ?thesis
    proof (cases "optimize_pair (ts ! (i - 2)) (ts ! i) (ts ! (i - 1))")
      case (Done r)
      show ?thesis
      proof (cases r)
        case None
        then show ?thesis using "1.prems" "1.IH"(2) simp 3 Done
          by (simp add: Let_def split: if_splits)
      next
        case (Some t)
        with "1.prems" simp 3 Done have i: "\<not> i < 2"
          and ts': "optimize_binary_from (i + 1) (take (i - 2) ts @ t # drop (i + 1) ts) = Done ts'"
          by (simp_all add: Let_def split: if_splits)
        have "length ts' \<le> length (take (i - 2) ts @ t # drop (i + 1) ts)"
          using "1.IH"(3)[OF _ refl _ i Done Some ts'] 3 by simp
        then show ?thesis using i 3 by simp
      qed
    qed (use "1.prems" simp 3 in \<open>simp_all add: Let_def split: if_splits\<close>)
  qed
qed

lemma optimize_unary_from_length:
  "optimize_unary_from i ts = Done ts' \<Longrightarrow> length ts' \<le> length ts"
proof (induction i ts arbitrary: ts' rule: optimize_unary_from.induct)
  case (1 i ts)
  note simp = optimize_unary_from.simps[of i ts]
  consider "length ts \<le> i" | "i < length ts" "ttype (ts ! i) \<noteq> TYP_UNARY_OPERATOR"
    | "i < length ts" "ttype (ts ! i) = TYP_UNARY_OPERATOR" by linarith
  then show ?case
  proof cases
    case 1
    then show ?thesis using "1.prems" simp by simp
  next
    case 2
    then show ?thesis using "1.prems" "1.IH"(1) simp by simp
  next
    case 3
    then have i: "\<not> i < 1" using "1.prems" simp by (auto simp: Let_def split: if_splits)
    show ?thesis
    proof (cases "tid (ts ! i) = TOK_UNPLUS")
      case True
      then have "optimize_unary_from (i + 1) (take i ts @ drop (i + 1) ts) = Done ts'"
        using "1.prems" simp 3 i by (simp add: Let_def)
      then show ?thesis using "1.IH"(2)[OF _ refl _ i True] 3 by fastforce
    next
      case False
      show ?thesis
      proof (cases "optimize_single (ts ! i) (ts ! (i - 1))")
        case None
        then show ?thesis using "1.prems" "1.IH"(3) simp 3 i False by (simp add: Let_def)
      next
        case (Some t)
        then have "optimize_unary_from (i + 1) (take (i - 1) ts @ t # drop (i + 1) ts) = Done ts'"
          using "1.prems" simp 3 i False by (simp add: Let_def)
        then show ?thesis using "1.IH"(4)[OF _ refl _ i False Some] 3 i by fastforce
      qed
    qed
  qed
qed

lemma length_remove_at [simp]: "k < length xs \<Longrightarrow> length (remove_at k xs) = length xs - 1"
  by (simp add: remove_at_def)

lemma length_remove_at_le: "length (remove_at k xs) \<le> length xs"
  by (simp add: remove_at_def)

lemma optimize_compound_member_length:
  "ts \<noteq> [] \<Longrightarrow> length (optimize_compound_member ts i oper) \<le> length ts"
  using length_remove_at_le[of "i - 1" "butlast (butlast ts)"]
    length_remove_at_le[of "i - 1" "butlast ts"]
  by (cases ts rule: rev_cases)
    (auto simp: optimize_compound_member_def Let_def split: option.splits)

lemma optimize_assign_length:
  "optimize_assign ts i = Done (b, ts') \<Longrightarrow> length ts' \<le> length ts"
  using length_remove_at_le[of _ "ts[i := _]"]
  by (cases "get_num_tokens ts (int i - 1)"; cases "tid (ts ! (i - 1 - the (get_num_tokens ts (int i - 1))))")
    (auto simp: optimize_assign_def Let_def split: if_splits)

lemma optimize_assign_consume_length:
  "optimize_assign_consume ts i = Done (b, ts') \<Longrightarrow> length ts' \<le> length ts"
  using length_remove_at_le[of _ "ts[i := _]"]
  by (auto simp: optimize_assign_consume_def Let_def split: if_splits option.splits)

lemma optimize_consumer_length:
  "optimize_consumer ts i = Done (b, ts') \<Longrightarrow> length ts' \<le> length ts"
  by (auto simp: optimize_consumer_def Let_def split: if_splits option.splits)

lemma optimize_step_length:
  "optimize_step ts i = Done (b, ts') \<Longrightarrow> length ts' \<le> length ts"
  using length_remove_at_le[of i "ts[i - 1 := _]"]
  by (auto simp: optimize_step_def Let_def split: if_splits)

lemma optimize_member_length:
  assumes "optimize_member known om ts i = Done (b, ts')" "1 \<le> i" "i < length ts"
  shows "length ts' \<le> length ts"
proof -
  have "length (optimize_compound_member (remove_at (i - 1) (ts[i := t])) i t) \<le> length ts" for t
  proof -
    have "length (remove_at (i - 1) (ts[i := t])) = length ts - 1" using assms(2,3) by simp
    then have "0 < length (remove_at (i - 1) (ts[i := t]))" using assms(2,3) by linarith
    then have "remove_at (i - 1) (ts[i := t]) \<noteq> []" using length_greater_0_conv by blast
    then show ?thesis using optimize_compound_member_length length_remove_at_le
      by (metis (no_types, lifting) le_trans length_list_update)
  qed
  then show ?thesis using assms length_remove_at_le[of "i - 1" "ts[i := _]"]
    by (auto simp: optimize_member_def Let_def split: if_splits option.splits)
qed

lemma optimize_token_length:
  assumes "optimize_token known om ts i = Done (b, ts')" "1 \<le> i" "i < length ts"
  shows "length ts' \<le> length ts"
  using assms optimize_assign_length optimize_assign_consume_length optimize_consumer_length
    optimize_step_length optimize_member_length
  unfolding optimize_token_def Let_def by (metis (no_types, lifting) order_refl outcome.inject prod.inject)

lemma optimize_assignments_from_length:
  "optimize_assignments_from known om i ts = Done ts' \<Longrightarrow> 1 \<le> i \<Longrightarrow> length ts' \<le> length ts"
proof (induction known om i ts arbitrary: ts' rule: optimize_assignments_from.induct)
  case (1 known om i ts)
  show ?case
  proof (cases "length ts \<le> i")
    case True
    then show ?thesis using "1.prems" by (simp add: optimize_assignments_from.simps)
  next
    case False
    then show ?thesis
      using "1.prems" "1.IH"[OF False] optimize_token_length[of known om ts i]
        optimize_assignments_from.simps[of known om i ts]
      by (auto split: outcome.splits prod.splits bool.splits)
  qed
qed

lemma and_then_Done: "and_then x f = Done y \<longleftrightarrow> (\<exists>z. x = Done z \<and> f z = Done y)"
  by (cases x) simp_all

lemma optimize_once_length:
  "optimize_once known om ts = Done ts' \<Longrightarrow> length ts' \<le> length ts"
  unfolding optimize_once_def optimize_binary_operations_def optimize_unary_operations_def
    optimize_assignments_def and_then_Done
  using optimize_binary_from_length optimize_unary_from_length optimize_assignments_from_length
  by (meson le_refl le_trans)

section \<open>The whole optimiser\<close>

text \<open>The passes run again as long as they change the number of tokens.\<close>

function optimize ::
  "(string \<Rightarrow> int32 option) \<Rightarrow> bool \<Rightarrow> token list \<Rightarrow> token list outcome" where
  "optimize known opt_members tokens =
     (case optimize_once known opt_members tokens of
        Throws e \<Rightarrow> Throws e
      | Undefined \<Rightarrow> Undefined
      | Done tokens' \<Rightarrow>
          if length tokens' \<noteq> length tokens then optimize known opt_members tokens'
          else Done tokens')"
  by pat_completeness auto
termination
proof (relation "measure (\<lambda>(known, om, ts). length ts)")
  fix known om and ts ts' :: "token list"
  assume "optimize_once known om ts = Done ts'" "length ts' \<noteq> length ts"
  then show "((known, om, ts'), known, om, ts) \<in> measure (\<lambda>(known, om, ts). length ts)"
    using optimize_once_length by fastforce
qed simp

declare optimize.simps [simp del]

lemma optimize_length: "optimize known om ts = Done ts' \<Longrightarrow> length ts' \<le> length ts"
proof (induction known om ts arbitrary: ts' rule: optimize.induct)
  case (1 known om ts)
  then show ?case
    using optimize_once_length[of known om ts] optimize.simps[of known om ts]
    by (fastforce split: outcome.splits if_splits)
qed

end
