(* ===== verification/Folding.thy ===== *)
theory Folding
  imports Optimizer
begin

text \<open>
  The constant folding of the compiler against the instructions of the virtual machine.
  \<open>exec_tokens\<close> runs a postfix token list; tokens that are neither constants nor
  operators on stack operands (variables, calls, assignments) are run by a parameter, so
  the results hold in any context. The folding passes preserve what the list computes,
  except that an operator other than \<open>+ - * /\<close> between two real constants is folded
  to \<open>0.0\<close>.
\<close>

definition stack_instr :: "token \<Rightarrow> (stack \<Rightarrow> stack option) option" where
  "stack_instr t =
     (case tid t of
        TOK_LONG \<Rightarrow> Some (ins_long (tlval t))
      | TOK_DOUBLE \<Rightarrow> Some (ins_double (tdval t))
      | TOK_STRING \<Rightarrow> Some (ins_string (tokval t))
      | TOK_ADD \<Rightarrow> Some ins_add
      | TOK_SUBTRACT \<Rightarrow> Some ins_subtract
      | TOK_MULT \<Rightarrow> Some ins_mult
      | TOK_DIV \<Rightarrow> Some ins_div
      | TOK_MODULUS \<Rightarrow> Some ins_modulus
      | TOK_LESSTHAN \<Rightarrow> Some ins_lessthan
      | TOK_LESSEQ \<Rightarrow> Some ins_lessequal
      | TOK_GRTHAN \<Rightarrow> Some ins_greaterthan
      | TOK_GREQ \<Rightarrow> Some ins_greaterequal
      | TOK_EQUAL \<Rightarrow> Some ins_equal
      | TOK_NEQ \<Rightarrow> Some ins_notequal
      | TOK_AND \<Rightarrow> Some ins_logical_and
      | TOK_OR \<Rightarrow> Some ins_logical_or
      | TOK_BSRIGHT \<Rightarrow> Some ins_bitshift_right
      | TOK_BSLEFT \<Rightarrow> Some ins_bitshift_left
      | TOK_BITAND \<Rightarrow> Some ins_bitwise_and
      | TOK_BITXOR \<Rightarrow> Some ins_bitwise_xor
      | TOK_BITOR \<Rightarrow> Some ins_bitwise_or
      | TOK_UNMINUS \<Rightarrow> Some ins_unminus
      | TOK_UNPLUS \<Rightarrow> Some ins_nop
      | TOK_LOG_NOT \<Rightarrow> Some ins_logical_not
      | TOK_BITWISE_NOT \<Rightarrow> Some ins_bitwise_not
      | _ \<Rightarrow> None)"

type_synonym 's config = "'s \<times> stack"

definition exec_token ::
  "(token \<Rightarrow> 's config \<Rightarrow> 's config option) \<Rightarrow> token \<Rightarrow> 's config \<Rightarrow> 's config option" where
  "exec_token ext t cfg =
     (case stack_instr t of
        Some f \<Rightarrow> map_option (Pair (fst cfg)) (f (snd cfg))
      | None \<Rightarrow> ext t cfg)"

fun exec_tokens ::
  "(token \<Rightarrow> 's config \<Rightarrow> 's config option) \<Rightarrow> token list \<Rightarrow> 's config \<Rightarrow> 's config option" where
  "exec_tokens ext [] cfg = Some cfg"
| "exec_tokens ext (t # ts) cfg = Option.bind (exec_token ext t cfg) (exec_tokens ext ts)"

lemma exec_tokens_append:
  "exec_tokens ext (xs @ ys) cfg = Option.bind (exec_tokens ext xs cfg) (exec_tokens ext ys)"
proof (induction xs arbitrary: cfg)
  case (Cons t xs)
  then show ?case by (cases "exec_token ext t cfg") simp_all
qed simp

section \<open>One folding step\<close>

definition real_operator :: "BTokenId \<Rightarrow> bool" where
  "real_operator t \<longleftrightarrow> t \<in> {TOK_ADD, TOK_SUBTRACT, TOK_MULT, TOK_DIV}"

lemma c_str_append: "c_str (c_str a @ c_str b) = c_str a @ c_str b"
proof -
  have "x \<in> set (c_str s) \<Longrightarrow> x \<noteq> CHR 0x00" for x s
    by (auto simp: c_str_def dest: set_takeWhileD)
  then have "\<forall>x \<in> set (c_str a @ c_str b). x \<noteq> CHR 0x00" by auto
  then show ?thesis unfolding c_str_def[of "_ @ _"] by (simp add: takeWhile_eq_all_conv)
qed

lemma sint_eq_iff: "sint (a :: int32) = sint b \<longleftrightarrow> a = b"
  using signed_word_eqI by blast

lemma long_compare:
  "bobj_eq (BLong a) (BLong b) = Some (a = b)"
  "bobj_lt (BLong a) (BLong b) = Some (sint a < sint b)"
  "bobj_ne (BLong a) (BLong b) = Some (a \<noteq> b)"
  "bobj_le (BLong a) (BLong b) = Some (sint a \<le> sint b)"
  "bobj_gt (BLong a) (BLong b) = Some (sint b < sint a)"
  "bobj_ge (BLong a) (BLong b) = Some (sint b \<le> sint a)"
  by (auto simp: bobj_lt_def bobj_ne_def bobj_le_def bobj_gt_def bobj_ge_def dispatch_simps
      not_less order.order_iff_strict sint_eq_iff)

lemmas exec_simps = exec_token_def stack_instr_def ins_long_def ins_double_def ins_string_def
  ins_nop_def

lemma long_step:
  assumes "optimize_long_operation left oper right = Done (Some n)"
    and "tid left = TOK_LONG" "tid right = TOK_LONG"
  shows "exec_tokens ext [left, right, oper] cfg = exec_tokens ext [n] cfg"
  using assms
  by (cases "tid oper")
    (auto simp: optimize_long_operation_def exec_simps operator_defs dispatch_simps long_compare
      int_bool_def isTrue_def Let_def split: if_splits option.splits)

lemma double_step:
  assumes "optimize_double_operation left oper right = Done (Some n)" "real_operator (tid oper)"
    and "tid left = TOK_DOUBLE" "tid right = TOK_DOUBLE"
  shows "exec_tokens ext [left, right, oper] cfg = exec_tokens ext [n] cfg"
  using assms
  by (auto simp: real_operator_def optimize_double_operation_def exec_simps operator_defs
      dispatch_simps Let_def split: if_splits)

lemma string_step:
  assumes "optimize_string_operation left oper right = Done (Some n)"
    and "tid left = TOK_STRING" "tid right = TOK_STRING"
  shows "exec_tokens ext [left, right, oper] cfg = exec_tokens ext [n] cfg"
  using assms
  by (cases "tid oper")
    (auto simp: optimize_string_operation_def exec_simps operator_defs dispatch_simps Let_def
      c_str_append)

lemma optimize_pair_Some:
  assumes "optimize_pair left oper right = Done (Some n)"
  shows "tid left = tid right \<and>
    (tid left = TOK_LONG \<and> optimize_long_operation left oper right = Done (Some n) \<or>
     tid left = TOK_DOUBLE \<and> optimize_double_operation left oper right = Done (Some n) \<or>
     tid left = TOK_STRING \<and> optimize_string_operation left oper right = Done (Some n))"
proof -
  have same: "tid left = tid right" using assms by (simp add: optimize_pair_def split: if_split_asm)
  have "(case tid left of
        TOK_LONG \<Rightarrow> optimize_long_operation left oper right
      | TOK_DOUBLE \<Rightarrow> optimize_double_operation left oper right
      | TOK_STRING \<Rightarrow> optimize_string_operation left oper right
      | _ \<Rightarrow> Done None) = Done (Some n)"
    using assms same by (simp only: optimize_pair_def) simp
  then have "tid left = TOK_LONG \<and> optimize_long_operation left oper right = Done (Some n) \<or>
     tid left = TOK_DOUBLE \<and> optimize_double_operation left oper right = Done (Some n) \<or>
     tid left = TOK_STRING \<and> optimize_string_operation left oper right = Done (Some n)"
    by (cases "tid left") simp_all
  then show ?thesis using same by blast
qed

lemma pair_step:
  assumes "optimize_pair left oper right = Done (Some n)"
    and "tid left = TOK_DOUBLE \<Longrightarrow> real_operator (tid oper)"
  shows "exec_tokens ext [left, right, oper] cfg = exec_tokens ext [n] cfg"
  using optimize_pair_Some[OF assms(1)] assms(2) long_step double_step string_step by metis

lemma long_unary_step:
  "optimize_long_unary oper val = Some n \<Longrightarrow> tid val = TOK_LONG \<Longrightarrow>
     exec_tokens ext [val, oper] cfg = exec_tokens ext [n] cfg"
  by (cases "tid oper")
    (auto simp: optimize_long_unary_def exec_simps inverse_def bitnot_def int_bool_def isTrue_def)

lemma double_unary_step:
  "optimize_double_unary oper val = Some n \<Longrightarrow> tid val = TOK_DOUBLE \<Longrightarrow>
     exec_tokens ext [val, oper] cfg = exec_tokens ext [n] cfg"
  by (cases "tid oper") (auto simp: optimize_double_unary_def exec_simps inverse_def)

lemma optimize_single_Some:
  assumes "optimize_single oper val = Some n"
  shows "tid val = TOK_LONG \<and> optimize_long_unary oper val = Some n \<or>
    tid val = TOK_DOUBLE \<and> optimize_double_unary oper val = Some n"
  using assms by (cases "tid val") (simp_all add: optimize_single_def optimize_string_unary_def)

lemma single_step:
  "optimize_single oper val = Some n \<Longrightarrow>
     exec_tokens ext [val, oper] cfg = exec_tokens ext [n] cfg"
  using optimize_single_Some long_unary_step double_unary_step by metis

lemma unplus_step: "tid oper = TOK_UNPLUS \<Longrightarrow> exec_tokens ext [oper] cfg = exec_tokens ext [] cfg"
  by (simp add: exec_simps)

lemma same_in_context:
  assumes "\<And>cfg. exec_tokens ext xs cfg = exec_tokens ext ys cfg"
  shows "exec_tokens ext (as @ xs @ bs) cfg = exec_tokens ext (as @ ys @ bs) cfg"
proof -
  have "exec_tokens ext (xs @ bs) = exec_tokens ext (ys @ bs)"
    using assms by (auto simp: exec_tokens_append)
  then show ?thesis by (simp add: exec_tokens_append)
qed

section \<open>The passes\<close>

text \<open>
  No fold of real constants goes wrong when there are none, or when every binary operator
  is one of \<open>+ - * /\<close>.
\<close>

definition real_safe :: "token list \<Rightarrow> bool" where
  "real_safe ts \<longleftrightarrow>
     (\<forall>t \<in> set ts. tid t \<noteq> TOK_DOUBLE) \<or>
     (\<forall>t \<in> set ts. ttype t = TYP_OPERATOR \<longrightarrow> real_operator (tid t))"

lemma pair_keeps:
  assumes "optimize_pair left oper right = Done (Some n)"
  shows "tid n = tid left \<and> ttype n = ttype left"
proof -
  have "optimize_long_operation left oper right = Done (Some n) \<Longrightarrow> ?thesis"
    by (cases "tid oper")
      (auto simp: optimize_long_operation_def Let_def split: if_splits option.splits)
  moreover have "optimize_double_operation left oper right = Done (Some n) \<Longrightarrow> ?thesis"
    by (cases "tid oper") (auto simp: optimize_double_operation_def Let_def split: if_splits)
  moreover have "optimize_string_operation left oper right = Done (Some n) \<Longrightarrow> ?thesis"
    by (cases "tid oper") (auto simp: optimize_string_operation_def Let_def)
  ultimately show ?thesis using optimize_pair_Some[OF assms] by blast
qed

lemma split_two:
  "1 \<le> i \<Longrightarrow> i < length ts \<Longrightarrow> ts = take (i - 1) ts @ [ts ! (i - 1), ts ! i] @ drop (i + 1) ts"
  using Cons_nth_drop_Suc[of "i - 1" ts] Cons_nth_drop_Suc[of i ts] append_take_drop_id[of "i - 1" ts]
  by simp

lemma split_three:
  "2 \<le> i \<Longrightarrow> i < length ts \<Longrightarrow>
     ts = take (i - 2) ts @ [ts ! (i - 2), ts ! (i - 1), ts ! i] @ drop (i + 1) ts"
  using Cons_nth_drop_Suc[of "i - 2" ts] Cons_nth_drop_Suc[of "i - 1" ts]
    Cons_nth_drop_Suc[of i ts] append_take_drop_id[of "i - 2" ts]
  by (simp add: Suc_diff_le numeral_2_eq_2 Suc_diff_Suc)

lemma real_safe_step:
  assumes "real_safe ts" "2 \<le> i" "i < length ts"
    and "optimize_pair (ts ! (i - 2)) (ts ! i) (ts ! (i - 1)) = Done (Some n)"
  shows "real_safe (take (i - 2) ts @ n # drop (i + 1) ts)"
proof -
  have mem: "ts ! (i - 2) \<in> set ts" using assms(3) by simp
  have sub: "t \<in> set (take (i - 2) ts @ n # drop (i + 1) ts) \<Longrightarrow> t = n \<or> t \<in> set ts" for t
    by (auto dest: in_set_takeD in_set_dropD)
  show ?thesis
    using assms(1) pair_keeps[OF assms(4)] mem sub unfolding real_safe_def by metis
qed

lemma binary_pass_sound:
  "optimize_binary_from i ts = Done ts' \<Longrightarrow> real_safe ts \<Longrightarrow>
     exec_tokens ext ts' cfg = exec_tokens ext ts cfg"
proof (induction i ts arbitrary: ts' rule: optimize_binary_from.induct)
  case (1 i ts)
  note simp = optimize_binary_from.simps[of i ts]
  consider "length ts \<le> i" | "i < length ts" "ttype (ts ! i) \<noteq> TYP_OPERATOR"
    | "i < length ts" "ttype (ts ! i) = TYP_OPERATOR" by linarith
  then show ?case
  proof cases
    case 1
    then show ?thesis using "1.prems" simp by simp
  next
    case 2
    then show ?thesis using "1.prems" "1.IH"(1) simp by simp
  next
    case 3
    show ?thesis
    proof (cases "optimize_pair (ts ! (i - 2)) (ts ! i) (ts ! (i - 1))")
      case (Done r)
      show ?thesis
      proof (cases r)
        case None
        then show ?thesis using "1.prems" "1.IH"(2) simp 3 Done
          by (simp add: Let_def split: if_splits)
      next
        case (Some t)
        let ?ts = "take (i - 2) ts @ t # drop (i + 1) ts"
        from "1.prems"(1) simp 3 Done Some have i: "\<not> i < 2"
          and ts': "optimize_binary_from (i + 1) ?ts = Done ts'"
          by (simp_all add: Let_def split: if_splits)
        note pair = Done[unfolded Some]
        have safe: "real_safe ?ts"
          using real_safe_step[OF "1.prems"(2) _ 3(1) pair] i by simp
        have "tid (ts ! (i - 2)) = TOK_DOUBLE \<Longrightarrow> real_operator (tid (ts ! i))"
          using "1.prems"(2) 3 unfolding real_safe_def by fastforce
        then have "exec_tokens ext ?ts cfg = exec_tokens ext ts cfg"
          using same_in_context[OF pair_step[OF pair], of ext "take (i - 2) ts" "drop (i + 1) ts" cfg]
            split_three[of i ts] i 3(1) by simp
        then show ?thesis using "1.IH"(3)[OF _ refl _ i Done Some ts' safe] 3 by simp
      qed
    qed (use "1.prems" simp 3 in \<open>simp_all add: Let_def split: if_splits\<close>)
  qed
qed

lemma unary_pass_sound:
  "optimize_unary_from i ts = Done ts' \<Longrightarrow> exec_tokens ext ts' cfg = exec_tokens ext ts cfg"
proof (induction i ts arbitrary: ts' rule: optimize_unary_from.induct)
  case (1 i ts)
  note simp = optimize_unary_from.simps[of i ts]
  consider "length ts \<le> i" | "i < length ts" "ttype (ts ! i) \<noteq> TYP_UNARY_OPERATOR"
    | "i < length ts" "ttype (ts ! i) = TYP_UNARY_OPERATOR" by linarith
  then show ?case
  proof cases
    case 1
    then show ?thesis using "1.prems" simp by simp
  next
    case 2
    then show ?thesis using "1.prems" "1.IH"(1) simp by simp
  next
    case 3
    then have i: "\<not> i < 1" using "1.prems" simp by (auto simp: Let_def split: if_splits)
    show ?thesis
    proof (cases "tid (ts ! i) = TOK_UNPLUS")
      case True
      then have ts': "optimize_unary_from (i + 1) (take i ts @ drop (i + 1) ts) = Done ts'"
        using "1.prems" simp 3 i by (simp add: Let_def)
      have "exec_tokens ext (take i ts @ drop (i + 1) ts) cfg = exec_tokens ext ts cfg"
        using same_in_context[OF unplus_step[OF True], of ext "take i ts" "drop (i + 1) ts" cfg]
          id_take_nth_drop[OF 3(1)] by simp
      then show ?thesis using "1.IH"(2)[OF _ refl _ i True ts'] 3 by simp
    next
      case False
      show ?thesis
      proof (cases "optimize_single (ts ! i) (ts ! (i - 1))")
        case None
        then show ?thesis using "1.prems" "1.IH"(3) simp 3 i False by (simp add: Let_def)
      next
        case (Some t)
        let ?ts = "take (i - 1) ts @ t # drop (i + 1) ts"
        have ts': "optimize_unary_from (i + 1) ?ts = Done ts'"
          using "1.prems" simp 3 i False Some by (simp add: Let_def)
        have "exec_tokens ext ?ts cfg = exec_tokens ext ts cfg"
          using same_in_context[OF single_step[OF Some], of ext "take (i - 1) ts" "drop (i + 1) ts" cfg]
            split_two[of i ts] i 3(1) by simp
        then show ?thesis using "1.IH"(4)[OF _ refl _ i False Some ts'] 3 by simp
      qed
    qed
  qed
qed

section \<open>The extent of an operand\<close>

text \<open>
  The tree of an expression and its postfix form. A tree is well formed when every token
  has the operands it takes.
\<close>

datatype expr = Node token "expr list"

fun postfix :: "expr \<Rightarrow> token list" where
  "postfix (Node t es) = concat (map postfix es) @ [t]"

fun wf_expr :: "expr \<Rightarrow> bool" where
  "wf_expr (Node t es) \<longleftrightarrow> num_children t = Some (length es) \<and> (\<forall>e \<in> set es. wf_expr e)"

lemma postfix_nonempty [simp]: "postfix e \<noteq> []"
  by (cases e) simp

text \<open>The children are counted from the last to the first.\<close>

lemma get_num_children_postfix:
  assumes "\<And>e pre suf. e \<in> set es \<Longrightarrow>
      get_num_tokens (pre @ postfix e @ suf) (int (length pre + length (postfix e)) - 1)
        = Some (length (postfix e))"
    and "count \<ge> 1"
  shows "get_num_children (pre @ concat (map postfix es) @ suf)
      (int (length pre + length (concat (map postfix es)) + count) - 1) (length es) count
        = Some (count + length (concat (map postfix es)))"
  using assms
proof (induction es arbitrary: count suf rule: rev_induct)
  case Nil
  then show ?case by simp
next
  case (snoc e es)
  let ?c = "concat (map postfix es)"
  have "get_num_tokens ((pre @ ?c) @ postfix e @ suf)
      (int (length (pre @ ?c) + length (postfix e)) - 1) = Some (length (postfix e))"
    by (rule snoc.prems(1)) simp
  then have last: "get_num_tokens (pre @ ?c @ postfix e @ suf)
      (int (length pre + (length ?c + length (postfix e)) + count) - 1 - int count)
        = Some (length (postfix e))"
    by (simp add: algebra_simps)
  have "get_num_children (pre @ ?c @ postfix e @ suf)
      (int (length pre + length ?c + (count + length (postfix e))) - 1) (length es)
      (count + length (postfix e)) = Some (count + length (postfix e) + length ?c)"
    using snoc.IH[of "count + length (postfix e)" "postfix e @ suf"] snoc.prems by simp
  then show ?case using last by (simp add: algebra_simps)
qed

lemma get_num_tokens_postfix:
  "wf_expr e \<Longrightarrow>
     get_num_tokens (pre @ postfix e @ suf) (int (length pre + length (postfix e)) - 1)
       = Some (length (postfix e))"
proof (induction e arbitrary: pre suf)
  case (Node t es)
  let ?c = "concat (map postfix es)"
  have "get_num_children (pre @ ?c @ t # suf) (int (length pre + length ?c + 1) - 1) (length es) 1
      = Some (1 + length ?c)"
    using Node by (intro get_num_children_postfix) auto
  moreover have "(pre @ ?c @ t # suf) ! nat (int (length pre + length ?c)) = t"
    by (metis append.assoc length_append nat_int nth_append_length)
  ultimately show ?case
    using Node.prems by (subst get_num_tokens.simps) (auto simp: nth_append algebra_simps)
qed

text \<open>An assignment to an element becomes one instruction on the operands.\<close>

lemma optimize_assign_subscript:
  assumes "wf_expr r" "wf_expr (Node sub ls)" "tid sub = TOK_ARRAY_SUBSCRIPT"
  shows "optimize_assign (postfix (Node asg [Node sub ls, r])) (length (postfix (Node asg [Node sub ls, r])) - 1)
    = Done (True, concat (map postfix ls) @ postfix r @
        [asg\<lparr>tid := INS_SUBSCRIPT_ASSIGN, ttype := TYP_UNARY_OPERATOR, tlval := tlval sub\<rparr>])"
proof -
  let ?l = "concat (map postfix ls)"
  let ?ts = "?l @ sub # postfix r @ [asg]"
  let ?i = "length ?l + 1 + length (postfix r)"
  have "get_num_tokens ((?l @ [sub]) @ postfix r @ [asg])
      (int (length (?l @ [sub]) + length (postfix r)) - 1) = Some (length (postfix r))"
    by (rule get_num_tokens_postfix[OF assms(1)])
  then have n: "get_num_tokens ?ts (int ?i - 1) = Some (length (postfix r))" by simp
  have "?ts ! ?i = asg" "?ts ! length ?l = sub" by (simp_all add: nth_append)
  moreover have "?i - 1 - length (postfix r) = length ?l" by simp
  moreover have "remove_at (length ?l) (?ts[?i := t]) = ?l @ postfix r @ [t]" for t
    by (simp add: remove_at_def list_update_append)
  ultimately show ?thesis using n assms(3) by (simp add: optimize_assign_def Let_def)
qed

section \<open>Properties\<close>

text \<open>
  C3. Folding binary operators with constant operands does not change what an expression
  computes, in any context, when no operator other than \<open>+ - * /\<close> stands in an
  expression with real constants (\<open>real_safe\<close>). Without this it does.
\<close>

theorem binary_folding_sound:
  assumes "optimize_binary_operations ts = Done ts'" "real_safe ts"
  shows "exec_tokens ext ts' cfg = exec_tokens ext ts cfg"
  using assms binary_pass_sound unfolding optimize_binary_operations_def by blast

definition sample_token :: token where
  "sample_token = \<lparr>tid = TOK_LONG, ttype = TYP_OPERAND, tlval = 0, tdval = dzero False, tokval = [],
     nparams = 0, module = 0, userfunc = None\<rparr>"

text \<open>\<open>10 - 3 * x\<close> with the constant \<open>x = 2\<close>.\<close>

definition sample_sum :: "token list" where
  "sample_sum = [sample_token\<lparr>tlval := 10\<rparr>, sample_token\<lparr>tlval := 3\<rparr>, sample_token\<lparr>tlval := 2\<rparr>,
     sample_token\<lparr>tid := TOK_MULT, ttype := TYP_OPERATOR\<rparr>,
     sample_token\<lparr>tid := TOK_SUBTRACT, ttype := TYP_OPERATOR\<rparr>]"

lemmas sample_defs = sample_sum_def sample_token_def

lemma binary_folding_sound_witness:
  "exec_tokens (\<lambda>t cfg. None) [sample_token\<lparr>tlval := 10\<rparr>, sample_token\<lparr>tlval := 6\<rparr>,
      sample_token\<lparr>tid := TOK_SUBTRACT, ttype := TYP_OPERATOR\<rparr>] ((), []) =
   exec_tokens (\<lambda>t cfg. None) sample_sum ((), [])"
  by (rule binary_folding_sound)
    (simp_all add: optimize_binary_operations_def optimize_binary_from.simps sample_defs
      optimize_pair_def optimize_long_operation_def real_safe_def)

text \<open>
  C35. Folding unary operators, and dropping a unary plus, does not change what an expression
  computes.
\<close>

theorem unary_folding_sound:
  assumes "optimize_unary_operations ts = Done ts'"
  shows "exec_tokens ext ts' cfg = exec_tokens ext ts cfg"
  using assms unary_pass_sound unfolding optimize_unary_operations_def by blast

lemma unary_folding_sound_witness:
  "exec_tokens (\<lambda>t cfg. None) [sample_token\<lparr>tlval := - 5\<rparr>] ((), []) =
   exec_tokens (\<lambda>t cfg. None) [sample_token\<lparr>tlval := 5\<rparr>,
     sample_token\<lparr>tid := TOK_UNMINUS, ttype := TYP_UNARY_OPERATOR\<rparr>] ((), [])"
  by (rule unary_folding_sound)
    (simp add: optimize_unary_operations_def optimize_unary_from.simps sample_token_def
      optimize_single_def optimize_long_unary_def)

text \<open>
  C40. An operator other than \<open>+ - * /\<close> between two real constants is folded to
  \<open>0.0\<close>, whatever it should compute: of two real constants in order the machine
  computes \<open>l < r\<close> to be the integer one.
\<close>

theorem real_comparison_folded_wrongly:
  assumes "tid l = TOK_DOUBLE" "tid r = TOK_DOUBLE" "tid op = TOK_LESSTHAN" "ttype op = TYP_OPERATOR"
    and "ttype l = TYP_OPERAND" "ttype r = TYP_OPERAND" "d_lt (tdval l) (tdval r)"
  shows "optimize_binary_operations [l, r, op] = Done [l\<lparr>tdval := dzero False\<rparr>] \<and>
    exec_tokens ext [l, r, op] (s, []) = Some (s, [BLong 1]) \<and>
    exec_tokens ext [l\<lparr>tdval := dzero False\<rparr>] (s, []) = Some (s, [BDouble (dzero False)])"
  using assms
  by (simp add: optimize_binary_operations_def optimize_binary_from.simps optimize_pair_def
      optimize_double_operation_def exec_simps int_bool_def bobj_lt_def dispatch_simps)

lemma real_comparison_folded_wrongly_witness:
  "optimize_binary_operations
     [sample_token\<lparr>tid := TOK_DOUBLE\<rparr>, sample_token\<lparr>tid := TOK_DOUBLE, tdval := DInf False\<rparr>,
      sample_token\<lparr>tid := TOK_LESSTHAN, ttype := TYP_OPERATOR\<rparr>] =
   Done [sample_token\<lparr>tid := TOK_DOUBLE, tdval := dzero False\<rparr>]"
  by (rule real_comparison_folded_wrongly[THEN conjunct1])
    (simp_all add: sample_token_def dzero_def)

text \<open>
  The optimiser ends on every expression (\<open>optimize\<close> is total), and its result has
  no more tokens than the expression.
\<close>

theorem optimize_never_lengthens:
  assumes "optimize known opt_members ts = Done ts'"
  shows "length ts' \<le> length ts"
  by (rule optimize_length[OF assms])

lemma optimize_never_lengthens_witness: "length [sample_token\<lparr>tlval := 4\<rparr>] \<le> length sample_sum"
  by (rule optimize_never_lengthens[of "\<lambda>_. None" False])
    (simp add: optimize.simps optimize_once_def optimize_binary_operations_def
      optimize_binary_from.simps optimize_unary_operations_def optimize_unary_from.simps
      optimize_assignments_def optimize_assignments_from.simps optimize_token_def sample_defs optimize_pair_def
      optimize_long_operation_def Let_def)

text \<open>
  C23. \<^verbatim>\<open>get_num_tokens\<close> at the last token of an operand counts exactly the tokens of
  that operand, wherever it stands in the expression.
\<close>

theorem operand_extent:
  assumes "wf_expr e"
  shows "get_num_tokens (pre @ postfix e @ suf) (int (length pre + length (postfix e)) - 1) =
    Some (length (postfix e))"
  by (rule get_num_tokens_postfix[OF assms])

lemma operand_extent_witness: "get_num_tokens sample_sum 3 = Some 3"
proof -
  let ?e = "Node (sample_token\<lparr>tid := TOK_MULT, ttype := TYP_OPERATOR\<rparr>)
    [Node (sample_token\<lparr>tlval := 3\<rparr>) [], Node (sample_token\<lparr>tlval := 2\<rparr>) []]"
  have "wf_expr ?e" by (simp add: num_children_def sample_token_def)
  from operand_extent[OF this, of "[sample_token\<lparr>tlval := 10\<rparr>]"
      "[sample_token\<lparr>tid := TOK_SUBTRACT, ttype := TYP_OPERATOR\<rparr>]"]
  show ?thesis by (simp add: sample_sum_def)
qed

text \<open>
  C34. An assignment to an element of an array becomes the operands of the subscript, the
  operand assigned and one instruction that keeps the number of subscripts.
\<close>

theorem assignment_to_element:
  assumes "wf_expr r" "wf_expr (Node sub ls)" "tid sub = TOK_ARRAY_SUBSCRIPT"
    and "ttype asg = TYP_OPERATOR" "tid asg = TOK_ASSIGN"
  shows "optimize_token known opt_members (postfix (Node asg [Node sub ls, r]))
      (length (postfix (Node asg [Node sub ls, r])) - 1)
    = Done (True, concat (map postfix ls) @ postfix r @
        [asg\<lparr>tid := INS_SUBSCRIPT_ASSIGN, ttype := TYP_UNARY_OPERATOR, tlval := tlval sub\<rparr>])"
proof -
  let ?ts = "postfix (Node asg [Node sub ls, r])"
  have "postfix (Node asg es) ! (length (postfix (Node asg es)) - 1) = asg" for es by simp
  note nth = this[of "[Node sub ls, r]"]
  have "optimize_token known opt_members ?ts (length ?ts - 1) = optimize_assign ?ts (length ?ts - 1)"
    unfolding optimize_token_def Let_def nth using assms(4,5) by simp
  then show ?thesis using optimize_assign_subscript[OF assms(1-3), of asg] by (rule trans)
qed

lemma assignment_to_element_witness:
  "optimize_token (\<lambda>_. None) True
     [sample_token\<lparr>tid := TOK_LOCALVAR\<rparr>, sample_token\<lparr>tlval := 1\<rparr>,
      sample_token\<lparr>tid := TOK_ARRAY_SUBSCRIPT, ttype := TYP_OPERATOR, tlval := 1\<rparr>,
      sample_token\<lparr>tlval := 9\<rparr>, sample_token\<lparr>tid := TOK_ASSIGN, ttype := TYP_OPERATOR\<rparr>] 4
   = Done (True, [sample_token\<lparr>tid := TOK_LOCALVAR\<rparr>, sample_token\<lparr>tlval := 1\<rparr>,
      sample_token\<lparr>tlval := 9\<rparr>,
      sample_token\<lparr>tid := INS_SUBSCRIPT_ASSIGN, ttype := TYP_UNARY_OPERATOR, tlval := 1\<rparr>])"
  using assignment_to_element[of "Node (sample_token\<lparr>tlval := 9\<rparr>) []"
      "sample_token\<lparr>tid := TOK_ARRAY_SUBSCRIPT, ttype := TYP_OPERATOR, tlval := 1\<rparr>"
      "[Node (sample_token\<lparr>tid := TOK_LOCALVAR\<rparr>) [], Node (sample_token\<lparr>tlval := 1\<rparr>) []]"
      "sample_token\<lparr>tid := TOK_ASSIGN, ttype := TYP_OPERATOR\<rparr>" "\<lambda>_. None" True]
  by (simp add: num_children_def sample_token_def eval_nat_numeral)

end
