(* ===== verification/Params.thy ===== *)
theory Params
  imports Objects
begin

text \<open>
  The parameters of a method call: \<^verbatim>\<open>Executor::getParam\<close> and its relatives, and what
  the machine pushes when a method returns. A method may return no object and may leave an
  error in \<^verbatim>\<open>func_result_\<close>, which takes precedence.
\<close>

text \<open>The changed object, \<^verbatim>\<open>func_result_\<close> and the object returned, if any.\<close>

record 's reply =
  object :: 's
  func_result :: "BObjectImp option"
  returned :: "BObjectImp option"

definition reply_value :: "'s \<Rightarrow> BObjectImp \<Rightarrow> 's reply" where
  "reply_value s v = \<lparr>object = s, func_result = None, returned = Some v\<rparr>"

definition reply_error :: "'s \<Rightarrow> string \<Rightarrow> 's reply" where
  "reply_error s msg = reply_value s (mk_error msg)"

definition reply_null :: "'s \<Rightarrow> 's reply" where
  "reply_null s = \<lparr>object = s, func_result = None, returned = None\<rparr>"

text \<open>The end of \<^verbatim>\<open>ins_call_method_id\<close>.\<close>

definition pushed :: "'s reply \<Rightarrow> BObjectImp" where
  "pushed r =
     (case func_result r of
        Some e \<Rightarrow> e
      | None \<Rightarrow> (case returned r of Some v \<Rightarrow> v | None \<Rightarrow> UninitObject))"

text \<open>\<^verbatim>\<open>getParam( param, value )\<close>.\<close>

definition getParam :: "BObjectImp list \<Rightarrow> nat \<Rightarrow> int32 option" where
  "getParam params param =
     (if param < length params then (case params ! param of BLong i \<Rightarrow> Some i | _ \<Rightarrow> None) else None)"

text \<open>
  \<^verbatim>\<open>getParam( param, value, minval, maxval )\<close>: the value or the error left in
  \<^verbatim>\<open>func_result_\<close>.
\<close>

definition range_report :: "nat \<Rightarrow> int \<Rightarrow> int \<Rightarrow> int \<Rightarrow> string" where
  "range_report param val minval maxval =
     ''Parameter '' @ show_nat param @ '' value '' @ show_int val @
     '' out of expected range of ['' @ show_int minval @ ''..'' @ show_int maxval @ '']''"

definition type_report :: "nat \<Rightarrow> BObjectType \<Rightarrow> BObjectType \<Rightarrow> string" where
  "type_report param expected got =
     ''Invalid parameter type.  Expected param '' @ show_nat param @ '' as '' @
     typestr expected @ '', got '' @ typestr got"

definition getParam_range :: "BObjectImp list \<Rightarrow> nat \<Rightarrow> int \<Rightarrow> int \<Rightarrow> BObjectImp + int" where
  "getParam_range params param minval maxval =
     (case params ! param of
        BLong i \<Rightarrow>
          if minval \<le> sint i \<and> sint i \<le> maxval then Inr (sint i)
          else Inl (mk_error (range_report param (sint i) minval maxval))
      | v \<Rightarrow> Inl (mk_error (type_report param OTLong (otype v))))"

lemma pushed_simps [simp]:
  "pushed (reply_value s v) = v" "pushed (reply_error s msg) = mk_error msg"
  "pushed (reply_null s) = UninitObject"
  by (simp_all add: pushed_def reply_value_def reply_error_def reply_null_def)

lemma object_simps [simp]:
  "object (reply_value s v) = s" "object (reply_error s msg) = s" "object (reply_null s) = s"
  by (simp_all add: reply_value_def reply_error_def reply_null_def)

end
