(* ===== verification/Arrays.thy ===== *)
theory Arrays
  imports Compare Params "HOL-Library.Multiset"
begin

text \<open>
  \<^verbatim>\<open>ObjArray\<close>: subscripts, slices, assignment with growth, the members of old-style
  structures and the methods. An operation takes the names and the elements and returns the
  changed ones. \<open>None\<close> marks behaviour the language leaves undefined (reading an empty
  stack of subscripts, a null element used as an object, the absolute value of the least
  \<^verbatim>\<open>int\<close>) and, in \<open>sorted_insert\<close>, an order decided by addresses.
\<close>

type_synonym elems = "BObjectImp option list"

definition int_of_length :: "nat \<Rightarrow> int32" where
  "int_of_length n = word_of_nat n"

section \<open>Subscripts\<close>

text \<open>
  \<^verbatim>\<open>array_assign\<close>: the elements and the returned object. The index is converted to
  \<^verbatim>\<open>unsigned\<close>, and a larger one than the size makes the array grow to it.
\<close>

definition ObjArray_array_assign :: "elems \<Rightarrow> BObjectImp \<Rightarrow> BObjectImp \<Rightarrow> elems \<times> BObjectImp" where
  "ObjArray_array_assign es idx target =
     (case idx of
        BLong i \<Rightarrow>
          (let index = unat i;
               es' = (if length es < index then es @ replicate (index - length es) None else es)
           in if index = 0 then (es, mk_error ''Array index out of bounds'')
              else (es'[index - 1 := Some target], target))
      | _ \<Rightarrow> (es, UninitObject))"

text \<open>A null element that is subscripted becomes an uninitialised object.\<close>

definition ObjArray_OperSubscript :: "string list \<Rightarrow> elems \<Rightarrow> BObjectImp \<Rightarrow> elems \<times> BObjectImp" where
  "ObjArray_OperSubscript ns es right =
     (case right of
        BLong i \<Rightarrow>
          (let index = unat i
           in if length es < index then (es, mk_error ''Array index out of bounds'')
              else if index = 0 then (es, mk_error ''Array index out of bounds'')
              else (case es ! (index - 1) of
                      None \<Rightarrow> (es[index - 1 := Some UninitObject], UninitObject)
                    | Some v \<Rightarrow> (es, v)))
      | _ \<Rightarrow> (es, ObjArray ns es))"

text \<open>The loop of the slice \<^verbatim>\<open>a[start, end]\<close>; \<open>i\<close> counts the elements seen.\<close>

fun copy_range :: "nat \<Rightarrow> nat \<Rightarrow> nat \<Rightarrow> elems \<Rightarrow> elems" where
  "copy_range i index stop [] = []"
| "copy_range i index stop (e # es) =
     (if i + 1 < index then copy_range (i + 1) index stop es
      else if i + 1 > stop then []
      else e # copy_range (i + 1) index stop es)"

fun ObjArray_OperMultiSubscript :: "string list \<Rightarrow> elems \<Rightarrow> BObjectImp list \<Rightarrow> BObjectImp option" where
  "ObjArray_OperMultiSubscript ns es (start # len # indices) =
     Some (case start of
        BLong s \<Rightarrow>
          if unat s = 0 \<or> unat s > length es
          then mk_error ''Array start index out of bounds''
          else (case len of
                  BLong e \<Rightarrow>
                    if unat e = 0 \<or> unat e > length es
                    then mk_error ''Array end index out of bounds''
                    else ObjArray [] (copy_range 0 (unat s) (unat e) es)
                | _ \<Rightarrow> ObjArray ns es)
      | _ \<Rightarrow> ObjArray ns es)"
| "ObjArray_OperMultiSubscript ns es _ = None"

section \<open>Members of old-style structures\<close>

definition stricmp_eq :: "string \<Rightarrow> string \<Rightarrow> bool" where
  "stricmp_eq a b \<longleftrightarrow> ci_key a = ci_key b"

fun find_name :: "string list \<Rightarrow> string \<Rightarrow> nat \<Rightarrow> nat option" where
  "find_name [] membername i = None"
| "find_name (name # ns) membername i =
     (if stricmp_eq name membername then Some i else find_name ns membername (i + 1))"

text \<open>The reference found, null or not; \<open>None\<close> when the name has no element.\<close>

definition ObjArray_get_member :: "string list \<Rightarrow> elems \<Rightarrow> string \<Rightarrow> BObjectImp option option" where
  "ObjArray_get_member ns es membername =
     (case find_name ns membername 0 of
        Some i \<Rightarrow> if i < length es then Some (es ! i) else None
      | None \<Rightarrow> Some (Some UninitObject))"

definition ObjArray_set_member ::
  "string list \<Rightarrow> elems \<Rightarrow> string \<Rightarrow> BObjectImp \<Rightarrow> (elems \<times> BObjectImp) option" where
  "ObjArray_set_member ns es membername target =
     (case find_name ns membername 0 of
        Some i \<Rightarrow>
          if i < length es \<and> es ! i \<noteq> None then Some (es[i := Some target], target) else None
      | None \<Rightarrow> Some (es, UninitObject))"

definition ObjArray_operDotPlus ::
  "string list \<Rightarrow> elems \<Rightarrow> string \<Rightarrow> (string list \<times> elems) \<times> BObjectImp" where
  "ObjArray_operDotPlus ns es name =
     (if find_name ns name 0 \<noteq> None then ((ns, es), mk_error ''Member already exists'')
      else ((ns @ [name], es @ [Some UninitObject]), UninitObject))"

section \<open>Methods\<close>

text \<open>
  Every method but \<^verbatim>\<open>size\<close> does nothing on an array with member names: the
  \<^verbatim>\<open>switch\<close> is left and no object returned.
\<close>

definition ObjArray_size :: "elems \<Rightarrow> BObjectImp list \<Rightarrow> elems reply" where
  "ObjArray_size es params =
     (if params = [] then reply_value es (BLong (int_of_length (length es)))
      else reply_error es ''array.size() doesn't take parameters.'')"

definition ObjArray_erase :: "elems \<Rightarrow> BObjectImp list \<Rightarrow> elems reply" where
  "ObjArray_erase es params =
     (if length params = 1
      then (case getParam_range params 0 1 (sint (int_of_length (length es))) of
              Inr idx \<Rightarrow>
                reply_value (take (nat idx - 1) es @ drop (nat idx) es) (BLong 1)
            | Inl e \<Rightarrow> \<lparr>object = es, func_result = Some e, returned = None\<rparr>)
      else reply_error es ''array.erase(index) requires a parameter.'')"

definition ObjArray_exists :: "elems \<Rightarrow> BObjectImp list \<Rightarrow> elems reply" where
  "ObjArray_exists es params =
     (if length params = 1
      then (case getParam params 0 of
              Some idx \<Rightarrow>
                if 0 \<le> sint idx
                then reply_value es
                       (BLong (if sint idx \<le> sint (int_of_length (length es)) then 1 else 0))
                else reply_error es ''Invalid parameter type''
            | None \<Rightarrow> reply_error es ''Invalid parameter type'')
      else reply_error es ''array.exists(index) requires a parameter.'')"

definition ObjArray_insert :: "elems \<Rightarrow> BObjectImp list \<Rightarrow> elems reply" where
  "ObjArray_insert es params =
     (if length params = 2
      then (case getParam_range params 0 1 (sint (int_of_length (length es + 1))) of
              Inr idx \<Rightarrow>
                reply_null (take (nat idx - 1) es @ Some (params ! 1) # drop (nat idx - 1) es)
            | Inl e \<Rightarrow>
                \<lparr>object = es, func_result = Some e,
                 returned = Some (mk_error ''Invalid parameter type'')\<rparr>)
      else reply_error es ''array.insert(index,value) requires two parameters.'')"

definition ObjArray_shrink :: "elems \<Rightarrow> BObjectImp list \<Rightarrow> elems reply" where
  "ObjArray_shrink es params =
     (if length params = 1
      then (case getParam_range params 0 0 (sint (int_of_length (length es))) of
              Inr idx \<Rightarrow> reply_value (take (nat idx) es) (BLong 1)
            | Inl e \<Rightarrow>
                \<lparr>object = es, func_result = Some e,
                 returned = Some (mk_error ''Invalid parameter type'')\<rparr>)
      else reply_error es ''array.shrink(nelems) requires a parameter.'')"

definition ObjArray_append :: "elems \<Rightarrow> BObjectImp list \<Rightarrow> elems reply" where
  "ObjArray_append es params =
     (if length params = 1 then reply_value (es @ [Some (params ! 0)]) (BLong 1)
      else reply_error es ''array.append(value) requires a parameter.'')"

definition ObjArray_reverse :: "elems \<Rightarrow> BObjectImp list \<Rightarrow> elems reply" where
  "ObjArray_reverse es params =
     (if params = [] then reply_value (rev es) (BLong 1)
      else reply_error es ''array.reverse() doesn't take parameters.'')"

text \<open>\<open>r\<close> is the number \<^verbatim>\<open>random_int\<close> draws.\<close>

definition ObjArray_randomentry :: "nat \<Rightarrow> elems \<Rightarrow> BObjectImp list \<Rightarrow> elems reply" where
  "ObjArray_randomentry r es params =
     (if params = []
      then (if es \<noteq> [] then (case es ! r of None \<Rightarrow> reply_null es | Some v \<Rightarrow> reply_value es v)
            else reply_null es)
      else reply_error es ''array.randomentry() doesn't take parameters.'')"

text \<open>\<^verbatim>\<open>std::rotate( first, first + k, last )\<close>.\<close>

definition rotate_at :: "nat \<Rightarrow> 'a list \<Rightarrow> 'a list" where
  "rotate_at k xs = drop k xs @ take k xs"

definition ObjArray_cycle :: "elems \<Rightarrow> BObjectImp list \<Rightarrow> elems reply option" where
  "ObjArray_cycle es params =
     (let run = (\<lambda>shift_by.
            if es = [] then Some (reply_value es (BLong 0))
            else if shift_by = - (2 ^ 31) then None
            else if \<bar>shift_by\<bar> > sint (int_of_length (length es))
            then Some (reply_value es (BLong 0))
            else if shift_by > 0
            then Some (reply_value (rotate_at (length es - nat shift_by) es) (BLong 1))
            else Some (reply_value (rotate_at (nat (- shift_by)) es) (BLong 1)))
      in if params \<noteq> []
         then (case getParam params 0 of
                 None \<Rightarrow> Some (reply_error es ''Invalid parameter type'')
               | Some i \<Rightarrow> if i = 0 then Some (reply_value es (BLong 0)) else run (sint i))
         else run 1)"

text \<open>
  \<^verbatim>\<open>std::upper_bound\<close> and \<^verbatim>\<open>std::lower_bound\<close>: bisection of \<open>len\<close> elements
  from \<open>first\<close>.
\<close>

function upper_bound_from :: "('a \<Rightarrow> 'a \<Rightarrow> tri) \<Rightarrow> 'a \<Rightarrow> 'a list \<Rightarrow> nat \<Rightarrow> nat \<Rightarrow> nat option" where
  "upper_bound_from cmp val xs first len =
     (if len = 0 then Some first
      else let half = len div 2; middle = first + half
      in case cmp val (xs ! middle) of
           None \<Rightarrow> None
         | Some True \<Rightarrow> upper_bound_from cmp val xs first half
         | Some False \<Rightarrow> upper_bound_from cmp val xs (middle + 1) (len - half - 1))"
  by pat_completeness auto
termination
  by (relation "measure (\<lambda>(cmp, val, xs, first, len). len)") auto

declare upper_bound_from.simps [simp del]

function lower_bound_from :: "('a \<Rightarrow> 'a \<Rightarrow> tri) \<Rightarrow> 'a \<Rightarrow> 'a list \<Rightarrow> nat \<Rightarrow> nat \<Rightarrow> nat option" where
  "lower_bound_from cmp val xs first len =
     (if len = 0 then Some first
      else let half = len div 2; middle = first + half
      in case cmp (xs ! middle) val of
           None \<Rightarrow> None
         | Some True \<Rightarrow> lower_bound_from cmp val xs (middle + 1) (len - half - 1)
         | Some False \<Rightarrow> lower_bound_from cmp val xs first half)"
  by pat_completeness auto
termination
  by (relation "measure (\<lambda>(cmp, val, xs, first, len). len)") auto

declare lower_bound_from.simps [simp del]

text \<open>The comparisons of references; null references are compared by address.\<close>

fun objref_cmp :: "BObjectImp option \<Rightarrow> BObjectImp option \<Rightarrow> tri" where
  "objref_cmp (Some r1) (Some r2) = bobj_lt r1 r2"
| "objref_cmp _ _ = None"

fun objref_greater :: "BObjectImp option \<Rightarrow> BObjectImp option \<Rightarrow> tri" where
  "objref_greater (Some r1) (Some r2) = bobj_gt r1 r2"
| "objref_greater _ _ = None"

definition sub_cmp :: "nat \<Rightarrow> bool \<Rightarrow> BObjectImp option \<Rightarrow> BObjectImp option \<Rightarrow> tri" where
  "sub_cmp sub_index descending x1 x2 =
     (case (x1, x2) of
        (Some (ObjArray _ es1), Some (ObjArray _ es2)) \<Rightarrow>
          if length es1 < sub_index \<or> length es2 < sub_index then Some False
          else (if descending then objref_greater else objref_cmp)
                 (es1 ! (sub_index - 1)) (es2 ! (sub_index - 1))
      | _ \<Rightarrow> Some False)"

definition insert_at :: "nat \<Rightarrow> 'a \<Rightarrow> 'a list \<Rightarrow> 'a list" where
  "insert_at k x xs = take k xs @ x # drop k xs"

definition ObjArray_insert_sorted :: "elems \<Rightarrow> BObjectImp \<Rightarrow> nat \<Rightarrow> bool \<Rightarrow> elems option" where
  "ObjArray_insert_sorted es imp sub_index descending =
     (let item = Some imp;
          pos = (if sub_index = 0
                 then (if descending then lower_bound_from objref_greater item es 0 (length es)
                       else upper_bound_from objref_cmp item es 0 (length es))
                 else (if descending
                       then lower_bound_from (sub_cmp sub_index True) item es 0 (length es)
                       else upper_bound_from (sub_cmp sub_index False) item es 0 (length es)))
      in map_option (\<lambda>k. insert_at k item es) pos)"

definition ObjArray_sorted_insert :: "elems \<Rightarrow> BObjectImp list \<Rightarrow> elems reply option" where
  "ObjArray_sorted_insert es params =
     (if params = []
      then Some (reply_error es
        ''array.sorted_insert(obj, sub_index:=0, reverse:=0) takes at least one parameter.'')
      else case (if 2 \<le> length params then getParam params 1 else Some 0) of
          None \<Rightarrow> Some (reply_error es ''Invalid parameter type'')
        | Some sub_index \<Rightarrow>
            if sint sub_index < 0 then Some (reply_error es ''Invalid sub_index value'')
            else (case (if 3 \<le> length params then getParam params 2 else Some 0) of
                    None \<Rightarrow> Some (reply_error es ''Invalid parameter type'')
                  | Some reverseparam \<Rightarrow>
                      map_option (\<lambda>es'. reply_value es' (BLong 1))
                        (ObjArray_insert_sorted es (params ! 0) (nat (sint sub_index))
                          (reverseparam \<noteq> 0))))"

text \<open>
  The dispatch on the method. \<open>rnd\<close> is the number a random entry would draw; sorting
  (\<^verbatim>\<open>std::sort\<close>) is not modelled.
\<close>

datatype array_method =
    MTH_SIZE | MTH_ERASE | MTH_EXISTS | MTH_INSERT | MTH_SHRINK | MTH_APPEND | MTH_REVERSE
  | MTH_RANDOMENTRY | MTH_CYCLE | MTH_SORTEDINSERT

definition ObjArray_call_method_id ::
  "nat \<Rightarrow> string list \<Rightarrow> elems \<Rightarrow> array_method \<Rightarrow> BObjectImp list \<Rightarrow> elems reply option" where
  "ObjArray_call_method_id rnd ns es mth params =
     (if mth = MTH_SIZE then Some (ObjArray_size es params)
      else if ns \<noteq> [] then Some (reply_null es)
      else case mth of
        MTH_SIZE \<Rightarrow> Some (ObjArray_size es params)
      | MTH_ERASE \<Rightarrow> Some (ObjArray_erase es params)
      | MTH_EXISTS \<Rightarrow> Some (ObjArray_exists es params)
      | MTH_INSERT \<Rightarrow> Some (ObjArray_insert es params)
      | MTH_SHRINK \<Rightarrow> Some (ObjArray_shrink es params)
      | MTH_APPEND \<Rightarrow> Some (ObjArray_append es params)
      | MTH_REVERSE \<Rightarrow> Some (ObjArray_reverse es params)
      | MTH_RANDOMENTRY \<Rightarrow> Some (ObjArray_randomentry rnd es params)
      | MTH_CYCLE \<Rightarrow> ObjArray_cycle es params
      | MTH_SORTEDINSERT \<Rightarrow> ObjArray_sorted_insert es params)"

section \<open>Bisection\<close>

lemma upper_bound_from_spec:
  assumes "\<And>i. i < length xs \<Longrightarrow> cmp val (xs ! i) = Some (p i)"
    and "\<And>i j. i \<le> j \<Longrightarrow> j < length xs \<Longrightarrow> p i \<Longrightarrow> p j"
    and "first + len \<le> length xs" "\<And>i. i < first \<Longrightarrow> \<not> p i"
    and "\<And>i. first + len \<le> i \<Longrightarrow> i < length xs \<Longrightarrow> p i"
  shows "\<exists>k \<le> length xs. upper_bound_from cmp val xs first len = Some k \<and>
    (\<forall>i < k. \<not> p i) \<and> (\<forall>i. k \<le> i \<longrightarrow> i < length xs \<longrightarrow> p i)"
  using assms(3-5)
proof (induction len arbitrary: first rule: less_induct)
  case (less len)
  show ?case
  proof (cases "len = 0")
    case True
    then show ?thesis using less.prems by (subst upper_bound_from.simps) auto
  next
    case False
    let ?half = "len div 2" and ?mid = "first + len div 2"
    have mid: "?mid < length xs" using False less.prems(1) by linarith
    note step = upper_bound_from.simps[of cmp val xs first len]
    show ?thesis
    proof (cases "p ?mid")
      case True
      have "\<exists>k \<le> length xs. upper_bound_from cmp val xs first ?half = Some k \<and>
          (\<forall>i < k. \<not> p i) \<and> (\<forall>i. k \<le> i \<longrightarrow> i < length xs \<longrightarrow> p i)"
        using less.prems(1,2) False assms(2)[OF _ _ True] mid by (intro less.IH) auto
      then show ?thesis using step False True assms(1)[OF mid] by (simp add: Let_def)
    next
      case notp: False
      have "\<not> p i" if "i < ?mid + 1" for i
        using assms(2)[of i ?mid] mid notp that by auto
      then have "\<exists>k \<le> length xs. upper_bound_from cmp val xs (?mid + 1) (len - ?half - 1) = Some k \<and>
          (\<forall>i < k. \<not> p i) \<and> (\<forall>i. k \<le> i \<longrightarrow> i < length xs \<longrightarrow> p i)"
        using less.prems False by (intro less.IH) auto
      then show ?thesis using step False notp assms(1)[OF mid] by (simp add: Let_def)
    qed
  qed
qed

lemma lower_bound_from_upper:
  "lower_bound_from cmp val xs first len = upper_bound_from (\<lambda>v x. k_not (cmp x v)) val xs first len"
proof (induction cmp val xs first len rule: lower_bound_from.induct)
  case (1 cmp val xs first len)
  note steps = lower_bound_from.simps[of cmp val xs first len]
    upper_bound_from.simps[of "\<lambda>v x. k_not (cmp x v)" val xs first len]
  show ?case
  proof (cases "cmp (xs ! (first + len div 2)) val")
    case None
    then show ?thesis by (simp add: steps Let_def)
  next
    case (Some b)
    then show ?thesis using 1 by (cases b) (auto simp: steps Let_def)
  qed
qed

text \<open>Inserting where the bisection points keeps a list sorted.\<close>

lemma sorted_insert_at:
  assumes "sorted_wrt R xs" "k \<le> length xs" "\<forall>i < k. R (xs ! i) v" "\<forall>i. k \<le> i \<longrightarrow> i < length xs \<longrightarrow> R v (xs ! i)"
  shows "sorted_wrt R (insert_at k v xs)"
proof -
  have "sorted_wrt R (take k xs @ drop k xs)" using assms(1) by simp
  moreover have "R x v" if "x \<in> set (take k xs)" for x
    using that assms(2,3) by (auto simp: in_set_conv_nth)
  moreover have "R v y" if "y \<in> set (drop k xs)" for y
    using that assms(4) by (auto simp: in_set_conv_nth)
  ultimately show ?thesis unfolding insert_at_def sorted_wrt_append by auto
qed

lemma mset_take_drop: "mset (take k xs) + mset (drop k xs) = mset xs"
  by (metis append_take_drop_id mset_append)

lemma mset_insert_at: "mset (insert_at k v xs) = add_mset v (mset xs)"
  by (simp add: insert_at_def mset_take_drop)

lemma map_insert_at: "map f (insert_at k v xs) = insert_at k (f v) (map f xs)"
  by (simp add: insert_at_def take_map drop_map)

section \<open>Sorted insertion\<close>

text \<open>Neither of two elements is before the other the wrong way round.\<close>

definition key_le :: "BObjectImp \<Rightarrow> BObjectImp \<Rightarrow> bool" where
  "key_le a b \<longleftrightarrow> \<not> dict_less b a"

lemma key_compare: "dict_key a \<Longrightarrow> dict_key b \<Longrightarrow> bobj_lt a b = Some (dict_less a b)"
  using dict_key_determined[of a b] by (auto simp: dict_less_def)

lemma insert_sorted_ascending:
  assumes "\<forall>k \<in> set ks. dict_key k" "dict_key v" "sorted_wrt key_le ks"
  shows "\<exists>ks'. ObjArray_insert_sorted (map Some ks) v 0 False = Some (map Some ks') \<and>
    sorted_wrt key_le ks' \<and> mset ks' = add_mset v (mset ks)"
proof -
  let ?p = "\<lambda>i. dict_less v (ks ! i)"
  have key: "dict_key (ks ! i)" if "i < length ks" for i using assms(1) that by simp
  have comp: "objref_cmp (Some v) (map Some ks ! i) = Some (?p i)" if "i < length (map Some ks)" for i
    using that key_compare[OF assms(2) key] by simp
  have mono: "?p j" if "i \<le> j" "j < length (map Some ks)" "?p i" for i j
  proof (cases "i = j")
    case False
    then have "\<not> dict_less (ks ! j) (ks ! i)"
      using assms(3) that unfolding sorted_wrt_iff_nth_less key_le_def by simp
    then show ?thesis using that dk.neg_trans[of v "ks ! j" "ks ! i"] assms(2) key by auto
  qed (use that in simp)
  obtain k where k: "k \<le> length ks"
      "upper_bound_from objref_cmp (Some v) (map Some ks) 0 (length (map Some ks)) = Some k"
      "\<forall>i < k. \<not> ?p i" "\<forall>i. k \<le> i \<longrightarrow> i < length ks \<longrightarrow> ?p i"
    using upper_bound_from_spec[of "map Some ks" objref_cmp "Some v" ?p 0 "length (map Some ks)"]
      comp mono by auto
  have "sorted_wrt key_le (insert_at k v ks)"
    using k dk.asym[OF assms(2) key] by (intro sorted_insert_at assms(3)) (auto simp: key_le_def)
  then show ?thesis
    using k(2) mset_insert_at[of k v ks]
    by (intro exI[of _ "insert_at k v ks"])
      (simp add: ObjArray_insert_sorted_def map_insert_at)
qed

section \<open>Positions\<close>

lemma sint_int_of_length: "n < 2 ^ 31 \<Longrightarrow> sint (int_of_length n) = int n"
  using sint_of_int32[of "int n"] by (simp add: int_of_length_def)

lemma unat_int_of_length: "n < 2 ^ 31 \<Longrightarrow> unat (int_of_length n) = n"
  by (simp add: int_of_length_def unat_of_nat)

lemma copy_range_eq:
  "1 \<le> index \<Longrightarrow> copy_range i index stop es = drop (index - 1 - i) (take (stop - i) es)"
proof (induction i index stop es rule: copy_range.induct)
  case (2 i index stop e es)
  show ?case
  proof (cases "i + 1 < index")
    case True
    then obtain m where m: "index = Suc (i + 1 + m)" using less_imp_Suc_add[OF True] by blast
    show ?thesis
    proof (cases "stop - i")
      case (Suc n)
      then have "stop - Suc i = n" by simp
      then show ?thesis using 2(1)[OF True] Suc by (simp add: m)
    qed (use 2(1)[OF True] m in simp)
  next
    case False
    show ?thesis
    proof (cases "stop - i")
      case (Suc n)
      then have "stop - Suc i = n" by simp
      then show ?thesis using 2 False Suc by simp
    qed (use 2 False in simp)
  qed
qed simp

text \<open>A slice is the elements from \<open>a\<close> to \<open>b\<close>, counted from one.\<close>

lemma slice_elements:
  assumes "1 \<le> a" "a \<le> length es" "1 \<le> b" "b \<le> length es" "length es < 2 ^ 31"
  shows "ObjArray_OperMultiSubscript ns es [BLong (int_of_length a), BLong (int_of_length b)]
    = Some (ObjArray [] (drop (a - 1) (take b es)))"
  using assms by (simp add: unat_int_of_length copy_range_eq)

lemma getParam_range_ok:
  "minval \<le> int n \<Longrightarrow> int n \<le> maxval \<Longrightarrow> n < 2 ^ 31 \<Longrightarrow>
     getParam_range (BLong (int_of_length n) # ps) 0 minval maxval = Inr (int n)"
  by (simp add: getParam_range_def sint_int_of_length)

lemma insert_ok:
  assumes "1 \<le> n" "n \<le> length es + 1" "length es + 1 < 2 ^ 31"
  shows "ObjArray_insert es [BLong (int_of_length n), v] = reply_null (insert_at (n - 1) (Some v) es)"
  using assms
  by (simp add: ObjArray_insert_def getParam_range_ok sint_int_of_length insert_at_def)

lemma erase_ok:
  assumes "1 \<le> n" "n \<le> length es" "length es < 2 ^ 31"
  shows "ObjArray_erase es [BLong (int_of_length n)]
    = reply_value (take (n - 1) es @ drop n es) (BLong 1)"
  using assms by (simp add: ObjArray_erase_def getParam_range_ok sint_int_of_length)

lemma erase_insert_at: "k \<le> length es \<Longrightarrow> take k (insert_at k x es) @ drop (Suc k) (insert_at k x es) = es"
  by (simp add: insert_at_def)

section \<open>Rotation\<close>

lemma rotate_at_back: "k \<le> length xs \<Longrightarrow> rotate_at (length xs - k) (rotate_at k xs) = xs"
  by (simp add: rotate_at_def)

lemma length_rotate_at [simp]: "length (rotate_at k xs) = length xs"
  by (simp add: rotate_at_def)

lemma mset_rotate_at [simp]: "mset (rotate_at k xs) = mset xs"
  by (metis mset_append mset_take_drop rotate_at_def union_commute)

lemma cycle_forward:
  assumes "1 \<le> n" "n \<le> length es" "length es < 2 ^ 31"
  shows "ObjArray_cycle es [BLong (int_of_length n)]
    = Some (reply_value (rotate_at (length es - n) es) (BLong 1))"
proof -
  have "sint (int_of_length n) = int n" using assms by (intro sint_int_of_length) linarith
  moreover have "int_of_length n \<noteq> 0" using calculation assms(1) by auto
  moreover have "es \<noteq> []" using assms by auto
  ultimately show ?thesis
    using assms by (simp add: ObjArray_cycle_def getParam_def sint_int_of_length)
qed

lemma cycle_backward:
  assumes "1 \<le> n" "n \<le> length es" "length es < 2 ^ 31"
  shows "ObjArray_cycle es [BLong (- int_of_length n)]
    = Some (reply_value (rotate_at n es) (BLong 1))"
proof -
  have "- int_of_length n = (word_of_int (- int n) :: int32)" by (simp add: int_of_length_def)
  then have s: "sint (- int_of_length n) = - int n"
    using assms sint_of_int32[of "- int n"] by simp
  then have "- int_of_length n \<noteq> 0" using assms(1) by auto
  moreover have "es \<noteq> []" using assms by auto
  ultimately show ?thesis
    using assms s by (simp add: ObjArray_cycle_def getParam_def sint_int_of_length)
qed

section \<open>Members\<close>

lemma find_name_bounds: "find_name ns m i = Some k \<Longrightarrow> i \<le> k \<and> k < i + length ns"
  by (induction ns m i rule: find_name.induct) (auto split: if_splits)

lemma find_name_hit: "find_name ns m i = Some k \<Longrightarrow> stricmp_eq (ns ! (k - i)) m"
proof (induction ns m i rule: find_name.induct)
  case (2 name ns m i)
  then show ?case using find_name_bounds[of ns m "i + 1" k] by (auto simp: nth_Cons' split: if_splits)
qed simp

lemma find_name_append:
  "find_name ns m i = None \<Longrightarrow> find_name (ns @ [name]) m i =
     (if stricmp_eq name m then Some (i + length ns) else None)"
  by (induction ns m i rule: find_name.induct) (auto split: if_splits)

lemma find_name_same: "stricmp_eq a b \<Longrightarrow> find_name ns a i = find_name ns b i"
  by (induction ns a i rule: find_name.induct) (auto simp: stricmp_eq_def)

section \<open>Properties\<close>

text \<open>
  The slice \<open>a[first, last]\<close> with bounds inside the array holds its elements
  \<open>first\<close> to \<open>last\<close>, none when the bounds are crossed.
\<close>

theorem array_slice:
  assumes "1 \<le> a" "a \<le> length es" "1 \<le> b" "b \<le> length es" "length es < 2 ^ 31"
  shows "ObjArray_OperMultiSubscript ns es [BLong (int_of_length a), BLong (int_of_length b)]
    = Some (ObjArray [] (drop (a - 1) (take b es)))"
  by (rule slice_elements[OF assms])

lemma array_slice_witness:
  "ObjArray_OperMultiSubscript [] [Some (BLong 1), None, Some (BLong 3), Some (BLong 4)]
     [BLong (int_of_length 2), BLong (int_of_length 3)]
   = Some (ObjArray [] [None, Some (BLong 3)])"
  using array_slice[of 2 "[Some (BLong 1), None, Some (BLong 3), Some (BLong 4)]" 3 "[]"]
  by simp

text \<open>
  C33. Inserting at a valid place and erasing the same place gives the array back, and the
  inserted value stands at that place in between.
\<close>

theorem insert_erase:
  assumes "1 \<le> n" "n \<le> length es + 1" "length es + 1 < 2 ^ 31"
  shows "\<exists>es'. ObjArray_insert es [BLong (int_of_length n), v] = reply_null es' \<and>
    es' ! (n - 1) = Some v \<and> length es' = length es + 1 \<and>
    ObjArray_erase es' [BLong (int_of_length n)] = reply_value es (BLong 1)"
proof -
  let ?es = "insert_at (n - 1) (Some v) es"
  have len: "length ?es = length es + 1" using assms by (simp add: insert_at_def)
  have "ObjArray_erase ?es [BLong (int_of_length n)] = reply_value (take (n - 1) ?es @ drop n ?es) (BLong 1)"
    using assms len by (intro erase_ok) simp_all
  moreover have "take (n - 1) ?es @ drop n ?es = es"
    using erase_insert_at[of "n - 1" es "Some v"] assms by simp
  moreover have "?es ! (n - 1) = Some v" using assms by (simp add: insert_at_def nth_append)
  ultimately show ?thesis using insert_ok[OF assms] len by metis
qed

lemma insert_erase_witness:
  "\<exists>es'. ObjArray_insert [Some (BLong 7)] [BLong (int_of_length 2), BLong 8] = reply_null es' \<and>
    es' ! 1 = Some (BLong 8) \<and>
    ObjArray_erase es' [BLong (int_of_length 2)] = reply_value [Some (BLong 7)] (BLong 1)"
  using insert_erase[of 2 "[Some (BLong 7)]" "BLong 8"] by auto

text \<open>
  Cycling an array forward and back by the same number of places restores it; each of
  the two keeps the elements, and cycling forward moves the last elements to the front.
\<close>

theorem cycle_back_and_forth:
  assumes "1 \<le> n" "n \<le> length es" "length es < 2 ^ 31"
  shows "\<exists>es'. ObjArray_cycle es [BLong (int_of_length n)] = Some (reply_value es' (BLong 1)) \<and>
    take n es' = drop (length es - n) es \<and> mset es' = mset es \<and>
    ObjArray_cycle es' [BLong (- int_of_length n)] = Some (reply_value es (BLong 1))"
proof -
  let ?es = "rotate_at (length es - n) es"
  have "ObjArray_cycle ?es [BLong (- int_of_length n)] = Some (reply_value (rotate_at n ?es) (BLong 1))"
    using assms by (intro cycle_backward) simp_all
  moreover have "rotate_at n ?es = es" using rotate_at_back[of "length es - n" es] assms(2) by simp
  moreover have "take n ?es = drop (length es - n) es" using assms(2) by (simp add: rotate_at_def)
  ultimately show ?thesis using cycle_forward[OF assms] by (metis mset_rotate_at)
qed

lemma cycle_back_and_forth_witness:
  "\<exists>es'. ObjArray_cycle [Some (BLong 1), Some (BLong 2), Some (BLong 3)] [BLong (int_of_length 2)] =
      Some (reply_value es' (BLong 1)) \<and> take 2 es' = [Some (BLong 2), Some (BLong 3)]"
  using cycle_back_and_forth[of 2 "[Some (BLong 1), Some (BLong 2), Some (BLong 3)]"] by auto

text \<open>
  C22. \<open>sorted_insert\<close> puts a value into an ascending array of strings and numbers so that
  the array stays ascending and gains exactly that value.
\<close>

theorem sorted_insert_keeps_order:
  assumes "\<forall>k \<in> set ks. dict_key k" "dict_key v" "sorted_wrt key_le ks"
  shows "\<exists>ks'. ObjArray_sorted_insert (map Some ks) [v] = Some (reply_value (map Some ks') (BLong 1)) \<and>
    sorted_wrt key_le ks' \<and> mset ks' = add_mset v (mset ks)"
  using insert_sorted_ascending[OF assms] by (auto simp: ObjArray_sorted_insert_def)

lemma sorted_insert_keeps_order_witness:
  "\<exists>ks'. ObjArray_sorted_insert (map Some [BString ''a'', BString ''c'']) [BString ''b''] =
     Some (reply_value (map Some ks') (BLong 1)) \<and> sorted_wrt key_le ks'"
  using sorted_insert_keeps_order[of "[BString ''a'', BString ''c'']" "BString ''b''"]
  by (auto simp: dict_key_def key_le_def dict_less_def bobj_lt_def dispatch_simps byte_def)

text \<open>
  An assignment to an element reads back, leaves every other element as it was and fills
  the places up to the index with null references when the array has to grow.
\<close>

theorem array_assign_reads_back:
  assumes "1 \<le> n" "n < 2 ^ 31"
  shows "\<exists>es'. ObjArray_array_assign es (BLong (int_of_length n)) v = (es', v) \<and>
    length es' = max n (length es) \<and>
    ObjArray_OperSubscript ns es' (BLong (int_of_length n)) = (es', v) \<and>
    (\<forall>i < length es'. i \<noteq> n - 1 \<longrightarrow> es' ! i = (if i < length es then es ! i else None))"
  using assms by (auto simp: ObjArray_array_assign_def ObjArray_OperSubscript_def unat_int_of_length
      Let_def nth_append nth_list_update max_def)

lemma array_assign_reads_back_witness:
  "\<exists>es'. ObjArray_array_assign [] (BLong (int_of_length 3)) (BLong 9) = (es', BLong 9) \<and> length es' = 3"
  using array_assign_reads_back[of 3 "[]" "BLong 9"] by auto

text \<open>
  \<open>array.exists(0)\<close> answers 1 although the subscript 0 is out of bounds.
\<close>

theorem exists_accepts_zero:
  assumes "length es < 2 ^ 31"
  shows "ObjArray_exists es [BLong 0] = reply_value es (BLong 1) \<and>
    ObjArray_OperSubscript ns es (BLong 0) = (es, mk_error ''Array index out of bounds'')"
  using assms by (simp add: ObjArray_exists_def getParam_def sint_int_of_length ObjArray_OperSubscript_def)

lemma exists_accepts_zero_witness: "ObjArray_exists [] [BLong 0] = reply_value [] (BLong 1)"
  using exists_accepts_zero[of "[]"] by simp

text \<open>
  A member added to an array reads back what is assigned to it when the array has as many
  elements as names.
\<close>

theorem added_member_reads_back:
  assumes "find_name ns name 0 = None" "length es = length ns"
  shows "\<exists>es'. ObjArray_operDotPlus ns es name = ((ns @ [name], es'), UninitObject) \<and>
    (\<exists>es''. ObjArray_set_member (ns @ [name]) es' name v = Some (es'', v) \<and>
       ObjArray_get_member (ns @ [name]) es'' name = Some (Some v) \<and> take (length es) es'' = es)"
  using assms by (auto simp: ObjArray_operDotPlus_def ObjArray_set_member_def ObjArray_get_member_def
      find_name_append stricmp_eq_def nth_append list_update_append)

lemma added_member_reads_back_witness:
  "\<exists>es'. ObjArray_operDotPlus [] [] ''hp'' = (([''hp''], es'), UninitObject)"
  using added_member_reads_back[of "[]" "''hp''" "[]" "BLong 1"] by auto

text \<open>
  A member added to an array that already has elements but fewer names denotes the
  element at the place of its name, not the element that was added for it.
\<close>

theorem added_member_misplaced:
  assumes "find_name ns name 0 = None" "length ns < length es"
  shows "ObjArray_operDotPlus ns es name = ((ns @ [name], es @ [Some UninitObject]), UninitObject) \<and>
    ObjArray_get_member (ns @ [name]) (es @ [Some UninitObject]) name = Some (es ! length ns)"
  using assms by (simp add: ObjArray_operDotPlus_def ObjArray_get_member_def find_name_append
      stricmp_eq_def nth_append)

lemma added_member_misplaced_witness:
  "ObjArray_get_member [''foo''] [Some (BLong 1), Some (BLong 2), Some UninitObject] ''foo'' = Some (Some (BLong 1))"
  using added_member_misplaced[of "[]" "''foo''" "[Some (BLong 1), Some (BLong 2)]"] by simp

end
