(* ===== verification/Structs.thy ===== *)
theory Structs
  imports Compare Params
begin

text \<open>
  \<^verbatim>\<open>BStruct\<close> and \<^verbatim>\<open>BDictionary\<close>: members, subscripts, methods and iteration. A
  struct maps member names, compared without regard to case, a dictionary maps strings,
  integers and reals. An operation takes the contents and returns the changed ones. A
  subscript of a struct by an integer throws; a thrown exception is \<open>Inl\<close> its message.
\<close>

section \<open>Structs\<close>

type_synonym members = "(string \<times> BObjectImp) list"

definition BStruct_copy :: "members \<Rightarrow> members" where
  "BStruct_copy other = omap_sets ci_less other []"

definition BStruct_mapcount :: "members \<Rightarrow> nat" where
  "BStruct_mapcount contents = length contents"

definition BStruct_set_member :: "members \<Rightarrow> string \<Rightarrow> BObjectImp \<Rightarrow> members \<times> BObjectImp" where
  "BStruct_set_member contents membername val =
     (omap_set ci_less (c_str membername) val contents, val)"

definition BStruct_FindMember :: "members \<Rightarrow> string \<Rightarrow> BObjectImp option" where
  "BStruct_FindMember contents name = omap_find ci_less (c_str name) contents"

definition BStruct_get_member :: "members \<Rightarrow> string \<Rightarrow> BObjectImp" where
  "BStruct_get_member contents membername =
     (case omap_find ci_less (c_str membername) contents of Some v \<Rightarrow> v | None \<Rightarrow> UninitObject)"

definition BStruct_OperSubscript :: "members \<Rightarrow> BObjectImp \<Rightarrow> string + BObjectImp" where
  "BStruct_OperSubscript contents obj =
     (case obj of
        BString key \<Rightarrow>
          Inr (case omap_find ci_less key contents of Some v \<Rightarrow> v | None \<Rightarrow> UninitObject)
      | BLong _ \<Rightarrow> Inl ''some fool used operator[] on a struct, with an Integer index''
      | _ \<Rightarrow> Inr (mk_error ''Struct members can only be accessed by name''))"

definition BStruct_array_assign :: "members \<Rightarrow> BObjectImp \<Rightarrow> BObjectImp \<Rightarrow> string + members \<times> BObjectImp" where
  "BStruct_array_assign contents idx target =
     (case idx of
        BString key \<Rightarrow> Inr (omap_set ci_less key target contents, target)
      | BLong _ \<Rightarrow>
          Inl ''some fool tried to use operator[] := on a struct, with an Integer index''
      | _ \<Rightarrow> Inr (contents, mk_error ''Struct members can only be accessed by name''))"

definition BStruct_addMember :: "members \<Rightarrow> string \<Rightarrow> BObjectImp \<Rightarrow> members" where
  "BStruct_addMember contents name val = omap_set ci_less (c_str name) val contents"

definition BStruct_operDotPlus :: "members \<Rightarrow> string \<Rightarrow> members \<times> BObjectImp" where
  "BStruct_operDotPlus contents name =
     (if omap_count ci_less (c_str name) contents = 0
      then (omap_set ci_less (c_str name) UninitObject contents, UninitObject)
      else (contents, mk_error ''Member already exists''))"

definition BStruct_operDotMinus :: "members \<Rightarrow> string \<Rightarrow> members \<times> BObjectImp" where
  "BStruct_operDotMinus contents name = (omap_erase ci_less (c_str name) contents, BLong 1)"

definition BStruct_operDotQMark :: "members \<Rightarrow> string \<Rightarrow> BObjectImp" where
  "BStruct_operDotQMark contents name =
     BLong (word_of_nat (omap_count ci_less (c_str name) contents))"

datatype map_method = MTH_SIZE | MTH_ERASE | MTH_INSERT | MTH_EXISTS | MTH_KEYS

definition BStruct_call_method_id :: "members \<Rightarrow> map_method \<Rightarrow> BObjectImp list \<Rightarrow> members reply" where
  "BStruct_call_method_id contents mth params =
     (case mth of
        MTH_SIZE \<Rightarrow>
          if params = [] then reply_value contents (BLong (word_of_nat (length contents)))
          else reply_error contents ''struct.size() doesn't take parameters.''
      | MTH_ERASE \<Rightarrow>
          (case params of
             [BString key] \<Rightarrow>
               reply_value (omap_erase ci_less key contents)
                 (BLong (word_of_nat (omap_count ci_less key contents)))
           | [_] \<Rightarrow> reply_error contents ''Struct keys must be strings''
           | _ \<Rightarrow> reply_error contents ''struct.erase(key) requires a parameter.'')
      | MTH_INSERT \<Rightarrow>
          (case params of
             [BString key, val] \<Rightarrow>
               (let contents' = omap_set ci_less key val contents
                in reply_value contents' (BLong (word_of_nat (length contents'))))
           | [_, _] \<Rightarrow> reply_error contents ''Struct keys must be strings''
           | _ \<Rightarrow> reply_error contents ''struct.insert(key,value) requires two parameters.'')
      | MTH_EXISTS \<Rightarrow>
          (case params of
             [BString key] \<Rightarrow>
               reply_value contents (BLong (word_of_nat (omap_count ci_less key contents)))
           | [_] \<Rightarrow> reply_error contents ''Struct keys must be strings''
           | _ \<Rightarrow> reply_error contents ''struct.exists(key) requires a parameter.'')
      | MTH_KEYS \<Rightarrow>
          if params = []
          then reply_value contents (ObjArray [] (map (\<lambda>(k, v). Some (BString k)) contents))
          else reply_error contents ''struct.keys() doesn't take parameters.'')"

text \<open>
  \<^verbatim>\<open>BStructIterator::step\<close>: the iterator is the key it stands on, \<open>None\<close> before the
  first step. The result is the new iterator and the key and value of the element.
\<close>

definition BStructIterator_step ::
  "members \<Rightarrow> string option \<Rightarrow> (string option \<times> BObjectImp \<times> BObjectImp) option" where
  "BStructIterator_step contents it =
     map_option (\<lambda>(k, v). (Some k, BString k, v))
       (case it of
          None \<Rightarrow> (case contents of [] \<Rightarrow> None | kv # _ \<Rightarrow> Some kv)
        | Some key \<Rightarrow> omap_next ci_less key contents)"

section \<open>Errors\<close>

definition BError_OperSubscript :: "members \<Rightarrow> BObjectImp \<Rightarrow> BObjectImp" where
  "BError_OperSubscript contents obj = BError contents"

definition BError_array_assign :: "members \<Rightarrow> BObjectImp \<Rightarrow> BObjectImp \<Rightarrow> members \<times> BObjectImp" where
  "BError_array_assign contents idx target = (contents, BError contents)"

section \<open>Dictionaries\<close>

type_synonym entries = "(BObjectImp \<times> BObjectImp) list"

definition key_type :: "BObjectImp \<Rightarrow> bool" where
  "key_type v \<longleftrightarrow> isa v OTString \<or> isa v OTLong \<or> isa v OTDouble"

definition BDictionary_copy :: "entries \<Rightarrow> entries" where
  "BDictionary_copy dict = omap_sets dict_less dict []"

definition BDictionary_mapcount :: "entries \<Rightarrow> nat" where
  "BDictionary_mapcount contents = length contents"

definition BDictionary_set_member :: "entries \<Rightarrow> string \<Rightarrow> BObjectImp \<Rightarrow> entries \<times> BObjectImp" where
  "BDictionary_set_member contents membername val =
     (omap_set dict_less (BString (c_str membername)) val contents, val)"

definition BDictionary_get_member :: "entries \<Rightarrow> string \<Rightarrow> BObjectImp" where
  "BDictionary_get_member contents membername =
     (case omap_find dict_less (BString (c_str membername)) contents of
        Some v \<Rightarrow> v | None \<Rightarrow> UninitObject)"

definition BDictionary_OperSubscript :: "entries \<Rightarrow> BObjectImp \<Rightarrow> BObjectImp" where
  "BDictionary_OperSubscript contents obj =
     (if key_type obj
      then (case omap_find dict_less obj contents of Some v \<Rightarrow> v | None \<Rightarrow> UninitObject)
      else mk_error ''Dictionary keys must be integer, real, or string'')"

definition BDictionary_array_assign :: "entries \<Rightarrow> BObjectImp \<Rightarrow> BObjectImp \<Rightarrow> entries \<times> BObjectImp" where
  "BDictionary_array_assign contents idx target =
     (if key_type idx then (omap_set dict_less idx target contents, target)
      else (contents, mk_error ''Dictionary keys must be integer, real, or string''))"

definition BDictionary_addMember :: "entries \<Rightarrow> BObjectImp \<Rightarrow> BObjectImp \<Rightarrow> entries" where
  "BDictionary_addMember contents k val = omap_set dict_less k val contents"

definition BDictionary_operDotPlus :: "entries \<Rightarrow> string \<Rightarrow> entries \<times> BObjectImp" where
  "BDictionary_operDotPlus contents name =
     (let key = BString (c_str name)
      in if omap_count dict_less key contents = 0
         then (omap_set dict_less key UninitObject contents, UninitObject)
         else (contents, mk_error ''Member already exists''))"

definition key_message :: string where
  "key_message = ''Dictionary keys must be integer, real, or string''"

definition BDictionary_call_method_id ::
  "entries \<Rightarrow> map_method \<Rightarrow> BObjectImp list \<Rightarrow> entries reply" where
  "BDictionary_call_method_id contents mth params =
     (case mth of
        MTH_SIZE \<Rightarrow>
          if params = [] then reply_value contents (BLong (word_of_nat (length contents)))
          else reply_error contents ''dictionary.size() doesn't take parameters.''
      | MTH_ERASE \<Rightarrow>
          (case params of
             [key] \<Rightarrow>
               if key_type key
               then reply_value (omap_erase dict_less key contents)
                 (BLong (word_of_nat (omap_count dict_less key contents)))
               else reply_error contents key_message
           | _ \<Rightarrow> reply_error contents ''dictionary.erase(key) requires a parameter.'')
      | MTH_INSERT \<Rightarrow>
          (case params of
             [key, val] \<Rightarrow>
               if key_type key
               then (let contents' = omap_set dict_less key val contents
                     in reply_value contents' (BLong (word_of_nat (length contents'))))
               else reply_error contents key_message
           | _ \<Rightarrow> reply_error contents ''dictionary.insert(key,value) requires two parameters.'')
      | MTH_EXISTS \<Rightarrow>
          (case params of
             [key] \<Rightarrow>
               if key_type key
               then reply_value contents (BLong (word_of_nat (omap_count dict_less key contents)))
               else reply_error contents key_message
           | _ \<Rightarrow> reply_error contents ''dictionary.exists(key) requires a parameter.'')
      | MTH_KEYS \<Rightarrow>
          if params = [] then reply_value contents (ObjArray [] (map (\<lambda>(k, v). Some k) contents))
          else reply_error contents ''dictionary.keys() doesn't take parameters.'')"

definition BDictionaryIterator_step ::
  "entries \<Rightarrow> BObjectImp option \<Rightarrow> (BObjectImp option \<times> BObjectImp \<times> BObjectImp) option" where
  "BDictionaryIterator_step contents it =
     map_option (\<lambda>(k, v). (Some k, k, v))
       (case it of
          None \<Rightarrow> (case contents of [] \<Rightarrow> None | kv # _ \<Rightarrow> Some kv)
        | Some key \<Rightarrow> omap_next dict_less key contents)"

section \<open>Copies\<close>

lemma BStruct_copy_same: "ci.wf c \<Longrightarrow> BStruct_copy c = c"
  using ci.sets_wf[of "[]" c] by (simp add: BStruct_copy_def)

lemma BDictionary_copy_same: "dk.wf m \<Longrightarrow> BDictionary_copy m = m"
  using dk.sets_wf[of "[]" m] by (simp add: BDictionary_copy_def)

section \<open>Methods keep the order\<close>

lemma BStruct_methods_wf: "ci.wf c \<Longrightarrow> ci.wf (object (BStruct_call_method_id c mth params))"
  by (auto simp: BStruct_call_method_id_def Let_def ci.wf_set ci.wf_erase
      split: map_method.split list.split value_split)

lemma BDictionary_methods_wf:
  "dk.wf m \<Longrightarrow> (\<forall>p \<in> set params. key_type p \<longrightarrow> dict_key p) \<Longrightarrow>
     dk.wf (object (BDictionary_call_method_id m mth params))"
  by (auto simp: BDictionary_call_method_id_def Let_def dk.wf_set dk.wf_erase
      split: map_method.split list.split)

section \<open>Iteration\<close>

text \<open>The elements a loop visits when it takes at most \<open>n\<close> steps.\<close>

fun visit :: "('i \<Rightarrow> ('i \<times> BObjectImp \<times> BObjectImp) option) \<Rightarrow> nat \<Rightarrow> 'i \<Rightarrow> (BObjectImp \<times> BObjectImp) list" where
  "visit step 0 it = []"
| "visit step (Suc n) it =
     (case step it of None \<Rightarrow> [] | Some (it', k, v) \<Rightarrow> (k, v) # visit step n it')"

lemma BStructIterator_next:
  "ci.wf (m @ (k, v) # m') \<Longrightarrow> BStructIterator_step (m @ (k, v) # m') (Some k) =
     (case m' of [] \<Rightarrow> None | (k', v') # _ \<Rightarrow> Some (Some k', BString k', v'))"
  by (simp add: BStructIterator_step_def ci.next_entry split: list.split)

lemma BDictionaryIterator_next:
  "dk.wf (m @ (k, v) # m') \<Longrightarrow> BDictionaryIterator_step (m @ (k, v) # m') (Some k) =
     (case m' of [] \<Rightarrow> None | (k', v') # _ \<Rightarrow> Some (Some k', k', v'))"
  by (simp add: BDictionaryIterator_step_def dk.next_entry split: list.split)

lemma visit_struct_from:
  "ci.wf (m @ (k, v) # m') \<Longrightarrow> length m' \<le> n \<Longrightarrow>
     visit (BStructIterator_step (m @ (k, v) # m')) n (Some k) = map (\<lambda>(k, v). (BString k, v)) m'"
proof (induction n arbitrary: m k v m')
  case (Suc n)
  show ?case
  proof (cases m')
    case (Cons kv rest)
    obtain k' v' where kv: "kv = (k', v')" by (cases kv)
    have "visit (BStructIterator_step ((m @ [(k, v)]) @ (k', v') # rest)) n (Some k')
        = map (\<lambda>(k, v). (BString k, v)) rest"
      using Suc Cons kv by (intro Suc.IH) simp_all
    then show ?thesis using Suc.prems(1) Cons kv by (simp add: BStructIterator_next)
  qed (use Suc.prems(1) in \<open>simp add: BStructIterator_next\<close>)
qed simp

lemma visit_dictionary_from:
  "dk.wf (m @ (k, v) # m') \<Longrightarrow> length m' \<le> n \<Longrightarrow>
     visit (BDictionaryIterator_step (m @ (k, v) # m')) n (Some k) = m'"
proof (induction n arbitrary: m k v m')
  case (Suc n)
  show ?case
  proof (cases m')
    case (Cons kv rest)
    obtain k' v' where kv: "kv = (k', v')" by (cases kv)
    have "visit (BDictionaryIterator_step ((m @ [(k, v)]) @ (k', v') # rest)) n (Some k') = rest"
      using Suc Cons kv by (intro Suc.IH) simp_all
    then show ?thesis
      using Suc.prems(1) Cons kv by (simp add: BDictionaryIterator_next)
  qed (use Suc.prems(1) in \<open>simp add: BDictionaryIterator_next\<close>)
qed simp

lemma visit_struct:
  assumes "ci.wf c" "length c \<le> n"
  shows "visit (BStructIterator_step c) n None = map (\<lambda>(k, v). (BString k, v)) c"
proof (cases c)
  case Nil
  then show ?thesis by (cases n) (simp_all add: BStructIterator_step_def)
next
  case (Cons kv rest)
  obtain k v i where kv: "kv = (k, v)" "n = Suc i" using Cons assms(2) by (cases kv; cases n) auto
  moreover have "BStructIterator_step c None = Some (Some k, BString k, v)"
    using Cons kv by (simp add: BStructIterator_step_def)
  ultimately show ?thesis using visit_struct_from[of "[]" k v rest i] Cons assms by simp
qed

lemma visit_dictionary:
  assumes "dk.wf m" "length m \<le> n"
  shows "visit (BDictionaryIterator_step m) n None = m"
proof (cases m)
  case Nil
  then show ?thesis by (cases n) (simp_all add: BDictionaryIterator_step_def)
next
  case (Cons kv rest)
  obtain k v i where kv: "kv = (k, v)" "n = Suc i" using Cons assms(2) by (cases kv; cases n) auto
  moreover have "BDictionaryIterator_step m None = Some (Some k, k, v)"
    using Cons kv by (simp add: BDictionaryIterator_step_def)
  ultimately show ?thesis using visit_dictionary_from[of "[]" k v rest i] Cons assms by simp
qed

section \<open>Properties\<close>

text \<open>
  C21. After any sequence of assignments \<open>dict[key] := value\<close> to an empty dictionary, a
  subscript finds the value assigned last to that key, and a key never assigned is
  uninitialised. Keys are the same when neither is before the other.
\<close>

theorem dictionary_last_assignment:
  assumes "\<forall>(k, v) \<in> set kvs. dict_key k" "dict_key x"
  shows "BDictionary_OperSubscript
      (foldl (\<lambda>m (k, v). fst (BDictionary_array_assign m k v)) [] kvs) x =
    (case List.find (\<lambda>(k, v). dk.equiv k x) (rev kvs) of
       Some (k, v) \<Rightarrow> v | None \<Rightarrow> UninitObject)"
proof -
  have type: "dict_key k \<Longrightarrow> key_type k" for k
    by (cases k) (simp_all add: dict_key_def key_type_def isa_def)
  have "foldl (\<lambda>m (k, v). fst (BDictionary_array_assign m k v)) m kvs = dk.store.updates kvs m" for m
    using assms(1) by (induction kvs arbitrary: m)
      (auto simp: dk.store.updates_def BDictionary_array_assign_def type)
  then show ?thesis
    using dk.store.lookup_updates[of "[]" kvs x] assms type[of x]
    by (auto simp: BDictionary_OperSubscript_def dk.wf_def split: option.split)
qed

lemma dictionary_last_assignment_witness:
  "BDictionary_OperSubscript (foldl (\<lambda>m (k, v). fst (BDictionary_array_assign m k v)) []
     [(BLong 1, BString ''x''), (BString ''a'', BLong 2), (BLong 1, BString ''y'')]) (BLong 1) = BString ''y''"
  using dictionary_last_assignment[of "[(BLong 1, BString ''x''), (BString ''a'', BLong 2), (BLong 1, BString ''y'')]" "BLong 1"]
  by (simp add: dict_key_def dk.equiv_def dict_less_def bobj_lt_def dispatch_simps)

text \<open>
  In a struct the member set last under a name, in any case, is the one that is read,
  with \<^verbatim>\<open>.\<close> and with a subscript; setting a member leaves the others as they were.
\<close>

theorem struct_member_reads_back:
  assumes "ci.wf c" "CHR 0x00 \<notin> set name" "CHR 0x00 \<notin> set other"
  shows "BStruct_get_member (fst (BStruct_set_member c name v)) other =
      (if ci_key name = ci_key other then v else BStruct_get_member c other) \<and>
    BStruct_OperSubscript (fst (BStruct_set_member c name v)) (BString other) =
      Inr (BStruct_get_member (fst (BStruct_set_member c name v)) other)"
proof -
  have whole: "CHR 0x00 \<notin> set s \<Longrightarrow> c_str s = s" for s
    by (auto simp: c_str_def takeWhile_eq_all_conv)
  have "ci.equiv a b \<longleftrightarrow> ci_key a = ci_key b" for a b
    using str_lt_total by (auto simp: ci.equiv_def ci_less_def)
  then show ?thesis
    using assms ci.find_set[of c other name v]
    by (simp add: BStruct_get_member_def BStruct_set_member_def BStruct_OperSubscript_def whole)
qed

lemma struct_member_reads_back_witness:
  "BStruct_OperSubscript (fst (BStruct_set_member [] ''Hits'' (BLong 5))) (BString ''hits'') = Inr (BLong 5)"
proof -
  have "ci_key ''Hits'' = ci_key ''hits''" by code_simp
  then show ?thesis
    using struct_member_reads_back[of "[]" "''Hits''" "''hits''" "BLong 5"] by (simp add: ci.wf_def)
qed

text \<open>
  Erasing a key of a dictionary answers whether it was there, makes it unknown, keeps what
  every other key finds, and leaves the contents ordered.
\<close>

theorem dictionary_erase:
  assumes "dk.wf m" "dict_key k" "dict_key x"
  shows "\<exists>m' n. BDictionary_call_method_id m MTH_ERASE [k] = reply_value m' (BLong n) \<and>
    BDictionary_call_method_id m MTH_EXISTS [k] = reply_value m (BLong n) \<and> dk.wf m' \<and>
    BDictionary_call_method_id m' MTH_EXISTS [k] = reply_value m' (BLong 0) \<and>
    (\<not> dk.equiv k x \<longrightarrow> BDictionary_OperSubscript m' x = BDictionary_OperSubscript m x)"
proof -
  have type: "dict_key k \<Longrightarrow> key_type k" for k
    by (cases k) (simp_all add: dict_key_def key_type_def isa_def)
  show ?thesis
    using assms type dk.wf_erase dk.find_erase[of m k k] dk.find_erase[of m k x] dk.equiv_refl[of k]
    by (auto simp: BDictionary_call_method_id_def BDictionary_OperSubscript_def omap_count_def
        reply_value_def)
qed

lemma dictionary_erase_witness:
  "\<exists>m' n. BDictionary_call_method_id [(BLong 1, BLong 9)] MTH_ERASE [BLong 1] = reply_value m' (BLong n) \<and>
     BDictionary_call_method_id m' MTH_EXISTS [BLong 1] = reply_value m' (BLong 0)"
  using dictionary_erase[of "[(BLong 1, BLong 9)]" "BLong 1" "BLong 1"]
  by (auto simp: dk.wf_def dict_key_def)

text \<open>
  Every method call keeps the contents of a struct and of a dictionary ordered, whatever
  its parameters.
\<close>

theorem methods_keep_order:
  "(ci.wf c \<longrightarrow> ci.wf (object (BStruct_call_method_id c mth params))) \<and>
   (dk.wf m \<longrightarrow> (\<forall>p \<in> set params. p \<noteq> BDouble DNaN) \<longrightarrow>
      dk.wf (object (BDictionary_call_method_id m mth params)))"
proof -
  have "key_type p \<Longrightarrow> p \<noteq> BDouble DNaN \<Longrightarrow> dict_key p" for p
    by (cases p) (simp_all add: key_type_def isa_def dict_key_def)
  then show ?thesis by (auto intro!: BStruct_methods_wf BDictionary_methods_wf)
qed

lemma methods_keep_order_witness:
  "ci.wf (object (BStruct_call_method_id [(''a'', BLong 1)] MTH_INSERT [BString ''A'', BLong 2]))"
  using methods_keep_order[of "[(''a'', BLong 1)]" MTH_INSERT "[BString ''A'', BLong 2]" "[]"]
  by (simp add: ci.wf_def)

text \<open>
  A \<^verbatim>\<open>foreach\<close> loop over an unchanged struct or dictionary sees every entry
  once, in order.
\<close>

theorem iteration_visits_all:
  assumes "ci.wf c" "dk.wf m" "length c \<le> n" "length m \<le> n"
  shows "visit (BStructIterator_step c) n None = map (\<lambda>(k, v). (BString k, v)) c \<and>
    visit (BDictionaryIterator_step m) n None = m"
  using assms visit_struct visit_dictionary by simp

lemma iteration_visits_all_witness:
  "visit (BDictionaryIterator_step [(BString ''a'', BLong 1), (BLong 3, BLong 2)]) 5 None =
     [(BString ''a'', BLong 1), (BLong 3, BLong 2)]"
  using iteration_visits_all[of "[]" "[(BString ''a'', BLong 1), (BLong 3, BLong 2)]" 5]
  by (simp add: ci.wf_def dk.wf_def dict_key_def dict_less_def bobj_lt_def dispatch_simps is_void_def
      isa_def less_BObjectType_def)

text \<open>
  Copying a struct or a dictionary, which assigns entry by entry to an empty one, gives
  the same contents.
\<close>

theorem copies_are_equal:
  assumes "ci.wf c" "dk.wf m"
  shows "BStruct_copy c = c \<and> BDictionary_copy m = m"
  using assms BStruct_copy_same BDictionary_copy_same by simp

lemma copies_are_equal_witness:
  "BStruct_copy [(''b'', BLong 1), (''C'', BLong 2)] = [(''b'', BLong 1), (''C'', BLong 2)]"
proof -
  have ordered: "ci_less ''b'' ''C''" by code_simp
  show ?thesis using copies_are_equal[of "[(''b'', BLong 1), (''C'', BLong 2)]" "[]"]
  by (simp add: ci.wf_def dk.wf_def ordered)
qed

end
