(* ===== verification/Strings.thy ===== *)
theory Strings
  imports Compare Params
begin

text \<open>
  \<^verbatim>\<open>String\<close>: a byte string that scripts see as a sequence of UTF-8 code points.
  Positions are byte offsets; \<^verbatim>\<open>utf8::unchecked::next\<close> steps over a code point
  by the length its lead byte announces. The result is \<open>None\<close> when a step leaves the
  string, which the unchecked iterators do not notice, and when a real is converted to an
  unsigned type that cannot hold it. The lemmas show that on well-formed text every
  operation is the list operation on code points.
\<close>

section \<open>Stepping over code points\<close>

text \<open>The bytes \<^verbatim>\<open>utf8::unchecked::next\<close> steps over.\<close>

definition sequence_step :: "char \<Rightarrow> nat" where
  "sequence_step c =
     (let lead = byte c
      in if lead < 0x80 then 1
         else if lead div 32 = 6 then 2
         else if lead div 16 = 0xE then 3
         else if lead div 8 = 0x1E then 4
         else 1)"

definition utf8_next :: "string \<Rightarrow> nat \<Rightarrow> nat option" where
  "utf8_next val itr =
     (if itr < length val \<and> itr + sequence_step (val ! itr) \<le> length val
      then Some (itr + sequence_step (val ! itr)) else None)"

text \<open>\<^verbatim>\<open>utf8::unchecked::distance\<close> from a position to another.\<close>

lemma sequence_step_pos [simp]: "0 < sequence_step c"
  by (simp add: sequence_step_def Let_def)

function utf8_distance :: "string \<Rightarrow> nat \<Rightarrow> nat \<Rightarrow> nat option" where
  "utf8_distance val start stop =
     (if stop \<le> start then Some 0
      else case utf8_next val start of
          None \<Rightarrow> None
        | Some next \<Rightarrow> map_option Suc (utf8_distance val next stop))"
  by pat_completeness auto
termination
  by (relation "measure (\<lambda>(val, start, stop). stop - start)")
    (auto simp: utf8_next_def split: if_splits intro: diff_less_mono2)

declare utf8_distance.simps [simp del]

text \<open>
  \<^verbatim>\<open>getBytePosition\<close>: the iterator after at most \<open>codeindex\<close> steps, and its
  offset unless it is at the end (\<^verbatim>\<open>npos\<close> is \<open>None\<close>).
\<close>

function advance_code :: "string \<Rightarrow> nat \<Rightarrow> nat \<Rightarrow> nat option" where
  "advance_code val itr codeindex =
     (if codeindex = 0 \<or> itr = length val then Some itr
      else case utf8_next val itr of
          None \<Rightarrow> None
        | Some itr' \<Rightarrow> advance_code val itr' (codeindex - 1))"
  by pat_completeness auto
termination
  by (relation "measure (\<lambda>(val, itr, codeindex). codeindex)") auto

declare advance_code.simps [simp del]

definition getBytePosition :: "string \<Rightarrow> nat \<Rightarrow> nat \<Rightarrow> (nat \<times> nat option) option" where
  "getBytePosition val itr codeindex =
     map_option (\<lambda>itr'. (itr', if itr' \<noteq> length val then Some itr' else None))
       (advance_code val itr codeindex)"

text \<open>An \<^verbatim>\<open>int\<close> and a real converted to \<^verbatim>\<open>size_t\<close>.\<close>

definition size_of_int :: "int \<Rightarrow> nat" where
  "size_of_int i = nat (i mod 2 ^ 64)"

definition size_of_dbl :: "dbl \<Rightarrow> nat option" where
  "size_of_dbl d =
     (case d_trunc d of
        Some i \<Rightarrow> if 0 \<le> i \<and> i < 2 ^ 64 then Some (nat i) else None
      | None \<Rightarrow> None)"

text \<open>\<^verbatim>\<open>substr\<close> and \<^verbatim>\<open>replace\<close> with a count that may be \<^verbatim>\<open>npos\<close>.\<close>

definition substr_to :: "string \<Rightarrow> nat \<Rightarrow> nat option \<Rightarrow> string" where
  "substr_to s pos n = (case n of Some n \<Rightarrow> substr s pos n | None \<Rightarrow> drop pos s)"

definition replace_to :: "string \<Rightarrow> nat \<Rightarrow> nat option \<Rightarrow> string \<Rightarrow> string" where
  "replace_to s pos n r =
     (case n of Some n \<Rightarrow> str_replace s pos n r | None \<Rightarrow> take pos s @ r)"

section \<open>Operations\<close>

definition String_length :: "string \<Rightarrow> nat option" where
  "String_length val = utf8_distance val 0 (length val)"

definition String_StrStr :: "string \<Rightarrow> int \<Rightarrow> int \<Rightarrow> string option" where
  "String_StrStr val begin len =
     (case getBytePosition val 0 (size_of_int (begin - 1)) of
        None \<Rightarrow> None
      | Some (itr, startpos) \<Rightarrow>
          (case getBytePosition val itr (size_of_int len) of
             None \<Rightarrow> None
           | Some (_, endpos) \<Rightarrow>
               Some (case startpos of
                  Some s \<Rightarrow> substr_to val s (map_option (\<lambda>e. e - s) endpos)
                | None \<Rightarrow> val)))"

text \<open>\<^verbatim>\<open>find_first_not_of\<close> and \<^verbatim>\<open>find_last_not_of\<close>.\<close>

fun find_first_not_of :: "string \<Rightarrow> char set \<Rightarrow> nat option" where
  "find_first_not_of [] cs = None"
| "find_first_not_of (c # s) cs =
     (if c \<notin> cs then Some 0 else map_option Suc (find_first_not_of s cs))"

definition find_last_not_of :: "string \<Rightarrow> char set \<Rightarrow> nat option" where
  "find_last_not_of s cs = map_option (\<lambda>i. length s - 1 - i) (find_first_not_of (rev s) cs)"

definition String_ETrim :: "string \<Rightarrow> string \<Rightarrow> int \<Rightarrow> string" where
  "String_ETrim val CRSet type =
     (let cs = set (c_str CRSet)
      in if type = 1
         then (case find_first_not_of val cs of Some startpos \<Rightarrow> drop startpos val | None \<Rightarrow> [])
         else if type = 2
         then (case find_last_not_of val cs of
                 Some endpos \<Rightarrow> substr val 0 (endpos + 1) | None \<Rightarrow> [])
         else if type = 3
         then (case (find_first_not_of val cs, find_last_not_of val cs) of
                 (Some startpos, Some endpos) \<Rightarrow> substr val startpos (endpos - startpos + 1)
               | _ \<Rightarrow> [])
         else val)"

text \<open>The loop does not end when the needle is empty.\<close>

partial_function (option) EStrReplace_from ::
  "string \<Rightarrow> string \<Rightarrow> nat \<Rightarrow> string \<Rightarrow> string option" where
  "EStrReplace_from str1 str2 valpos val =
     (case str_find val str1 valpos of
        None \<Rightarrow> Some val
      | Some pos \<Rightarrow>
          EStrReplace_from str1 str2 (pos + length str2)
            (str_replace val pos (length str1) str2))"

definition String_EStrReplace :: "string \<Rightarrow> string \<Rightarrow> string \<Rightarrow> string option" where
  "String_EStrReplace val str1 str2 = EStrReplace_from str1 str2 0 val"

text \<open>\<open>index\<close> and \<open>len\<close> are \<^verbatim>\<open>unsigned int\<close>.\<close>

definition String_ESubStrReplace :: "string \<Rightarrow> string \<Rightarrow> nat \<Rightarrow> nat \<Rightarrow> string option" where
  "String_ESubStrReplace val replace_with index len =
     (case getBytePosition val 0 (nat ((int index - 1) mod 2 ^ 32)) of
        None \<Rightarrow> None
      | Some (itr, begin) \<Rightarrow>
          (case getBytePosition val itr len of
             None \<Rightarrow> None
           | Some (_, end') \<Rightarrow>
               Some (case begin of
                  Some b \<Rightarrow> replace_to val b (map_option (\<lambda>e. e - b) end') replace_with
                | None \<Rightarrow> val)))"

text \<open>The zero-based code point position, \<open>-1\<close> when there is none.\<close>

definition String_find :: "string \<Rightarrow> int \<Rightarrow> string \<Rightarrow> int option" where
  "String_find val begin target =
     (case getBytePosition val 0 (size_of_int begin) of
        None \<Rightarrow> None
      | Some (_, None) \<Rightarrow> Some (- 1)
      | Some (_, Some pos) \<Rightarrow>
          (case str_find val (c_str target) pos of
             None \<Rightarrow> Some (- 1)
           | Some pos' \<Rightarrow> map_option int (utf8_distance val 0 pos')))"

definition isalnum :: "nat \<Rightarrow> bool" where
  "isalnum c \<longleftrightarrow> 48 \<le> c \<and> c \<le> 57 \<or> 65 \<le> c \<and> c \<le> 90 \<or> 97 \<le> c \<and> c \<le> 122"

definition ispunct :: "nat \<Rightarrow> bool" where
  "ispunct c \<longleftrightarrow> 33 \<le> c \<and> c \<le> 126 \<and> \<not> isalnum c"

definition safe_char :: "char \<Rightarrow> bool" where
  "safe_char c \<longleftrightarrow>
     byte c < 0x80 \<and> (isalnum (byte c) \<or> ispunct (byte c) \<and> c \<noteq> CHR ''{'' \<and> c \<noteq> CHR ''}'')"

function SafeCharAmt_from :: "string \<Rightarrow> nat \<Rightarrow> nat \<Rightarrow> nat" where
  "SafeCharAmt_from val strlen i =
     (if strlen \<le> i then strlen
      else if safe_char (val ! i) then SafeCharAmt_from val strlen (i + 1) else i)"
  by pat_completeness auto
termination
  by (relation "measure (\<lambda>(val, strlen, i). strlen - i)") auto

declare SafeCharAmt_from.simps [simp del]

definition String_SafeCharAmt :: "string \<Rightarrow> nat option" where
  "String_SafeCharAmt val =
     map_option (\<lambda>n. SafeCharAmt_from val (n mod 2 ^ 32) 0) (String_length val)"

definition hasUTF8Characters :: "string \<Rightarrow> bool" where
  "hasUTF8Characters str \<longleftrightarrow> list_ex (\<lambda>c. byte c AND 0x80 \<noteq> 0) str"

section \<open>Subscripts\<close>

text \<open>
  The byte position and length of the code point \<open>codeindex\<close>: \<open>Some None\<close> when the
  string is too short.
\<close>

definition code_point_at :: "string \<Rightarrow> nat \<Rightarrow> (nat \<times> nat) option option" where
  "code_point_at val codeindex =
     (case getBytePosition val 0 codeindex of
        None \<Rightarrow> None
      | Some (itr, None) \<Rightarrow> Some None
      | Some (itr, Some pos) \<Rightarrow>
          (case utf8_next val itr of None \<Rightarrow> None | Some itr' \<Rightarrow> Some (Some (pos, itr' - pos))))"

text \<open>
  \<^verbatim>\<open>array_assign\<close>: the changed string and the result. A subscript that is no
  string, integer or real, or that finds nothing, gives an uninitialised object.
\<close>

definition String_array_assign :: "string \<Rightarrow> BObjectImp \<Rightarrow> BObjectImp \<Rightarrow> (string \<times> BObjectImp) option" where
  "String_array_assign val idx target =
     (let place = (case idx of
            BString rt \<Rightarrow> Some (map_option (\<lambda>pos. (pos, length rt)) (str_find val rt 0))
          | BLong lng \<Rightarrow> code_point_at val (size_of_int (sint (lng - 1)))
          | BDouble dbl \<Rightarrow>
              (case size_of_dbl dbl of
                 None \<Rightarrow> None | Some n \<Rightarrow> code_point_at val (size_of_int (int n - 1)))
          | _ \<Rightarrow> Some None)
      in case place of
           None \<Rightarrow> None
         | Some None \<Rightarrow> Some (val, UninitObject)
         | Some (Some (pos, len)) \<Rightarrow>
             (case target of
                BString t \<Rightarrow>
                  (let val' = str_replace val pos len t in Some (val', BString val'))
              | _ \<Rightarrow> Some (val, BString val)))"

text \<open>
  The start and length of the two-index operators. The start is a position, the value to
  return instead, or undefined; the length is converted to \<^verbatim>\<open>size_t\<close>.
\<close>

datatype 'a step_result = Go 'a | Return "BObjectImp" | Undef

definition out_of_range :: "BObjectImp" where
  "out_of_range = mk_error ''Subscript out of range''"

definition multi_start :: "string \<Rightarrow> BObjectImp \<Rightarrow> nat step_result" where
  "multi_start val start =
     (case start of
        BLong lng \<Rightarrow>
          (let index = size_of_int (sint lng)
           in if index = 0 \<or> index > length val then Return out_of_range
              else (case getBytePosition val 0 (index - 1) of
                      None \<Rightarrow> Undef
                    | Some (_, None) \<Rightarrow> Return out_of_range
                    | Some (_, Some pos) \<Rightarrow> Go pos))
      | BString rt \<Rightarrow>
          (case str_find val rt 0 of Some pos \<Rightarrow> Go pos | None \<Rightarrow> Return UninitObject)
      | _ \<Rightarrow> Return (BString val))"

definition multi_length :: "string \<Rightarrow> BObjectImp \<Rightarrow> nat step_result" where
  "multi_length val count =
     (case count of
        BLong lng \<Rightarrow> Go (size_of_int (sint lng))
      | BDouble dbl \<Rightarrow> (case size_of_dbl dbl of Some n \<Rightarrow> Go n | None \<Rightarrow> Undef)
      | _ \<Rightarrow> Return (BString val))"

text \<open>The number of bytes from a position over \<open>len\<close> code points.\<close>

definition byte_length :: "string \<Rightarrow> nat \<Rightarrow> nat \<Rightarrow> nat option option" where
  "byte_length val index len =
     map_option (\<lambda>(_, p). map_option (\<lambda>e. e - index) p) (getBytePosition val index len)"

definition String_OperMultiSubscript :: "string \<Rightarrow> BObjectImp \<Rightarrow> BObjectImp \<Rightarrow> BObjectImp option" where
  "String_OperMultiSubscript val start count =
     (case multi_start val start of
        Undef \<Rightarrow> None
      | Return v \<Rightarrow> Some v
      | Go index \<Rightarrow>
          (case multi_length val count of
             Undef \<Rightarrow> None
           | Return v \<Rightarrow> Some v
           | Go len \<Rightarrow>
               map_option (\<lambda>n. BString (substr_to val index n)) (byte_length val index len)))"

definition String_OperMultiSubscriptAssign ::
  "string \<Rightarrow> BObjectImp \<Rightarrow> BObjectImp \<Rightarrow> BObjectImp \<Rightarrow> (string \<times> BObjectImp) option" where
  "String_OperMultiSubscriptAssign val start count target =
     (case multi_start val start of
        Undef \<Rightarrow> None
      | Return v \<Rightarrow> Some (val, v)
      | Go index \<Rightarrow>
          (case multi_length val count of
             Undef \<Rightarrow> None
           | Return v \<Rightarrow> Some (val, v)
           | Go len \<Rightarrow>
               (case byte_length val index len of
                  None \<Rightarrow> None
                | Some n \<Rightarrow>
                    (case target of
                       BString t \<Rightarrow>
                         (let val' = replace_to val index n t in Some (val', BString val'))
                     | _ \<Rightarrow> Some (val, UninitObject)))))"

definition subscript_code_point :: "string \<Rightarrow> nat \<Rightarrow> BObjectImp option" where
  "subscript_code_point val index =
     (if index = 0 \<or> index > length val then Some out_of_range
      else (case code_point_at val (index - 1) of
              None \<Rightarrow> None
            | Some None \<Rightarrow> Some out_of_range
            | Some (Some (pos, len)) \<Rightarrow> Some (BString (substr val pos len))))"

definition String_OperSubscript :: "string \<Rightarrow> BObjectImp \<Rightarrow> BObjectImp option" where
  "String_OperSubscript val right =
     (case right of
        BLong lng \<Rightarrow>
          if sint lng < 0 then Some out_of_range
          else subscript_code_point val (size_of_int (sint lng))
      | BDouble dbl \<Rightarrow>
          if d_lt dbl (dzero False) then Some out_of_range
          else (case size_of_dbl dbl of
                  None \<Rightarrow> None | Some index \<Rightarrow> subscript_code_point val index)
      | BString rt \<Rightarrow>
          (case str_find val rt 0 of
             None \<Rightarrow> Some UninitObject
           | Some pos \<Rightarrow>
               map_option (\<lambda>itr. BString (substr val pos (itr - pos))) (utf8_next val pos))
      | _ \<Rightarrow> Some UninitObject)"

text \<open>
  \<^verbatim>\<open>compare\<close> with positions and lengths in code points. A position past the end throws
  \<^verbatim>\<open>std::out_of_range\<close>, which is \<open>Inl\<close> here.
\<close>

definition String_compare :: "string \<Rightarrow> string \<Rightarrow> bool" where
  "String_compare val str = (val = str)"

definition compare_range ::
  "string \<Rightarrow> nat \<Rightarrow> nat \<Rightarrow> (string + string) option" where
  "compare_range val pos len =
     (case getBytePosition val 0 pos of
        None \<Rightarrow> None
      | Some (itr, p) \<Rightarrow>
          (case getBytePosition val itr len of
             None \<Rightarrow> None
           | Some (_, e) \<Rightarrow>
               Some (case p of
                  None \<Rightarrow> Inl ''basic_string::compare''
                | Some b \<Rightarrow> Inr (substr_to val b (map_option (\<lambda>e. e - b) e)))))"

definition String_compare_sub :: "string \<Rightarrow> nat \<Rightarrow> nat \<Rightarrow> string \<Rightarrow> (string + bool) option" where
  "String_compare_sub val pos1 len1 str =
     map_option (map_sum id (\<lambda>part. part = str)) (compare_range val pos1 len1)"

definition String_compare_subs ::
  "string \<Rightarrow> nat \<Rightarrow> nat \<Rightarrow> string \<Rightarrow> nat \<Rightarrow> nat \<Rightarrow> (string + bool) option" where
  "String_compare_subs val pos1 len1 str pos2 len2 =
     (case compare_range val pos1 len1 of
        None \<Rightarrow> None
      | Some r1 \<Rightarrow>
          (case compare_range str pos2 len2 of
             None \<Rightarrow> None
           | Some r2 \<Rightarrow>
               Some (case (r1, r2) of
                  (Inl e, _) \<Rightarrow> Inl e | (_, Inl e) \<Rightarrow> Inl e
                | (Inr a, Inr b) \<Rightarrow> Inr (a = b))))"

section \<open>Text as code points\<close>

text \<open>
  A well-formed text is the concatenation of code points: strings whose first byte
  announces their length.
\<close>

definition code_point :: "string \<Rightarrow> bool" where
  "code_point p \<longleftrightarrow> p \<noteq> [] \<and> length p = sequence_step (hd p)"

abbreviation code_points :: "string list \<Rightarrow> bool" where
  "code_points \<equiv> list_all code_point"

text \<open>The offset of the code point \<open>k\<close>.\<close>

definition offset :: "string list \<Rightarrow> nat \<Rightarrow> nat" where
  "offset cps k = length (concat (take k cps))"

lemma offset_0 [simp]: "offset cps 0 = 0"
  by (simp add: offset_def)

lemma offset_Suc: "k < length cps \<Longrightarrow> offset cps (Suc k) = offset cps k + length (cps ! k)"
  by (simp add: offset_def take_Suc_conv_app_nth)

lemma offset_all: "length cps \<le> k \<Longrightarrow> offset cps k = length (concat cps)"
  by (simp add: offset_def)

lemma offset_add: "offset cps (k + n) = offset cps k + offset (drop k cps) n"
  by (simp add: offset_def take_add)

lemma offset_mono: "j \<le> k \<Longrightarrow> offset cps j \<le> offset cps k"
  by (metis le_add1 le_iff_add offset_add)

lemma code_point_nth: "code_points cps \<Longrightarrow> k < length cps \<Longrightarrow> code_point (cps ! k)"
  by (simp add: list_all_length)

lemma split_at:
  "k < length cps \<Longrightarrow> concat cps = concat (take k cps) @ cps ! k @ concat (drop (Suc k) cps)"
  by (metis append_take_drop_id concat.simps(2) concat_append Cons_nth_drop_Suc)

lemma offset_less:
  assumes "code_points cps" "k < length cps"
  shows "offset cps k < length (concat cps)"
  using code_point_nth[OF assms] split_at[OF assms(2), THEN arg_cong[where f = length]]
  by (simp add: offset_def code_point_def length_greater_0_conv[symmetric] del: length_greater_0_conv)

lemma utf8_next_offset:
  assumes "code_points cps" "k < length cps"
  shows "utf8_next (concat cps) (offset cps k) = Some (offset cps (Suc k))"
proof -
  let ?p = "cps ! k"
  have p: "?p \<noteq> []" "length ?p = sequence_step (hd ?p)"
    using code_point_nth[OF assms] by (simp_all add: code_point_def)
  then have "concat cps ! offset cps k = hd ?p"
    by (subst split_at[OF assms(2)]) (simp add: offset_def nth_append hd_conv_nth)
  moreover have "offset cps k + length ?p \<le> length (concat cps)"
    using split_at[OF assms(2), THEN arg_cong[where f = length]] by (simp add: offset_def)
  ultimately show ?thesis
    using p offset_less[OF assms] offset_Suc[OF assms(2)] by (simp add: utf8_next_def)
qed

lemma advance_code_offset:
  "code_points cps \<Longrightarrow> k \<le> length cps \<Longrightarrow>
     advance_code (concat cps) (offset cps k) n = Some (offset cps (k + n))"
proof (induction n arbitrary: k)
  case 0
  then show ?case by (simp add: advance_code.simps)
next
  case (Suc n)
  show ?case
  proof (cases "k = length cps")
    case True
    then show ?thesis by (simp add: advance_code.simps offset_all)
  next
    case False
    then have k: "k < length cps" using Suc.prems by simp
    then show ?thesis
      using Suc utf8_next_offset[OF Suc.prems(1) k] offset_less[OF Suc.prems(1) k]
      by (simp add: advance_code.simps[of _ "offset cps k"])
  qed
qed

text \<open>The position a step count leads to, \<open>None\<close> at the end of the text.\<close>

definition place :: "string list \<Rightarrow> nat \<Rightarrow> nat option" where
  "place cps k = (if k < length cps then Some (offset cps k) else None)"

lemma getBytePosition_offset:
  assumes "code_points cps" "k \<le> length cps"
  shows "getBytePosition (concat cps) (offset cps k) n = Some (offset cps (k + n), place cps (k + n))"
  using advance_code_offset[OF assms, of n] offset_less[OF assms(1), of "k + n"] offset_all[of cps "k + n"]
  by (cases "k + n < length cps") (auto simp: getBytePosition_def place_def)

lemma getBytePosition_start:
  "code_points cps \<Longrightarrow> getBytePosition (concat cps) 0 n = Some (offset cps n, place cps n)"
  using getBytePosition_offset[of cps 0 n] by simp

lemma utf8_distance_offset:
  assumes "code_points cps" "j \<le> k" "k \<le> length cps"
  shows "utf8_distance (concat cps) (offset cps j) (offset cps k) = Some (k - j)"
  using assms(2)
proof (induction rule: inc_induct)
  case base
  then show ?case by (simp add: utf8_distance.simps)
next
  case (step n)
  have n: "n < length cps" using step assms(3) by simp
  have "offset cps n < offset cps (Suc n)"
    using offset_Suc[OF n] code_point_nth[OF assms(1) n] by (simp add: code_point_def)
  moreover have "offset cps (Suc n) \<le> offset cps k"
    using step(2) by (intro offset_mono) simp
  ultimately show ?case
    using step utf8_next_offset[OF assms(1) n]
    by (simp add: utf8_distance.simps[of _ "offset cps n"] Suc_diff_Suc)
qed

lemma String_length_code_points:
  "code_points cps \<Longrightarrow> String_length (concat cps) = Some (length cps)"
  using utf8_distance_offset[of cps 0 "length cps"] by (simp add: String_length_def offset_all)

text \<open>The bytes between two offsets are the code points between them.\<close>

lemma drop_offset: "drop (offset cps k) (concat cps) = concat (drop k cps)"
  by (metis append_eq_conv_conj append_take_drop_id concat_append offset_def)

lemma take_offset: "take (offset cps k) (concat cps) = concat (take k cps)"
  by (metis append_eq_conv_conj append_take_drop_id concat_append offset_def)

lemma substr_to_offset:
  "substr_to (concat cps) (offset cps k) (map_option (\<lambda>e. e - offset cps k) (place cps (k + n)))
     = concat (take n (drop k cps))"
proof (cases "k + n < length cps")
  case True
  then show ?thesis
    by (simp add: place_def substr_to_def substr_def drop_offset offset_add take_offset)
next
  case False
  then show ?thesis by (simp add: place_def substr_to_def drop_offset)
qed

lemma replace_to_offset:
  "replace_to (concat cps) (offset cps k) (map_option (\<lambda>e. e - offset cps k) (place cps (k + n))) r
     = concat (take k cps) @ r @ concat (drop (k + n) cps)"
proof (cases "k + n < length cps")
  case True
  then show ?thesis
    using offset_mono[of k "k + n" cps] drop_offset[of cps "k + n"]
    by (simp add: place_def replace_to_def str_replace_def take_offset)
next
  case False
  then show ?thesis by (simp add: place_def replace_to_def take_offset)
qed

lemma size_of_int_nat: "size_of_int (int n) = n mod 2 ^ 64"
  by (simp add: size_of_int_def zmod_int[symmetric] nat_mod_distrib)

text \<open>The bytes of one code point.\<close>

lemma code_point_at_offset:
  assumes "code_points cps" "n < length cps"
  shows "code_point_at (concat cps) n = Some (Some (offset cps n, length (cps ! n)))"
  using assms offset_Suc[OF assms(2)]
  by (simp add: code_point_at_def getBytePosition_start utf8_next_offset place_def)

lemma code_point_at_end:
  "code_points cps \<Longrightarrow> length cps \<le> n \<Longrightarrow> code_point_at (concat cps) n = Some None"
  by (simp add: code_point_at_def getBytePosition_start place_def)

lemma substr_code_point: "n < length cps \<Longrightarrow> substr (concat cps) (offset cps n) (length (cps ! n)) = cps ! n"
  by (simp add: substr_def drop_offset Cons_nth_drop_Suc[symmetric])

lemma length_code_points: "code_points cps \<Longrightarrow> length cps \<le> length (concat cps)"
proof (induction cps)
  case (Cons p cps)
  then have "1 \<le> length p" by (cases p) (auto simp: code_point_def)
  then show ?case using Cons by simp
qed simp

text \<open>The place of a code point number as the operators check it.\<close>

lemma size_of_small: "n < 2 ^ 31 \<Longrightarrow> size_of_int (sint (word_of_nat n :: int32)) = n"
  using sint_of_int32[of "int n"] by (simp add: size_of_int_nat)

lemma multi_start_code_point:
  assumes "code_points cps" "length (concat cps) < 2 ^ 31" "n < 2 ^ 31"
  shows "multi_start (concat cps) (BLong (word_of_nat n)) =
    (if 1 \<le> n \<and> n \<le> length cps then Go (offset cps (n - 1)) else Return out_of_range)"
  using assms size_of_small[of n] length_code_points[OF assms(1)] getBytePosition_start[OF assms(1), of "n - 1"]
  by (auto simp: multi_start_def Let_def place_def)

lemma byte_length_code_points:
  assumes "code_points cps" "k \<le> length cps"
  shows "byte_length (concat cps) (offset cps k) len =
    Some (map_option (\<lambda>e. e - offset cps k) (place cps (k + len)))"
  using getBytePosition_offset[OF assms, of len] by (simp add: byte_length_def)

section \<open>Replacing a text\<close>

text \<open>The leftmost occurrences that do not overlap, replaced.\<close>

function replace_all :: "string \<Rightarrow> string \<Rightarrow> string \<Rightarrow> string" where
  "replace_all needle r s =
     (if needle = [] then s
      else case find_sub needle s of
          None \<Rightarrow> s
        | Some i \<Rightarrow> take i s @ r @ replace_all needle r (drop (i + length needle) s))"
  by pat_completeness auto
termination
  by (relation "measure (\<lambda>(needle, r, s). length s)")
    (auto dest!: find_sub_length simp: neq_Nil_conv)

declare replace_all.simps [simp del]

lemma EStrReplace_from_eq:
  assumes "needle \<noteq> []"
  shows "EStrReplace_from needle r (length pre) (pre @ s) = Some (pre @ replace_all needle r s)"
  using assms
proof (induction needle r s arbitrary: pre rule: replace_all.induct)
  case (1 needle r s)
  show ?case
  proof (cases "find_sub needle s")
    case None
    then show ?thesis
      by (simp add: EStrReplace_from.simps[of _ _ _ "pre @ s"] str_find_def replace_all.simps[of _ _ s])
  next
    case (Some i)
    have "i + length needle \<le> length s" by (rule find_sub_length[OF Some])
    then have "str_replace (pre @ s) (length pre + i) (length needle) r =
        (pre @ take i s @ r) @ drop (i + length needle) s"
      "length (pre @ take i s @ r) = length pre + i + length r"
      by (simp_all add: str_replace_def)
    then show ?thesis
      using "1.IH"[OF "1.prems" Some "1.prems", of "pre @ take i s @ r"] Some "1.prems"
      by (simp add: EStrReplace_from.simps[of _ _ _ "pre @ s"] str_find_def replace_all.simps[of _ _ s]
          add.assoc)
  qed
qed

section \<open>Trimming\<close>

lemma find_first_not_of_drop:
  "(case find_first_not_of s cs of Some i \<Rightarrow> drop i s | None \<Rightarrow> []) = dropWhile (\<lambda>c. c \<in> cs) s"
  by (induction s) (auto split: option.splits)

lemma find_first_not_of_None: "find_first_not_of s cs = None \<longleftrightarrow> set s \<subseteq> cs"
  by (induction s) auto

lemma find_first_not_of_length: "find_first_not_of s cs = Some i \<Longrightarrow> i = length (takeWhile (\<lambda>c. c \<in> cs) s) \<and> i < length s"
  by (induction s arbitrary: i) (auto split: if_splits)

lemma find_last_not_of_take:
  "(case find_last_not_of s cs of Some i \<Rightarrow> take (i + 1) s | None \<Rightarrow> []) =
     rev (dropWhile (\<lambda>c. c \<in> cs) (rev s))"
proof (cases "find_first_not_of (rev s) cs")
  case None
  then show ?thesis using find_first_not_of_drop[of "rev s" cs] by (simp add: find_last_not_of_def)
next
  case (Some i)
  then have "i < length s" using find_first_not_of_length by fastforce
  then have "length s - 1 - i + 1 = length s - i" by simp
  moreover have "take (length s - i) s = rev (drop i (rev s))" by (simp add: drop_rev)
  ultimately show ?thesis
    using Some find_first_not_of_drop[of "rev s" cs] by (simp add: find_last_not_of_def)
qed

section \<open>Trimming both ends\<close>

lemma trim_both:
  assumes "find_first_not_of s cs = Some i" "find_last_not_of s cs = Some j"
  shows "take (j - i + 1) (drop i s) = rev (dropWhile (\<lambda>c. c \<in> cs) (rev (drop i s)))"
proof -
  let ?P = "\<lambda>c. c \<in> cs"
  have i: "drop i s = dropWhile ?P s" using find_first_not_of_drop[of s cs] assms(1) by simp
  have "\<not> set s \<subseteq> cs" using assms(1) find_first_not_of_None[of s cs] by simp
  then have "dropWhile ?P s \<noteq> []" by (auto simp: dropWhile_eq_Nil_conv)
  then obtain c where c: "c \<in> set (drop i s)" "c \<notin> cs"
    using hd_dropWhile[of ?P s] hd_in_set[of "dropWhile ?P s"] unfolding i by blast
  have "rev s = rev (drop i s) @ rev (take i s)" by (metis append_take_drop_id rev_append)
  then have "dropWhile ?P (rev s) = dropWhile ?P (rev (drop i s)) @ rev (take i s)"
    using c by (simp add: dropWhile_append1)
  moreover define kept where "kept = dropWhile ?P (rev (drop i s))"
  ultimately have j: "take (j + 1) s = take i s @ rev kept"
    using find_last_not_of_take[of s cs] assms(2) by simp
  have le: "i \<le> length s" using find_first_not_of_length[OF assms(1)] by simp
  then have "min (length s) (j + 1) = i + length kept" using arg_cong[OF j, of length] by simp
  moreover have "0 < length kept" using c by (auto simp: kept_def dropWhile_eq_Nil_conv)
  ultimately have "i < j + 1" by linarith
  then have "take (j - i + 1) (drop i s) = drop i (take (j + 1) s)" by (simp add: drop_take Suc_diff_le)
  then show ?thesis using j le by (simp add: kept_def)
qed

section \<open>Searching code points\<close>

text \<open>A character of UTF-8: the bytes after the first are continuation bytes, the first is none.\<close>

definition continuation :: "char \<Rightarrow> bool" where
  "continuation c \<longleftrightarrow> byte c div 64 = 2"

definition utf8_char :: "string \<Rightarrow> bool" where
  "utf8_char p \<longleftrightarrow> code_point p \<and> \<not> continuation (hd p) \<and> list_all continuation (tl p)"

lemma utf8_code_points: "list_all utf8_char cps \<Longrightarrow> code_points cps"
  by (auto simp: list_all_iff utf8_char_def)

lemma lead_at_offset:
  "list_all utf8_char cps \<Longrightarrow> i < length (concat cps) \<Longrightarrow> \<not> continuation (concat cps ! i) \<Longrightarrow>
     \<exists>k < length cps. i = offset cps k"
proof (induction cps arbitrary: i)
  case (Cons p cps)
  show ?case
  proof (cases "i < length p")
    case True
    have "list_all continuation (tl p)" using Cons.prems by (simp add: utf8_char_def)
    then have "i = 0"
      using Cons.prems(3) True by (cases i) (auto simp: nth_append list_all_length nth_tl)
    then show ?thesis by (intro exI[of _ 0]) simp
  next
    case False
    have "i - length p < length (concat cps)" using Cons.prems(2) False by simp
    then obtain k where "k < length cps" "i - length p = offset cps k"
      using Cons.IH[of "i - length p"] Cons.prems False by (auto simp: nth_append)
    then show ?thesis using False by (intro exI[of _ "Suc k"]) (auto simp: offset_def)
  qed
qed simp

lemma offset_le: "offset cps k \<le> length (concat cps)"
  using offset_mono[of k "max k (length cps)" cps] offset_all[of cps "max k (length cps)"] by simp

lemma offset_strict:
  assumes "code_points cps" "j < k" "k \<le> length cps"
  shows "offset cps j < offset cps k"
proof -
  have "offset cps j < offset cps (Suc j)"
    using assms offset_Suc[of j cps] code_point_nth[OF assms(1), of j] by (simp add: code_point_def)
  also have "\<dots> \<le> offset cps k" using assms(2) by (intro offset_mono) simp
  finally show ?thesis .
qed

lemma prefix_characters:
  "list_all utf8_char ts \<Longrightarrow> list_all utf8_char cps \<Longrightarrow> prefix (concat ts) (concat cps) \<longleftrightarrow> prefix ts cps"
proof (induction ts arbitrary: cps)
  case (Cons t ts)
  show ?case
  proof (cases cps)
    case Nil
    then show ?thesis using Cons.prems by (auto simp: utf8_char_def code_point_def)
  next
    case (Cons p ps)
    have ne: "t \<noteq> []" "p \<noteq> []" and len: "length t = sequence_step (hd t)" "length p = sequence_step (hd p)"
      using Cons.prems \<open>cps = p # ps\<close> by (auto simp: utf8_char_def code_point_def)
    show ?thesis
    proof (cases "t = p")
      case True
      then show ?thesis using Cons.IH[of ps] Cons.prems \<open>cps = p # ps\<close> by simp
    next
      case False
      have "hd t = hd p" if "prefix (t @ concat ts) (p @ concat ps)"
        using that ne by (cases t; cases p) auto
      then show ?thesis
        using False len \<open>cps = p # ps\<close> by (auto simp: prefix_def append_eq_append_conv_if split: if_splits)
    qed
  qed
qed simp

section \<open>Properties\<close>

text \<open>
  C37. On well-formed UTF-8 text a subscript reads exactly one code point, and any integer
  outside 1 to the number of code points, negative ones too, is an error.
\<close>

theorem string_subscript:
  assumes "code_points cps" "length (concat cps) < 2 ^ 31"
  shows "String_OperSubscript (concat cps) (BLong i) =
    Some (if 1 \<le> sint i \<and> sint i \<le> int (length cps) then BString (cps ! (nat (sint i) - 1)) else out_of_range)"
proof (cases "sint i < 0")
  case False
  define n where "n = nat (sint i)"
  have n: "sint i = int n" "n < 2 ^ 31" using False sint32_bounds(2)[of i] by (simp_all add: n_def)
  have "code_point_at (concat cps) (n - 1) =
      Some (if n - 1 < length cps then Some (offset cps (n - 1), length (cps ! (n - 1))) else None)"
    using code_point_at_offset[OF assms(1)] code_point_at_end[OF assms(1)] by simp
  then show ?thesis
    using False size_of_int_nat[of n] n length_code_points[OF assms(1)]
    by (auto simp: String_OperSubscript_def subscript_code_point_def substr_code_point)
qed (simp add: String_OperSubscript_def)

text \<open>An umlaut of two bytes between letters.\<close>

definition sample_text :: "string list" where
  "sample_text = [''K'', [CHR 0xC3, CHR 0xB6], ''n'', ''i'', ''g'']"

lemma code_points_sample: "code_points sample_text"
  by (simp add: sample_text_def code_point_def sequence_step_def byte_def)

lemma string_subscript_witness:
  "String_OperSubscript (concat sample_text) (BLong 2) = Some (BString [CHR 0xC3, CHR 0xB6]) \<and>
   String_OperSubscript (concat sample_text) (BLong 6) = Some out_of_range \<and>
   String_OperSubscript (concat sample_text) (BLong (- 1)) = Some out_of_range"
  using string_subscript[OF code_points_sample, of 2] string_subscript[OF code_points_sample, of 6]
    string_subscript[OF code_points_sample, of "- 1"]
  by (simp add: sample_text_def)

text \<open>
  C38. On well-formed text \<open>s[first, count]\<close> reads \<open>count\<close> code points from
  \<open>first\<close> on, as many as there are, and the assignment to it replaces just these.
\<close>

theorem string_slices:
  assumes "code_points cps" "length (concat cps) < 2 ^ 31" "1 \<le> n" "n \<le> length cps" "len < 2 ^ 31"
  shows "String_OperMultiSubscript (concat cps) (BLong (word_of_nat n)) (BLong (word_of_nat len)) =
      Some (BString (concat (take len (drop (n - 1) cps)))) \<and>
    (let r = concat (take (n - 1) cps) @ t @ concat (drop (n - 1 + len) cps)
     in String_OperMultiSubscriptAssign (concat cps) (BLong (word_of_nat n)) (BLong (word_of_nat len))
          (BString t) = Some (r, BString r))"
proof -
  have "n < 2 ^ 31" using assms length_code_points[OF assms(1)] by linarith
  then have start: "multi_start (concat cps) (BLong (word_of_nat n)) = Go (offset cps (n - 1))"
    using multi_start_code_point[OF assms(1,2)] assms(3,4) by simp
  have count: "multi_length (concat cps) (BLong (word_of_nat len)) = Go len"
    using size_of_small[OF assms(5)] by (simp add: multi_length_def)
  show ?thesis
    using byte_length_code_points[OF assms(1), of "n - 1" len] assms(4) substr_to_offset[of cps "n - 1" len]
      replace_to_offset[of cps "n - 1" len t]
    by (simp add: String_OperMultiSubscript_def String_OperMultiSubscriptAssign_def start count Let_def)
qed

lemma string_slices_witness:
  "String_OperMultiSubscript (concat sample_text) (BLong 2) (BLong 2) =
     Some (BString [CHR 0xC3, CHR 0xB6, CHR ''n''])"
  using string_slices[OF code_points_sample, of 2 2 "[]"] by (simp add: sample_text_def)

text \<open>
  On well-formed text \<^verbatim>\<open>length\<close> counts the code points, \<^verbatim>\<open>StrStr\<close> takes
  and \<^verbatim>\<open>ESubStrReplace\<close> replaces \<open>len\<close> of them from the position \<open>n\<close>, and
  an assignment to one code point replaces it.
\<close>

theorem string_code_point_operations:
  assumes "code_points cps" "1 \<le> n" "n \<le> length cps" "n < 2 ^ 31" "len < 2 ^ 31"
  shows "String_length (concat cps) = Some (length cps) \<and>
    String_StrStr (concat cps) (int n) (int len) = Some (concat (take len (drop (n - 1) cps))) \<and>
    String_ESubStrReplace (concat cps) t n len =
      Some (concat (take (n - 1) cps) @ t @ concat (drop (n - 1 + len) cps)) \<and>
    (let r = concat (take (n - 1) cps) @ t @ concat (drop n cps)
     in String_array_assign (concat cps) (BLong (word_of_nat n)) (BString t) = Some (r, BString r))"
proof -
  have n: "n - 1 < length cps" "size_of_int (int n - 1) = n - 1" "nat ((int n - 1) mod 2 ^ 32) = n - 1"
    using assms size_of_int_nat[of "n - 1"] by (simp_all add: of_nat_diff)
  have len: "size_of_int (int len) = len" using assms(5) by (simp add: size_of_int_nat)
  note start = getBytePosition_start[OF assms(1), of "n - 1"]
  note next' = getBytePosition_offset[OF assms(1), of "n - 1" len]
  have "String_StrStr (concat cps) (int n) (int len) = Some (concat (take len (drop (n - 1) cps)))"
    using n len start next' substr_to_offset[of cps "n - 1" len]
    by (simp add: String_StrStr_def place_def)
  moreover have "String_ESubStrReplace (concat cps) t n len =
      Some (concat (take (n - 1) cps) @ t @ concat (drop (n - 1 + len) cps))"
    using n start next' replace_to_offset[of cps "n - 1" len t]
    by (simp add: String_ESubStrReplace_def place_def)
  moreover have "word_of_nat n - 1 = (word_of_nat (n - 1) :: int32)" using assms(2) by (simp add: of_nat_diff)
  then have "code_point_at (concat cps) (size_of_int (sint (word_of_nat n - 1 :: int32))) =
      Some (Some (offset cps (n - 1), length (cps ! (n - 1))))"
    using size_of_small[of "n - 1"] assms(4) code_point_at_offset[OF assms(1) n(1)] by simp
  moreover have "str_replace (concat cps) (offset cps (n - 1)) (length (cps ! (n - 1))) t =
      concat (take (n - 1) cps) @ t @ concat (drop n cps)"
    using offset_Suc[OF n(1)] drop_offset[of cps n] assms(2)
    by (simp add: str_replace_def take_offset)
  ultimately show ?thesis
    using String_length_code_points[OF assms(1)] by (simp add: String_array_assign_def Let_def)
qed

lemma string_code_point_operations_witness:
  "String_ESubStrReplace (concat sample_text) ''oe'' 2 1 = Some ''Koenig''"
  using string_code_point_operations[OF code_points_sample, of 2 1 "''oe''"]
  by (simp add: sample_text_def)

text \<open>
  C39. \<^verbatim>\<open>EStrReplace\<close> ends for every non-empty needle and replaces the leftmost
  occurrences that do not overlap.
\<close>

theorem replacement_ends:
  assumes "needle \<noteq> []"
  shows "String_EStrReplace val needle r = Some (replace_all needle r val)"
  using EStrReplace_from_eq[OF assms, of r "[]" val] by (simp add: String_EStrReplace_def)

lemma replacement_ends_witness: "String_EStrReplace ''aaba'' ''a'' ''aa'' = Some ''aaaabaa''"
proof -
  have "replace_all ''a'' ''aa'' ''aaba'' = ''aaaabaa''" by (simp add: replace_all.simps)
  then show ?thesis using replacement_ends[of "''a''"] by simp
qed

text \<open>
  Trimming removes the longest run of the given characters at the front, at the end, or
  at both ends.
\<close>

theorem trimming:
  "String_ETrim s cs 1 = dropWhile (\<lambda>c. c \<in> set (c_str cs)) s \<and>
   String_ETrim s cs 2 = rev (dropWhile (\<lambda>c. c \<in> set (c_str cs)) (rev s)) \<and>
   String_ETrim s cs 3 = String_ETrim (String_ETrim s cs 1) cs 2"
proof -
  let ?cs = "set (c_str cs)"
  have one: "String_ETrim s cs 1 = dropWhile (\<lambda>c. c \<in> ?cs) s"
    using find_first_not_of_drop[of s ?cs] by (simp add: String_ETrim_def Let_def)
  have two: "String_ETrim t cs 2 = rev (dropWhile (\<lambda>c. c \<in> ?cs) (rev t))" for t
    using find_last_not_of_take[of t ?cs]
    by (cases "find_last_not_of t ?cs") (simp_all add: String_ETrim_def Let_def substr_def)
  have "String_ETrim s cs 3 = rev (dropWhile (\<lambda>c. c \<in> ?cs) (rev (dropWhile (\<lambda>c. c \<in> ?cs) s)))"
  proof (cases "find_first_not_of s ?cs")
    case None
    then show ?thesis using find_first_not_of_drop[of s ?cs] by (simp add: String_ETrim_def Let_def)
  next
    case (Some i)
    then obtain j where "find_last_not_of s ?cs = Some j"
      using find_first_not_of_None[of s ?cs] find_first_not_of_None[of "rev s" ?cs]
      by (auto simp: find_last_not_of_def)
    then show ?thesis
      using Some trim_both[OF Some] find_first_not_of_drop[of s ?cs]
      by (simp add: String_ETrim_def Let_def substr_def)
  qed
  then show ?thesis using one two by simp
qed

text \<open>
  On UTF-8 text without NUL the search for a non-empty text from a code point on gives
  the first code point where the text stands, and \<open>-1\<close> when it stands nowhere: it
  never stops inside a code point.
\<close>

theorem string_search:
  assumes "list_all utf8_char cps" "list_all utf8_char ts" "ts \<noteq> []" "CHR 0x00 \<notin> set (concat ts)"
    and "b < length cps" "b < 2 ^ 31"
  shows "(\<exists>k \<ge> b. String_find (concat cps) (int b) (concat ts) = Some (int k) \<and> prefix ts (drop k cps) \<and>
      (\<forall>j. b \<le> j \<longrightarrow> j < k \<longrightarrow> \<not> prefix ts (drop j cps))) \<or>
    String_find (concat cps) (int b) (concat ts) = Some (- 1) \<and>
      (\<forall>j \<ge> b. \<not> prefix ts (drop j cps))"
proof -
  let ?t = "concat ts"
  note cp = utf8_code_points[OF assms(1)]
  have t: "c_str ?t = ?t" using assms(4) by (auto simp: c_str_def takeWhile_eq_all_conv)
  have lead: "?t \<noteq> []" "\<not> continuation (hd ?t)"
    using assms(2,3) by (cases ts; auto simp: utf8_char_def code_point_def)+
  have at: "prefix ?t (concat (drop j cps)) \<longleftrightarrow> prefix ts (drop j cps)" for j
    using prefix_characters[OF assms(2), of "drop j cps"] assms(1) by (simp add: list_all_iff in_set_dropD)
  have "b mod 2 ^ 64 = b" using assms(6) by simp
  then have start: "getBytePosition (concat cps) 0 (size_of_int (int b)) = Some (offset cps b, Some (offset cps b))"
    using getBytePosition_start[OF cp, of b] assms(5) by (simp add: size_of_int_nat place_def)
  show ?thesis
  proof (cases "find_sub ?t (concat (drop b cps))")
    case None
    have "\<not> prefix ts (drop j cps)" if "b \<le> j" for j
    proof
      assume "prefix ts (drop j cps)"
      then have "prefix ?t (concat (drop j cps))" using at by simp
      moreover have "suffix (concat (drop j cps)) (concat (drop b cps))"
        using that by (metis concat_append suffix_def append_take_drop_id drop_drop le_add_diff_inverse2)
      ultimately show False
        using None find_sub_None[of ?t] unfolding prefix_def suffix_def by (metis sublist_appendI)
    qed
    then show ?thesis
      using start None t by (simp add: String_find_def str_find_def drop_offset)
  next
    case (Some i)
    let ?s = "concat (drop b cps)"
    have pre: "prefix ?t (drop i ?s)" and fits: "i + length ?t \<le> length ?s"
      using find_sub_prefix[OF Some] find_sub_length[OF Some] .
    have i: "i < length ?s" using fits lead(1) by (cases ?t) auto
    then have "?s ! i = hd ?t"
      using pre lead(1) hd_drop_conv_nth[OF i] unfolding prefix_def by (metis hd_append2)
    then obtain n where n: "n < length (drop b cps)" "i = offset (drop b cps) n"
      using i lead_at_offset[of "drop b cps" i] lead(2) assms(1) by (auto simp: list_all_iff in_set_dropD)
    have "\<not> prefix ts (drop j cps)" if j: "b \<le> j" "j < b + n" for j
    proof -
      have "offset (drop b cps) (j - b) < i"
        unfolding n(2) using j n(1) cp by (intro offset_strict) (auto simp: list_all_iff in_set_dropD)
      then have "\<not> prefix ?t (drop (offset (drop b cps) (j - b)) ?s)" by (rule find_sub_least[OF Some])
      then show ?thesis using at[of j] j by (simp add: drop_offset)
    qed
    moreover have "prefix ts (drop (b + n) cps)"
      using pre at[of "b + n"] by (simp add: n(2) drop_offset add.commute)
    moreover have "String_find (concat cps) (int b) ?t = Some (int (b + n))"
      using start Some t n utf8_distance_offset[OF cp, of 0 "b + n"] offset_le[of cps b]
      by (simp add: String_find_def str_find_def drop_offset offset_add[symmetric] less_imp_le)
    ultimately show ?thesis by (intro disjI1 exI[of _ "b + n"]) auto
  qed
qed

lemma string_search_witness:
  "String_find (concat sample_text) 1 ''ig'' = Some 3"
proof -
  have "list_all utf8_char sample_text" "list_all utf8_char [''i'', ''g'']"
    by (simp_all add: sample_text_def utf8_char_def continuation_def code_point_def sequence_step_def byte_def)
  note search = string_search[OF this, of 1]
  have hit: "prefix [''i'', ''g''] (drop 3 sample_text)" by (simp add: sample_text_def)
  have only: "k = 3" if "prefix [''i'', ''g''] (drop k sample_text)" for k
    using that by (auto simp: sample_text_def prefix_def drop_Cons' split: if_splits)
  have "\<not> (\<forall>j \<ge> 1. \<not> prefix [''i'', ''g''] (drop j sample_text))"
    using hit by (intro notI) (drule spec[of _ 3], simp)
  moreover have "1 < length sample_text" by (simp add: sample_text_def)
  ultimately obtain k where "String_find (concat sample_text) 1 ''ig'' = Some (int k)"
      "prefix [''i'', ''g''] (drop k sample_text)"
    using search by auto
  then show ?thesis using only by simp
qed

end
