(* ===== verification/Executor.thy ===== *)
theory Executor
  imports Folding Arrays Structs Strings
begin

text \<open>
  The machine of \<^verbatim>\<open>pol-core/bscript/executor.cpp\<close>: variables, assignment, control
  flow and calls. A \<^verbatim>\<open>BObjectRef\<close> is an address of the store, so that a variable
  and the references to it on the value stack share one object; the objects are the values
  of \<open>Objects\<close>. An instruction that hands out a reference into a container
  (a subscript or a member that is read, an iterator) is not part of this machine, nor are
  calls of methods and of module functions.

  A step that C++ does not define is a \<open>fault\<close>. A C++ exception is caught by
  \<^verbatim>\<open>execInstr\<close>, which sets the error flag.
\<close>

section \<open>State\<close>

record program =
  instr :: "token list"
  symbols :: "string"
  dbg_ins_statementbegin :: "bool list"
  nglobals :: nat
  max_call_depth :: nat

datatype debug_state =
    DEBUG_STATE_NONE | DEBUG_STATE_ATTACHING | DEBUG_STATE_ATTACHED | DEBUG_STATE_INS_TRACE
  | DEBUG_STATE_INS_TRACE_BRK | DEBUG_STATE_RUN | DEBUG_STATE_BREAK_INTO | DEBUG_STATE_STEP_INTO
  | DEBUG_STATE_STEPPING_INTO | DEBUG_STATE_STEP_OVER | DEBUG_STATE_STEPPING_OVER

text \<open>\<open>bp_skip\<close> is \<open>None\<close> for the value \<^verbatim>\<open>~0u\<close>, which is no position.\<close>

record debugger =
  debugging :: bool
  debug_state :: debug_state
  breakpoints :: "nat list"
  tmpbreakpoints :: "nat list"
  bp_skip :: "nat option"

record return_context =
  ret_pc :: nat
  ValueStackDepth :: nat

text \<open>
  The top of \<open>ValueStack\<close>, \<open>upperLocals2\<close> and \<open>ControlStack\<close> is the head
  of the list. \<open>Locals2 = None\<close> is the null pointer.
\<close>

record executor =
  store :: "BObjectImp list"
  ValueStack :: "nat list"
  Locals2 :: "nat list option"
  upperLocals2 :: "nat list list"
  Globals2 :: "nat list"
  ControlStack :: "return_context list"
  PC :: nat
  error_flag :: bool
  halt_flag :: bool
  run_ok :: bool
  finished :: bool
  dbg :: debugger

datatype fault =
    Empty_Stack | No_Variable | Bad_Case_Data | Bad_Cast | Undefined_Value | Not_Modelled

type_synonym run = "fault + executor"

definition calcrunnable :: "executor \<Rightarrow> executor" where
  "calcrunnable s = s\<lparr>run_ok := \<not> error_flag s \<and> \<not> halt_flag s\<rparr>"

definition seterror :: "bool \<Rightarrow> executor \<Rightarrow> executor" where
  "seterror e s = calcrunnable (s\<lparr>error_flag := e\<rparr>)"

definition sethalt :: "bool \<Rightarrow> executor \<Rightarrow> executor" where
  "sethalt h s = calcrunnable (s\<lparr>halt_flag := h\<rparr>)"

definition deref :: "executor \<Rightarrow> nat \<Rightarrow> BObjectImp" where
  "deref s a = store s ! a"

definition setimp :: "nat \<Rightarrow> BObjectImp \<Rightarrow> executor \<Rightarrow> executor" where
  "setimp a v s = s\<lparr>store := (store s)[a := v]\<rparr>"

definition push_ref :: "nat \<Rightarrow> executor \<Rightarrow> executor" where
  "push_ref a s = s\<lparr>ValueStack := a # ValueStack s\<rparr>"

text \<open>\<^verbatim>\<open>new BObject( v )\<close> and a reference to it on the value stack.\<close>

definition new_obj :: "BObjectImp \<Rightarrow> executor \<Rightarrow> executor" where
  "new_obj v s = s\<lparr>store := store s @ [v]\<rparr>"

definition push_new :: "BObjectImp \<Rightarrow> executor \<Rightarrow> executor" where
  "push_new v s = push_ref (length (store s)) (new_obj v s)"

text \<open>\<^verbatim>\<open>ValueStack.back()\<close> and \<^verbatim>\<open>pop_back()\<close>, undefined on an empty stack.\<close>

definition pop :: "executor \<Rightarrow> (nat \<Rightarrow> executor \<Rightarrow> run) \<Rightarrow> run" where
  "pop s f =
     (case ValueStack s of [] \<Rightarrow> Inl Empty_Stack | a # vs \<Rightarrow> f a (s\<lparr>ValueStack := vs\<rparr>))"

text \<open>
  \<^verbatim>\<open>getObjRef\<close> reports an empty stack as an error and gives an uninitialised object.
\<close>

definition getObjRef :: "executor \<Rightarrow> nat \<times> executor" where
  "getObjRef s =
     (case ValueStack s of
        [] \<Rightarrow> (length (store s), new_obj UninitObject (seterror True s))
      | a # vs \<Rightarrow> (a, s\<lparr>ValueStack := vs\<rparr>))"

text \<open>A vector indexed with the \<^verbatim>\<open>int\<close> of a token.\<close>

definition var_at :: "nat list \<Rightarrow> int32 \<Rightarrow> (nat \<Rightarrow> run) \<Rightarrow> run" where
  "var_at xs i f =
     (if 0 \<le> sint i \<and> nat (sint i) < length xs then f (xs ! nat (sint i)) else Inl No_Variable)"

definition with_locals :: "executor \<Rightarrow> (nat list \<Rightarrow> run) \<Rightarrow> run" where
  "with_locals s f = (case Locals2 s of None \<Rightarrow> Inl No_Variable | Some ls \<Rightarrow> f ls)"

definition push_local :: "nat \<Rightarrow> executor \<Rightarrow> run" where
  "push_local a s = with_locals s (\<lambda>ls. Inr (s\<lparr>Locals2 := Some (ls @ [a])\<rparr>))"

section \<open>Constants, variables and operators\<close>

definition ins_localvar :: "int32 \<Rightarrow> executor \<Rightarrow> run" where
  "ins_localvar lval s = with_locals s (\<lambda>ls. var_at ls lval (\<lambda>a. Inr (push_ref a s)))"

definition ins_globalvar :: "int32 \<Rightarrow> executor \<Rightarrow> run" where
  "ins_globalvar lval s = var_at (Globals2 s) lval (\<lambda>a. Inr (push_ref a s))"

definition ins_ident :: "executor \<Rightarrow> run" where
  "ins_ident s = Inr (push_new (mk_error ''Please recompile this script'') s)"

definition ins_consume :: "executor \<Rightarrow> run" where
  "ins_consume s = pop s (\<lambda>_ s1. Inr s1)"

text \<open>
  An instruction of \<open>Instructions\<close> on the two topmost objects; its result is a new object.
\<close>

definition on_two :: "(stack \<Rightarrow> stack option) \<Rightarrow> executor \<Rightarrow> run" where
  "on_two f s =
     pop s (\<lambda>right s1. pop s1 (\<lambda>left s2.
       case f [deref s right, deref s left] of
         Some (v # _) \<Rightarrow> Inr (push_new v s2)
       | _ \<Rightarrow> Inl Undefined_Value))"

definition on_one :: "(BObjectImp \<Rightarrow> BObjectImp) \<Rightarrow> executor \<Rightarrow> run" where
  "on_one f s = (let (a, s1) = getObjRef s in Inr (push_new (f (deref s1 a)) s1))"

text \<open>\<^verbatim>\<open>contains\<close>: only arrays override it.\<close>

definition contains :: "BObjectImp \<Rightarrow> BObjectImp \<Rightarrow> nat option" where
  "contains container v =
     (case container of ObjArray _ es \<Rightarrow> ObjArray_contains es v 0 | _ \<Rightarrow> Some 0)"

definition ins_in :: "executor \<Rightarrow> run" where
  "ins_in s =
     pop s (\<lambda>right s1. pop s1 (\<lambda>left s2.
       case contains (deref s right) (deref s left) of
         Some n \<Rightarrow> Inr (push_new (BLong (word_of_nat n)) s2)
       | None \<Rightarrow> Inl Undefined_Value))"

section \<open>Assignment\<close>

definition ins_assign :: "executor \<Rightarrow> run" where
  "ins_assign s =
     pop s (\<lambda>right s1. pop s1 (\<lambda>left _. Inr (setimp left (deref s right) s1)))"

definition ins_assign_consume :: "executor \<Rightarrow> run" where
  "ins_assign_consume s =
     pop s (\<lambda>right s1. pop s1 (\<lambda>left s2. Inr (setimp left (deref s right) s2)))"

definition ins_assign_localvar :: "int32 \<Rightarrow> executor \<Rightarrow> run" where
  "ins_assign_localvar lval s =
     with_locals s (\<lambda>ls. var_at ls lval (\<lambda>lvar.
       pop s (\<lambda>right s1. Inr (setimp lvar (deref s right) s1))))"

definition ins_assign_globalvar :: "int32 \<Rightarrow> executor \<Rightarrow> run" where
  "ins_assign_globalvar lval s =
     var_at (Globals2 s) lval (\<lambda>gvar.
       pop s (\<lambda>right s1. Inr (setimp gvar (deref s right) s1)))"

text \<open>
  A compound assignment changes the left object. Adding an array to itself grows the vector
  that is being read.
\<close>

definition compound :: "(BObjectImp \<Rightarrow> BObjectImp \<Rightarrow> BObjectImp option) \<Rightarrow> executor \<Rightarrow> run" where
  "compound f s =
     pop s (\<lambda>right s1. pop s1 (\<lambda>left _.
       if left = right \<and> isa (deref s left) OTArray then Inl Undefined_Value
       else case f (deref s left) (deref s right) of
              Some v \<Rightarrow> Inr (setimp left v s1)
            | None \<Rightarrow> Inl Undefined_Value))"

definition ins_unplusplus :: "(BObjectImp \<Rightarrow> BObjectImp) \<Rightarrow> executor \<Rightarrow> run" where
  "ins_unplusplus f s = pop s (\<lambda>a _. Inr (setimp a (f (deref s a)) s))"

text \<open>The postfix forms leave a copy of the old value.\<close>

definition ins_unplusplus_post :: "(BObjectImp \<Rightarrow> BObjectImp) \<Rightarrow> executor \<Rightarrow> run" where
  "ins_unplusplus_post f s =
     pop s (\<lambda>a s1. Inr (push_new (deref s a) (setimp a (f (deref s a)) s1)))"

section \<open>Assignment into containers\<close>

text \<open>
  \<^verbatim>\<open>array_assign\<close> of every class: the changed object, \<open>Inl\<close> for an exception.
\<close>

definition array_assign :: "BObjectImp \<Rightarrow> BObjectImp \<Rightarrow> BObjectImp \<Rightarrow> (string + BObjectImp) option" where
  "array_assign x idx target =
     (case x of
        ObjArray ns es \<Rightarrow> Some (Inr (ObjArray ns (fst (ObjArray_array_assign es idx target))))
      | BString s \<Rightarrow> map_option (\<lambda>(s', _). Inr (BString s')) (String_array_assign s idx target)
      | BStruct c \<Rightarrow> Some (map_sum id (\<lambda>(c', _). BStruct c') (BStruct_array_assign c idx target))
      | BDictionary m \<Rightarrow> Some (Inr (BDictionary (fst (BDictionary_array_assign m idx target))))
      | BError c \<Rightarrow> Some (Inr (BError (fst (BError_array_assign c idx target))))
      | _ \<Rightarrow> Some (Inr x))"

definition ins_array_assign_consume :: "executor \<Rightarrow> run" where
  "ins_array_assign_consume s =
     pop s (\<lambda>y s1. pop s1 (\<lambda>i s2. pop s2 (\<lambda>x s3.
       case array_assign (deref s x) (deref s i) (deref s y) of
         None \<Rightarrow> Inl Undefined_Value
       | Some (Inl _) \<Rightarrow> Inr (seterror True s2)
       | Some (Inr x') \<Rightarrow> Inr (setimp x x' s3))))"

definition set_member :: "BObjectImp \<Rightarrow> string \<Rightarrow> BObjectImp \<Rightarrow> BObjectImp option" where
  "set_member left membername imp =
     (case left of
        ObjArray ns es \<Rightarrow>
          map_option (\<lambda>(es', _). ObjArray ns es') (ObjArray_set_member ns es membername imp)
      | BStruct c \<Rightarrow> Some (BStruct (fst (BStruct_set_member c membername imp)))
      | BError c \<Rightarrow> Some (BError (fst (BStruct_set_member c membername imp)))
      | BDictionary m \<Rightarrow> Some (BDictionary (fst (BDictionary_set_member m membername imp)))
      | _ \<Rightarrow> Some left)"

text \<open>The container stays on the stack, not the value.\<close>

definition ins_set_member :: "string \<Rightarrow> executor \<Rightarrow> run" where
  "ins_set_member name s =
     pop s (\<lambda>right s1. pop s1 (\<lambda>left _.
       case set_member (deref s left) name (deref s right) of
         Some v \<Rightarrow> Inr (setimp left v s1)
       | None \<Rightarrow> Inl Undefined_Value))"

definition ins_set_member_consume :: "string \<Rightarrow> executor \<Rightarrow> run" where
  "ins_set_member_consume name s =
     pop s (\<lambda>right s1. pop s1 (\<lambda>left s2.
       case set_member (deref s left) name (deref s right) of
         Some v \<Rightarrow> Inr (setimp left v s2)
       | None \<Rightarrow> Inl Undefined_Value))"

text \<open>
  \<^verbatim>\<open>operDotPlus\<close>: the changed object, and whether a member was added.
\<close>

definition operDotPlus :: "BObjectImp \<Rightarrow> string \<Rightarrow> BObjectImp \<times> bool" where
  "operDotPlus left name =
     (case left of
        ObjArray ns es \<Rightarrow>
          (case ObjArray_operDotPlus ns es name of ((ns', es'), r) \<Rightarrow> (ObjArray ns' es', \<not> isa r OTError))
      | BStruct c \<Rightarrow> (case BStruct_operDotPlus c name of (c', r) \<Rightarrow> (BStruct c', \<not> isa r OTError))
      | BError c \<Rightarrow> (case BStruct_operDotPlus c name of (c', r) \<Rightarrow> (BError c', \<not> isa r OTError))
      | BDictionary m \<Rightarrow>
          (case BDictionary_operDotPlus m name of (m', r) \<Rightarrow> (BDictionary m', \<not> isa r OTError))
      | _ \<Rightarrow> (left, False))"

text \<open>\<^verbatim>\<open>mem.setimp\<close> on the object of the member just added.\<close>

definition assign_added :: "BObjectImp \<Rightarrow> string \<Rightarrow> BObjectImp \<Rightarrow> BObjectImp" where
  "assign_added left name v =
     (case left of
        ObjArray ns es \<Rightarrow> ObjArray ns (es[length es - 1 := Some v])
      | BStruct c \<Rightarrow> BStruct (omap_set ci_less (c_str name) v c)
      | BError c \<Rightarrow> BError (omap_set ci_less (c_str name) v c)
      | BDictionary m \<Rightarrow> BDictionary (omap_set dict_less (BString (c_str name)) v m)
      | _ \<Rightarrow> left)"

definition ins_addmember2 :: "string \<Rightarrow> executor \<Rightarrow> run" where
  "ins_addmember2 name s = pop s (\<lambda>ob _. Inr (setimp ob (fst (operDotPlus (deref s ob) name)) s))"

text \<open>The value is copied after the member was added.\<close>

definition ins_addmember_assign :: "string \<Rightarrow> executor \<Rightarrow> run" where
  "ins_addmember_assign name s =
     pop s (\<lambda>val s1. pop s1 (\<lambda>ob _.
       case operDotPlus (deref s ob) name of
         (left, added) \<Rightarrow>
           Inr (setimp ob
             (if added then assign_added left name (if val = ob then left else deref s val) else left) s1)))"

text \<open>A key that is no string or number would be ordered by its address.\<close>

definition ins_dictionary_addmember :: "executor \<Rightarrow> run" where
  "ins_dictionary_addmember s =
     pop s (\<lambda>val s1. pop s1 (\<lambda>key s2. pop s2 (\<lambda>dict _.
       case deref s dict of
         BDictionary m \<Rightarrow>
           if key_type (deref s key)
           then Inr (setimp dict (BDictionary (BDictionary_addMember m (deref s key) (deref s val))) s2)
           else Inl Undefined_Value
       | _ \<Rightarrow> Inl Bad_Cast)))"

definition operInsertInto :: "BObjectImp \<Rightarrow> BObjectImp \<Rightarrow> BObjectImp" where
  "operInsertInto left right =
     (case left of
        ObjArray ns es \<Rightarrow> ObjArray ns (es @ [Some right])
      | _ \<Rightarrow> mk_error (''Object is not a '' @ [CHR 0x27] @ ''container'' @ [CHR 0x27]))"

definition ins_insert_into :: "executor \<Rightarrow> run" where
  "ins_insert_into s =
     pop s (\<lambda>right s1. pop s1 (\<lambda>left _.
       Inr (setimp left (operInsertInto (deref s left) (deref s right)) s1)))"

definition operDotMinus :: "BObjectImp \<Rightarrow> string \<Rightarrow> BObjectImp \<times> BObjectImp" where
  "operDotMinus left name =
     (case left of
        BStruct c \<Rightarrow> map_prod BStruct id (BStruct_operDotMinus c name)
      | BError c \<Rightarrow> map_prod BError id (BStruct_operDotMinus c name)
      | _ \<Rightarrow> (left, mk_error ''Operator .- undefined''))"

definition operDotQMark :: "BObjectImp \<Rightarrow> string \<Rightarrow> BObjectImp" where
  "operDotQMark left name =
     (case left of
        BStruct c \<Rightarrow> BStruct_operDotQMark c name
      | BError c \<Rightarrow> BStruct_operDotQMark c name
      | _ \<Rightarrow> mk_error ''Operator .? undefined'')"

definition ins_removemember :: "executor \<Rightarrow> run" where
  "ins_removemember s =
     pop s (\<lambda>right s1. pop s1 (\<lambda>left s2.
       case deref s right of
         BString varname \<Rightarrow>
           (case operDotMinus (deref s left) varname of
              (left', r) \<Rightarrow> Inr (push_new r (setimp left left' s2)))
       | _ \<Rightarrow> Inr (push_new (deref s left) s2)))"

definition ins_checkmember :: "executor \<Rightarrow> run" where
  "ins_checkmember s =
     pop s (\<lambda>right s1. pop s1 (\<lambda>left s2.
       case deref s right of
         BString varname \<Rightarrow> Inr (push_new (operDotQMark (deref s left) varname) s2)
       | _ \<Rightarrow> Inr (push_new (deref s left) s2)))"

section \<open>Jumps\<close>

definition ins_jmpiftrue :: "int32 \<Rightarrow> executor \<Rightarrow> run" where
  "ins_jmpiftrue lval s =
     pop s (\<lambda>a s1. Inr (if isTrue (deref s a) then s1\<lparr>PC := unat lval\<rparr> else s1))"

definition ins_jmpiffalse :: "int32 \<Rightarrow> executor \<Rightarrow> run" where
  "ins_jmpiffalse lval s =
     pop s (\<lambda>a s1. Inr (if \<not> isTrue (deref s a) then s1\<lparr>PC := unat lval\<rparr> else s1))"

definition ins_goto :: "int32 \<Rightarrow> executor \<Rightarrow> run" where
  "ins_goto lval s = Inr (s\<lparr>PC := unat lval\<rparr>)"

text \<open>
  A case block is a sequence of entries: the offset to jump to in two bytes, a type byte, and
  the four bytes of an integer or as many characters as the type byte says. The entry of the
  default ends it. The result is \<open>None\<close> when the search leaves the data.
\<close>

definition CASE_TYPE_LONG :: nat where
  "CASE_TYPE_LONG = 255"

definition CASE_TYPE_DEFAULT :: nat where
  "CASE_TYPE_DEFAULT = 254"

definition le_bytes :: "nat \<Rightarrow> nat \<Rightarrow> string" where
  "le_bytes n v = map (\<lambda>i. char_of (v div 256 ^ i mod 256)) [0..<n]"

definition case_offset :: "char \<Rightarrow> char \<Rightarrow> nat" where
  "case_offset lo hi = byte lo + 256 * byte hi"

function (sequential) ins_casejmp_findlong :: "string \<Rightarrow> int32 \<Rightarrow> nat option" where
  "ins_casejmp_findlong (lo # hi # type # data) v =
     (if byte type = CASE_TYPE_LONG then
        if length data < 4 then None
        else if take 4 data = le_bytes 4 (unat v) then Some (case_offset lo hi)
        else ins_casejmp_findlong (drop 4 data) v
      else if byte type = CASE_TYPE_DEFAULT then Some (case_offset lo hi)
      else ins_casejmp_findlong (drop (byte type) data) v)"
| "ins_casejmp_findlong _ v = None"
  by pat_completeness auto
termination
  by (relation "measure (length \<circ> fst)") auto

function (sequential) ins_casejmp_findstring :: "string \<Rightarrow> string \<Rightarrow> nat option" where
  "ins_casejmp_findstring (lo # hi # type # data) bstring =
     (if byte type = CASE_TYPE_LONG then ins_casejmp_findstring (drop 4 data) bstring
      else if byte type = CASE_TYPE_DEFAULT then Some (case_offset lo hi)
      else if length bstring = byte type \<and> length data < byte type then None
      else if length bstring = byte type \<and> take (byte type) data = bstring then Some (case_offset lo hi)
      else ins_casejmp_findstring (drop (byte type) data) bstring)"
| "ins_casejmp_findstring _ bstring = None"
  by pat_completeness auto
termination
  by (relation "measure (length \<circ> fst)") auto

function (sequential) ins_casejmp_finddefault :: "string \<Rightarrow> nat option" where
  "ins_casejmp_finddefault (lo # hi # type # data) =
     (if byte type = CASE_TYPE_LONG then ins_casejmp_finddefault (drop 4 data)
      else if byte type = CASE_TYPE_DEFAULT then Some (case_offset lo hi)
      else ins_casejmp_finddefault (drop (byte type) data))"
| "ins_casejmp_finddefault _ = None"
  by pat_completeness auto
termination
  by (relation "measure length") auto

definition ins_casejmp :: "string \<Rightarrow> executor \<Rightarrow> run" where
  "ins_casejmp dataptr s =
     pop s (\<lambda>a s1.
       case (case deref s a of
               BLong v \<Rightarrow> ins_casejmp_findlong dataptr v
             | BString bstring \<Rightarrow> ins_casejmp_findstring dataptr bstring
             | _ \<Rightarrow> ins_casejmp_finddefault dataptr) of
         Some dest \<Rightarrow> Inr (s1\<lparr>PC := dest\<rparr>)
       | None \<Rightarrow> Inl Bad_Case_Data)"

text \<open>
  Both bounds of a \<^verbatim>\<open>for\<close> loop are on the stack. The loop is left out when the
  start is above the end; otherwise the iterator and the end become local variables.
\<close>

definition ins_initfor :: "int32 \<Rightarrow> executor \<Rightarrow> run" where
  "ins_initfor lval s =
     (let (endref, s1) = getObjRef s; (startref, s2) = getObjRef s1
      in case bobj_gt (deref s2 startref) (deref s2 endref) of
           None \<Rightarrow> Inl Undefined_Value
         | Some True \<Rightarrow> Inr (s2\<lparr>PC := unat lval\<rparr>)
         | Some False \<Rightarrow>
             with_locals s2 (\<lambda>ls.
               let a = length (store s2)
               in Inr (s2\<lparr>store := store s2 @ [deref s2 startref, deref s2 endref],
                          Locals2 := Some (ls @ [a, a + 1])\<rparr>)))"

definition ins_nextfor :: "int32 \<Rightarrow> executor \<Rightarrow> run" where
  "ins_nextfor lval s =
     with_locals s (\<lambda>ls.
       if length ls < 2 then Inl No_Variable
       else let itr = ls ! (length ls - 2); end' = ls ! (length ls - 1);
                s1 = setimp itr (selfPlusPlus (deref s itr)) s
            in case bobj_ge (deref s1 end') (deref s1 itr) of
                 None \<Rightarrow> Inl Undefined_Value
               | Some True \<Rightarrow> Inr (s1\<lparr>PC := unat lval\<rparr>)
               | Some False \<Rightarrow> Inr s1)"

section \<open>Blocks and calls\<close>

text \<open>\<^verbatim>\<open>RSV_LOCAL\<close>: a new local variable, left on the stack for its initialisation.\<close>

definition ins_makeLocal :: "executor \<Rightarrow> run" where
  "ins_makeLocal s =
     with_locals s (\<lambda>ls.
       let a = length (store s)
       in Inr (push_ref a ((new_obj UninitObject s)\<lparr>Locals2 := Some (ls @ [a])\<rparr>)))"

definition ins_declareArray :: "executor \<Rightarrow> run" where
  "ins_declareArray s =
     (let (a, s1) = getObjRef s
      in if \<not> isa (deref s1 a) OTUninit then Inr (seterror True s1)
         else Inr (push_ref a (setimp a (ObjArray [] []) s1)))"

text \<open>A parameter passed by value is a copy, one passed by reference the same object.\<close>

definition ins_pop_param :: "executor \<Rightarrow> run" where
  "ins_pop_param s =
     (let (a, s1) = getObjRef s
      in push_local (length (store s1)) (new_obj (deref s1 a) s1))"

definition ins_pop_param_byref :: "executor \<Rightarrow> run" where
  "ins_pop_param_byref s = (let (a, s1) = getObjRef s in push_local a s1)"

definition ins_get_arg :: "executor \<Rightarrow> run" where
  "ins_get_arg s =
     (case ValueStack s of
        [] \<Rightarrow> push_local (length (store s)) (new_obj UninitObject s)
      | _ # _ \<Rightarrow> ins_pop_param s)"

text \<open>The variables of the current function are saved and a new frame begins.\<close>

definition ins_makelocal :: "executor \<Rightarrow> executor" where
  "ins_makelocal s =
     s\<lparr>upperLocals2 := (case Locals2 s of Some ls \<Rightarrow> ls # upperLocals2 s | None \<Rightarrow> upperLocals2 s),
       Locals2 := Some []\<rparr>"

definition ins_jsr_userfunc :: "nat \<Rightarrow> int32 \<Rightarrow> executor \<Rightarrow> executor" where
  "ins_jsr_userfunc max_depth lval s =
     (let rc = \<lparr>ret_pc = PC s, ValueStackDepth = length (ValueStack s)\<rparr>;
          s1 = s\<lparr>ControlStack := rc # ControlStack s, PC := unat lval\<rparr>
      in if length (ControlStack s1) \<ge> max_depth
         then seterror True (s1\<lparr>ControlStack := []\<rparr>) else s1)"

definition ins_gosub :: "int32 \<Rightarrow> executor \<Rightarrow> executor" where
  "ins_gosub lval s =
     (let rc = \<lparr>ret_pc = PC s, ValueStackDepth = length (ValueStack s)\<rparr>
      in (ins_makelocal (s\<lparr>ControlStack := rc # ControlStack s\<rparr>))\<lparr>PC := unat lval\<rparr>)"

definition ins_return :: "executor \<Rightarrow> executor" where
  "ins_return s =
     (case ControlStack s of
        [] \<Rightarrow> seterror True s
      | rc # cs \<Rightarrow>
          (let s1 = s\<lparr>PC := ret_pc rc, ControlStack := cs, Locals2 := None\<rparr>
           in case upperLocals2 s of
                [] \<Rightarrow> s1
              | ls # us \<Rightarrow> s1\<lparr>Locals2 := Some ls, upperLocals2 := us\<rparr>))"

text \<open>\<^verbatim>\<open>pop_back\<close> as often as the token says.\<close>

definition pop_back_times :: "int32 \<Rightarrow> nat list \<Rightarrow> (nat list \<Rightarrow> run) \<Rightarrow> run" where
  "pop_back_times lval xs f =
     (let n = nat (sint lval)
      in if length xs < n then Inl No_Variable else f (take (length xs - n) xs))"

definition ins_leave_block :: "int32 \<Rightarrow> executor \<Rightarrow> run" where
  "ins_leave_block lval s =
     (case Locals2 s of
        Some ls \<Rightarrow> pop_back_times lval ls (\<lambda>ls'. Inr (s\<lparr>Locals2 := Some ls'\<rparr>))
      | None \<Rightarrow> pop_back_times lval (Globals2 s) (\<lambda>gs. Inr (s\<lparr>Globals2 := gs\<rparr>)))"

definition ins_progend :: "executor \<Rightarrow> executor" where
  "ins_progend s = s\<lparr>finished := True, run_ok := False, PC := 0\<rparr>"

definition ins_exit :: "executor \<Rightarrow> executor" where
  "ins_exit s = s\<lparr>finished := True, run_ok := False\<rparr>"

section \<open>The machine\<close>

text \<open>
  \<^verbatim>\<open>GetInstrFunc\<close>: the instruction of a token. The data of a case block stands in the
  symbol store at the offset of the token.
\<close>

definition exec_other :: "program \<Rightarrow> token \<Rightarrow> other_id \<Rightarrow> executor \<Rightarrow> run" where
  "exec_other P t i s =
     (case i of
        RSV_JMPIFTRUE \<Rightarrow> ins_jmpiftrue (tlval t) s
      | RSV_JMPIFFALSE \<Rightarrow> ins_jmpiffalse (tlval t) s
      | RSV_GOTO \<Rightarrow> ins_goto (tlval t) s
      | RSV_GOSUB \<Rightarrow> Inr (ins_gosub (tlval t) s)
      | RSV_RETURN \<Rightarrow> Inr (ins_return s)
      | RSV_EXIT \<Rightarrow> Inr (ins_exit s)
      | RSV_LOCAL \<Rightarrow> ins_makeLocal s
      | RSV_GLOBAL \<Rightarrow> ins_globalvar (tlval t) s
      | INS_INITFOR \<Rightarrow> ins_initfor (tlval t) s
      | INS_NEXTFOR \<Rightarrow> ins_nextfor (tlval t) s
      | INS_CASEJMP \<Rightarrow> ins_casejmp (drop (unat (tlval t)) (symbols P)) s
      | INS_DECLARE_ARRAY \<Rightarrow> ins_declareArray s
      | INS_POP_PARAM \<Rightarrow> ins_pop_param s
      | INS_POP_PARAM_BYREF \<Rightarrow> ins_pop_param_byref s
      | INS_GET_ARG \<Rightarrow> ins_get_arg s
      | CTRL_LEAVE_BLOCK \<Rightarrow> ins_leave_block (tlval t) s
      | CTRL_PROGEND \<Rightarrow> Inr (ins_progend s)
      | CTRL_STATEMENTBEGIN \<Rightarrow> Inr s
      | TOK_ERROR \<Rightarrow> Inr (push_new (BError []) s)
      | TOK_STRUCT \<Rightarrow> Inr (push_new (BStruct []) s)
      | TOK_ARRAY \<Rightarrow> Inr (push_new (ObjArray [] []) s)
      | TOK_DICTIONARY \<Rightarrow> Inr (push_new (BDictionary []) s)
      | TOK_IDENT \<Rightarrow> ins_ident s
      | INS_UNINIT \<Rightarrow> Inr (push_new UninitObject s)
      | TOK_IN \<Rightarrow> ins_in s
      | TOK_INSERTINTO \<Rightarrow> ins_insert_into s
      | TOK_DELMEMBER \<Rightarrow> ins_removemember s
      | TOK_CHKMEMBER \<Rightarrow> ins_checkmember s
      | Unnamed _ \<Rightarrow> Inl Not_Modelled)"

definition exec_ins :: "program \<Rightarrow> token \<Rightarrow> executor \<Rightarrow> run" where
  "exec_ins P t s =
     (case tid t of
        TOK_OTHER i \<Rightarrow> exec_other P t i s
      | TOK_LOCALVAR \<Rightarrow> ins_localvar (tlval t) s
      | TOK_GLOBALVAR \<Rightarrow> ins_globalvar (tlval t) s
      | TOK_LONG \<Rightarrow> Inr (push_new (BLong (tlval t)) s)
      | TOK_DOUBLE \<Rightarrow> Inr (push_new (BDouble (tdval t)) s)
      | TOK_STRING \<Rightarrow> Inr (push_new (BString (c_str (tokval t))) s)
      | TOK_UNPLUS \<Rightarrow> Inr s
      | TOK_UNMINUS \<Rightarrow> on_one inverse s
      | TOK_LOG_NOT \<Rightarrow> on_one (\<lambda>v. int_bool (\<not> isTrue v)) s
      | TOK_BITWISE_NOT \<Rightarrow> on_one bitnot s
      | TOK_CONSUMER \<Rightarrow> ins_consume s
      | TOK_ASSIGN \<Rightarrow> ins_assign s
      | INS_ASSIGN_CONSUME \<Rightarrow> ins_assign_consume s
      | INS_ASSIGN_LOCALVAR \<Rightarrow> ins_assign_localvar (tlval t) s
      | INS_ASSIGN_GLOBALVAR \<Rightarrow> ins_assign_globalvar (tlval t) s
      | INS_SUBSCRIPT_ASSIGN_CONSUME \<Rightarrow> ins_array_assign_consume s
      | INS_SET_MEMBER \<Rightarrow> ins_set_member (tokval t) s
      | INS_SET_MEMBER_CONSUME \<Rightarrow> ins_set_member_consume (tokval t) s
      | INS_ADDMEMBER2 \<Rightarrow> ins_addmember2 (tokval t) s
      | INS_ADDMEMBER_ASSIGN \<Rightarrow> ins_addmember_assign (tokval t) s
      | INS_DICTIONARY_ADDMEMBER \<Rightarrow> ins_dictionary_addmember s
      | TOK_PLUSEQUAL \<Rightarrow> compound (\<lambda>l r. Some (operPlusEqual l r)) s
      | TOK_MINUSEQUAL \<Rightarrow> compound (\<lambda>l r. Some (operMinusEqual l r)) s
      | TOK_TIMESEQUAL \<Rightarrow> compound (\<lambda>l r. Some (operTimesEqual l r)) s
      | TOK_DIVIDEEQUAL \<Rightarrow> compound operDivideEqual s
      | TOK_MODULUSEQUAL \<Rightarrow> compound operModulusEqual s
      | TOK_UNPLUSPLUS \<Rightarrow> ins_unplusplus selfPlusPlus s
      | TOK_UNMINUSMINUS \<Rightarrow> ins_unplusplus selfMinusMinus s
      | TOK_UNPLUSPLUS_POST \<Rightarrow> ins_unplusplus_post selfPlusPlus s
      | TOK_UNMINUSMINUS_POST \<Rightarrow> ins_unplusplus_post selfMinusMinus s
      | CTRL_MAKELOCAL \<Rightarrow> Inr (ins_makelocal s)
      | CTRL_JSR_USERFUNC \<Rightarrow> Inr (ins_jsr_userfunc (max_call_depth P) (tlval t) s)
      | _ \<Rightarrow> (case stack_instr t of Some f \<Rightarrow> on_two f s | None \<Rightarrow> Inl Not_Modelled))"

text \<open>
  What an attached debugger does before an instruction: \<open>Inl\<close> when \<^verbatim>\<open>execInstr\<close>
  returns without executing it. A step over the statement sets a temporary breakpoint at the
  next instruction that begins a statement.
\<close>

definition set_state :: "debug_state \<Rightarrow> executor \<Rightarrow> executor" where
  "set_state d s = s\<lparr>dbg := (dbg s)\<lparr>debug_state := d\<rparr>\<rparr>"

definition statement_begin :: "program \<Rightarrow> nat \<Rightarrow> bool" where
  "statement_begin P pc \<longleftrightarrow>
     pc < length (dbg_ins_statementbegin P) \<and> dbg_ins_statementbegin P ! pc"

definition next_statement :: "program \<Rightarrow> nat \<Rightarrow> nat option" where
  "next_statement P pc =
     find (statement_begin P) [pc + 1..<length (dbg_ins_statementbegin P)]"

definition insert_tmp :: "nat \<Rightarrow> executor \<Rightarrow> executor" where
  "insert_tmp pc s = s\<lparr>dbg := (dbg s)\<lparr>tmpbreakpoints := List.insert pc (tmpbreakpoints (dbg s))\<rparr>\<rparr>"

definition debug_prepare :: "program \<Rightarrow> executor \<Rightarrow> executor" where
  "debug_prepare P s =
     (case debug_state (dbg s) of
        DEBUG_STATE_INS_TRACE \<Rightarrow> sethalt True (set_state DEBUG_STATE_ATTACHED s)
      | DEBUG_STATE_STEP_INTO \<Rightarrow> set_state DEBUG_STATE_STEPPING_INTO s
      | DEBUG_STATE_STEPPING_INTO \<Rightarrow> if statement_begin P (PC s) then insert_tmp (PC s) s else s
      | DEBUG_STATE_STEP_OVER \<Rightarrow>
          (case next_statement P (PC s) of
             Some breakPC \<Rightarrow> set_state DEBUG_STATE_RUN (insert_tmp breakPC s)
           | None \<Rightarrow> s)
      | _ \<Rightarrow> s)"

definition debug_check :: "program \<Rightarrow> executor \<Rightarrow> executor + executor" where
  "debug_check P s =
     (if \<not> debugging (dbg s) then Inr s
      else if debug_state (dbg s) = DEBUG_STATE_ATTACHING \<or> debug_state (dbg s) = DEBUG_STATE_BREAK_INTO
      then Inl (sethalt True (set_state DEBUG_STATE_ATTACHED s))
      else let s1 = debug_prepare P s; d = dbg s1
           in if (PC s \<in> set (breakpoints d) \<or> PC s \<in> set (tmpbreakpoints d)) \<and>
                bp_skip d \<noteq> Some (PC s) \<and> \<not> halt_flag s1
              then Inl (sethalt True (s1\<lparr>dbg := d\<lparr>tmpbreakpoints := removeAll (PC s) (tmpbreakpoints d),
                     bp_skip := Some (PC s), debug_state := DEBUG_STATE_ATTACHED\<rparr>\<rparr>))
              else Inr (s1\<lparr>dbg := d\<lparr>bp_skip := None\<rparr>\<rparr>))"

text \<open>The commands of the debugger.\<close>

datatype debug_command =
    attach_debugger | detach_debugger | dbg_ins_trace | dbg_step_into | dbg_step_over | dbg_run
  | dbg_break | dbg_setbp nat | dbg_clrbp nat | dbg_clrallbp

definition debug_command :: "debug_command \<Rightarrow> executor \<Rightarrow> executor" where
  "debug_command c s =
     (case c of
        attach_debugger \<Rightarrow>
          s\<lparr>dbg := (dbg s)\<lparr>debugging := True, debug_state := DEBUG_STATE_ATTACHING\<rparr>\<rparr>
      | detach_debugger \<Rightarrow>
          sethalt False (s\<lparr>dbg := (dbg s)\<lparr>debugging := False, debug_state := DEBUG_STATE_NONE\<rparr>\<rparr>)
      | dbg_ins_trace \<Rightarrow> sethalt False (set_state DEBUG_STATE_INS_TRACE s)
      | dbg_step_into \<Rightarrow> sethalt False (set_state DEBUG_STATE_STEP_INTO s)
      | dbg_step_over \<Rightarrow> sethalt False (set_state DEBUG_STATE_STEP_OVER s)
      | dbg_run \<Rightarrow> sethalt False (set_state DEBUG_STATE_RUN s)
      | dbg_break \<Rightarrow> set_state DEBUG_STATE_BREAK_INTO s
      | dbg_setbp atPC \<Rightarrow> s\<lparr>dbg := (dbg s)\<lparr>breakpoints := List.insert atPC (breakpoints (dbg s))\<rparr>\<rparr>
      | dbg_clrbp atPC \<Rightarrow> s\<lparr>dbg := (dbg s)\<lparr>breakpoints := removeAll atPC (breakpoints (dbg s))\<rparr>\<rparr>
      | dbg_clrallbp \<Rightarrow> s\<lparr>dbg := (dbg s)\<lparr>breakpoints := []\<rparr>\<rparr>)"

text \<open>
  The assertions of \<^verbatim>\<open>execInstr\<close> raise an exception, which it catches itself.
\<close>

definition execInstr :: "program \<Rightarrow> executor \<Rightarrow> run" where
  "execInstr P s =
     (if run_ok s \<and> PC s < length (instr P) \<and> \<not> error_flag s \<and> \<not> finished s
      then (case debug_check P s of
              Inl s1 \<Rightarrow> Inr s1
            | Inr s1 \<Rightarrow> exec_ins P (instr P ! PC s) (s1\<lparr>PC := PC s + 1\<rparr>))
      else Inr (seterror True s))"

text \<open>
  \<^verbatim>\<open>exec\<close> runs while the executor is runnable; \<open>exec_steps n\<close> does at most
  \<open>n\<close> instructions of it.
\<close>

fun exec_steps :: "nat \<Rightarrow> program \<Rightarrow> executor \<Rightarrow> run" where
  "exec_steps 0 P s = Inr s"
| "exec_steps (Suc n) P s =
     (if run_ok s then (case execInstr P s of Inl f \<Rightarrow> Inl f | Inr s' \<Rightarrow> exec_steps n P s') else Inr s)"

text \<open>A step of the loop, or a command of the debugger at any time.\<close>

inductive step :: "program \<Rightarrow> executor \<Rightarrow> executor \<Rightarrow> bool" for P where
  Run: "run_ok s \<Longrightarrow> execInstr P s = Inr s' \<Longrightarrow> step P s s'"
| Debug: "step P s (debug_command c s)"

inductive_simps step_iff: "step P s s'"

text \<open>\<^verbatim>\<open>setProgram\<close> on a new executor.\<close>

definition init_executor :: "program \<Rightarrow> executor" where
  "init_executor P =
     calcrunnable
       \<lparr>store = replicate (nglobals P) UninitObject, ValueStack = [], Locals2 = Some [],
        upperLocals2 = [], Globals2 = [0..<nglobals P], ControlStack = [], PC = 0,
        error_flag = False, halt_flag = False, run_ok = False, finished = False,
        dbg = \<lparr>debugging = False, debug_state = DEBUG_STATE_NONE, breakpoints = [],
          tmpbreakpoints = [], bp_skip = None\<rparr>\<rparr>"

text \<open>\<^verbatim>\<open>initForFnCall\<close>: to run a function of the script from its entry.\<close>

definition initForFnCall :: "nat \<Rightarrow> executor \<Rightarrow> run" where
  "initForFnCall in_PC s =
     with_locals s (\<lambda>_.
       Inr ((seterror False (s\<lparr>PC := in_PC, finished := False\<rparr>))\<lparr>ValueStack := [], Locals2 := Some []\<rparr>))"

end
