(* ===== verification/Scheduler.thy ===== *)
theory Scheduler
  imports Executor
begin

text \<open>
  The script scheduler: \<^verbatim>\<open>pol-core/pol/globals/script_internals.cpp\<close> (the lists of
  \<^verbatim>\<open>ScriptScheduler\<close> and its \<^verbatim>\<open>run_ready\<close>), \<^verbatim>\<open>pol/scrsched.cpp\<close>
  (\<^verbatim>\<open>check_blocked\<close>, \<^verbatim>\<open>step_scripts\<close>), \<^verbatim>\<open>pol/module/osmod.cpp\<close>
  (sleeping, events, child scripts) and the commands of \<^verbatim>\<open>pol/poldbg.cpp\<close>.

  A \<^verbatim>\<open>UOExecutor*\<close> is a number; the map \<open>scripts\<close> holds the executors that are not
  deleted. What one instruction of a script does is a parameter \<open>execute\<close>: the next state of
  its own machine and the calls it makes into the scheduler, in order. The clock is an
  argument of the calls that read it.
\<close>

section \<open>State\<close>

type_synonym ex_id = nat
type_synonym polclock = int

datatype HoldListType = NO_LIST | TIMEOUT_LIST | NOTIMEOUT_LIST | DEBUGGER_LIST

datatype WAIT_TYPE = WAIT_SLEEP | WAIT_EVENT | WAIT_UNKNOWN

record uoexec =
  machine :: executor
  critical :: bool
  priority :: nat
  warn_on_runaway :: bool
  blocked :: bool
  sleep_until_clock :: polclock
  hold_itr :: nat
  in_hold_list :: HoldListType
  wait_type :: WAIT_TYPE
  pid :: nat
  max_eventqueue_size :: nat
  events :: "BObjectImp list"
  instr_cycles :: "64 word"
  sleep_cycles :: "64 word"
  warn_runaway_on_cycle :: "64 word"
  runaway_cycles :: "64 word"
  debug_level :: nat
  can_access_offline_mobiles :: bool
  auxsvc_assume_string :: bool
  pParent :: "ex_id option"
  pChild :: "ex_id option"

text \<open>
  An iterator of the \<^verbatim>\<open>multimap\<close> \<open>holdlist\<close> is a number that names its entry.
\<close>

record sched =
  scripts :: "ex_id \<rightharpoonup> uoexec"
  next_ex :: ex_id
  runlist :: "ex_id list"
  ranlist :: "ex_id list"
  holdlist :: "(nat \<times> polclock \<times> ex_id) list"
  next_itr :: nat
  notimeoutholdlist :: "ex_id set"
  debuggerholdlist :: "ex_id set"
  pidlist :: "nat \<rightharpoonup> ex_id"
  next_pid :: nat
  priority_divide :: nat
  runaway_script_threshold :: "64 word"
  discard_old_events :: bool

definition PID_MIN :: nat where "PID_MIN = 0x01000000"
definition INT_MAX :: nat where "INT_MAX = 0x7fffffff"
definition POLCLOCKS_PER_SEC :: int where "POLCLOCKS_PER_SEC = 100"
definition MAX_EVENTQUEUE_SIZE :: nat where "MAX_EVENTQUEUE_SIZE = 20"

text \<open>
  \<open>None\<close>: the call does not return. \<open>Freed\<close>: it uses an executor that was deleted;
  \<open>Empty\<close>: it uses the top of an empty stack; \<open>Assertion\<close>: a \<^verbatim>\<open>passert\<close> fails; \<open>Undefined\<close>: a real out of range is converted to an integer.
\<close>

datatype sched_fault = Freed | Empty | Assertion | Undefined

type_synonym 'a result = "(sched_fault + 'a) option"

definition and_then_run :: "'a result \<Rightarrow> ('a \<Rightarrow> 'b result) \<Rightarrow> 'b result" where
  "and_then_run r f = Option.bind r (\<lambda>x. case x of Inl e \<Rightarrow> Some (Inl e) | Inr a \<Rightarrow> f a)"

definition fail :: "sched_fault \<Rightarrow> 'a result" where "fail e = Some (Inl e)"
definition ok :: "'a \<Rightarrow> 'a result" where "ok a = Some (Inr a)"

definition the_ex :: "sched \<Rightarrow> ex_id \<Rightarrow> (uoexec \<Rightarrow> 'a result) \<Rightarrow> 'a result" where
  "the_ex s ex f = (case scripts s ex of None \<Rightarrow> fail Freed | Some u \<Rightarrow> f u)"

definition set_ex :: "ex_id \<Rightarrow> uoexec \<Rightarrow> sched \<Rightarrow> sched" where
  "set_ex ex u s = s\<lparr>scripts := (scripts s)(ex \<mapsto> u)\<rparr>"

definition runnable :: "uoexec \<Rightarrow> bool" where
  "runnable u \<longleftrightarrow> run_ok (machine u)"

definition push_value :: "BObjectImp \<Rightarrow> uoexec \<Rightarrow> uoexec" where
  "push_value v u = u\<lparr>machine := push_new v (machine u)\<rparr>"

section \<open>The lists\<close>

definition enqueue :: "ex_id \<Rightarrow> sched \<Rightarrow> sched" where
  "enqueue ex s = s\<lparr>runlist := runlist s @ [ex]\<rparr>"

definition revive_timeout :: "ex_id \<Rightarrow> nat \<Rightarrow> sched \<Rightarrow> sched" where
  "revive_timeout ex itr s =
     enqueue ex (s\<lparr>holdlist := filter (\<lambda>(i, _). i \<noteq> itr) (holdlist s)\<rparr>)"

definition revive_notimeout :: "ex_id \<Rightarrow> sched \<Rightarrow> sched" where
  "revive_notimeout ex s = enqueue ex (s\<lparr>notimeoutholdlist := notimeoutholdlist s - {ex}\<rparr>)"

definition revive_debugged_list :: "ex_id \<Rightarrow> sched \<Rightarrow> sched" where
  "revive_debugged_list ex s = enqueue ex (s\<lparr>debuggerholdlist := debuggerholdlist s - {ex}\<rparr>)"

text \<open>\<^verbatim>\<open>multimap::insert\<close> puts an entry after those with the same key.\<close>

fun hold_insert :: "nat \<times> polclock \<times> ex_id \<Rightarrow> (nat \<times> polclock \<times> ex_id) list \<Rightarrow> (nat \<times> polclock \<times> ex_id) list" where
  "hold_insert (i, c, ex) [] = [(i, c, ex)]"
| "hold_insert (i, c, ex) ((j, d, ey) # hs) =
     (if c < d then (i, c, ex) # (j, d, ey) # hs else (j, d, ey) # hold_insert (i, c, ex) hs)"

text \<open>Process ids: the loop of \<^verbatim>\<open>get_new_pid\<close> never ends when all of them are taken.\<close>

definition pid_after :: "nat \<Rightarrow> nat" where
  "pid_after p = (if p = INT_MAX then PID_MIN else p + 1)"

partial_function (option) get_new_pid :: "ex_id \<Rightarrow> sched \<Rightarrow> (nat \<times> sched) option" where
  "get_new_pid ex s =
     (let newpid = next_pid s; s1 = s\<lparr>next_pid := pid_after newpid\<rparr>
      in if pidlist s newpid = None then Some (newpid, s1\<lparr>pidlist := (pidlist s)(newpid \<mapsto> ex)\<rparr>)
         else get_new_pid ex s1)"

definition free_pid :: "nat \<Rightarrow> sched \<Rightarrow> sched" where
  "free_pid p s = s\<lparr>pidlist := (pidlist s)(p := None)\<rparr>"

definition find_exec :: "nat \<Rightarrow> sched \<Rightarrow> ex_id option" where
  "find_exec p s = pidlist s p"

text \<open>The constructor of \<^verbatim>\<open>UOExecutor\<close> with its \<^verbatim>\<open>OSExecutorModule\<close>, and its destructor.\<close>

definition fresh_ex :: "executor \<Rightarrow> nat \<Rightarrow> 64 word \<Rightarrow> uoexec" where
  "fresh_ex m p threshold =
     \<lparr>machine = m, critical = False, priority = 1, warn_on_runaway = True, blocked = False,
      sleep_until_clock = 0, hold_itr = 0, in_hold_list = NO_LIST, wait_type = WAIT_UNKNOWN,
      pid = p, max_eventqueue_size = MAX_EVENTQUEUE_SIZE, events = [],
      instr_cycles = 0, sleep_cycles = 0, warn_runaway_on_cycle = threshold, runaway_cycles = 0,
      debug_level = 0, can_access_offline_mobiles = False, auxsvc_assume_string = False,
      pParent = None, pChild = None\<rparr>"

definition new_uoexec :: "executor \<Rightarrow> sched \<Rightarrow> (ex_id \<times> sched) result" where
  "new_uoexec m s =
     (let ex = next_ex s
      in Option.bind (get_new_pid ex s) (\<lambda>(p, s1).
        ok (ex, (set_ex ex (fresh_ex m p (runaway_script_threshold s)) s1)\<lparr>next_ex := ex + 1\<rparr>)))"

definition delete_ex :: "ex_id \<Rightarrow> uoexec \<Rightarrow> sched \<Rightarrow> sched" where
  "delete_ex ex u s = free_pid (pid u) (s\<lparr>scripts := (scripts s)(ex := None)\<rparr>)"

text \<open>\<^verbatim>\<open>start_script\<close>: the new script is put at the end of \<open>runlist\<close>.\<close>

definition start_script :: "executor \<Rightarrow> sched \<Rightarrow> (ex_id \<times> sched) result" where
  "start_script m s = and_then_run (new_uoexec m s) (\<lambda>(ex, s1). ok (ex, enqueue ex s1))"

section \<open>Sleeping and waking\<close>

definition revive :: "ex_id \<Rightarrow> uoexec \<Rightarrow> sched \<Rightarrow> sched" where
  "revive ex u s =
     (case in_hold_list u of
        TIMEOUT_LIST \<Rightarrow>
          revive_timeout ex (hold_itr u) (set_ex ex (u\<lparr>blocked := False, in_hold_list := NO_LIST\<rparr>) s)
      | NOTIMEOUT_LIST \<Rightarrow>
          revive_notimeout ex (set_ex ex (u\<lparr>blocked := False, in_hold_list := NO_LIST\<rparr>) s)
      | _ \<Rightarrow> set_ex ex (u\<lparr>blocked := False\<rparr>) s)"

definition revive_debugged :: "ex_id \<Rightarrow> uoexec \<Rightarrow> sched \<Rightarrow> sched" where
  "revive_debugged ex u s = revive_debugged_list ex (set_ex ex (u\<lparr>in_hold_list := NO_LIST\<rparr>) s)"

definition suspend :: "uoexec \<Rightarrow> uoexec" where
  "suspend u = u\<lparr>blocked := True, wait_type := WAIT_SLEEP, sleep_until_clock := 0\<rparr>"

definition SleepFor :: "polclock \<Rightarrow> int32 \<Rightarrow> uoexec \<Rightarrow> uoexec" where
  "SleepFor now nsecs u =
     (if nsecs \<noteq> 0
      then u\<lparr>blocked := True, wait_type := WAIT_SLEEP,
             sleep_until_clock := now + sint nsecs * POLCLOCKS_PER_SEC\<rparr>
      else u)"

definition SleepForMs :: "polclock \<Rightarrow> int32 \<Rightarrow> uoexec \<Rightarrow> uoexec" where
  "SleepForMs now msecs u =
     (if msecs \<noteq> 0
      then u\<lparr>blocked := True, wait_type := WAIT_SLEEP,
             sleep_until_clock := now + (sint msecs * POLCLOCKS_PER_SEC) sdiv 1000\<rparr>
      else u)"

text \<open>
  \<^verbatim>\<open>signal_event\<close>: a script that waits for an event gets it as the value of its wait,
  on the top of its stack; for any other the event is queued.
\<close>

definition back_set :: "BObjectImp \<Rightarrow> executor \<Rightarrow> (executor \<Rightarrow> 'a result) \<Rightarrow> 'a result" where
  "back_set v m f =
     (case ValueStack m of
        [] \<Rightarrow> fail Empty
      | _ # vs \<Rightarrow> f (push_new v (m\<lparr>ValueStack := vs\<rparr>)))"

definition signal_event :: "ex_id \<Rightarrow> uoexec \<Rightarrow> BObjectImp \<Rightarrow> sched \<Rightarrow> (bool \<times> sched) result" where
  "signal_event ex u v s =
     (if blocked u \<and> wait_type u = WAIT_EVENT
      then back_set v (machine u) (\<lambda>m. ok (True, revive ex (u\<lparr>machine := m\<rparr>) s))
      else if length (events u) < max_eventqueue_size u
      then ok (True, set_ex ex (u\<lparr>events := events u @ [v]\<rparr>) s)
      else if discard_old_events s
      then (if events u = [] then fail Empty
            else ok (True, set_ex ex (u\<lparr>events := tl (events u) @ [v]\<rparr>) s))
      else ok (False, s))"

section \<open>Calls of scripts into the scheduler\<close>

text \<open>
  The functions of the module \<^verbatim>\<open>os\<close> take their parameters, change the executor that
  calls them and push their result.
\<close>

definition paramAsLong :: "BObjectImp \<Rightarrow> (int32 \<Rightarrow> 'a result) \<Rightarrow> 'a result" where
  "paramAsLong v f =
     (case v of
        BLong i \<Rightarrow> f i
      | BDouble d \<Rightarrow> (case d_to_int d of None \<Rightarrow> fail Undefined | Some i \<Rightarrow> f (word_of_int i))
      | _ \<Rightarrow> f 0)"

definition mf_Sleep :: "polclock \<Rightarrow> BObjectImp \<Rightarrow> uoexec \<Rightarrow> uoexec result" where
  "mf_Sleep now v u = paramAsLong v (\<lambda>nsecs. ok (push_value (BLong 0) (SleepFor now nsecs u)))"

definition mf_Sleepms :: "polclock \<Rightarrow> BObjectImp \<Rightarrow> uoexec \<Rightarrow> uoexec result" where
  "mf_Sleepms now v u = paramAsLong v (\<lambda>msecs. ok (push_value (BLong 0) (SleepForMs now msecs u)))"

definition mf_Wait_For_Event :: "polclock \<Rightarrow> BObjectImp \<Rightarrow> uoexec \<Rightarrow> uoexec result" where
  "mf_Wait_For_Event now v u =
     (case events u of
        e # es \<Rightarrow> ok (push_value e (u\<lparr>events := es\<rparr>))
      | [] \<Rightarrow>
          paramAsLong v (\<lambda>nsecs.
            ok (push_value (BLong 0)
              (if nsecs \<noteq> 0
               then u\<lparr>wait_type := WAIT_EVENT, blocked := True,
                      sleep_until_clock := now + sint nsecs * POLCLOCKS_PER_SEC\<rparr>
               else u))))"

definition mf_Events_Waiting :: "uoexec \<Rightarrow> uoexec" where
  "mf_Events_Waiting u = push_value (BLong (of_nat (length (events u)))) u"

definition mf_GetPid :: "uoexec \<Rightarrow> uoexec" where
  "mf_GetPid u = push_value (BLong (of_nat (pid u))) u"

definition mf_Set_Critical :: "BObjectImp \<Rightarrow> uoexec \<Rightarrow> uoexec" where
  "mf_Set_Critical v u =
     (case getParam [v] 0 of
        Some crit \<Rightarrow> push_value (BLong 1) (u\<lparr>critical := (crit \<noteq> 0)\<rparr>)
      | None \<Rightarrow> push_value (mk_error ''Invalid parameter type'') u)"

definition mf_Is_Critical :: "uoexec \<Rightarrow> uoexec" where
  "mf_Is_Critical u = push_value (BLong (if critical u then 1 else 0)) u"

definition mf_Set_Priority :: "BObjectImp \<Rightarrow> uoexec \<Rightarrow> uoexec" where
  "mf_Set_Priority v u =
     (case getParam_range [v] 0 1 255 of
        Inr newpri \<Rightarrow> push_value (BLong (of_nat (priority u))) (u\<lparr>priority := nat newpri\<rparr>)
      | Inl e \<Rightarrow> push_value e u)"

definition mf_Set_Event_Queue_Size :: "BObjectImp \<Rightarrow> uoexec \<Rightarrow> uoexec" where
  "mf_Set_Event_Queue_Size v u =
     (case getParam_range [v] 0 0 65535 of
        Inr new_size \<Rightarrow>
          push_value (BLong (of_nat (max_eventqueue_size u))) (u\<lparr>max_eventqueue_size := nat new_size\<rparr>)
      | Inl e \<Rightarrow> push_value e u)"

definition clear_event_queue :: "uoexec \<Rightarrow> uoexec" where
  "clear_event_queue u = u\<lparr>events := []\<rparr>"

definition mf_Clear_Event_Queue :: "uoexec \<Rightarrow> uoexec" where
  "mf_Clear_Event_Queue u = push_value (BLong 1) (clear_event_queue u)"

definition mf_Set_Script_Option :: "BObjectImp \<Rightarrow> BObjectImp \<Rightarrow> uoexec \<Rightarrow> uoexec" where
  "mf_Set_Script_Option opt val u =
     (case (getParam [opt] 0, getParam [val] 0) of
        (Some optnum, Some optval) \<Rightarrow>
          (let old = (\<lambda>b. push_value (BLong (if b then 1 else 0))) in
           if optnum = 1 then old (critical u) (u\<lparr>critical := (optval \<noteq> 0)\<rparr>)
           else if optnum = 2
           then push_value (BLong (of_nat (debug_level u))) (u\<lparr>debug_level := (if optval \<noteq> 0 then 1 else 0)\<rparr>)
           else if optnum = 3 then old (warn_on_runaway u) (u\<lparr>warn_on_runaway := (optval = 0)\<rparr>)
           else if optnum = 4
           then old (can_access_offline_mobiles u) (u\<lparr>can_access_offline_mobiles := (optval \<noteq> 0)\<rparr>)
           else if optnum = 5
           then old (auxsvc_assume_string u) (u\<lparr>auxsvc_assume_string := (optval \<noteq> 0)\<rparr>)
           else push_value (mk_error ''Unknown Script Option'') u)
      | _ \<Rightarrow> push_value (mk_error ''Invalid parameter type'') u)"

text \<open>
  \<^verbatim>\<open>run_script\<close>: the first execution starts the child and suspends the caller at the same
  instruction; the second one returns the top of the child's stack.
\<close>

definition mf_Run_Script :: "executor \<Rightarrow> ex_id \<Rightarrow> uoexec \<Rightarrow> sched \<Rightarrow> sched result" where
  "mf_Run_Script m ex u s =
     (case pChild u of
        None \<Rightarrow>
          and_then_run (start_script m s) (\<lambda>(child, s1).
            the_ex s1 child (\<lambda>c. the_ex s1 ex (\<lambda>u1.
              ok (set_ex ex
                (push_value (BLong 0) (push_value UninitObject
                  (suspend (u1\<lparr>pChild := Some child,
                              machine := (machine u1)\<lparr>PC := PC (machine u1) - 1\<rparr>\<rparr>))))
                (set_ex child (c\<lparr>pParent := Some ex\<rparr>) s1)))))
      | Some child \<Rightarrow>
          the_ex s child (\<lambda>c.
            (let ret = (case ValueStack (machine c) of [] \<Rightarrow> BLong 1 | a # _ \<Rightarrow> deref (machine c) a);
                 s1 = set_ex child (c\<lparr>pParent := None\<rparr>) s
             in the_ex s1 ex (\<lambda>u1. ok (set_ex ex (push_value ret (u1\<lparr>pChild := None\<rparr>)) s1)))))"

text \<open>\<^verbatim>\<open>kill\<close> marks a script with an error and wakes it, so that the scheduler deletes it.\<close>

definition kill :: "ex_id \<Rightarrow> uoexec \<Rightarrow> sched \<Rightarrow> sched result" where
  "kill ex u s =
     the_ex (revive ex (u\<lparr>machine := seterror True (machine u)\<rparr>) s) ex (\<lambda>u1.
       let s1 = revive ex (u\<lparr>machine := seterror True (machine u)\<rparr>) s
       in ok (if in_hold_list u1 = DEBUGGER_LIST then revive_debugged ex u1 s1 else s1))"

datatype os_call =
    Sleep polclock "BObjectImp" | Sleepms polclock "BObjectImp" | Wait_For_Event polclock "BObjectImp"
  | Events_Waiting | GetPid | Set_Critical "BObjectImp" | Is_Critical | Set_Priority "BObjectImp"
  | Set_Event_Queue_Size "BObjectImp" | Clear_Event_Queue | Set_Script_Option "BObjectImp" "BObjectImp"
  | Suspend | Start_Script executor | Run_Script executor
  | Signal ex_id "BObjectImp" | Revive ex_id | Kill ex_id

text \<open>Calls that change the calling executor only.\<close>

definition own_call :: "os_call \<Rightarrow> uoexec \<Rightarrow> uoexec result" where
  "own_call c u =
     (case c of
        Sleep now v \<Rightarrow> mf_Sleep now v u
      | Sleepms now v \<Rightarrow> mf_Sleepms now v u
      | Wait_For_Event now v \<Rightarrow> mf_Wait_For_Event now v u
      | Events_Waiting \<Rightarrow> ok (mf_Events_Waiting u)
      | GetPid \<Rightarrow> ok (mf_GetPid u)
      | Set_Critical v \<Rightarrow> ok (mf_Set_Critical v u)
      | Is_Critical \<Rightarrow> ok (mf_Is_Critical u)
      | Set_Priority v \<Rightarrow> ok (mf_Set_Priority v u)
      | Set_Event_Queue_Size v \<Rightarrow> ok (mf_Set_Event_Queue_Size v u)
      | Clear_Event_Queue \<Rightarrow> ok (mf_Clear_Event_Queue u)
      | Set_Script_Option opt val \<Rightarrow> ok (mf_Set_Script_Option opt val u)
      | Suspend \<Rightarrow> ok (suspend u)
      | _ \<Rightarrow> ok u)"

text \<open>Others are reached through weak pointers, which are null once the executor is deleted.\<close>

definition on_live :: "ex_id \<Rightarrow> (uoexec \<Rightarrow> sched result) \<Rightarrow> sched \<Rightarrow> sched result" where
  "on_live ex f s = (case scripts s ex of None \<Rightarrow> ok s | Some u \<Rightarrow> f u)"

definition perform :: "os_call \<Rightarrow> ex_id \<Rightarrow> sched \<Rightarrow> sched result" where
  "perform c ex s =
     (case c of
        Start_Script m \<Rightarrow> and_then_run (start_script m s) (\<lambda>(_, s1). ok s1)
      | Run_Script m \<Rightarrow> the_ex s ex (\<lambda>u. mf_Run_Script m ex u s)
      | Signal other v \<Rightarrow>
          on_live other (\<lambda>u. and_then_run (signal_event other u v s) (\<lambda>(_, s1). ok s1)) s
      | Revive other \<Rightarrow> on_live other (\<lambda>u. ok (revive other u s)) s
      | Kill other \<Rightarrow> on_live other (\<lambda>u. kill other u s) s
      | _ \<Rightarrow> the_ex s ex (\<lambda>u. and_then_run (own_call c u) (\<lambda>u1. ok (set_ex ex u1 s))))"

fun perform_all :: "os_call list \<Rightarrow> ex_id \<Rightarrow> sched \<Rightarrow> sched result" where
  "perform_all [] ex s = ok s"
| "perform_all (c # cs) ex s = and_then_run (perform c ex s) (perform_all cs ex)"

section \<open>Running\<close>

type_synonym execute = "ex_id \<Rightarrow> sched \<Rightarrow> executor \<times> os_call list"

text \<open>One instruction of a script: \<^verbatim>\<open>++ex->instr_cycles; ex->execInstr()\<close>.\<close>

definition run_instr :: "execute \<Rightarrow> ex_id \<Rightarrow> sched \<Rightarrow> sched result" where
  "run_instr execute ex s =
     the_ex s ex (\<lambda>u.
       let s1 = set_ex ex (u\<lparr>instr_cycles := instr_cycles u + 1\<rparr>) s;
           (m, calls) = execute ex s1
       in perform_all calls ex (set_ex ex (u\<lparr>instr_cycles := instr_cycles u + 1, machine := m\<rparr>) s1))"

definition check_runaway :: "64 word \<Rightarrow> uoexec \<Rightarrow> uoexec" where
  "check_runaway threshold u =
     (if instr_cycles u = warn_runaway_on_cycle u
      then u\<lparr>runaway_cycles := runaway_cycles u + threshold,
             warn_runaway_on_cycle := warn_runaway_on_cycle u + threshold\<rparr>
      else u)"

text \<open>
  The instructions a script executes in one turn: until it stops, blocks or has used its
  \<open>insleft\<close> instructions; instructions of a critical script are not counted.
\<close>

partial_function (option) run_slice :: "execute \<Rightarrow> ex_id \<Rightarrow> int \<Rightarrow> sched \<Rightarrow> (sched_fault + sched) option" where
  "run_slice execute ex insleft s =
     (case scripts s ex of
        None \<Rightarrow> Some (Inl Freed)
      | Some u0 \<Rightarrow>
          if \<not> runnable u0 then Some (Inr s)
          else Option.bind (run_instr execute ex s) (\<lambda>r.
            case r of Inl e \<Rightarrow> Some (Inl e)
            | Inr s1 \<Rightarrow>
               (case scripts s1 ex of
                  None \<Rightarrow> Some (Inl Freed)
                | Some u \<Rightarrow>
                    if blocked u
                    then Some (Inr (set_ex ex
                      (u\<lparr>warn_runaway_on_cycle := instr_cycles u + runaway_script_threshold s1,
                         runaway_cycles := 0\<rparr>) s1))
                    else
                      let s2 = set_ex ex (check_runaway (runaway_script_threshold s1) u) s1
                      in if critical u then run_slice execute ex insleft s2
                         else if insleft - 1 = 0 then Some (Inr s2)
                         else run_slice execute ex (insleft - 1) s2)))"

text \<open>
  Where the executor goes after its turn. A script that ended waits in \<open>ranlist\<close> when its
  parent can take its result, and is deleted otherwise.
\<close>

definition put_ranlist :: "ex_id \<Rightarrow> sched \<Rightarrow> sched" where
  "put_ranlist ex s = s\<lparr>ranlist := ranlist s @ [ex]\<rparr>"

definition put_debugger :: "ex_id \<Rightarrow> uoexec \<Rightarrow> sched \<Rightarrow> sched" where
  "put_debugger ex u s =
     (set_ex ex (u\<lparr>in_hold_list := DEBUGGER_LIST\<rparr>) s)
       \<lparr>debuggerholdlist := insert ex (debuggerholdlist s)\<rparr>"

definition put_hold :: "ex_id \<Rightarrow> uoexec \<Rightarrow> sched \<Rightarrow> sched" where
  "put_hold ex u s =
     (if sleep_until_clock u \<noteq> 0
      then (set_ex ex (u\<lparr>in_hold_list := TIMEOUT_LIST, hold_itr := next_itr s,
                        sleep_cycles := sleep_cycles u - 1\<rparr>) s)
             \<lparr>holdlist := hold_insert (next_itr s, sleep_until_clock u, ex) (holdlist s),
              next_itr := next_itr s + 1\<rparr>
      else (set_ex ex (u\<lparr>in_hold_list := NOTIMEOUT_LIST, sleep_cycles := sleep_cycles u - 1\<rparr>) s)
             \<lparr>notimeoutholdlist := insert ex (notimeoutholdlist s)\<rparr>)"

definition finish :: "ex_id \<Rightarrow> uoexec \<Rightarrow> sched \<Rightarrow> sched result" where
  "finish ex u s =
     (let end_it = (case pChild u of
            None \<Rightarrow> ok (delete_ex ex u s)
          | Some child \<Rightarrow> the_ex s child (\<lambda>c. ok (delete_ex ex u (set_ex child (c\<lparr>pParent := None\<rparr>) s))))
      in case pParent u of
           None \<Rightarrow> end_it
         | Some parent \<Rightarrow>
             the_ex s parent (\<lambda>p.
               if runnable p
               then (let s1 = put_ranlist ex s in ok (revive parent p s1))
               else end_it))"

definition place :: "ex_id \<Rightarrow> sched \<Rightarrow> sched result" where
  "place ex s =
     the_ex s ex (\<lambda>u.
       if \<not> runnable u \<and> (error_flag (machine u) \<or> finished (machine u)) then finish ex u s
       else if \<not> runnable u \<and> \<not> blocked u then ok (put_debugger ex u s)
       else if blocked u then ok (put_hold ex u s)
       else ok (put_ranlist ex s))"

definition turn :: "execute \<Rightarrow> ex_id \<Rightarrow> sched \<Rightarrow> sched result" where
  "turn execute ex s =
     the_ex s ex (\<lambda>u.
       let insleft = priority u div priority_divide s
       in and_then_run (run_slice execute ex (if insleft = 0 then 1 else int insleft) s) (place ex))"

definition swap_lists :: "sched \<Rightarrow> sched" where
  "swap_lists s = s\<lparr>runlist := ranlist s, ranlist := runlist s\<rparr>"

partial_function (option) run_ready :: "execute \<Rightarrow> sched \<Rightarrow> (sched_fault + sched) option" where
  "run_ready execute s =
     (case runlist s of
        [] \<Rightarrow> Some (Inr (swap_lists s))
      | ex # exs \<Rightarrow>
          Option.bind (turn execute ex (s\<lparr>runlist := exs\<rparr>)) (\<lambda>r.
            case r of Inl e \<Rightarrow> Some (Inl e) | Inr s1 \<Rightarrow> run_ready execute s1))"

section \<open>Waking sleepers\<close>

text \<open>
  \<^verbatim>\<open>check_blocked\<close> reads the clock once; the result is how long to wait, sixty seconds
  at most. An entry that its executor does not take out of the list is met again, and is not
  blocked any more.
\<close>

function check_blocked_from :: "polclock \<Rightarrow> polclock \<Rightarrow> sched \<Rightarrow> (polclock \<times> sched) result" where
  "check_blocked_from now left s =
     (case holdlist s of
        [] \<Rightarrow> ok (left, s)
      | (i, c, ex) # hs \<Rightarrow>
          (case scripts s ex of
             None \<Rightarrow> fail Freed
           | Some u \<Rightarrow>
               if \<not> blocked u \<or> sleep_until_clock u = 0 then fail Assertion
               else let clocksleft = sleep_until_clock u - now; s1 = revive ex u s
                    in if clocksleft \<le> 0 \<and> length (holdlist s1) < length (holdlist s)
                       then check_blocked_from now clocksleft s1
                       else if clocksleft \<le> 0 then fail Assertion
                       else ok (clocksleft, s)))"
  by pat_completeness auto
termination
  by (relation "measure (\<lambda>(_, _, s). length (holdlist s))") auto

declare check_blocked_from.simps [simp del]

definition check_blocked :: "polclock \<Rightarrow> sched \<Rightarrow> (polclock \<times> sched) result" where
  "check_blocked now s = check_blocked_from now (POLCLOCKS_PER_SEC * 60) s"

definition step_scripts :: "execute \<Rightarrow> polclock \<Rightarrow> sched \<Rightarrow> (polclock \<times> bool \<times> sched) result" where
  "step_scripts execute now s =
     (let activity = (runlist s \<noteq> [])
      in and_then_run (run_ready execute s) (\<lambda>s1.
           and_then_run (check_blocked now s1) (\<lambda>(clocksleft, s2).
             ok (if runlist s2 \<noteq> [] then 0 else clocksleft, activity, s2))))"

section \<open>The debugger, and everything at once\<close>

text \<open>The commands of \<^verbatim>\<open>DebugContext\<close>, on a process id or on the attached script.\<close>

definition cmd_attach :: "nat \<Rightarrow> sched \<Rightarrow> sched result" where
  "cmd_attach p s =
     (case find_exec p s of
        None \<Rightarrow> ok s
      | Some ex \<Rightarrow> the_ex s ex (\<lambda>u. ok (set_ex ex (u\<lparr>machine := debug_command attach_debugger (machine u)\<rparr>) s)))"

definition cmd_kill :: "nat \<Rightarrow> sched \<Rightarrow> sched result" where
  "cmd_kill p s =
     (case find_exec p s of
        None \<Rightarrow> ok s
      | Some ex \<Rightarrow> the_ex s ex (\<lambda>u. ok (set_ex ex (u\<lparr>machine := seterror True (machine u)\<rparr>) s)))"

definition cmd_detach :: "ex_id \<Rightarrow> sched \<Rightarrow> sched result" where
  "cmd_detach ex = (\<lambda>s. on_live ex (\<lambda>u.
     let s1 = (if in_hold_list u = DEBUGGER_LIST then revive_debugged ex u s else s)
     in the_ex s1 ex (\<lambda>u1.
          ok (set_ex ex (u1\<lparr>machine := debug_command detach_debugger (machine u1)\<rparr>) s1))) s)"

text \<open>\<^verbatim>\<open>cmd_instrace\<close>, \<^verbatim>\<open>cmd_stepinto\<close>, \<^verbatim>\<open>cmd_stepover\<close> and \<^verbatim>\<open>cmd_run\<close>.\<close>

definition cmd_resume :: "debug_command \<Rightarrow> ex_id \<Rightarrow> sched \<Rightarrow> sched result" where
  "cmd_resume c ex = (\<lambda>s. on_live ex (\<lambda>u.
     if in_hold_list u \<noteq> DEBUGGER_LIST then ok s
     else ok (revive_debugged ex (u\<lparr>machine := debug_command c (machine u)\<rparr>) s)) s)"

definition cmd_mark :: "debug_command \<Rightarrow> ex_id \<Rightarrow> sched \<Rightarrow> sched result" where
  "cmd_mark c ex = (\<lambda>s. on_live ex (\<lambda>u. ok (set_ex ex (u\<lparr>machine := debug_command c (machine u)\<rparr>) s)) s)"

text \<open>
  A step is a turn of the scripts thread, or a call that another part of the server makes
  between two of them: a packet that answers a script, an event, a new script, the debugger.
\<close>

definition outside :: "os_call \<Rightarrow> bool" where
  "outside c \<longleftrightarrow>
     (case c of Start_Script _ \<Rightarrow> True | Signal _ _ \<Rightarrow> True | Revive _ \<Rightarrow> True | Kill _ \<Rightarrow> True | _ \<Rightarrow> False)"

inductive sched_step :: "execute \<Rightarrow> sched \<Rightarrow> sched \<Rightarrow> bool" for execute where
  Scripts: "step_scripts execute now s = Some (Inr (clocksleft, activity, s')) \<Longrightarrow> sched_step execute s s'"
| Call: "outside c \<Longrightarrow> perform c ex s = Some (Inr s') \<Longrightarrow> sched_step execute s s'"
| Attach: "cmd_attach p s = Some (Inr s') \<Longrightarrow> sched_step execute s s'"
| Cmd_Kill: "cmd_kill p s = Some (Inr s') \<Longrightarrow> sched_step execute s s'"
| Detach: "cmd_detach ex s = Some (Inr s') \<Longrightarrow> sched_step execute s s'"
| Resume: "cmd_resume c ex s = Some (Inr s') \<Longrightarrow> sched_step execute s s'"
| Mark: "cmd_mark c ex s = Some (Inr s') \<Longrightarrow> sched_step execute s s'"

definition init_sched :: "64 word \<Rightarrow> bool \<Rightarrow> nat \<Rightarrow> sched" where
  "init_sched threshold discard divisor =
     \<lparr>scripts = Map.empty, next_ex = 0, runlist = [], ranlist = [], holdlist = [], next_itr = 0,
      notimeoutholdlist = {}, debuggerholdlist = {}, pidlist = Map.empty, next_pid = PID_MIN,
      priority_divide = divisor, runaway_script_threshold = threshold, discard_old_events = discard\<rparr>"

end
