(* ===== verification/Verifier.thy ===== *)
theory Verifier
  imports Executor
begin

text \<open>
  When compiled code is safe to run. An annotation gives for an instruction the number of
  objects the current function has on the value stack and of its local variables; a function
  is entered with its parameters on the stack and left with its result. Code that agrees
  with its annotation never takes an object from an empty stack, never uses a variable that
  does not exist and never leaves the program: each step preserves an invariant of the
  executor.
\<close>

section \<open>Annotated code\<close>

text \<open>
  Between \<^verbatim>\<open>CTRL_MAKELOCAL\<close> and \<^verbatim>\<open>CTRL_JSR_USERFUNC\<close> the variables of the
  caller are already saved; \<open>saved\<close> is their number.
\<close>

record frame =
  depth :: nat
  locals :: nat
  saved :: "nat option"

definition plain :: "nat \<Rightarrow> nat \<Rightarrow> frame" where
  "plain d l = \<lparr>depth = d, locals = l, saved = None\<rparr>"

type_synonym annotation = "frame option list"

definition annot :: "annotation \<Rightarrow> nat \<Rightarrow> frame option" where
  "annot A pc = (if pc < length A then A ! pc else None)"

text \<open>
  The number of objects taken from the stack and put on it by instructions that do nothing
  else to the frame.
\<close>

definition other_effect :: "other_id \<Rightarrow> (nat \<times> nat) option" where
  "other_effect i =
     (if i \<in> {TOK_ERROR, TOK_STRUCT, TOK_ARRAY, TOK_DICTIONARY, TOK_IDENT, INS_UNINIT}
      then Some (0, 1)
      else if i \<in> {TOK_IN, TOK_INSERTINTO, TOK_DELMEMBER, TOK_CHKMEMBER} then Some (2, 1)
      else if i = INS_DECLARE_ARRAY then Some (1, 1)
      else if i = CTRL_STATEMENTBEGIN then Some (0, 0)
      else None)"

definition effect :: "BTokenId \<Rightarrow> (nat \<times> nat) option" where
  "effect i =
     (case i of
        TOK_OTHER j \<Rightarrow> other_effect j
      | TOK_LONG \<Rightarrow> Some (0, 1) | TOK_DOUBLE \<Rightarrow> Some (0, 1) | TOK_STRING \<Rightarrow> Some (0, 1)
      | TOK_ADD \<Rightarrow> Some (2, 1) | TOK_SUBTRACT \<Rightarrow> Some (2, 1) | TOK_MULT \<Rightarrow> Some (2, 1)
      | TOK_DIV \<Rightarrow> Some (2, 1) | TOK_MODULUS \<Rightarrow> Some (2, 1)
      | TOK_LESSTHAN \<Rightarrow> Some (2, 1) | TOK_LESSEQ \<Rightarrow> Some (2, 1)
      | TOK_GRTHAN \<Rightarrow> Some (2, 1) | TOK_GREQ \<Rightarrow> Some (2, 1)
      | TOK_AND \<Rightarrow> Some (2, 1) | TOK_OR \<Rightarrow> Some (2, 1)
      | TOK_EQUAL \<Rightarrow> Some (2, 1) | TOK_NEQ \<Rightarrow> Some (2, 1)
      | TOK_BSLEFT \<Rightarrow> Some (2, 1) | TOK_BSRIGHT \<Rightarrow> Some (2, 1)
      | TOK_BITAND \<Rightarrow> Some (2, 1) | TOK_BITOR \<Rightarrow> Some (2, 1) | TOK_BITXOR \<Rightarrow> Some (2, 1)
      | TOK_UNPLUS \<Rightarrow> Some (0, 0)
      | TOK_UNMINUS \<Rightarrow> Some (1, 1) | TOK_LOG_NOT \<Rightarrow> Some (1, 1) | TOK_BITWISE_NOT \<Rightarrow> Some (1, 1)
      | TOK_CONSUMER \<Rightarrow> Some (1, 0)
      | TOK_ASSIGN \<Rightarrow> Some (2, 1) | INS_ASSIGN_CONSUME \<Rightarrow> Some (2, 0)
      | INS_SUBSCRIPT_ASSIGN_CONSUME \<Rightarrow> Some (3, 0)
      | INS_SET_MEMBER \<Rightarrow> Some (2, 1) | INS_SET_MEMBER_CONSUME \<Rightarrow> Some (2, 0)
      | INS_ADDMEMBER2 \<Rightarrow> Some (1, 1) | INS_ADDMEMBER_ASSIGN \<Rightarrow> Some (2, 1)
      | TOK_PLUSEQUAL \<Rightarrow> Some (2, 1) | TOK_MINUSEQUAL \<Rightarrow> Some (2, 1)
      | TOK_TIMESEQUAL \<Rightarrow> Some (2, 1) | TOK_DIVIDEEQUAL \<Rightarrow> Some (2, 1)
      | TOK_MODULUSEQUAL \<Rightarrow> Some (2, 1)
      | TOK_UNPLUSPLUS \<Rightarrow> Some (1, 1) | TOK_UNMINUSMINUS \<Rightarrow> Some (1, 1)
      | TOK_UNPLUSPLUS_POST \<Rightarrow> Some (1, 1) | TOK_UNMINUSMINUS_POST \<Rightarrow> Some (1, 1)
      | _ \<Rightarrow> None)"

text \<open>All targets of a case block, when its data is complete.\<close>

function (sequential) case_targets :: "string \<Rightarrow> nat list option" where
  "case_targets (lo # hi # type # data) =
     (let target = case_offset lo hi; n = (if byte type = CASE_TYPE_LONG then 4 else byte type)
      in if byte type = CASE_TYPE_DEFAULT then Some [target]
         else if length data < n then None
         else map_option ((#) target) (case_targets (drop n data)))"
| "case_targets _ = None"
  by pat_completeness auto
termination
  by (relation "measure length") auto

text \<open>
  Where an instruction may go on, and with which frame; \<open>None\<close> when the frame does not
  allow it. A jump to a function is checked against the annotation of its entry.
\<close>

definition var_index :: "int32 \<Rightarrow> nat \<Rightarrow> bool" where
  "var_index i n \<longleftrightarrow> 0 \<le> sint i \<and> nat (sint i) < n"

definition flow_other :: "program \<Rightarrow> nat \<Rightarrow> nat \<Rightarrow> nat \<Rightarrow> (nat \<times> frame) list option" where
  "flow_other P pc d l =
     (let t = instr P ! pc; dest = unat (tlval t); n = nat (sint (tlval t)) in
      case tid t of
        TOK_OTHER i \<Rightarrow>
          (case i of
             RSV_JMPIFTRUE \<Rightarrow>
               if 1 \<le> d then Some [(pc + 1, plain (d - 1) l), (dest, plain (d - 1) l)] else None
           | RSV_JMPIFFALSE \<Rightarrow>
               if 1 \<le> d then Some [(pc + 1, plain (d - 1) l), (dest, plain (d - 1) l)] else None
           | RSV_GOTO \<Rightarrow> Some [(dest, plain d l)]
           | RSV_RETURN \<Rightarrow> if d = 1 then Some [] else None
           | RSV_EXIT \<Rightarrow> Some []
           | CTRL_PROGEND \<Rightarrow> Some []
           | RSV_LOCAL \<Rightarrow> Some [(pc + 1, plain (d + 1) (l + 1))]
           | RSV_GLOBAL \<Rightarrow>
               if var_index (tlval t) (nglobals P) then Some [(pc + 1, plain (d + 1) l)] else None
           | INS_INITFOR \<Rightarrow>
               if 2 \<le> d then Some [(pc + 1, plain (d - 2) (l + 2)), (dest, plain (d - 2) l)] else None
           | INS_NEXTFOR \<Rightarrow>
               if 2 \<le> l then Some [(pc + 1, plain d l), (dest, plain d l)] else None
           | INS_CASEJMP \<Rightarrow>
               if 1 \<le> d
               then map_option (map (\<lambda>target. (target, plain (d - 1) l)))
                      (case_targets (drop dest (symbols P)))
               else None
           | INS_POP_PARAM \<Rightarrow> if 1 \<le> d then Some [(pc + 1, plain (d - 1) (l + 1))] else None
           | INS_POP_PARAM_BYREF \<Rightarrow> if 1 \<le> d then Some [(pc + 1, plain (d - 1) (l + 1))] else None
           | CTRL_LEAVE_BLOCK \<Rightarrow> if n \<le> l then Some [(pc + 1, plain d (l - n))] else None
           | _ \<Rightarrow> None)
      | TOK_LOCALVAR \<Rightarrow> if var_index (tlval t) l then Some [(pc + 1, plain (d + 1) l)] else None
      | TOK_GLOBALVAR \<Rightarrow>
          if var_index (tlval t) (nglobals P) then Some [(pc + 1, plain (d + 1) l)] else None
      | INS_ASSIGN_LOCALVAR \<Rightarrow>
          if var_index (tlval t) l \<and> 1 \<le> d then Some [(pc + 1, plain (d - 1) l)] else None
      | INS_ASSIGN_GLOBALVAR \<Rightarrow>
          if var_index (tlval t) (nglobals P) \<and> 1 \<le> d then Some [(pc + 1, plain (d - 1) l)] else None
      | CTRL_MAKELOCAL \<Rightarrow> Some [(pc + 1, \<lparr>depth = d, locals = 0, saved = Some l\<rparr>)]
      | _ \<Rightarrow> None)"

definition flow :: "program \<Rightarrow> annotation \<Rightarrow> nat \<Rightarrow> frame \<Rightarrow> (nat \<times> frame) list option" where
  "flow P A pc fr =
     (let t = instr P ! pc; d = depth fr; l = locals fr in
      case saved fr of
        Some l0 \<Rightarrow>
          if tid t = CTRL_JSR_USERFUNC
          then (case annot A (unat (tlval t)) of
                  Some entry \<Rightarrow>
                    if l = 0 \<and> locals entry = 0 \<and> saved entry = None \<and> depth entry \<le> d
                    then Some [(pc + 1, plain (d - depth entry + 1) l0)] else None
                | None \<Rightarrow> None)
          else None
      | None \<Rightarrow>
          (case effect (tid t) of
             Some (pops, pushes) \<Rightarrow>
               if pops \<le> d then Some [(pc + 1, plain (d - pops + pushes) l)] else None
           | None \<Rightarrow> flow_other P pc d l))"

definition flow_ok :: "program \<Rightarrow> annotation \<Rightarrow> nat \<Rightarrow> frame \<Rightarrow> bool" where
  "flow_ok P A pc fr =
     (case flow P A pc fr of
        None \<Rightarrow> False
      | Some ss \<Rightarrow> list_all (\<lambda>(pc', fr'). annot A pc' = Some fr') ss)"

definition verified :: "program \<Rightarrow> annotation \<Rightarrow> bool" where
  "verified P A \<longleftrightarrow>
     length A = length (instr P) \<and> annot A 0 = Some (plain 0 0) \<and>
     list_all (\<lambda>pc. case A ! pc of None \<Rightarrow> True | Some fr \<Rightarrow> flow_ok P A pc fr) [0..<length A]"

section \<open>Steps and frames\<close>

text \<open>What an instruction with an effect leaves alone.\<close>

definition same_control :: "executor \<Rightarrow> executor \<Rightarrow> bool" where
  "same_control s s' \<longleftrightarrow>
     PC s' = PC s \<and> Locals2 s' = Locals2 s \<and> upperLocals2 s' = upperLocals2 s \<and>
     length (Globals2 s') = length (Globals2 s) \<and> ControlStack s' = ControlStack s \<and>
     error_flag s' = error_flag s \<and> finished s' = finished s"

lemma control_simps [simp]:
  "PC (setimp a v s) = PC s" "Locals2 (setimp a v s) = Locals2 s"
  "upperLocals2 (setimp a v s) = upperLocals2 s" "Globals2 (setimp a v s) = Globals2 s"
  "ControlStack (setimp a v s) = ControlStack s" "ValueStack (setimp a v s) = ValueStack s"
  "error_flag (setimp a v s) = error_flag s" "finished (setimp a v s) = finished s"
  "run_ok (setimp a v s) = run_ok s" "halt_flag (setimp a v s) = halt_flag s"
  by (simp_all add: setimp_def)

lemma push_new_simps [simp]:
  "PC (push_new v s) = PC s" "Locals2 (push_new v s) = Locals2 s"
  "upperLocals2 (push_new v s) = upperLocals2 s" "Globals2 (push_new v s) = Globals2 s"
  "ControlStack (push_new v s) = ControlStack s"
  "ValueStack (push_new v s) = length (store s) # ValueStack s"
  "error_flag (push_new v s) = error_flag s" "finished (push_new v s) = finished s"
  "run_ok (push_new v s) = run_ok s" "halt_flag (push_new v s) = halt_flag s"
  by (simp_all add: push_new_def push_ref_def new_obj_def)

lemma push_ref_simps [simp]:
  "PC (push_ref a s) = PC s" "Locals2 (push_ref a s) = Locals2 s"
  "upperLocals2 (push_ref a s) = upperLocals2 s" "Globals2 (push_ref a s) = Globals2 s"
  "ControlStack (push_ref a s) = ControlStack s" "ValueStack (push_ref a s) = a # ValueStack s"
  "error_flag (push_ref a s) = error_flag s" "finished (push_ref a s) = finished s"
  "run_ok (push_ref a s) = run_ok s" "halt_flag (push_ref a s) = halt_flag s"
  by (simp_all add: push_ref_def)

lemma error_flag_seterror [simp]: "error_flag (seterror True s)"
  by (simp add: seterror_def calcrunnable_def)

lemma pop_Cons: "ValueStack s = a # vs \<Longrightarrow> pop s f = f a (s\<lparr>ValueStack := vs\<rparr>)"
  by (simp add: pop_def)

lemma getObjRef_Cons: "ValueStack s = a # vs \<Longrightarrow> getObjRef s = (a, s\<lparr>ValueStack := vs\<rparr>)"
  by (simp add: getObjRef_def)

text \<open>
  The outcome of an instruction that takes \<open>pops\<close> objects and leaves \<open>pushes\<close>.
\<close>

definition moves :: "nat \<Rightarrow> nat \<Rightarrow> executor \<Rightarrow> run \<Rightarrow> bool" where
  "moves pops pushes s r \<longleftrightarrow>
     (case r of
        Inl f \<Rightarrow> f = Undefined_Value
      | Inr s' \<Rightarrow> error_flag s' \<or>
          same_control s s' \<and> length (ValueStack s') = length (ValueStack s) - pops + pushes)"

lemma moves_Undefined [simp]: "moves p q s (Inl Undefined_Value)"
  by (simp add: moves_def)

lemma moves_error [simp]: "moves p q s (Inr (seterror True s'))"
  by (simp add: moves_def)

lemmas stack_ops =
  on_two_def on_one_def ins_in_def ins_assign_def ins_assign_consume_def compound_def
  ins_unplusplus_def ins_unplusplus_post_def ins_consume_def ins_array_assign_consume_def
  ins_set_member_def ins_set_member_consume_def ins_addmember2_def ins_addmember_assign_def
  ins_insert_into_def ins_removemember_def ins_checkmember_def ins_ident_def ins_declareArray_def

lemma list_2: "2 \<le> length xs \<Longrightarrow> \<exists>a b ys. xs = a # b # ys"
  by (metis One_nat_def Suc_1 Suc_le_length_iff)

lemma list_3: "3 \<le> length xs \<Longrightarrow> \<exists>a b c ys. xs = a # b # c # ys"
  by (metis Suc_le_length_iff numeral_3_eq_3)

lemma list_1: "Suc 0 \<le> length xs \<Longrightarrow> \<exists>a ys. xs = a # ys"
  by (metis Suc_le_length_iff)

lemma on_two_moves: "2 \<le> length (ValueStack s) \<Longrightarrow> moves 2 1 s (on_two f s)"
  by (auto dest!: list_2 simp: on_two_def pop_Cons moves_def same_control_def split: option.split list.split)

lemma compound_moves: "2 \<le> length (ValueStack s) \<Longrightarrow> moves 2 1 s (compound f s)"
  by (auto dest!: list_2 simp: compound_def pop_Cons moves_def same_control_def split: option.split)

lemma on_one_moves: "1 \<le> length (ValueStack s) \<Longrightarrow> moves 1 1 s (on_one f s)"
  by (auto dest!: list_1 simp: on_one_def getObjRef_Cons moves_def same_control_def)

lemma unplusplus_moves:
  "1 \<le> length (ValueStack s) \<Longrightarrow> moves 1 1 s (ins_unplusplus f s)"
  "1 \<le> length (ValueStack s) \<Longrightarrow> moves 1 1 s (ins_unplusplus_post f s)"
  by (auto dest!: list_1 simp: ins_unplusplus_def ins_unplusplus_post_def pop_Cons moves_def same_control_def)

lemma assign_moves:
  "2 \<le> length (ValueStack s) \<Longrightarrow> moves 2 1 s (ins_assign s)"
  "2 \<le> length (ValueStack s) \<Longrightarrow> moves 2 0 s (ins_assign_consume s)"
  "2 \<le> length (ValueStack s) \<Longrightarrow> moves 2 1 s (ins_set_member name s)"
  "2 \<le> length (ValueStack s) \<Longrightarrow> moves 2 0 s (ins_set_member_consume name s)"
  "1 \<le> length (ValueStack s) \<Longrightarrow> moves 1 1 s (ins_addmember2 name s)"
  "2 \<le> length (ValueStack s) \<Longrightarrow> moves 2 1 s (ins_addmember_assign name s)"
  "2 \<le> length (ValueStack s) \<Longrightarrow> moves 2 1 s (ins_insert_into s)"
  "2 \<le> length (ValueStack s) \<Longrightarrow> moves 2 1 s (ins_in s)"
  "2 \<le> length (ValueStack s) \<Longrightarrow> moves 2 1 s (ins_removemember s)"
  "2 \<le> length (ValueStack s) \<Longrightarrow> moves 2 1 s (ins_checkmember s)"
  "1 \<le> length (ValueStack s) \<Longrightarrow> moves 1 0 s (ins_consume s)"
  "1 \<le> length (ValueStack s) \<Longrightarrow> moves 1 1 s (ins_declareArray s)"
  by (auto dest!: list_2 list_1 simp: stack_ops pop_Cons getObjRef_Cons moves_def same_control_def
      split: option.split prod.split value_split)

lemma array_assign_moves:
  assumes "3 \<le> length (ValueStack s)"
  shows "moves 3 0 s (ins_array_assign_consume s)"
proof -
  obtain y i x vs where vs: "ValueStack s = y # i # x # vs" using list_3[OF assms] by blast
  then show ?thesis
    by (cases "array_assign (deref s x) (deref s i) (deref s y)")
      (auto simp: ins_array_assign_consume_def pop_Cons moves_def same_control_def split: sum.split)
qed

lemma push_moves:
  "moves 0 1 s (Inr (push_new v s))" "moves 0 1 s (ins_ident s)" "moves 0 0 s (Inr s)"
  by (simp_all add: moves_def same_control_def ins_ident_def)

lemmas effect_moves =
  on_two_moves compound_moves on_one_moves unplusplus_moves assign_moves array_assign_moves push_moves

lemmas effect_moves_Suc = effect_moves[unfolded One_nat_def]

lemma other_effect_moves:
  assumes "other_effect i = Some (p, q)" "p \<le> length (ValueStack s)"
  shows "moves p q s (exec_other P t i s)"
  using assms by (cases i) (auto simp: other_effect_def exec_other_def intro: effect_moves_Suc)

lemma effect_moves_ins:
  assumes "effect (tid t) = Some (p, q)" "p \<le> length (ValueStack s)"
  shows "moves p q s (exec_ins P t s)"
  using assms
  by (cases "tid t")
    (auto simp: effect_def exec_ins_def stack_instr_def intro: effect_moves_Suc other_effect_moves)

section \<open>The invariant of verified code\<close>

text \<open>
  The callers on the control stack: each one resumes with one object more than it had left
  below the parameters, and with the variables that were saved. \<open>base\<close> is the number of
  objects on the stack that belong to them.
\<close>

fun callers :: "annotation \<Rightarrow> return_context list \<Rightarrow> nat list list \<Rightarrow> nat \<Rightarrow> bool" where
  "callers A [] us base \<longleftrightarrow> us = [] \<and> base = 0"
| "callers A (rc # cs) us base \<longleftrightarrow>
     (\<exists>ls us' d. us = ls # us' \<and> annot A (ret_pc rc) = Some (plain (Suc d) (length ls)) \<and>
        d \<le> base \<and> callers A cs us' (base - d))"

definition in_frame :: "annotation \<Rightarrow> frame \<Rightarrow> executor \<Rightarrow> bool" where
  "in_frame A fr s \<longleftrightarrow>
     (\<exists>ls. Locals2 s = Some ls \<and> length ls = locals fr) \<and>
     (\<exists>us base. upperLocals2 s = (case saved fr of None \<Rightarrow> [] | Some n \<Rightarrow> [hd (upperLocals2 s)]) @ us \<and>
        (\<forall>n. saved fr = Some n \<longrightarrow> length (hd (upperLocals2 s)) = n) \<and>
        length (ValueStack s) = depth fr + base \<and> callers A (ControlStack s) us base)"

definition conforms :: "program \<Rightarrow> annotation \<Rightarrow> executor \<Rightarrow> bool" where
  "conforms P A s \<longleftrightarrow>
     length (Globals2 s) = nglobals P \<and> \<not> error_flag s \<and> \<not> finished s \<and>
     (\<exists>fr. annot A (PC s) = Some fr \<and> in_frame A fr s)"

text \<open>
  Where a step may end: in a fault of the values, stopped, or in an annotated frame.
\<close>

definition safe_run :: "program \<Rightarrow> annotation \<Rightarrow> run \<Rightarrow> bool" where
  "safe_run P A r \<longleftrightarrow>
     (case r of Inl f \<Rightarrow> f = Undefined_Value | Inr s' \<Rightarrow> error_flag s' \<or> finished s' \<or> conforms P A s')"

lemma in_frame_plain:
  "in_frame A (plain d l) s \<longleftrightarrow>
     (\<exists>ls. Locals2 s = Some ls \<and> length ls = l) \<and>
     (\<exists>base. length (ValueStack s) = d + base \<and> callers A (ControlStack s) (upperLocals2 s) base)"
  by (auto simp: in_frame_def plain_def)

lemma in_frame_saved:
  "in_frame A \<lparr>depth = d, locals = l, saved = Some n\<rparr> s \<longleftrightarrow>
     (\<exists>ls. Locals2 s = Some ls \<and> length ls = l) \<and>
     (\<exists>u us base. upperLocals2 s = u # us \<and> length u = n \<and>
        length (ValueStack s) = d + base \<and> callers A (ControlStack s) us base)"
  by (cases "upperLocals2 s") (auto simp: in_frame_def)

lemma frame_eq: "saved fr = None \<Longrightarrow> fr = plain (depth fr) (locals fr)"
  by (simp add: plain_def)

lemma safe_Undefined [simp]: "safe_run P A (Inl Undefined_Value)"
  by (simp add: safe_run_def)

lemma safe_stopped [simp]: "error_flag s' \<or> finished s' \<Longrightarrow> safe_run P A (Inr s')"
  by (auto simp: safe_run_def)

lemma case_targets_found:
  "case_targets data = Some ts \<Longrightarrow> \<exists>dest \<in> set ts. ins_casejmp_findlong data v = Some dest"
  "case_targets data = Some ts \<Longrightarrow> \<exists>dest \<in> set ts. ins_casejmp_findstring data b = Some dest"
  "case_targets data = Some ts \<Longrightarrow> \<exists>dest \<in> set ts. ins_casejmp_finddefault data = Some dest"
proof -
  show "case_targets data = Some ts \<Longrightarrow> \<exists>dest \<in> set ts. ins_casejmp_findlong data v = Some dest"
    by (induction data arbitrary: ts rule: case_targets.induct)
      (force simp: Let_def CASE_TYPE_LONG_def CASE_TYPE_DEFAULT_def split: if_splits)+
  show "case_targets data = Some ts \<Longrightarrow> \<exists>dest \<in> set ts. ins_casejmp_findstring data b = Some dest"
    by (induction data arbitrary: ts rule: case_targets.induct)
      (force simp: Let_def CASE_TYPE_LONG_def CASE_TYPE_DEFAULT_def split: if_splits)+
  show "case_targets data = Some ts \<Longrightarrow> \<exists>dest \<in> set ts. ins_casejmp_finddefault data = Some dest"
    by (induction data arbitrary: ts rule: case_targets.induct)
      (force simp: Let_def CASE_TYPE_LONG_def CASE_TYPE_DEFAULT_def split: if_splits)+
qed

lemma effect_safe:
  assumes "in_frame A fr s" and state: "length (Globals2 s) = nglobals P" "\<not> error_flag s" "\<not> finished s"
    and "saved fr = None"
    and "effect (tid t) = Some (p, q)" "p \<le> depth fr"
    and "annot A (PC s) = Some (plain (depth fr - p + q) (locals fr))"
  shows "safe_run P A (exec_ins P t s)"
proof -
  have fr: "in_frame A (plain (depth fr) (locals fr)) s" using assms(1,5) frame_eq by metis
  then have "p \<le> length (ValueStack s)" using assms(7) by (auto simp: in_frame_plain)
  then have "moves p q s (exec_ins P t s)" using assms(6) by (rule effect_moves_ins[rotated])
  moreover have "in_frame A (plain (depth fr - p + q) (locals fr)) s'"
    if "same_control s s'" "length (ValueStack s') = length (ValueStack s) - p + q" for s'
  proof -
    obtain ls base where "Locals2 s = Some ls" "length ls = locals fr"
      "length (ValueStack s) = depth fr + base" "callers A (ControlStack s) (upperLocals2 s) base"
      using fr by (auto simp: in_frame_plain)
    then show ?thesis using that assms(7) by (auto simp: in_frame_plain same_control_def intro!: exI[of _ base])
  qed
  ultimately show ?thesis
    using assms(2-4,8) by (auto simp: moves_def same_control_def safe_run_def conforms_def split: sum.splits)
qed

lemma call_safe:
  assumes "in_frame A fr s" and state: "length (Globals2 s) = nglobals P" "\<not> error_flag s" "\<not> finished s"
    and "saved fr = Some n"
    and "tid t = CTRL_JSR_USERFUNC" "annot A (unat (tlval t)) = Some entry"
    and "locals entry = 0" "saved entry = None" "depth entry \<le> depth fr" "locals fr = 0"
    and "annot A (PC s) = Some (plain (depth fr - depth entry + 1) n)"
  shows "safe_run P A (exec_ins P t s)"
proof -
  let ?lval = "tlval t" and ?max = "max_call_depth P"
  obtain u us base where u: "upperLocals2 s = u # us" "length u = n"
    "length (ValueStack s) = depth fr + base" "callers A (ControlStack s) us base"
    and ls: "Locals2 s = Some []"
    using assms(1,5,11) in_frame_saved[of A "depth fr" "locals fr" n s]
    by (cases fr) (auto simp: in_frame_def)
  let ?s = "ins_jsr_userfunc ?max ?lval s"
  have exec: "exec_ins P t s = Inr ?s" using assms(6) by (simp add: exec_ins_def)
  show ?thesis
  proof (cases "Suc (length (ControlStack s)) \<ge> ?max")
    case True
    then show ?thesis by (simp add: exec ins_jsr_userfunc_def Let_def)
  next
    case False
    have "callers A (ControlStack ?s) (u # us) (base + (depth fr - depth entry))"
      using False u(2,4) assms(12)
      by (auto simp: ins_jsr_userfunc_def intro!: exI[of _ "depth fr - depth entry"])
    moreover have "length (ValueStack ?s) = depth entry + (base + (depth fr - depth entry))"
      using False u(3) assms(10) by (simp add: ins_jsr_userfunc_def)
    ultimately have "in_frame A (plain (depth entry) 0) ?s"
      using False u(1) ls by (auto simp: in_frame_plain ins_jsr_userfunc_def)
    moreover have "entry = plain (depth entry) 0" using assms(8,9) by (simp add: plain_def)
    ultimately show ?thesis
      using False assms(2-4,7) by (auto simp: exec ins_jsr_userfunc_def safe_run_def conforms_def)
  qed
qed

lemma return_safe:
  assumes "in_frame A (plain 1 l) s" "length (Globals2 s) = nglobals P" "\<not> error_flag s" "\<not> finished s"
  shows "safe_run P A (Inr (ins_return s))"
proof (cases "ControlStack s")
  case Nil
  then show ?thesis by (simp add: ins_return_def)
next
  case (Cons rc cs)
  then obtain base ls us d where *: "length (ValueStack s) = 1 + base" "upperLocals2 s = ls # us"
    "annot A (ret_pc rc) = Some (plain (Suc d) (length ls))" "d \<le> base" "callers A cs us (base - d)"
    using assms(1) by (auto simp: in_frame_plain)
  have "in_frame A (plain (Suc d) (length ls)) (ins_return s)"
    using * Cons by (auto simp: in_frame_plain ins_return_def intro!: exI[of _ "base - d"])
  then show ?thesis using * Cons assms(2-4) by (auto simp: safe_run_def conforms_def ins_return_def)
qed

lemmas flow_ops =
  ins_jmpiftrue_def ins_jmpiffalse_def ins_goto_def ins_localvar_def ins_globalvar_def
  ins_assign_localvar_def ins_assign_globalvar_def ins_makeLocal_def ins_pop_param_def
  ins_pop_param_byref_def ins_leave_block_def ins_nextfor_def ins_casejmp_def ins_makelocal_def
  with_locals_def var_at_def var_index_def push_local_def pop_back_times_def

lemma plain_frame:
  "length (Globals2 s) = nglobals P \<Longrightarrow> \<not> error_flag s \<Longrightarrow> \<not> finished s \<Longrightarrow> annot A (PC s) = Some (plain d l) \<Longrightarrow>
   Locals2 s = Some ls \<Longrightarrow> length ls = l \<Longrightarrow> length (ValueStack s) = d + base \<Longrightarrow>
   callers A (ControlStack s) (upperLocals2 s) base \<Longrightarrow> safe_run P A (Inr s)"
  by (auto simp: safe_run_def conforms_def in_frame_plain)

lemma initfor_safe:
  assumes "length (Globals2 s) = nglobals P" "\<not> error_flag s" "\<not> finished s" "Locals2 s = Some ls" "length ls = l"
    and "length (ValueStack s) = d + base" "callers A (ControlStack s) (upperLocals2 s) base" "2 \<le> d"
    and "annot A (PC s) = Some (plain (d - 2) (l + 2))" "annot A (unat i) = Some (plain (d - 2) l)"
  shows "safe_run P A (ins_initfor i s)"
proof -
  obtain a b vs where vs: "ValueStack s = a # b # vs" "length vs = d - 2 + base"
    using assms(6,8) list_2[of "ValueStack s"] by auto
  then show ?thesis
    using assms
    by (auto simp: ins_initfor_def getObjRef_Cons with_locals_def Let_def deref_def
        split: option.split bool.split intro!: plain_frame[where base = base])
qed

lemma casejmp_safe:
  assumes "length (Globals2 s) = nglobals P" "\<not> error_flag s" "\<not> finished s" "Locals2 s = Some ls" "length ls = l"
    and "length (ValueStack s) = d + base" "callers A (ControlStack s) (upperLocals2 s) base" "1 \<le> d"
    and "case_targets data = Some ts" "\<forall>dest \<in> set ts. annot A dest = Some (plain (d - 1) l)"
  shows "safe_run P A (ins_casejmp data s)"
proof -
  obtain a vs where vs: "ValueStack s = a # vs" "length vs = d - 1 + base"
    using assms(6,8) list_1[of "ValueStack s"] by auto
  have "\<exists>dest \<in> set ts. (case deref s a of
      BLong v \<Rightarrow> ins_casejmp_findlong data v
    | BString bstring \<Rightarrow> ins_casejmp_findstring data bstring
    | _ \<Rightarrow> ins_casejmp_finddefault data) = Some dest"
    using case_targets_found[OF assms(9)] by (cases "deref s a") simp_all
  then obtain dest where "dest \<in> set ts" "ins_casejmp data s = Inr (s\<lparr>ValueStack := vs, PC := dest\<rparr>)"
    using vs by (auto simp: ins_casejmp_def pop_Cons)
  then show ?thesis using assms vs by (auto intro!: plain_frame[where base = base])
qed

lemma flow_other_safe:
  assumes "length (Globals2 s) = nglobals P" "\<not> error_flag s" "\<not> finished s" "Locals2 s = Some ls" "length ls = l"
    and "length (ValueStack s) = d + base" "callers A (ControlStack s) (upperLocals2 s) base"
    and "PC s = pc + 1" "t = instr P ! pc" "effect (tid t) = None" "flow_other P pc d l = Some ss"
    and ann: "list_all (\<lambda>(pc', fr'). annot A pc' = Some fr') ss"
  shows "safe_run P A (exec_ins P t s)"
proof (cases "tid t")
  case (TOK_OTHER i)
  have top: "1 \<le> d \<Longrightarrow> \<exists>a vs. ValueStack s = a # vs \<and> length vs = d - 1 + base"
    using assms(6) by (cases "ValueStack s") auto
  show ?thesis
  proof (cases i)
    case INS_CASEJMP
    with assms TOK_OTHER show ?thesis
      by (auto simp: exec_ins_def exec_other_def flow_other_def Let_def list_all_iff split: if_splits
          intro!: casejmp_safe[where d = d and base = base])
  next
    case RSV_RETURN
    with assms TOK_OTHER have "in_frame A (plain 1 l) s"
      by (auto simp: in_frame_plain flow_other_def Let_def split: if_splits)
    with assms RSV_RETURN TOK_OTHER show ?thesis
      by (simp add: exec_ins_def exec_other_def return_safe)
  next
    case INS_INITFOR
    with assms TOK_OTHER show ?thesis
      by (auto simp: exec_ins_def exec_other_def flow_other_def Let_def split: if_splits
          intro!: initfor_safe[where d = d and base = base])
  next
    case INS_NEXTFOR
    with assms TOK_OTHER show ?thesis
      by (auto simp: exec_ins_def exec_other_def flow_other_def flow_ops Let_def
          split: if_splits option.split bool.split intro!: plain_frame[where base = base])
  qed (insert assms TOK_OTHER top,
      auto simp: exec_ins_def exec_other_def flow_other_def flow_ops effect_def other_effect_def Let_def
        pop_Cons getObjRef_Cons ins_exit_def ins_progend_def new_obj_def
        split: if_splits option.split bool.split intro!: plain_frame[where base = base])
next
  case CTRL_MAKELOCAL
  let ?fr = "\<lparr>depth = d, locals = 0, saved = Some l\<rparr>"
  have "in_frame A ?fr (ins_makelocal s)"
    using assms unfolding in_frame_saved by (auto simp: ins_makelocal_def)
  moreover have "annot A (pc + 1) = Some ?fr"
    using assms CTRL_MAKELOCAL by (auto simp: flow_other_def Let_def)
  ultimately show ?thesis
    using assms CTRL_MAKELOCAL by (auto simp: exec_ins_def ins_makelocal_def safe_run_def conforms_def)
qed (insert assms,
    auto simp: exec_ins_def flow_other_def flow_ops effect_def Let_def stack_instr_def pop_def
      split: if_splits list.split intro!: plain_frame[where base = base])


text \<open>The debugger changes its own state and whether the machine runs, nothing else.\<close>

definition debug_only :: "executor \<Rightarrow> executor \<Rightarrow> bool" where
  "debug_only s s' \<longleftrightarrow> (\<exists>d h r. s' = s\<lparr>dbg := d, halt_flag := h, run_ok := r\<rparr>)"

lemma debug_only_intros:
  "debug_only s (s\<lparr>dbg := d\<rparr>)" "debug_only s (sethalt h (s\<lparr>dbg := d\<rparr>))" "debug_only s s"
proof -
  show "debug_only s s" unfolding debug_only_def
    by (intro exI[of _ "dbg s"] exI[of _ "halt_flag s"] exI[of _ "run_ok s"]) simp
  show "debug_only s (s\<lparr>dbg := d\<rparr>)" unfolding debug_only_def
    by (intro exI[of _ d] exI[of _ "halt_flag s"] exI[of _ "run_ok s"]) simp
  show "debug_only s (sethalt h (s\<lparr>dbg := d\<rparr>))"
    unfolding debug_only_def sethalt_def calcrunnable_def
    by (intro exI[of _ d] exI[of _ h] exI[of _ "\<not> error_flag s \<and> \<not> h"]) simp
qed

lemma debug_only_trans:
  assumes "debug_only s t" "debug_only t u"
  shows "debug_only s u"
proof -
  obtain d h r d' h' r' where "t = s\<lparr>dbg := d, halt_flag := h, run_ok := r\<rparr>"
    "u = t\<lparr>dbg := d', halt_flag := h', run_ok := r'\<rparr>"
    using assms unfolding debug_only_def by blast
  then have "u = s\<lparr>dbg := d', halt_flag := h', run_ok := r'\<rparr>" by simp
  then show ?thesis unfolding debug_only_def by blast
qed

lemma debug_prepare_only: "debug_only s (debug_prepare P s)"
  by (auto simp: debug_prepare_def set_state_def insert_tmp_def intro: debug_only_intros
      split: debug_state.split option.split)

lemma debug_check_only:
  "debug_check P s = Inl s' \<Longrightarrow> debug_only s s'" "debug_check P s = Inr s' \<Longrightarrow> debug_only s s'"
  using debug_prepare_only[of s P]
  by (auto simp: debug_check_def set_state_def Let_def split: if_splits
      intro: debug_only_intros debug_only_trans[OF debug_prepare_only debug_only_intros(2)]
        debug_only_trans[OF debug_prepare_only debug_only_intros(1)])

lemma debug_command_only: "debug_only s (debug_command c s)"
  by (auto simp: debug_command_def set_state_def intro: debug_only_intros split: debug_command.split)

lemma step_split:
  assumes "step P s s'"
  obtains (idle) s1 where "debug_only s s1" "s' = s1 \<or> s' = seterror True s1"
  | (exec) s1 where "debug_only s s1" "PC s < length (instr P)"
      "exec_ins P (instr P ! PC s) (s1\<lparr>PC := PC s + 1\<rparr>) = Inr s'"
proof -
  consider "execInstr P s = Inr s'" | c where "s' = debug_command c s"
    using assms by (auto simp: step_iff)
  then show thesis
  proof cases
    case 1
    then show thesis
      by (auto simp: execInstr_def split: if_splits sum.splits
          dest: debug_check_only intro: idle[OF debug_only_intros(3)] idle exec)
  next
    case 2
    then show thesis using debug_command_only idle by blast
  qed
qed

lemma debug_only_conforms: "debug_only s s' \<Longrightarrow> conforms P A s' = conforms P A s"
  by (auto simp: debug_only_def conforms_def in_frame_def split: option.splits)

lemma step_safe:
  assumes "verified P A" "conforms P A s"
  shows "PC s < length (instr P) \<and> safe_run P A (exec_ins P (instr P ! PC s) (s\<lparr>PC := PC s + 1\<rparr>))"
proof -
  let ?s = "s\<lparr>PC := PC s + 1\<rparr>" and ?t = "instr P ! PC s"
  obtain fr where fr: "annot A (PC s) = Some fr" "in_frame A fr s" and g: "length (Globals2 s) = nglobals P"
    and ok: "\<not> error_flag s" "\<not> finished s"
    using assms(2) by (auto simp: conforms_def)
  have pc: "PC s < length (instr P)" using fr(1) assms(1) by (auto simp: annot_def verified_def split: if_splits)
  then have flow: "flow_ok P A (PC s) fr"
    using fr(1) assms(1) by (force simp: annot_def verified_def list_all_iff split: if_splits)
  then obtain ss where ss: "flow P A (PC s) fr = Some ss" "list_all (\<lambda>(pc', fr'). annot A pc' = Some fr') ss"
    by (auto simp: flow_ok_def split: option.splits)
  have in_s: "in_frame A fr ?s" using fr(2) by (cases "saved fr") (simp_all add: in_frame_def)
  have "safe_run P A (exec_ins P ?t ?s)"
  proof (cases "saved fr")
    case (Some n)
    then show ?thesis
      using ss in_s g ok by (auto simp: flow_def Let_def split: if_splits option.splits intro!: call_safe)
  next
    case None
    note saved = None
    show ?thesis
    proof (cases "effect (tid ?t)")
      case (Some pq)
      then show ?thesis
        using saved ss in_s g ok by (cases pq) (auto simp: flow_def Let_def split: if_splits intro!: effect_safe)
    next
      case None
      obtain ls base where "Locals2 s = Some ls" "length ls = locals fr"
        "length (ValueStack s) = depth fr + base" "callers A (ControlStack s) (upperLocals2 s) base"
        using fr(2) saved frame_eq[OF saved] in_frame_plain[of A "depth fr" "locals fr" s] by auto
      then show ?thesis
        using None saved ss g ok
        by (intro flow_other_safe[where pc = "PC s" and ss = ss and d = "depth fr" and l = "locals fr"])
          (auto simp: flow_def Let_def)
    qed
  qed
  then show ?thesis using pc by simp
qed

lemma init_conforms:
  assumes "verified P A"
  shows "conforms P A (init_executor P)"
  using assms
  by (auto simp: verified_def conforms_def init_executor_def calcrunnable_def in_frame_plain)

lemma execInstr_safe:
  assumes "verified P A" "error_flag s \<or> finished s \<or> conforms P A s"
  shows "safe_run P A (execInstr P s)"
proof (cases "run_ok s \<and> PC s < length (instr P) \<and> \<not> error_flag s \<and> \<not> finished s")
  case False
  then show ?thesis by (auto simp: execInstr_def)
next
  case True
  then have conf: "conforms P A s" using assms(2) by simp
  show ?thesis
  proof (cases "debug_check P s")
    case (Inl s1)
    then show ?thesis
      using True conf debug_only_conforms[OF debug_check_only(1)[OF Inl]] by (simp add: execInstr_def safe_run_def)
  next
    case (Inr s1)
    have "conforms P A s1" using conf debug_only_conforms[OF debug_check_only(2)[OF Inr]] by simp
    moreover have "PC s1 = PC s" using debug_check_only(2)[OF Inr] by (auto simp: debug_only_def)
    ultimately show ?thesis
      using True Inr step_safe[OF assms(1), of s1] by (simp add: execInstr_def)
  qed
qed

lemma reachable_conforms:
  assumes "verified P A" "(step P)\<^sup>*\<^sup>* (init_executor P) s"
  shows "error_flag s \<or> finished s \<or> conforms P A s"
  using assms(2)
proof (induction rule: rtranclp_induct)
  case base
  then show ?case using init_conforms[OF assms(1)] by simp
next
  case (step s s')
  consider "execInstr P s = Inr s'" | c where "s' = debug_command c s"
    using step.hyps(2) by (auto simp: step_iff)
  then show ?case
  proof cases
    case 1
    then show ?thesis using execInstr_safe[OF assms(1) step.IH] by (simp add: safe_run_def)
  next
    case 2
    then show ?thesis
      using step.IH debug_command_only[of s c] debug_only_conforms[OF debug_command_only[of s c], of P A]
      by (auto simp: debug_only_def)
  qed
qed

end
