(* ===== verification/Execution.thy ===== *)
theory Execution
  imports Verifier
begin

text \<open>
  What programs can rely on when the machine runs them: references stay valid, the call
  depth is bounded, parameters passed by value are isolated, loops and case jumps go where
  the source says, and the operators compute what \<open>Instructions\<close> says.
\<close>

section \<open>References\<close>

definition refs :: "executor \<Rightarrow> nat set" where
  "refs s = set (ValueStack s) \<union> (case Locals2 s of None \<Rightarrow> {} | Some ls \<Rightarrow> set ls) \<union>
     \<Union> (set (map set (upperLocals2 s))) \<union> set (Globals2 s)"

definition refs_valid :: "executor \<Rightarrow> bool" where
  "refs_valid s \<longleftrightarrow> refs s \<subseteq> {..<length (store s)}"

lemma store_simps [simp]:
  "store (seterror e s) = store s" "ValueStack (seterror e s) = ValueStack s"
  "Locals2 (seterror e s) = Locals2 s" "upperLocals2 (seterror e s) = upperLocals2 s"
  "Globals2 (seterror e s) = Globals2 s" "ControlStack (seterror e s) = ControlStack s"
  "length (store (setimp a v s)) = length (store s)"
  "store (push_ref a s) = store s" "store (push_new v s) = store s @ [v]"
  by (simp_all add: seterror_def calcrunnable_def setimp_def push_new_def new_obj_def push_ref_def)

lemma new_obj_simps [simp]:
  "store (new_obj v s) = store s @ [v]" "ValueStack (new_obj v s) = ValueStack s"
  "Locals2 (new_obj v s) = Locals2 s" "upperLocals2 (new_obj v s) = upperLocals2 s"
  "Globals2 (new_obj v s) = Globals2 s" "ControlStack (new_obj v s) = ControlStack s"
  by (simp_all add: new_obj_def)

text \<open>
  The references of a step: those there were and the objects the step made.
\<close>

definition grows :: "executor \<Rightarrow> run \<Rightarrow> bool" where
  "grows s r \<longleftrightarrow>
     (case r of
        Inl _ \<Rightarrow> True
      | Inr s' \<Rightarrow> length (store s) \<le> length (store s') \<and>
          refs s' \<subseteq> refs s \<union> {length (store s)..<length (store s')})"

lemma grows_pop:
  "(\<And>a vs. ValueStack s = a # vs \<Longrightarrow> grows s (f a (s\<lparr>ValueStack := vs\<rparr>))) \<Longrightarrow> grows s (pop s f)"
  by (auto simp: pop_def grows_def split: list.split)

lemma grows_getObjRef:
  assumes "getObjRef s = (a, s1)"
  shows "length (store s) \<le> length (store s1)"
    "insert a (refs s1) \<subseteq> refs s \<union> {length (store s)..<length (store s1)}"
  using assms by (auto simp: getObjRef_def refs_def split: list.splits option.splits)

lemma grows_Inl [simp]: "grows s (Inl f)"
  by (simp add: grows_def)

lemma refs_simps [simp]:
  "refs (setimp a v s) = refs s" "refs (seterror e s) = refs s"
  "refs (push_ref a s) = insert a (refs s)" "refs (push_new v s) = insert (length (store s)) (refs s)"
  "refs (new_obj v s) = refs s" "refs (s\<lparr>PC := pc\<rparr>) = refs s"
  "refs (s\<lparr>ControlStack := cs\<rparr>) = refs s" "refs (s\<lparr>run_ok := b\<rparr>) = refs s"
  "refs (s\<lparr>finished := b\<rparr>) = refs s"
  by (auto simp: refs_def)

lemma refs_stack:
  "ValueStack s = a # vs \<Longrightarrow> refs s = insert a (refs (s\<lparr>ValueStack := vs\<rparr>))"
  by (auto simp: refs_def)

lemma grows_stack:
  "grows s (on_two f s)" "grows s (on_one g s)" "grows s (ins_in s)" "grows s (ins_assign s)"
  "grows s (ins_assign_consume s)" "grows s (compound h s)" "grows s (ins_unplusplus g s)"
  "grows s (ins_unplusplus_post g s)" "grows s (ins_consume s)" "grows s (ins_array_assign_consume s)"
  "grows s (ins_set_member name s)" "grows s (ins_set_member_consume name s)"
  "grows s (ins_addmember2 name s)" "grows s (ins_addmember_assign name s)"
  "grows s (ins_insert_into s)" "grows s (ins_removemember s)" "grows s (ins_checkmember s)"
  "grows s (ins_dictionary_addmember s)"
  "grows s (ins_ident s)" "grows s (ins_declareArray s)" "grows s (ins_jmpiftrue i s)"
  "grows s (ins_jmpiffalse i s)" "grows s (ins_casejmp data s)"
  by (auto simp: stack_ops ins_dictionary_addmember_def ins_jmpiftrue_def ins_jmpiffalse_def ins_casejmp_def
      pop_def getObjRef_def refs_stack grows_def
      split: list.split option.split prod.split value_split sum.split)

lemma nth_refs:
  "Locals2 s = Some ls \<Longrightarrow> i < length ls \<Longrightarrow> ls ! i \<in> refs s"
  "i < length (Globals2 s) \<Longrightarrow> Globals2 s ! i \<in> refs s"
  by (auto simp: refs_def)

lemma grows_vars:
  "grows s (ins_localvar i s)" "grows s (ins_globalvar i s)" "grows s (ins_assign_localvar i s)"
  "grows s (ins_assign_globalvar i s)"
  by (auto simp: ins_localvar_def ins_globalvar_def ins_assign_localvar_def ins_assign_globalvar_def
      with_locals_def var_at_def pop_def refs_stack nth_refs grows_def split: list.split option.split)

lemma refs_locals:
  "Locals2 s = Some ls \<Longrightarrow> refs (s\<lparr>Locals2 := Some (ls @ xs)\<rparr>) = refs s \<union> set xs"
  "Locals2 s = Some ls \<Longrightarrow> refs (s\<lparr>Locals2 := Some (take n ls)\<rparr>) \<subseteq> refs s"
  "refs (s\<lparr>Globals2 := take n (Globals2 s)\<rparr>) \<subseteq> refs s"
  by (auto simp: refs_def dest: in_set_takeD)

lemma getObjRef_refs:
  assumes "getObjRef s = (a, s1)"
  shows "x \<in> refs s1 \<Longrightarrow> x \<in> refs s \<or> length (store s) \<le> x \<and> x < length (store s1)"
    "a \<in> refs s \<or> length (store s) \<le> a \<and> a < length (store s1)"
  using grows_getObjRef(2)[OF assms] by auto

lemma push_local_grows:
  assumes "a \<in> refs s0 \<union> {length (store s0)..<length (store s)}"
    and "length (store s0) \<le> length (store s)" "refs s \<subseteq> refs s0 \<union> {length (store s0)..<length (store s)}"
  shows "grows s0 (push_local a s)"
  using assms by (auto simp: push_local_def with_locals_def grows_def refs_locals split: option.split)

lemma grows_frames:
  "grows s (ins_makeLocal s)" "grows s (ins_pop_param s)" "grows s (ins_pop_param_byref s)"
  "grows s (ins_get_arg s)" "grows s (Inr (ins_makelocal s))" "grows s (Inr (ins_jsr_userfunc m i s))"
  "grows s (Inr (ins_gosub i s))" "grows s (Inr (ins_return s))" "grows s (ins_leave_block i s)"
proof -
  show "grows s (ins_makeLocal s)"
    by (auto simp: ins_makeLocal_def with_locals_def grows_def refs_def Let_def split: option.split)
  show pop: "grows s (ins_pop_param s)"
    unfolding ins_pop_param_def by (auto split: prod.split intro!: push_local_grows
      dest: grows_getObjRef(1) getObjRef_refs(1), (auto dest: getObjRef_refs(2) grows_getObjRef(1))?)
  show "grows s (ins_pop_param_byref s)"
  proof -
    obtain a s1 where g: "getObjRef s = (a, s1)" by fastforce
    have "grows s (push_local a s1)"
      using getObjRef_refs[OF g] grows_getObjRef(1)[OF g]
      by (intro push_local_grows) (auto dest: getObjRef_refs(1)[OF g])
    then show ?thesis by (simp add: ins_pop_param_byref_def g)
  qed
  show "grows s (ins_get_arg s)"
    using pop by (auto simp: ins_get_arg_def intro!: push_local_grows split: list.split)
  show "grows s (Inr (ins_makelocal s))"
    by (auto simp: ins_makelocal_def grows_def refs_def split: option.splits)
  show "grows s (Inr (ins_jsr_userfunc m i s))"
    by (auto simp: ins_jsr_userfunc_def grows_def refs_def Let_def)
  show "grows s (Inr (ins_gosub i s))"
    by (auto simp: ins_gosub_def ins_makelocal_def grows_def refs_def Let_def split: option.splits)
  show "grows s (Inr (ins_return s))"
    by (auto simp: ins_return_def grows_def refs_def Let_def split: list.splits option.splits)
  show "grows s (ins_leave_block i s)"
    by (auto simp: ins_leave_block_def pop_back_times_def grows_def Let_def split: option.split
        dest: refs_locals(2,3)[THEN subsetD])
qed

lemma grows_for: "grows s (ins_initfor i s)" "grows s (ins_nextfor i s)"
proof -
  show "grows s (ins_nextfor i s)"
    by (auto simp: ins_nextfor_def with_locals_def grows_def Let_def split: option.split bool.split)
  show "grows s (ins_initfor i s)"
  proof -
    obtain e s1 b s2 where "getObjRef s = (e, s1)" "getObjRef s1 = (b, s2)" by fastforce
    note g = this
    have "length (store s) \<le> length (store s2)"
      using grows_getObjRef(1)[OF g(1)] grows_getObjRef(1)[OF g(2)] by simp
    moreover have "refs s2 \<subseteq> refs s \<union> {length (store s)..<length (store s2)}"
    proof
      fix x assume "x \<in> refs s2"
      then show "x \<in> refs s \<union> {length (store s)..<length (store s2)}"
        using getObjRef_refs(1)[OF g(1), of x] getObjRef_refs(1)[OF g(2), of x]
          grows_getObjRef(1)[OF g(1)] grows_getObjRef(1)[OF g(2)] by auto
    qed
    ultimately show ?thesis
      using g
      by (auto simp: ins_initfor_def with_locals_def grows_def Let_def refs_def split: option.split bool.split)
  qed
qed

lemma grows_simple:
  "grows s (Inr s)" "grows s (Inr (push_new v s))" "grows s (ins_goto i s)"
  "grows s (Inr (ins_exit s))" "grows s (Inr (ins_progend s))"
  by (auto simp: grows_def ins_goto_def ins_exit_def ins_progend_def)

lemma grows_exec_ins: "grows s (exec_ins P t s)"
proof -
  note all = grows_stack grows_vars grows_frames grows_for grows_simple
  have "grows s (exec_other P t i s)" for i
    by (cases i) (simp_all add: exec_other_def all)
  then show ?thesis
    by (cases "tid t") (simp_all add: exec_ins_def stack_instr_def all)
qed

lemma refs_valid_grows: "grows s (Inr s') \<Longrightarrow> refs_valid s \<Longrightarrow> refs_valid s'"
  unfolding grows_def refs_valid_def by fastforce

lemma debug_only_refs: "debug_only s s' \<Longrightarrow> refs s' = refs s \<and> store s' = store s"
  by (auto simp: debug_only_def refs_def)

lemma refs_valid_step:
  assumes "step P s s'" "refs_valid s"
  shows "refs_valid s'"
  using assms(1)
proof (cases rule: step_split)
  case (idle s1)
  then show ?thesis using assms(2) debug_only_refs[of s s1] by (auto simp: refs_valid_def)
next
  case (exec s1)
  have "refs_valid (s1\<lparr>PC := PC s + 1\<rparr>)"
    using assms(2) debug_only_refs[OF exec(1)] by (simp add: refs_valid_def)
  then show ?thesis using refs_valid_grows grows_exec_ins exec(3) by metis
qed

section \<open>Call depth\<close>

definition same_calls :: "executor \<Rightarrow> run \<Rightarrow> bool" where
  "same_calls s r \<longleftrightarrow> (case r of Inl _ \<Rightarrow> True | Inr s' \<Rightarrow> ControlStack s' = ControlStack s)"

lemma calls_stack:
  "same_calls s (on_two f s)" "same_calls s (on_one g s)" "same_calls s (ins_in s)" "same_calls s (ins_assign s)"
  "same_calls s (ins_assign_consume s)" "same_calls s (compound h s)" "same_calls s (ins_unplusplus g s)"
  "same_calls s (ins_unplusplus_post g s)" "same_calls s (ins_consume s)" "same_calls s (ins_array_assign_consume s)"
  "same_calls s (ins_set_member name s)" "same_calls s (ins_set_member_consume name s)"
  "same_calls s (ins_addmember2 name s)" "same_calls s (ins_addmember_assign name s)"
  "same_calls s (ins_insert_into s)" "same_calls s (ins_removemember s)" "same_calls s (ins_checkmember s)"
  "same_calls s (ins_dictionary_addmember s)"
  "same_calls s (ins_ident s)" "same_calls s (ins_declareArray s)" "same_calls s (ins_jmpiftrue i s)"
  "same_calls s (ins_jmpiffalse i s)" "same_calls s (ins_casejmp data s)"
  by (auto simp: stack_ops ins_dictionary_addmember_def ins_jmpiftrue_def ins_jmpiffalse_def ins_casejmp_def
      pop_def getObjRef_def same_calls_def
      split: list.split option.split prod.split value_split sum.split)

lemma getObjRef_calls: "getObjRef s = (a, s1) \<Longrightarrow> ControlStack s1 = ControlStack s"
  by (auto simp: getObjRef_def split: list.splits)

lemma calls_frames:
  "same_calls s (ins_localvar i s)" "same_calls s (ins_globalvar i s)" "same_calls s (ins_assign_localvar i s)"
  "same_calls s (ins_assign_globalvar i s)"
  "same_calls s (ins_makeLocal s)" "same_calls s (ins_pop_param s)" "same_calls s (ins_pop_param_byref s)"
  "same_calls s (ins_get_arg s)" "same_calls s (Inr (ins_makelocal s))"
  "same_calls s (ins_leave_block i s)" "same_calls s (ins_initfor i s)" "same_calls s (ins_nextfor i s)"
  "same_calls s (Inr s)" "same_calls s (Inr (push_new v s))" "same_calls s (ins_goto i s)"
  "same_calls s (Inr (ins_exit s))" "same_calls s (Inr (ins_progend s))"
  by (auto simp: flow_ops ins_get_arg_def ins_initfor_def ins_exit_def ins_progend_def Let_def pop_def same_calls_def
      split: list.split option.split prod.split bool.split dest!: getObjRef_calls)

definition calls_or_returns :: "BTokenId \<Rightarrow> bool" where
  "calls_or_returns i \<longleftrightarrow>
     i = CTRL_JSR_USERFUNC \<or> i = TOK_OTHER RSV_RETURN \<or> i = TOK_OTHER RSV_GOSUB"

lemma same_calls_exec_ins: "\<not> calls_or_returns (tid t) \<Longrightarrow> same_calls s (exec_ins P t s)"
proof -
  have "i \<noteq> RSV_RETURN \<Longrightarrow> i \<noteq> RSV_GOSUB \<Longrightarrow> same_calls s (exec_other P t i s)" for i
    by (cases i) (simp_all add: exec_other_def calls_stack calls_frames, simp_all add: same_calls_def)
  then show "\<not> calls_or_returns (tid t) \<Longrightarrow> same_calls s (exec_ins P t s)"
    by (cases "tid t")
      (simp_all add: exec_ins_def stack_instr_def calls_stack calls_frames calls_or_returns_def,
       simp_all add: same_calls_def)
qed

definition no_gosub :: "program \<Rightarrow> bool" where
  "no_gosub P \<longleftrightarrow> list_all (\<lambda>t. tid t \<noteq> TOK_OTHER RSV_GOSUB) (instr P)"

lemma step_call_depth:
  assumes "step P s s'" "no_gosub P" "0 < max_call_depth P" "length (ControlStack s) < max_call_depth P"
  shows "length (ControlStack s') < max_call_depth P"
  using assms(1)
proof (cases rule: step_split)
  case (idle s1)
  then show ?thesis using assms(4) by (auto simp: debug_only_def)
next
  case (exec s1)
  let ?t = "instr P ! PC s" and ?s = "s1\<lparr>PC := PC s + 1\<rparr>"
  have calls: "ControlStack s1 = ControlStack s" using exec(1) by (auto simp: debug_only_def)
  have "tid ?t \<noteq> TOK_OTHER RSV_GOSUB" using exec(2) assms(2) by (simp add: no_gosub_def list_all_length)
  then consider "\<not> calls_or_returns (tid ?t)" | "tid ?t = CTRL_JSR_USERFUNC" | "tid ?t = TOK_OTHER RSV_RETURN"
    by (auto simp: calls_or_returns_def)
  then show ?thesis
  proof cases
    case 1
    then show ?thesis using same_calls_exec_ins[OF 1, of ?s P] exec calls assms(4) by (simp add: same_calls_def)
  next
    case 2
    then show ?thesis using exec calls assms(3) by (auto simp: exec_ins_def ins_jsr_userfunc_def Let_def)
  next
    case 3
    then show ?thesis
      using exec calls assms(4) by (auto simp: exec_ins_def exec_other_def ins_return_def Let_def split: list.splits)
  qed
qed

section \<open>Operators on the machine\<close>

definition stack_of :: "executor \<Rightarrow> stack" where
  "stack_of s = map (deref s) (ValueStack s)"

text \<open>What the evaluation of an expression leaves alone.\<close>

definition extends :: "executor \<Rightarrow> executor \<Rightarrow> bool" where
  "extends s s' \<longleftrightarrow>
     same_control s s' \<and> Globals2 s' = Globals2 s \<and> run_ok s' = run_ok s \<and>
     (\<exists>new. store s' = store s @ new)"

lemma extends_refl: "extends s s"
  by (simp add: extends_def same_control_def)

lemma extends_trans: "extends s t \<Longrightarrow> extends t u \<Longrightarrow> extends s u"
  by (auto simp: extends_def same_control_def)

lemma extends_deref: "extends s s' \<Longrightarrow> a < length (store s) \<Longrightarrow> deref s' a = deref s a"
  by (auto simp: extends_def deref_def nth_append)

lemma values_push:
  assumes "refs_valid s" "ValueStack s = as @ vs"
  shows "stack_of (push_new v (s\<lparr>ValueStack := vs\<rparr>)) = v # map (deref s) vs"
    "extends s (push_new v (s\<lparr>ValueStack := vs\<rparr>))"
proof -
  have "\<forall>a \<in> set vs. a < length (store s)" using assms by (auto simp: refs_valid_def refs_def)
  then show "stack_of (push_new v (s\<lparr>ValueStack := vs\<rparr>)) = v # map (deref s) vs"
    by (simp add: stack_of_def deref_def nth_append)
  show "extends s (push_new v (s\<lparr>ValueStack := vs\<rparr>))"
    by (simp add: extends_def same_control_def)
qed

lemma on_two_values:
  assumes "refs_valid s" "stack_of s = r # l # st" "f [r, l] = Some [v]"
  shows "\<exists>s'. on_two f s = Inr s' \<and> stack_of s' = v # st \<and> extends s s'"
proof -
  obtain a b vs where vs: "ValueStack s = [a, b] @ vs" "r = deref s a" "l = deref s b" "st = map (deref s) vs"
    using assms(2) by (auto simp: stack_of_def Cons_eq_map_conv)
  then have "on_two f s = Inr (push_new v (s\<lparr>ValueStack := vs\<rparr>))"
    using assms(3) by (simp add: on_two_def pop_def)
  then show ?thesis using values_push[OF assms(1) vs(1), of v] vs(4) by simp
qed

lemma on_one_values:
  assumes "refs_valid s" "stack_of s = w # st"
  shows "\<exists>s'. on_one f s = Inr s' \<and> stack_of s' = f w # st \<and> extends s s'"
proof -
  obtain a vs where vs: "ValueStack s = [a] @ vs" "w = deref s a" "st = map (deref s) vs"
    using assms(2) by (auto simp: stack_of_def Cons_eq_map_conv)
  then have "on_one f s = Inr (push_new (f w) (s\<lparr>ValueStack := vs\<rparr>))"
    by (simp add: on_one_def getObjRef_def deref_def)
  then show ?thesis using values_push[OF assms(1) vs(1), of "f w"] vs(3) by simp
qed

lemma push_values:
  assumes "refs_valid s"
  shows "\<exists>s'. Inr (push_new v s) = (Inr s' :: run) \<and> stack_of s' = v # stack_of s \<and> extends s s'"
  using values_push[OF assms, of "[]" "ValueStack s" v] by (simp add: stack_of_def)

lemma binary_shape:
  assumes "stack_instr t = Some f" "effect (tid t) = Some (2, 1)" "f st = Some st'"
  shows "\<exists>r l rest v. st = r # l # rest \<and> f [r, l] = Some [v] \<and> st' = v # rest"
proof (cases "\<exists>r l rest. st = r # l # rest")
  case True
  then show ?thesis using assms by (auto simp: stack_instr_def effect_def split: BTokenId.splits)
next
  case False
  then have "st = [] \<or> (\<exists>r. st = [r])" by (metis neq_Nil_conv)
  then show ?thesis using assms by (auto simp: stack_instr_def effect_def split: BTokenId.splits)
qed

lemma stack_instr_step:
  assumes "stack_instr t = Some f" "refs_valid s" "f (stack_of s) = Some st"
  shows "\<exists>s'. exec_ins P t s = Inr s' \<and> stack_of s' = st \<and> extends s s'"
proof (cases "effect (tid t) = Some (2, 1)")
  case True
  obtain r l rest v where "stack_of s = r # l # rest" "f [r, l] = Some [v]" "st = v # rest"
    using binary_shape[OF assms(1) True assms(3)] by auto
  moreover have "exec_ins P t s = on_two f s"
    using assms(1) True by (auto simp: exec_ins_def stack_instr_def effect_def split: BTokenId.splits)
  ultimately show ?thesis using on_two_values[OF assms(2)] by auto
next
  case False
  show ?thesis
    using assms False push_values[OF assms(2)] extends_refl[of s]
    by (cases "stack_of s"; cases "tid t")
      (auto simp: stack_instr_def effect_def exec_ins_def ins_long_def ins_double_def ins_string_def ins_nop_def
        intro: on_one_values[where f = inverse] on_one_values[where f = bitnot]
          on_one_values[where f = "\<lambda>v. int_bool (\<not> isTrue v)"])
qed

text \<open>Straight-line code.\<close>

fun exec_list :: "program \<Rightarrow> token list \<Rightarrow> executor \<Rightarrow> run" where
  "exec_list P [] s = Inr s"
| "exec_list P (t # ts) s =
     (case exec_ins P t s of Inl f \<Rightarrow> Inl f | Inr s' \<Rightarrow> exec_list P ts s')"

lemma refs_valid_exec_ins: "exec_ins P t s = Inr s' \<Longrightarrow> refs_valid s \<Longrightarrow> refs_valid s'"
  using grows_exec_ins[of s P t] refs_valid_grows by simp

lemma exec_list_refines:
  assumes "list_all (\<lambda>t. stack_instr t \<noteq> None) ts" "refs_valid s"
    and "exec_tokens ext ts (u, stack_of s) = Some (u', st)"
  shows "\<exists>s'. exec_list P ts s = Inr s' \<and> stack_of s' = st \<and> extends s s'"
  using assms
proof (induction ts arbitrary: s)
  case Nil
  then show ?case by (simp add: extends_refl)
next
  case (Cons t ts)
  then obtain f where f: "stack_instr t = Some f" by auto
  with Cons.prems(3) obtain st1 where st1: "f (stack_of s) = Some st1"
    by (auto simp: exec_token_def Option.bind_eq_Some_conv split: option.splits)
  obtain s1 where s1: "exec_ins P t s = Inr s1" "stack_of s1 = st1" "extends s s1"
    using stack_instr_step[OF f Cons.prems(2) st1] by blast
  have "exec_tokens ext ts (u, stack_of s1) = Some (u', st)"
    using Cons.prems(3) f st1 s1(2) by (simp add: exec_token_def)
  then obtain s' where "exec_list P ts s1 = Inr s'" "stack_of s' = st" "extends s1 s'"
    using Cons.IH[of s1] Cons.prems(1) refs_valid_exec_ins[OF s1(1) Cons.prems(2)] by auto
  then show ?case using s1 extends_trans by auto
qed

section \<open>Case blocks\<close>

text \<open>The entry the compiler writes for a label, and a whole block.\<close>

datatype case_label = Label_Long int32 | Label_String string

definition case_entry :: "nat \<Rightarrow> case_label \<Rightarrow> string" where
  "case_entry dest label =
     le_bytes 2 dest @
     (case label of
        Label_Long v \<Rightarrow> char_of CASE_TYPE_LONG # le_bytes 4 (unat v)
      | Label_String str \<Rightarrow> char_of (length str) # str)"

definition case_block :: "(nat \<times> case_label) list \<Rightarrow> nat \<Rightarrow> string" where
  "case_block entries default_posn =
     concat (map (\<lambda>(dest, label). case_entry dest label) entries) @
     le_bytes 2 default_posn @ [char_of CASE_TYPE_DEFAULT]"

fun case_lookup :: "(nat \<times> case_label) list \<Rightarrow> case_label \<Rightarrow> nat \<Rightarrow> nat" where
  "case_lookup [] label default_posn = default_posn"
| "case_lookup ((dest, l) # entries) label default_posn =
     (if l = label then dest else case_lookup entries label default_posn)"

text \<open>What the compiler accepts: labels of at most 253 characters, and targets of 16 bits.\<close>

definition case_entries_ok :: "(nat \<times> case_label) list \<Rightarrow> bool" where
  "case_entries_ok entries \<longleftrightarrow>
     list_all (\<lambda>(dest, label). dest < 65536 \<and>
       (case label of Label_Long _ \<Rightarrow> True | Label_String str \<Rightarrow> length str < 254)) entries"

lemma le_bytes_2: "le_bytes 2 n = [char_of (n mod 256), char_of (n div 256 mod 256)]"
  by (simp add: le_bytes_def numeral_2_eq_2)

lemma byte_char_of: "byte (char_of n) = n mod 256"
  by (simp add: byte_def)

lemma case_offset_le_bytes: "n < 65536 \<Longrightarrow> case_offset (char_of (n mod 256)) (char_of (n div 256 mod 256)) = n"
  by (simp add: case_offset_def byte_char_of)

lemma base_256:
  fixes m :: nat
  assumes "m < 2 ^ 32"
  shows "m = m mod 256 + 256 * (m div 256 mod 256) + 65536 * (m div 65536 mod 256) +
    16777216 * (m div 16777216 mod 256)"
proof -
  define a b c where abc: "a = m div 256" "b = a div 256" "c = b div 256"
  have d: "m div 65536 = b" "m div 16777216 = c" "c mod 256 = c"
    using assms by (simp_all add: abc div_mult2_eq[symmetric])
  have "m = 256 * a + m mod 256" "a = 256 * b + a mod 256" "b = 256 * c + b mod 256"
    unfolding abc by simp_all
  then show ?thesis unfolding d abc(1)[symmetric] by linarith
qed

lemma le_bytes_4_inj:
  assumes "le_bytes 4 m = le_bytes 4 n" "m < 2 ^ 32" "n < 2 ^ 32"
  shows "m = n"
proof -
  have "[0..<4] = [0, 1, 2, 3::nat]" by (simp add: upt_rec)
  then have "m mod 256 = n mod 256" "m div 256 mod 256 = n div 256 mod 256"
    "m div 65536 mod 256 = n div 65536 mod 256" "m div 16777216 mod 256 = n div 16777216 mod 256"
    using assms(1)[THEN arg_cong[where f = "map byte"]] by (simp_all add: le_bytes_def byte_char_of)
  then show ?thesis using base_256[OF assms(2)] base_256[OF assms(3)] by simp
qed

lemma length_le_bytes [simp]: "length (le_bytes k n) = k"
  by (simp add: le_bytes_def)

lemma case_entries_Cons:
  "case_entries_ok ((dest, label) # es) \<longleftrightarrow>
     dest < 65536 \<and> (case label of Label_Long _ \<Rightarrow> True | Label_String str \<Rightarrow> length str < 254) \<and>
     case_entries_ok es"
  by (simp add: case_entries_ok_def)

lemma case_offset_bytes: "n < 65536 \<Longrightarrow> case_offset (char_of n) (char_of (n div 256)) = n"
  by (simp add: case_offset_def byte_char_of)

lemmas case_block_simps =
  case_block_def case_entry_def le_bytes_2 byte_char_of CASE_TYPE_LONG_def CASE_TYPE_DEFAULT_def
  case_entries_Cons case_offset_bytes

lemma unat_int32: "unat (v :: int32) < 2 ^ 32"
  using unsigned_less[of v] by simp

lemma le_bytes_int32: "le_bytes 4 (unat v) = le_bytes 4 (unat w) \<longleftrightarrow> v = w" for v w :: int32
  using le_bytes_4_inj[OF _ unat_int32 unat_int32, of v w] by (auto simp: word_unat_eq_iff)

lemma findlong_block:
  "case_entries_ok es \<Longrightarrow> d < 65536 \<Longrightarrow>
   ins_casejmp_findlong (case_block es d @ rest) v = Some (case_lookup es (Label_Long v) d)"
proof (induction es)
  case Nil
  then show ?case by (simp add: case_block_simps)
next
  case (Cons e es)
  then show ?case
    by (cases e; cases "snd e") (auto simp: case_block_simps le_bytes_int32)
qed

lemma findstring_block:
  "case_entries_ok es \<Longrightarrow> d < 65536 \<Longrightarrow>
   ins_casejmp_findstring (case_block es d @ rest) b = Some (case_lookup es (Label_String b) d)"
proof (induction es)
  case Nil
  then show ?case by (simp add: case_block_simps)
next
  case (Cons e es)
  then show ?case by (cases e; cases "snd e") (auto simp: case_block_simps)
qed

lemma finddefault_block:
  "case_entries_ok es \<Longrightarrow> d < 65536 \<Longrightarrow> ins_casejmp_finddefault (case_block es d @ rest) = Some d"
proof (induction es)
  case Nil
  then show ?case by (simp add: case_block_simps)
next
  case (Cons e es)
  then show ?case by (cases e; cases "snd e") (auto simp: case_block_simps)
qed

lemma case_targets_block:
  "case_entries_ok es \<Longrightarrow> d < 65536 \<Longrightarrow> case_targets (case_block es d @ rest) = Some (map fst es @ [d])"
proof (induction es)
  case Nil
  then show ?case by (simp add: case_block_simps)
next
  case (Cons e es)
  then show ?case by (cases e; cases "snd e") (auto simp: case_block_simps Let_def)
qed

section \<open>Loops\<close>

text \<open>
  The rounds of a \<^verbatim>\<open>for\<close> loop whose body is a function on the state: the value of the
  iterator at the start of each round, and the state after the loop; at most \<open>fuel\<close> rounds.
\<close>

fun for_loop :: "nat \<Rightarrow> (executor \<Rightarrow> executor) \<Rightarrow> int32 \<Rightarrow> nat \<Rightarrow> executor \<Rightarrow> (BObjectImp list \<times> executor) option" where
  "for_loop 0 body again itr s = None"
| "for_loop (Suc fuel) body again itr s =
     (case ins_nextfor again (body s) of
        Inl _ \<Rightarrow> None
      | Inr s' \<Rightarrow>
          if PC s' = unat again
          then map_option (\<lambda>(vs, t). (deref s itr # vs, t)) (for_loop fuel body again itr s')
          else Some ([deref s itr], s'))"

text \<open>
  A body that leaves the two variables of the loop alone and does not jump to its own start.
\<close>

definition body_keeps :: "nat \<Rightarrow> int32 \<Rightarrow> (executor \<Rightarrow> executor) \<Rightarrow> bool" where
  "body_keeps itr again body \<longleftrightarrow>
     (\<forall>s. Locals2 (body s) = Locals2 s \<and> length (store s) \<le> length (store (body s)) \<and>
        deref (body s) itr = deref s itr \<and> deref (body s) (itr + 1) = deref s (itr + 1) \<and>
        PC (body s) \<noteq> unat again)"

text \<open>The state of a loop with the iterator at \<open>i\<close> and the end \<open>n\<close>.\<close>

definition looping :: "nat \<Rightarrow> int32 \<Rightarrow> int32 \<Rightarrow> executor \<Rightarrow> bool" where
  "looping itr i n s \<longleftrightarrow>
     (\<exists>ls. Locals2 s = Some (ls @ [itr, itr + 1])) \<and> itr + 1 < length (store s) \<and>
     deref s itr = BLong i \<and> deref s (itr + 1) = BLong n"

lemma bobj_ge_long: "bobj_ge (BLong n) (BLong i) = Some (sint i \<le> sint n)"
  by (simp add: bobj_ge_def bobj_lt_def dispatch_simps not_less)

lemma looping_next:
  assumes "looping itr i n s"
  shows "\<exists>s'. ins_nextfor again s = Inr s' \<and> looping itr (i + 1) n s' \<and>
    PC s' = (if sint (i + 1) \<le> sint n then unat again else PC s)"
proof -
  obtain ls where ls: "Locals2 s = Some (ls @ [itr, itr + 1])" and len: "itr + 1 < length (store s)"
    and vals: "deref s itr = BLong i" "deref s (itr + 1) = BLong n"
    using assms by (auto simp: looping_def)
  let ?s = "setimp itr (BLong (i + 1)) s"
  have "deref ?s itr = BLong (i + 1)" "deref ?s (itr + 1) = BLong n"
    using len vals by (simp_all add: setimp_def deref_def)
  then show ?thesis
    using ls len vals
    by (auto simp: ins_nextfor_def with_locals_def nth_append selfPlusPlus_def bobj_ge_long looping_def deref_def)
qed

lemma looping_body:
  "looping itr i n s \<Longrightarrow> body_keeps itr again body \<Longrightarrow> looping itr i n (body s)"
  by (auto simp: looping_def body_keeps_def order_less_le_trans)

lemma for_loop_rounds:
  assumes "body_keeps itr again body" "looping itr i n s" "sint i \<le> sint n" "sint n < 2 ^ 31 - 1"
  shows "\<exists>t. for_loop (nat (sint n - sint i) + 1) body again itr s =
    Some (map (\<lambda>k. BLong (word_of_int k)) [sint i..sint n], t)"
  using assms(2,3)
proof (induction "nat (sint n - sint i)" arbitrary: i s)
  case 0
  then have eq: "sint i = sint n" by simp
  have step_i: "sint (i + 1) = sint i + 1"
    using eq assms(4) sint32_bounds[of i] by (simp add: sint_word_ariths signed_take_bit_int_eq_self)
  obtain s' where "ins_nextfor again (body s) = Inr s'" "PC s' = PC (body s)"
    using looping_next[OF looping_body[OF 0(2) assms(1)], of again] step_i eq by auto
  then show ?case
    using 0(2) eq assms(1) signed_word_eqI[OF eq] unfolding body_keeps_def looping_def by simp
next
  case (Suc k)
  have step_i: "sint (i + 1) = sint i + 1"
    using Suc.prems assms(4) sint32_bounds[of i] by (simp add: sint_word_ariths signed_take_bit_int_eq_self)
  have le: "sint (i + 1) \<le> sint n" and k: "k = nat (sint n - sint (i + 1))"
    using Suc.hyps(2) step_i by linarith+
  obtain s' where s': "ins_nextfor again (body s) = Inr s'" "looping itr (i + 1) n s'" "PC s' = unat again"
    using looping_next[OF looping_body[OF Suc.prems(1) assms(1)], of again] le by auto
  obtain t where "for_loop (nat (sint n - sint (i + 1)) + 1) body again itr s' =
      Some (map (\<lambda>k. BLong (word_of_int k)) [sint (i + 1)..sint n], t)"
    using Suc.hyps(1)[OF k s'(2) le] by blast
  moreover have "nat (sint n - sint i) + 1 = Suc (nat (sint n - sint (i + 1)) + 1)"
    using Suc.hyps(2) k by simp
  moreover have "[sint i..sint n] = sint i # [sint (i + 1)..sint n]"
    using Suc.prems(2) step_i by (simp add: upto_rec1)
  ultimately show ?case using s' Suc.prems(1) by (simp add: looping_def)
qed

lemma for_loop_at_limit:
  assumes "body_keeps itr again body" "looping itr i n s" "sint n = 2 ^ 31 - 1"
  shows "for_loop fuel body again itr s = None"
  using assms(2)
proof (induction fuel arbitrary: i s)
  case (Suc fuel)
  have "sint (i + 1) \<le> sint n" using assms(3) sint32_bounds[of "i + 1"] by simp
  then obtain s' where "ins_nextfor again (body s) = Inr s'" "looping itr (i + 1) n s'" "PC s' = unat again"
    using looping_next[OF looping_body[OF Suc.prems assms(1)], of again] by auto
  then show ?case using Suc.IH by simp
qed simp

section \<open>A sample program\<close>

text \<open>
  \<^verbatim>\<open>for i := 1 to 3; g := twice( i ); endfor\<close> with a function \<^verbatim>\<open>twice\<close> that
  takes its parameter by value and doubles it.
\<close>

definition ins :: "BTokenId \<Rightarrow> int32 \<Rightarrow> token" where
  "ins i v = \<lparr>tid = i, ttype = TYP_OPERAND, tlval = v, tdval = dzero False, tokval = [], nparams = 0,
    module = 0, userfunc = None\<rparr>"

definition sample_program :: program where
  "sample_program =
     \<lparr>instr =
        [ins TOK_LONG 1, ins TOK_LONG 3, ins (TOK_OTHER INS_INITFOR) 9,
         ins TOK_LOCALVAR 0, ins CTRL_MAKELOCAL 0, ins CTRL_JSR_USERFUNC 10,
         ins INS_ASSIGN_GLOBALVAR 0, ins (TOK_OTHER INS_NEXTFOR) 3,
         ins (TOK_OTHER CTRL_LEAVE_BLOCK) 2, ins (TOK_OTHER CTRL_PROGEND) 0,
         ins (TOK_OTHER INS_POP_PARAM) 0, ins TOK_LOCALVAR 0, ins TOK_LONG 2, ins TOK_MULT 0,
         ins (TOK_OTHER RSV_RETURN) 0],
      symbols = [], dbg_ins_statementbegin = [True, False, False, True], nglobals = 1, max_call_depth = 100\<rparr>"

definition sample_annotation :: annotation where
  "sample_annotation =
     map Some
       [plain 0 0, plain 1 0, plain 2 0,
        plain 0 2, plain 1 2, \<lparr>depth = 1, locals = 0, saved = Some 2\<rparr>,
        plain 1 2, plain 0 2,
        plain 0 2, plain 0 0,
        plain 1 0, plain 0 1, plain 1 1, plain 2 1,
        plain 1 1]"

lemma sample_verified: "verified sample_program sample_annotation"
  by code_simp

lemma sample_run:
  "(case exec_steps 40 sample_program (init_executor sample_program) of
      Inl _ \<Rightarrow> False | Inr s \<Rightarrow> finished s \<and> deref s 0 = BLong 6)"
  by code_simp

section \<open>Properties\<close>

text \<open>
  C1. Code that agrees with its annotation never takes a reference from an empty stack, never
  uses a variable that does not exist, never casts an object to a wrong class and never leaves
  the program: a step that C++ does not define can only come from the values of the operands,
  and the next state fits the annotation again unless the machine stopped.
\<close>

theorem verified_code_is_safe:
  assumes "verified P A" "(step P)\<^sup>*\<^sup>* (init_executor P) s" "\<not> error_flag s" "\<not> finished s"
  shows "PC s < length (instr P) \<and>
    (case execInstr P s of
       Inl f \<Rightarrow> f = Undefined_Value
     | Inr s' \<Rightarrow> error_flag s' \<or> finished s' \<or> conforms P A s')"
proof -
  have "conforms P A s" using reachable_conforms[OF assms(1,2)] assms(3,4) by simp
  then show ?thesis
    using step_safe[OF assms(1)] execInstr_safe[OF assms(1), of s] by (auto simp: safe_run_def split: sum.splits)
qed

lemma verified_code_is_safe_witness: "PC (init_executor sample_program) < length (instr sample_program)"
  by (rule verified_code_is_safe[OF sample_verified, THEN conjunct1])
    (simp_all add: init_executor_def calcrunnable_def)

text \<open>
  C11. As long as only instructions of the model are executed, of verified code or not, every
  variable and every entry of the stack refers to an object of the store. Two things are not in
  the model: \<^verbatim>\<open>foreach\<close>, which keeps a null reference in a variable while it starts,
  and the counting of references, since the store never gives an object back.
\<close>

theorem references_stay_valid:
  assumes "(step P)\<^sup>*\<^sup>* (init_executor P) s"
  shows "refs_valid s"
  using assms
proof (induction rule: rtranclp_induct)
  case base
  show ?case by (auto simp: refs_valid_def refs_def init_executor_def calcrunnable_def)
next
  case (step s s')
  then show ?case using refs_valid_step by blast
qed

lemma references_stay_valid_witness: "refs_valid (init_executor sample_program)"
  by (rule references_stay_valid[of sample_program]) simp

text \<open>
  C25. Calls of user functions never make the control stack as deep as the configured
  maximum: the call that would is an error. (\<^verbatim>\<open>gosub\<close> does not check the depth.)
\<close>

theorem call_depth_bounded:
  assumes "(step P)\<^sup>*\<^sup>* (init_executor P) s" "no_gosub P" "0 < max_call_depth P"
  shows "length (ControlStack s) < max_call_depth P"
  using assms(1)
proof (induction rule: rtranclp_induct)
  case base
  show ?case using assms(3) by (simp add: init_executor_def calcrunnable_def)
next
  case (step s s')
  then show ?case using step_call_depth[OF _ assms(2,3)] by blast
qed

lemma call_depth_bounded_witness: "length (ControlStack (init_executor sample_program)) < 100"
proof -
  have "no_gosub sample_program" "max_call_depth sample_program = 100"
    by (simp_all add: no_gosub_def sample_program_def ins_def)
  then show ?thesis using call_depth_bounded[of sample_program "init_executor sample_program"] by simp
qed

text \<open>
  C12. A parameter passed by value is a new object: whatever is assigned to it later, every
  object the caller can see keeps its value. A parameter passed by reference is the object of
  the caller: an assignment to it is an assignment to the caller's variable.
\<close>

theorem parameter_passing:
  assumes "refs_valid s" "ValueStack s = a # vs" "Locals2 s = Some ls"
  shows "(\<exists>s' b. ins_pop_param s = Inr s' \<and> Locals2 s' = Some (ls @ [b]) \<and> deref s' b = deref s a \<and>
      (\<forall>v. \<forall>c \<in> refs s. deref (setimp b v s') c = deref s c)) \<and>
    (\<exists>s'. ins_pop_param_byref s = Inr s' \<and> Locals2 s' = Some (ls @ [a]) \<and>
      (\<forall>v. deref (setimp a v s') a = v))"
proof -
  have "c < length (store s)" if "c \<in> refs s" for c using assms(1) that by (auto simp: refs_valid_def)
  moreover have "a \<in> refs s" using assms(2) by (simp add: refs_def)
  ultimately show ?thesis
    using assms(2,3)
    by (auto simp: ins_pop_param_def ins_pop_param_byref_def getObjRef_Cons push_local_def with_locals_def
        setimp_def deref_def nth_append)
qed

lemma parameter_passing_witness:
  "\<exists>s' b. ins_pop_param (push_new (BLong 7) (init_executor sample_program)) = Inr s' \<and>
    Locals2 s' = Some [b] \<and> deref s' b = BLong 7"
  using parameter_passing[of "push_new (BLong 7) (init_executor sample_program)" 1 "[]" "[]"]
  by (auto simp: init_executor_def calcrunnable_def refs_valid_def refs_def sample_program_def deref_def
      push_new_def new_obj_def push_ref_def)

text \<open>
  C10. On constants and operators the machine refines the machine on values: when the values
  have a defined result, the instructions run without a fault, put this result on the stack
  and change no object that existed. So code of constants and operators with a defined result
  leaves the same values as its folded form, unless reals are folded by an operator other than
  \<open>+ - * /\<close> (\<open>real_safe\<close>), which the folding gets wrong.
\<close>

theorem folded_code_on_machine:
  assumes "list_all (\<lambda>t. stack_instr t \<noteq> None) ts" "list_all (\<lambda>t. stack_instr t \<noteq> None) ts'"
    and "optimize_binary_operations ts = Done ts'" "real_safe ts" "refs_valid s"
    and "exec_tokens (\<lambda>t cfg. None) ts ((), stack_of s) = Some ((), st)"
  shows "\<exists>t t'. exec_list P ts s = Inr t \<and> exec_list P ts' s = Inr t' \<and>
    stack_of t = st \<and> stack_of t' = st \<and> extends s t \<and> extends s t'"
proof -
  have "exec_tokens (\<lambda>t cfg. None) ts' ((), stack_of s) = Some ((), st)"
    using binary_pass_sound assms(3,4,6) unfolding optimize_binary_operations_def by metis
  then show ?thesis
    using exec_list_refines[OF assms(1,5,6)] exec_list_refines[OF assms(2,5), of "\<lambda>t cfg. None" "()" "()"]
    by blast
qed

lemma folded_code_on_machine_witness:
  "\<exists>t. exec_list sample_program sample_sum (init_executor sample_program) = Inr t \<and> stack_of t = [BLong 4]"
proof -
  let ?ts' = "[sample_token\<lparr>tlval := 10\<rparr>, sample_token\<lparr>tlval := 6\<rparr>,
    sample_token\<lparr>tid := TOK_SUBTRACT, ttype := TYP_OPERATOR\<rparr>]"
  have "optimize_binary_operations sample_sum = Done ?ts'" "real_safe sample_sum"
    by (simp_all add: optimize_binary_operations_def optimize_binary_from.simps sample_defs
        optimize_pair_def optimize_long_operation_def real_safe_def)
  moreover have "exec_tokens (\<lambda>t cfg. None) sample_sum ((), []) = Some ((), [BLong 4])"
    by (simp add: sample_defs exec_token_def stack_instr_def ins_long_def operator_defs dispatch_simps)
  moreover have "stack_of (init_executor sample_program) = []" "refs_valid (init_executor sample_program)"
    by (auto simp: stack_of_def init_executor_def calcrunnable_def refs_valid_def refs_def sample_program_def)
  moreover have "list_all (\<lambda>t. stack_instr t \<noteq> None) sample_sum" "list_all (\<lambda>t. stack_instr t \<noteq> None) ?ts'"
    by (simp_all add: sample_defs stack_instr_def)
  ultimately show ?thesis
    using folded_code_on_machine[of sample_sum ?ts' "init_executor sample_program" "[BLong 4]" sample_program]
    by auto
qed

text \<open>
  C26. A case jump in the block the compiler writes goes to the first entry that carries the
  value, and to the default when no entry does or the value is no integer and no string.
\<close>

theorem case_jump:
  assumes "case_entries_ok es" "d < 65536" "ValueStack s = a # vs"
  shows "ins_casejmp (case_block es d @ rest) s =
    Inr (s\<lparr>ValueStack := vs,
      PC := (case deref s a of
          BLong v \<Rightarrow> case_lookup es (Label_Long v) d
        | BString b \<Rightarrow> case_lookup es (Label_String b) d
        | _ \<Rightarrow> d)\<rparr>)"
  using assms(3) findlong_block[OF assms(1,2)] findstring_block[OF assms(1,2)] finddefault_block[OF assms(1,2)]
  by (auto simp: ins_casejmp_def pop_Cons split: value_split)

lemma case_jump_witness:
  "map_sum id PC (ins_casejmp (case_block [(5, Label_Long 1), (9, Label_String ''one'')] 12)
     (push_new (BString ''one'') (init_executor sample_program))) = Inr 9"
proof -
  let ?s = "push_new (BString ''one'') (init_executor sample_program)"
  have "case_entries_ok [(5, Label_Long 1), (9, Label_String ''one'')]" by (simp add: case_entries_ok_def)
  moreover have "ValueStack ?s = [1]" "deref ?s 1 = BString ''one''"
    by (simp_all add: init_executor_def calcrunnable_def sample_program_def deref_def push_new_def
        new_obj_def push_ref_def)
  ultimately show ?thesis using case_jump[of _ 12 ?s 1 "[]" "[]"] by simp
qed

text \<open>
  C27. A \<^verbatim>\<open>for\<close> loop over integers runs its body once for each value from the start to
  the end, in order, and ends, whatever the body does to other objects; with the largest
  integer as its end it never ends, for the iterator wraps around.
\<close>

theorem for_loop_visits:
  assumes "body_keeps itr again body" "looping itr i n s" "sint i \<le> sint n"
  shows "if sint n < 2 ^ 31 - 1
    then \<exists>t. for_loop (nat (sint n - sint i) + 1) body again itr s =
           Some (map (\<lambda>k. BLong (word_of_int k)) [sint i..sint n], t)
    else \<forall>fuel. for_loop fuel body again itr s = None"
  using for_loop_rounds[OF assms] for_loop_at_limit[OF assms(1,2)] sint32_bounds[of n] by auto

definition loop_state :: executor where
  "loop_state = (init_executor sample_program)\<lparr>store := [BLong 1, BLong 3], Locals2 := Some [0, 1]\<rparr>"

lemma for_loop_visits_witness:
  "\<exists>t. for_loop 3 (\<lambda>s. s\<lparr>PC := 1\<rparr>) 5 0 loop_state = Some ([BLong 1, BLong 2, BLong 3], t)"
proof -
  have "body_keeps 0 5 (\<lambda>s. s\<lparr>PC := 1\<rparr>)" by (simp add: body_keeps_def deref_def)
  moreover have "looping 0 1 3 loop_state" by (simp add: looping_def loop_state_def deref_def)
  moreover have "[1..3] = [1, 2, 3::int]" by (simp add: upto.simps)
  ultimately show ?thesis using for_loop_visits[of 0 5 "\<lambda>s. s\<lparr>PC := 1\<rparr>" 1 3 loop_state] by simp
qed

text \<open>
  C28. A breakpoint stops the script before its instruction: only the debugger's own state and
  the halt change. When the debugger lets it run again, the same instruction executes, once,
  although the breakpoint is still set.
\<close>

theorem breakpoint_stops_once:
  assumes "PC s < length (instr P)" "run_ok s" "\<not> error_flag s" "\<not> finished s" "\<not> halt_flag s"
    and "debugging (dbg s)" "debug_state (dbg s) = DEBUG_STATE_RUN"
    and "PC s \<in> set (breakpoints (dbg s))" "bp_skip (dbg s) \<noteq> Some (PC s)"
  shows "\<exists>s1. execInstr P s = Inr s1 \<and> halt_flag s1 \<and> \<not> run_ok s1 \<and> debug_only s s1 \<and>
    (\<exists>s2. debug_only s s2 \<and>
      execInstr P (debug_command dbg_run s1) =
        exec_ins P (instr P ! PC s) (s2\<lparr>PC := PC s + 1\<rparr>))"
proof -
  obtain s1 where s1: "debug_check P s = Inl s1" "halt_flag s1" "\<not> run_ok s1" "error_flag s1 = error_flag s"
      "debugging (dbg s1)" "bp_skip (dbg s1) = Some (PC s)"
    using assms by (auto simp: debug_check_def debug_prepare_def Let_def sethalt_def calcrunnable_def)
  have only: "debug_only s s1" using debug_check_only(1)[OF s1(1)] .
  let ?r = "debug_command dbg_run s1"
  have same: "PC s1 = PC s" "finished s1 = finished s" using only by (auto simp: debug_only_def)
  have r: "run_ok ?r" "debugging (dbg ?r)" "debug_state (dbg ?r) = DEBUG_STATE_RUN" "PC ?r = PC s"
      "bp_skip (dbg ?r) = Some (PC s)" "\<not> error_flag ?r" "\<not> finished ?r"
    using assms s1 same by (auto simp: debug_command_def set_state_def sethalt_def calcrunnable_def)
  obtain s2 where s2: "debug_check P ?r = Inr s2"
    using r by (auto simp: debug_check_def debug_prepare_def Let_def)
  have "debug_only s s2"
    using debug_only_trans[OF only debug_only_trans[OF debug_command_only debug_check_only(2)[OF s2]]] .
  then show ?thesis
    using assms s1 s2 r only by (auto simp: execInstr_def)
qed

definition stopped_state :: executor where
  "stopped_state = (init_executor sample_program)
     \<lparr>dbg := \<lparr>debugging = True, debug_state = DEBUG_STATE_RUN, breakpoints = [0], tmpbreakpoints = [],
        bp_skip = None\<rparr>\<rparr>"

lemma breakpoint_stops_once_witness:
  "\<exists>s1. execInstr sample_program stopped_state = Inr s1 \<and> \<not> run_ok s1"
  using breakpoint_stops_once[of stopped_state sample_program]
  by (auto simp: stopped_state_def init_executor_def calcrunnable_def sample_program_def)

end
