(* ===== verification/Scheduling.thy ===== *)
theory Scheduling
  imports Scheduler Execution
begin

text \<open>
  What the scheduler keeps and what it promises: every live executor is in exactly one list,
  sleepers wake when their time has come, waiting scripts get their events, and a turn of the
  scheduler ends when the scripts do not wake each other.
\<close>

section \<open>Well-formed schedulers\<close>

definition turn_list :: "ex_id option \<Rightarrow> sched \<Rightarrow> ex_id list" where
  "turn_list cur s = (case cur of None \<Rightarrow> [] | Some ex \<Rightarrow> [ex]) @ runlist s @ ranlist s"

definition held :: "sched \<Rightarrow> ex_id list" where
  "held s = map (snd \<circ> snd) (holdlist s)"

definition listed :: "sched \<Rightarrow> HoldListType \<Rightarrow> ex_id \<Rightarrow> bool" where
  "listed s l ex \<longleftrightarrow> (\<exists>u. scripts s ex = Some u \<and> in_hold_list u = l)"

text \<open>
  The executor that runs, if any, is in no list; its mark is \<open>NO_LIST\<close> as for those that
  wait for their turn.
\<close>

fun in_list :: "ex_id option \<Rightarrow> sched \<Rightarrow> HoldListType \<Rightarrow> ex_id set" where
  "in_list cur s NO_LIST = set (turn_list cur s)"
| "in_list cur s TIMEOUT_LIST = set (held s)"
| "in_list cur s NOTIMEOUT_LIST = notimeoutholdlist s"
| "in_list cur s DEBUGGER_LIST = debuggerholdlist s"

definition wf_lists :: "ex_id option \<Rightarrow> sched \<Rightarrow> bool" where
  "wf_lists cur s \<longleftrightarrow>
     distinct (turn_list cur s) \<and> distinct (held s) \<and>
     (\<forall>l ex. ex \<in> in_list cur s l \<longleftrightarrow> listed s l ex)"

definition wf_holds :: "sched \<Rightarrow> bool" where
  "wf_holds s \<longleftrightarrow>
     sorted (map (fst \<circ> snd) (holdlist s)) \<and> distinct (map fst (holdlist s)) \<and>
     (\<forall>(i, c, ex) \<in> set (holdlist s). i < next_itr s \<and>
        (\<exists>u. scripts s ex = Some u \<and> hold_itr u = i \<and> sleep_until_clock u = c \<and> c \<noteq> 0 \<and> blocked u))"

definition wf_pids :: "sched \<Rightarrow> bool" where
  "wf_pids s \<longleftrightarrow>
     PID_MIN \<le> next_pid s \<and> next_pid s \<le> INT_MAX \<and>
     (\<forall>p ex. pidlist s p = Some ex \<longleftrightarrow> (\<exists>u. scripts s ex = Some u \<and> pid u = p)) \<and>
     (\<forall>p \<in> dom (pidlist s). PID_MIN \<le> p \<and> p \<le> INT_MAX) \<and>
     (\<forall>ex \<in> dom (scripts s). ex < next_ex s)"

definition parent_of :: "sched \<Rightarrow> ex_id \<Rightarrow> ex_id option" where
  "parent_of s ex = Option.bind (scripts s ex) pParent"

definition child_of :: "sched \<Rightarrow> ex_id \<Rightarrow> ex_id option" where
  "child_of s ex = Option.bind (scripts s ex) pChild"

definition wf_family :: "sched \<Rightarrow> bool" where
  "wf_family s \<longleftrightarrow>
     (\<forall>ex child. child_of s ex = Some child \<longrightarrow> child < next_ex s) \<and>
     (\<forall>ex parent. parent_of s ex = Some parent \<longrightarrow> child_of s parent = Some ex)"

definition wf_sched :: "ex_id option \<Rightarrow> sched \<Rightarrow> bool" where
  "wf_sched cur s \<longleftrightarrow> wf_lists cur s \<and> wf_holds s \<and> wf_pids s \<and> wf_family s"

lemmas wf_defs = wf_lists_def wf_holds_def wf_pids_def wf_family_def

lemma set_ex_simps [simp]:
  "scripts (set_ex ex u s) = (scripts s)(ex \<mapsto> u)" "runlist (set_ex ex u s) = runlist s"
  "ranlist (set_ex ex u s) = ranlist s" "holdlist (set_ex ex u s) = holdlist s"
  "notimeoutholdlist (set_ex ex u s) = notimeoutholdlist s" "debuggerholdlist (set_ex ex u s) = debuggerholdlist s"
  "pidlist (set_ex ex u s) = pidlist s" "next_pid (set_ex ex u s) = next_pid s"
  "next_ex (set_ex ex u s) = next_ex s" "next_itr (set_ex ex u s) = next_itr s"
  "priority_divide (set_ex ex u s) = priority_divide s"
  "runaway_script_threshold (set_ex ex u s) = runaway_script_threshold s"
  "turn_list cur (set_ex ex u s) = turn_list cur s" "held (set_ex ex u s) = held s"
  by (simp_all add: set_ex_def turn_list_def held_def)

lemma listed_set_ex [simp]:
  "listed (set_ex ex u s) l ey \<longleftrightarrow> (if ey = ex then in_hold_list u = l else listed s l ey)"
  by (simp add: listed_def)

text \<open>An executor that is moved to the list of its new mark, or taken out of its list and deleted.\<close>

lemma wf_lists_move:
  assumes "wf_lists cur s" "scripts s' = (scripts s)(ex \<mapsto> u)" "distinct (turn_list cur' s')" "distinct (held s')"
    and "\<And>l. in_list cur' s' l = (in_list cur s l - {ex}) \<union> (if in_hold_list u = l then {ex} else {})"
  shows "wf_lists cur' s'"
  using assms by (auto simp: wf_lists_def listed_def)

lemma wf_lists_delete:
  assumes "wf_lists cur s" "scripts s' = (scripts s)(ex := None)" "distinct (turn_list cur' s')" "distinct (held s')"
    and "\<And>l. in_list cur' s' l = in_list cur s l - {ex}"
  shows "wf_lists cur' s'"
  using assms by (auto simp: wf_lists_def listed_def)

text \<open>A change of an executor that the lists, the processes and the family do not see.\<close>

definition minor :: "uoexec \<Rightarrow> uoexec \<Rightarrow> bool" where
  "minor u u' \<longleftrightarrow>
     in_hold_list u' = in_hold_list u \<and> pid u' = pid u \<and> pParent u' = pParent u \<and> pChild u' = pChild u \<and>
     (in_hold_list u = TIMEOUT_LIST \<longrightarrow>
        hold_itr u' = hold_itr u \<and> sleep_until_clock u' = sleep_until_clock u \<and> blocked u' = blocked u)"

lemma minor_refl [simp]: "minor u u"
  by (simp add: minor_def)

lemma minor_trans: "minor u v \<Longrightarrow> minor v w \<Longrightarrow> minor u w"
  by (auto simp: minor_def)

lemma minor_simps [simp]:
  "minor u (u\<lparr>machine := m\<rparr>)" "minor u (u\<lparr>critical := b\<rparr>)" "minor u (u\<lparr>priority := n\<rparr>)"
  "minor u (u\<lparr>warn_on_runaway := b\<rparr>)" "minor u (u\<lparr>max_eventqueue_size := n\<rparr>)"
  "minor u (u\<lparr>events := es\<rparr>)" "minor u (u\<lparr>instr_cycles := w\<rparr>)" "minor u (u\<lparr>debug_level := n\<rparr>)"
  "minor u (u\<lparr>warn_runaway_on_cycle := w\<rparr>)" "minor u (u\<lparr>runaway_cycles := w\<rparr>)"
  "minor u (u\<lparr>can_access_offline_mobiles := b\<rparr>)" "minor u (u\<lparr>auxsvc_assume_string := b\<rparr>)"
  "minor u (push_value v u)"
  by (simp_all add: minor_def push_value_def)

lemma wf_pids_minor:
  "wf_pids s \<Longrightarrow> scripts s ex = Some u \<Longrightarrow> pid u' = pid u \<Longrightarrow> wf_pids (set_ex ex u' s)"
  by (auto simp: wf_pids_def dom_def)

lemma wf_family_minor:
  assumes "wf_family s" "scripts s ex = Some u" "pParent u' = pParent u" "pChild u' = pChild u"
  shows "wf_family (set_ex ex u' s)"
proof -
  have "parent_of (set_ex ex u' s) = parent_of s" "child_of (set_ex ex u' s) = child_of s"
    using assms by (auto simp: parent_of_def child_of_def fun_eq_iff)
  then show ?thesis using assms(1) by (simp add: wf_family_def)
qed

lemma in_list_set_ex [simp]: "in_list cur (set_ex ex u s) l = in_list cur s l"
  by (cases l) simp_all

lemma wf_lists_minor:
  assumes "wf_lists cur s" "scripts s ex = Some u" "in_hold_list u' = in_hold_list u"
  shows "wf_lists cur (set_ex ex u' s)"
  using assms by (auto simp: wf_lists_def listed_def)

lemma wf_not_listed:
  "wf_lists cur s \<Longrightarrow> scripts s ex = Some u \<Longrightarrow> ex \<in> in_list cur s l \<longleftrightarrow> in_hold_list u = l"
  by (auto simp: wf_lists_def listed_def)

lemma wf_minor:
  assumes "wf_sched cur s" "scripts s ex = Some u" "minor u u'"
  shows "wf_sched cur (set_ex ex u' s)"
proof -
  have "in_hold_list u = TIMEOUT_LIST" if "(i, c, ex) \<in> set (holdlist s)" for i c
  proof -
    have "ex \<in> in_list cur s TIMEOUT_LIST" using that by (force simp: held_def)
    then show ?thesis using assms(1,2) wf_not_listed[of cur s ex u TIMEOUT_LIST] by (auto simp: wf_sched_def)
  qed
  then have "wf_holds (set_ex ex u' s)"
    using assms by (fastforce simp: wf_sched_def wf_holds_def minor_def)
  then show ?thesis
    using assms wf_lists_minor wf_pids_minor wf_family_minor by (auto simp: wf_sched_def minor_def)
qed

section \<open>Operations keep schedulers well-formed\<close>

lemma listed_unique: "listed s l ex \<Longrightarrow> listed s l' ex \<longleftrightarrow> l' = l"
  by (auto simp: listed_def)

lemma wf_family_lists:
  "wf_family (s\<lparr>runlist := a\<rparr>) = wf_family s" "wf_family (s\<lparr>ranlist := a\<rparr>) = wf_family s"
  "wf_family (s\<lparr>holdlist := h\<rparr>) = wf_family s" "wf_family (s\<lparr>notimeoutholdlist := X\<rparr>) = wf_family s"
  "wf_family (s\<lparr>debuggerholdlist := X\<rparr>) = wf_family s" "wf_family (s\<lparr>next_itr := n\<rparr>) = wf_family s"
  "wf_pids (s\<lparr>runlist := a\<rparr>) = wf_pids s" "wf_pids (s\<lparr>ranlist := a\<rparr>) = wf_pids s"
  "wf_pids (s\<lparr>holdlist := h\<rparr>) = wf_pids s" "wf_pids (s\<lparr>notimeoutholdlist := X\<rparr>) = wf_pids s"
  "wf_pids (s\<lparr>debuggerholdlist := X\<rparr>) = wf_pids s" "wf_pids (s\<lparr>next_itr := n\<rparr>) = wf_pids s"
  "wf_holds (s\<lparr>runlist := a\<rparr>) = wf_holds s" "wf_holds (s\<lparr>ranlist := a\<rparr>) = wf_holds s"
  "wf_holds (s\<lparr>notimeoutholdlist := X\<rparr>) = wf_holds s"
  "wf_holds (s\<lparr>debuggerholdlist := X\<rparr>) = wf_holds s"
  by (simp_all add: wf_family_def wf_pids_def wf_holds_def parent_of_def child_of_def)

lemma wf_holds_other: "wf_holds s \<Longrightarrow> ex \<notin> set (held s) \<Longrightarrow> wf_holds (set_ex ex u s)"
  by (force simp: wf_holds_def held_def)

text \<open>An executor with the mark \<open>TIMEOUT_LIST\<close> has one entry in \<open>holdlist\<close>, named by its iterator.\<close>

lemma held_entry:
  assumes "wf_sched cur s" "scripts s ex = Some u" "in_hold_list u = TIMEOUT_LIST"
  shows "(hold_itr u, sleep_until_clock u, ex) \<in> set (holdlist s)"
proof -
  have "ex \<in> set (held s)" using assms wf_not_listed[of cur s ex u TIMEOUT_LIST] by (auto simp: wf_sched_def)
  then obtain i c where "(i, c, ex) \<in> set (holdlist s)" by (auto simp: held_def)
  then show ?thesis using assms(1,2) by (fastforce simp: wf_sched_def wf_holds_def)
qed

lemma held_filter:
  assumes "wf_sched cur s" "scripts s ex = Some u" "in_hold_list u = TIMEOUT_LIST"
  defines "hs \<equiv> filter (\<lambda>(i, _). i \<noteq> hold_itr u) (holdlist s)"
  shows "set hs = {(i, c, ey) \<in> set (holdlist s). ey \<noteq> ex}"
    "set (map (snd \<circ> snd) hs) = set (held s) - {ex}" "distinct (map (snd \<circ> snd) hs)"
proof -
  have entry: "(hold_itr u, sleep_until_clock u, ex) \<in> set (holdlist s)" using held_entry[OF assms(1-3)] .
  have d: "distinct (map fst (holdlist s))" "distinct (map (snd \<circ> snd) (holdlist s))"
    using assms(1) by (auto simp: wf_sched_def wf_holds_def wf_lists_def held_def)
  have ent: "i = hold_itr u \<longleftrightarrow> ey = ex" if "(i, c, ey) \<in> set (holdlist s)" for i c ey
    using d entry that unfolding distinct_map inj_on_def by fastforce
  show "set hs = {(i, c, ey) \<in> set (holdlist s). ey \<noteq> ex}"
    using ent by (auto simp: hs_def)
  then show "set (map (snd \<circ> snd) hs) = set (held s) - {ex}"
    by (force simp: held_def)
  show "distinct (map (snd \<circ> snd) hs)" using d(2) by (simp add: hs_def distinct_map_filter)
qed

lemma distinct_turn: "wf_sched cur s \<Longrightarrow> distinct (turn_list cur s)"
  and distinct_held: "wf_sched cur s \<Longrightarrow> distinct (held s)"
  by (simp_all add: wf_sched_def wf_lists_def)

text \<open>An executor that waits for its turn at the end of \<open>runlist\<close>.\<close>

lemma turn_list_enqueue:
  "set (turn_list cur (enqueue ex s)) = insert ex (set (turn_list cur s))"
  "ex \<notin> set (turn_list cur s) \<Longrightarrow> distinct (turn_list cur (enqueue ex s)) = distinct (turn_list cur s)"
  by (auto simp: turn_list_def enqueue_def split: option.split)

lemma enqueue_simps [simp]:
  "held (enqueue ex s) = held s" "notimeoutholdlist (enqueue ex s) = notimeoutholdlist s"
  "debuggerholdlist (enqueue ex s) = debuggerholdlist s" "scripts (enqueue ex s) = scripts s"
  "wf_holds (enqueue ex s) = wf_holds s" "wf_pids (enqueue ex s) = wf_pids s"
  "wf_family (enqueue ex s) = wf_family s" "holdlist (enqueue ex s) = holdlist s"
  "next_itr (enqueue ex s) = next_itr s" "pidlist (enqueue ex s) = pidlist s"
  "next_pid (enqueue ex s) = next_pid s" "next_ex (enqueue ex s) = next_ex s"
  "runlist (enqueue ex s) = runlist s @ [ex]"
  by (simp_all add: enqueue_def held_def wf_family_lists)

lemma turn_list_other [simp]:
  "turn_list cur (s\<lparr>holdlist := h\<rparr>) = turn_list cur s"
  "turn_list cur (s\<lparr>notimeoutholdlist := X\<rparr>) = turn_list cur s"
  "turn_list cur (s\<lparr>debuggerholdlist := X\<rparr>) = turn_list cur s"
  "turn_list cur (s\<lparr>next_itr := n\<rparr>) = turn_list cur s"
  "held (s\<lparr>notimeoutholdlist := X\<rparr>) = held s" "held (s\<lparr>debuggerholdlist := X\<rparr>) = held s"
  "held (s\<lparr>holdlist := h\<rparr>) = map (snd \<circ> snd) h"
  by (simp_all add: turn_list_def held_def)

lemma wf_turn_moved:
  assumes "wf_sched cur s" "scripts s ex = Some v" "in_hold_list v \<noteq> NO_LIST" "in_hold_list u = NO_LIST"
    and "scripts s' = (scripts s)(ex \<mapsto> u)" "turn_list cur s' = turn_list cur s" "distinct (held s')"
    and "set (held s') = set (held s) - {ex}" "notimeoutholdlist s' = notimeoutholdlist s - {ex}"
    and "debuggerholdlist s' = debuggerholdlist s - {ex}"
  shows "wf_lists cur (enqueue ex s')"
proof (rule wf_lists_move[where s = s and cur = cur and ex = ex and u = u])
  have not: "ex \<notin> set (turn_list cur s)" using wf_not_listed[of cur s ex v NO_LIST] assms by (auto simp: wf_sched_def)
  then show "distinct (turn_list cur (enqueue ex s'))"
    using turn_list_enqueue(2)[of ex cur s'] distinct_turn[OF assms(1)] assms(6) by simp
  show "in_list cur (enqueue ex s') l = in_list cur s l - {ex} \<union> (if in_hold_list u = l then {ex} else {})" for l
    using assms not by (cases l) (auto simp: turn_list_enqueue(1))
qed (use assms in \<open>auto simp: wf_sched_def\<close>)

lemma wf_revive:
  assumes "wf_sched cur s" "scripts s ex = Some u"
  shows "wf_sched cur (revive ex u s)"
proof (cases "in_hold_list u")
  case TIMEOUT_LIST
  let ?u = "u\<lparr>blocked := False, in_hold_list := NO_LIST\<rparr>"
  let ?s = "(set_ex ex ?u s)\<lparr>holdlist := filter (\<lambda>(i, _). i \<noteq> hold_itr u) (holdlist s)\<rparr>"
  note f = held_filter[OF assms(1,2) TIMEOUT_LIST]
  have "ex \<notin> notimeoutholdlist s" "ex \<notin> debuggerholdlist s"
    using wf_not_listed[of cur s ex u NOTIMEOUT_LIST] wf_not_listed[of cur s ex u DEBUGGER_LIST] assms
    by (auto simp: wf_sched_def TIMEOUT_LIST)
  then have "wf_lists cur (enqueue ex ?s)"
    using f assms TIMEOUT_LIST by (intro wf_turn_moved[where s = s and v = u and u = ?u]) auto
  moreover have "wf_holds ?s"
    using assms(1) f(1) by (auto simp: wf_sched_def wf_holds_def sorted_filter distinct_map_filter)
  ultimately show ?thesis
    using assms wf_pids_minor[of s ex u ?u] wf_family_minor[of s ex u ?u]
    by (simp add: wf_sched_def TIMEOUT_LIST revive_def revive_timeout_def wf_family_lists)
next
  case NOTIMEOUT_LIST
  let ?u = "u\<lparr>blocked := False, in_hold_list := NO_LIST\<rparr>"
  let ?s = "(set_ex ex ?u s)\<lparr>notimeoutholdlist := notimeoutholdlist s - {ex}\<rparr>"
  have not: "ex \<notin> set (held s)" "ex \<notin> debuggerholdlist s"
    using wf_not_listed[of cur s ex u TIMEOUT_LIST] wf_not_listed[of cur s ex u DEBUGGER_LIST] assms
    by (auto simp: wf_sched_def NOTIMEOUT_LIST)
  then have "wf_lists cur (enqueue ex ?s)"
    using assms NOTIMEOUT_LIST distinct_held[OF assms(1)]
    by (intro wf_turn_moved[where s = s and v = u and u = ?u]) auto
  then show ?thesis
    using assms not wf_pids_minor[of s ex u ?u] wf_family_minor[of s ex u ?u]
    by (simp add: wf_sched_def NOTIMEOUT_LIST revive_def revive_notimeout_def wf_family_lists wf_holds_other)
qed (use assms in \<open>auto simp: revive_def minor_def intro!: wf_minor\<close>)

lemma wf_revive_debugged:
  assumes "wf_sched cur s" "scripts s ex = Some v" "minor v u" "in_hold_list v = DEBUGGER_LIST"
  shows "wf_sched cur (revive_debugged ex u s)"
proof -
  let ?u = "u\<lparr>in_hold_list := NO_LIST\<rparr>"
  let ?s = "(set_ex ex ?u s)\<lparr>debuggerholdlist := debuggerholdlist s - {ex}\<rparr>"
  have not: "ex \<notin> set (held s)" "ex \<notin> notimeoutholdlist s"
    using wf_not_listed[of cur s ex v TIMEOUT_LIST] wf_not_listed[of cur s ex v NOTIMEOUT_LIST] assms
    by (auto simp: wf_sched_def)
  then have "wf_lists cur (enqueue ex ?s)"
    using assms distinct_held[OF assms(1)] by (intro wf_turn_moved[where s = s and v = v and u = ?u]) auto
  then show ?thesis
    using assms not wf_pids_minor[of s ex v ?u] wf_family_minor[of s ex v ?u]
    by (simp add: wf_sched_def minor_def revive_debugged_def revive_debugged_list_def wf_family_lists wf_holds_other)
qed

text \<open>Process ids.\<close>

lemma pid_after_range: "PID_MIN \<le> p \<Longrightarrow> p \<le> INT_MAX \<Longrightarrow> PID_MIN \<le> pid_after p \<and> pid_after p \<le> INT_MAX"
  by (auto simp: pid_after_def PID_MIN_def INT_MAX_def)

definition pid_taken :: "ex_id \<Rightarrow> sched \<Rightarrow> nat \<times> sched \<Rightarrow> bool" where
  "pid_taken ex s r \<longleftrightarrow>
     (\<exists>n p. r = (p, s\<lparr>next_pid := n, pidlist := (pidlist s)(p \<mapsto> ex)\<rparr>) \<and>
        PID_MIN \<le> n \<and> n \<le> INT_MAX \<and> PID_MIN \<le> p \<and> p \<le> INT_MAX \<and> pidlist s p = None)"

lemma get_new_pid_Some:
  assumes "get_new_pid ex s = Some r"
  shows "PID_MIN \<le> next_pid s \<longrightarrow> next_pid s \<le> INT_MAX \<longrightarrow> pid_taken ex s r"
proof (rule get_new_pid.raw_induct[OF _ assms])
  fix get ex and s :: sched and r
  let ?s = "s\<lparr>next_pid := pid_after (next_pid s)\<rparr>"
  assume IH: "\<And>ex s r. get ex s = Some r \<Longrightarrow>
      PID_MIN \<le> next_pid s \<longrightarrow> next_pid s \<le> INT_MAX \<longrightarrow> pid_taken ex s r"
    and eq: "(let newpid = next_pid s; s1 = s\<lparr>next_pid := pid_after newpid\<rparr>
      in if pidlist s newpid = None then Some (newpid, s1\<lparr>pidlist := (pidlist s)(newpid \<mapsto> ex)\<rparr>)
         else get ex s1) = Some r"
  show "PID_MIN \<le> next_pid s \<longrightarrow> next_pid s \<le> INT_MAX \<longrightarrow> pid_taken ex s r"
  proof (cases "pidlist s (next_pid s)")
    case None
    then have "r = (next_pid s, ?s\<lparr>pidlist := (pidlist s)(next_pid s \<mapsto> ex)\<rparr>)"
      using eq by (simp add: Let_def)
    then show ?thesis
      using None pid_after_range[of "next_pid s"] unfolding pid_taken_def
      by (intro impI exI[of _ "pid_after (next_pid s)"] exI[of _ "next_pid s"]) simp
  next
    case (Some ey)
    then have "get ex ?s = Some r" using eq by (simp add: Let_def)
    moreover have "pid_taken ex ?s r = pid_taken ex s r" by (simp add: pid_taken_def)
    ultimately show ?thesis using IH[of ex ?s r] pid_after_range[of "next_pid s"] by simp
  qed
qed

lemma wf_new_uoexec:
  assumes "wf_sched cur s" "new_uoexec m s = Some (Inr (ex, s'))"
  shows "scripts s ex = None \<and> wf_sched cur (enqueue ex s') \<and>
    (\<exists>u. scripts s' = (scripts s)(ex \<mapsto> u) \<and> in_hold_list u = NO_LIST \<and> pParent u = None \<and>
      pChild u = None \<and> machine u = m \<and> \<not> blocked u) \<and>
    child_of s' = child_of s \<and> parent_of s' = parent_of s \<and> runlist s' = runlist s"
proof -
  obtain p s1 where "get_new_pid (next_ex s) s = Some (p, s1)"
    using assms(2) by (auto simp: new_uoexec_def Let_def ok_def split: Option.bind_splits)
  moreover from this have "pid_taken (next_ex s) s (p, s1)"
    using get_new_pid_Some assms(1) by (auto simp: wf_sched_def wf_pids_def)
  ultimately obtain n where n: "s1 = s\<lparr>next_pid := n, pidlist := (pidlist s)(p \<mapsto> next_ex s)\<rparr>"
    "get_new_pid (next_ex s) s = Some (p, s1)" "PID_MIN \<le> n" "n \<le> INT_MAX" "PID_MIN \<le> p" "p \<le> INT_MAX" "pidlist s p = None"
    by (auto simp: pid_taken_def)
  have fresh: "scripts s (next_ex s) = None" using assms(1) by (fastforce simp: wf_sched_def wf_pids_def)
  define u where "u = fresh_ex m p (runaway_script_threshold s)"
  have u: "s' = (set_ex (next_ex s) u s1)\<lparr>next_ex := next_ex s + 1\<rparr>" "ex = next_ex s"
    using assms(2) n(2) by (auto simp: new_uoexec_def Let_def ok_def u_def)
  have fu: "in_hold_list u = NO_LIST" "pid u = p" "pParent u = None" "pChild u = None" "machine u = m" "\<not> blocked u"
    by (simp_all add: u_def fresh_ex_def)
  have none: "next_ex s \<notin> in_list cur s l" for l
    using assms(1) fresh by (simp add: wf_sched_def wf_lists_def listed_def)
  let ?s = "enqueue ex s'"
  have same: "turn_list cur s' = turn_list cur s" "held s' = held s"
    "notimeoutholdlist s' = notimeoutholdlist s" "debuggerholdlist s' = debuggerholdlist s"
    by (simp_all add: u(1) n(1) turn_list_def held_def)
  have "wf_lists cur ?s"
  proof (rule wf_lists_move[where s = s and cur = cur and ex = ex and u = u])
    show "distinct (turn_list cur ?s)"
      using turn_list_enqueue(2)[of ex cur s'] distinct_turn[OF assms(1)] none[of NO_LIST] same u(2) by simp
    show "in_list cur ?s l = in_list cur s l - {ex} \<union> (if in_hold_list u = l then {ex} else {})" for l
      using none[of l] same u(2) fu(1) by (cases l) (auto simp: turn_list_enqueue(1))
  qed (use assms distinct_held[OF assms(1)] same in \<open>auto simp: wf_sched_def u(1,2) n(1)\<close>)
  moreover have "wf_holds ?s"
    using assms(1) wf_holds_other[of s "next_ex s" u] none[of TIMEOUT_LIST]
    by (auto simp: u(1) n(1) wf_sched_def wf_holds_def)
  moreover have "wf_pids ?s"
    using assms(1) fresh n fu(2)
    by (auto simp: u(1,2) n(1) wf_sched_def wf_pids_def less_Suc_eq) (metis option.distinct(1))
  moreover have family: "child_of s' = child_of s" "parent_of s' = parent_of s"
    using fresh u fu by (auto simp: n(1) child_of_def parent_of_def fun_eq_iff)
  moreover have "wf_family ?s"
  proof -
    have "child_of ?s = child_of s" "parent_of ?s = parent_of s"
      using family by (simp_all add: enqueue_def child_of_def parent_of_def fun_eq_iff)
    then show ?thesis
      using assms(1) by (auto simp: u(1) n(1) enqueue_def wf_sched_def wf_family_def less_Suc_eq)
  qed
  ultimately show ?thesis
    using fresh u fu by (auto simp: wf_sched_def n(1))
qed

text \<open>Calls.\<close>

lemma and_then_run_Inr [simp]:
  "and_then_run r f = Some (Inr b) \<longleftrightarrow> (\<exists>a. r = Some (Inr a) \<and> f a = Some (Inr b))"
  by (auto simp: and_then_run_def split: Option.bind_splits sum.splits)

lemma result_simps [simp]:
  "ok a = Some (Inr b) \<longleftrightarrow> a = b" "fail e \<noteq> Some (Inr b)"
  by (simp_all add: ok_def fail_def)

lemma lookup_simps [simp]:
  "the_ex s ex f = Some (Inr b) \<longleftrightarrow> (\<exists>u. scripts s ex = Some u \<and> f u = Some (Inr b))"
  "on_live ex g s = Some (Inr t) \<longleftrightarrow>
     (case scripts s ex of None \<Rightarrow> s = t | Some w \<Rightarrow> g w = Some (Inr t))"
  by (auto simp: the_ex_def on_live_def split: option.split)

lemma wf_start_script:
  assumes "wf_sched cur s" "start_script m s = Some (Inr (ex, s'))"
  shows "wf_sched cur s' \<and> scripts s ex = None \<and>
    (\<exists>u. scripts s' = (scripts s)(ex \<mapsto> u) \<and> pParent u = None \<and> pChild u = None) \<and>
    child_of s' = child_of s \<and> parent_of s' = parent_of s"
proof -
  obtain t where t: "new_uoexec m s = Some (Inr (ex, t))" "s' = enqueue ex t"
    using assms(2) by (auto simp: start_script_def)
  have "child_of s' = child_of t" "parent_of s' = parent_of t"
    by (simp_all add: t(2) child_of_def parent_of_def fun_eq_iff)
  then show ?thesis using wf_new_uoexec[OF assms(1) t(1)] t(2) by auto
qed

lemma wf_signal_event:
  assumes "wf_sched cur s" "scripts s ex = Some u" "signal_event ex u v s = Some (Inr (sent, s'))"
  shows "wf_sched cur s'"
proof -
  have set_revive: "revive ex w s = revive ex w (set_ex ex w s)" for w
    by (cases "in_hold_list w") (simp_all add: revive_def set_ex_def revive_timeout_def revive_notimeout_def)
  have "wf_sched cur (revive ex (u\<lparr>machine := m\<rparr>) s)" for m
    unfolding set_revive[of "u\<lparr>machine := m\<rparr>"]
    by (rule wf_revive) (use wf_minor[OF assms(1,2), of "u\<lparr>machine := m\<rparr>"] in simp_all)
  then show ?thesis
    using assms by (auto simp: signal_event_def back_set_def intro!: wf_minor split: if_splits list.splits)
qed

lemma revive_changed: "revive ex w s = revive ex w (set_ex ex w s)"
  by (cases "in_hold_list w") (simp_all add: revive_def set_ex_def revive_timeout_def revive_notimeout_def)

lemma wf_revive_changed:
  assumes "wf_sched cur s" "scripts s ex = Some v" "minor v u"
  shows "wf_sched cur (revive ex u s)"
  unfolding revive_changed[of ex u s] using wf_revive[OF wf_minor[OF assms]] by simp

lemma scripts_revive:
  "scripts (revive ex u s) = (scripts s)(ex \<mapsto>
     u\<lparr>blocked := False,
       in_hold_list := (if in_hold_list u = DEBUGGER_LIST then DEBUGGER_LIST else NO_LIST)\<rparr>)"
  by (cases u; cases "in_hold_list u")
    (simp_all add: revive_def revive_timeout_def revive_notimeout_def enqueue_def set_ex_def)

lemma wf_kill:
  assumes "wf_sched cur s" "scripts s ex = Some u" "kill ex u s = Some (Inr s')"
  shows "wf_sched cur s'"
proof -
  let ?u = "u\<lparr>machine := seterror True (machine u)\<rparr>" and ?s = "revive ex (u\<lparr>machine := seterror True (machine u)\<rparr>) s"
  have wf: "wf_sched cur ?s" using wf_revive_changed[OF assms(1,2)] by simp
  show ?thesis
    using assms(3) wf wf_revive_debugged[OF wf]
    by (auto simp: kill_def Let_def scripts_revive split: if_splits)
qed

text \<open>Calls that change the calling executor only are of no concern to the lists while it runs.\<close>

lemma paramAsLong_Inr:
  "paramAsLong v f = Some (Inr b) \<Longrightarrow> \<exists>i. f i = Some (Inr b)"
  by (auto simp: paramAsLong_def split: value_splits option.splits)

lemma minor_push [simp]: "minor u (push_value v w) = minor u w"
  by (simp add: push_value_def minor_def)

lemma mf_minor:
  "minor u (mf_Events_Waiting u)" "minor u (mf_GetPid u)" "minor u (mf_Set_Critical v u)"
  "minor u (mf_Is_Critical u)" "minor u (mf_Set_Priority v u)" "minor u (mf_Set_Event_Queue_Size v u)"
  "minor u (mf_Clear_Event_Queue u)" "minor u (mf_Set_Script_Option v w u)"
  by (simp_all add: mf_Events_Waiting_def mf_GetPid_def mf_Set_Critical_def mf_Is_Critical_def
      mf_Set_Priority_def mf_Set_Event_Queue_Size_def mf_Clear_Event_Queue_def clear_event_queue_def
      mf_Set_Script_Option_def Let_def split: option.split sum.split)

lemma sleep_minor:
  assumes "in_hold_list u = NO_LIST"
  shows "minor u (suspend u)" "minor u (SleepFor now n u)" "minor u (SleepForMs now n u)"
    "mf_Sleep now v u = Some (Inr u') \<Longrightarrow> minor u u'"
    "mf_Sleepms now v u = Some (Inr u') \<Longrightarrow> minor u u'"
    "mf_Wait_For_Event now v u = Some (Inr u') \<Longrightarrow> minor u u'"
proof -
  show s: "minor u (suspend u)" "minor u (SleepFor now n u)" "minor u (SleepForMs now n u)" for now n
    using assms by (simp_all add: suspend_def SleepFor_def SleepForMs_def minor_def)
  show "mf_Sleep now v u = Some (Inr u') \<Longrightarrow> minor u u'" "mf_Sleepms now v u = Some (Inr u') \<Longrightarrow> minor u u'"
    using s by (auto simp: mf_Sleep_def mf_Sleepms_def dest!: paramAsLong_Inr)
  show "mf_Wait_For_Event now v u = Some (Inr u') \<Longrightarrow> minor u u'"
    using assms
    by (auto simp: mf_Wait_For_Event_def minor_def push_value_def dest!: paramAsLong_Inr split: list.splits)
qed

lemma own_call_minor:
  "own_call c u = Some (Inr u') \<Longrightarrow> in_hold_list u = NO_LIST \<Longrightarrow> minor u u'"
  by (cases c) (auto simp: own_call_def mf_minor sleep_minor)

lemma wf_current: "wf_sched (Some ex) s \<Longrightarrow> \<exists>u. scripts s ex = Some u \<and> in_hold_list u = NO_LIST"
proof -
  assume "wf_sched (Some ex) s"
  moreover have "ex \<in> in_list (Some ex) s NO_LIST" by (simp add: turn_list_def)
  ultimately have "listed s NO_LIST ex" unfolding wf_sched_def wf_lists_def by blast
  then show ?thesis by (simp add: listed_def)
qed

lemma family_set_ex:
  "parent_of (set_ex ex u s) = (parent_of s)(ex := pParent u)"
  "child_of (set_ex ex u s) = (child_of s)(ex := pChild u)"
  by (auto simp: parent_of_def child_of_def fun_eq_iff)

text \<open>A change of the parent or the child of an executor only.\<close>

lemma wf_relative:
  assumes "wf_lists cur s \<and> wf_holds s \<and> wf_pids s" "scripts s ex = Some u" "minor u (u'\<lparr>pParent := pParent u, pChild := pChild u\<rparr>)"
  shows "wf_lists cur (set_ex ex u' s) \<and> wf_holds (set_ex ex u' s) \<and> wf_pids (set_ex ex u' s)"
proof -
  have "in_hold_list u = TIMEOUT_LIST" if "(i, c, ex) \<in> set (holdlist s)" for i c
  proof -
    have "ex \<in> in_list cur s TIMEOUT_LIST" using that by (force simp: held_def)
    then show ?thesis using assms(1,2) wf_not_listed[of cur s ex u TIMEOUT_LIST] by simp
  qed
  then have "wf_holds (set_ex ex u' s)"
    using assms by (fastforce simp: wf_holds_def minor_def)
  then show ?thesis using assms wf_lists_minor wf_pids_minor by (auto simp: minor_def)
qed

lemma wf_Run_Script:
  assumes "wf_sched (Some ex) s" "scripts s ex = Some u" "mf_Run_Script m ex u s = Some (Inr s')"
  shows "wf_sched (Some ex) s'"
proof -
  have mark: "in_hold_list u = NO_LIST" using wf_current[OF assms(1)] assms(2) by auto
  show ?thesis
  proof (cases "pChild u")
    case None
    let ?p = "\<lambda>u child. push_value (BLong 0) (push_value UninitObject
      (suspend (u\<lparr>pChild := Some child, machine := (machine u)\<lparr>PC := PC (machine u) - 1\<rparr>\<rparr>)))"
    obtain child s1 c u1 where st: "start_script m s = Some (Inr (child, s1))" "scripts s1 child = Some c"
      "scripts s1 ex = Some u1" "s' = set_ex ex (?p u1 child) (set_ex child (c\<lparr>pParent := Some ex\<rparr>) s1)"
      using assms(3) None by (auto simp: mf_Run_Script_def)
    note new = wf_start_script[OF assms(1) st(1)]
    have ne: "child \<noteq> ex" "u1 = u" using new assms(2) st(3) by (auto split: if_splits)
    have wf: "wf_lists (Some ex) s1 \<and> wf_holds s1 \<and> wf_pids s1" "wf_family s1" using new by (auto simp: wf_sched_def)
    have lists: "wf_lists (Some ex) s' \<and> wf_holds s' \<and> wf_pids s'"
      unfolding st(4)
      by (rule wf_relative[OF wf_relative[OF wf(1) st(2)]])
        (use st(2,3) ne mark in \<open>auto simp: minor_def push_value_def suspend_def\<close>)
    have fam: "child_of s' = (child_of s1)(ex := Some child)" "parent_of s' = (parent_of s1)(child := Some ex)"
      using st(2,3) ne new
      by (auto simp: st(4) family_set_ex fun_eq_iff parent_of_def child_of_def push_value_def suspend_def)
    have "child < next_ex s1" using wf(1) st(2) by (auto simp: wf_pids_def)
    moreover have "child_of s1 ex = None" using st(3) ne(2) None by (simp add: child_of_def)
    ultimately have "wf_family s'"
      using wf(2) fam by (auto simp: wf_family_def st(4))
    then show ?thesis using lists by (simp add: wf_sched_def)
  next
    case (Some child)
    obtain c v u1 where st: "scripts s child = Some c"
      "scripts (set_ex child (c\<lparr>pParent := None\<rparr>) s) ex = Some u1"
      "s' = set_ex ex (push_value v (u1\<lparr>pChild := None\<rparr>)) (set_ex child (c\<lparr>pParent := None\<rparr>) s)"
      using assms(3) Some by (auto simp: mf_Run_Script_def Let_def)
    have wf: "wf_lists (Some ex) s \<and> wf_holds s \<and> wf_pids s" "wf_family s" using assms(1) by (auto simp: wf_sched_def)
    have "wf_lists (Some ex) s' \<and> wf_holds s' \<and> wf_pids s'"
      unfolding st(3)
      by (rule wf_relative[OF wf_relative[OF wf(1) st(1)] st(2)])
        (simp_all add: minor_def push_value_def)
    moreover have fam: "child_of s' = (child_of s)(ex := None)" "parent_of s' = (parent_of s)(child := None)"
      using st(1,2) assms(2)
      by (auto simp: st(3) family_set_ex fun_eq_iff parent_of_def child_of_def push_value_def split: if_splits)
    moreover have "child_of s ex = Some child" using assms(2) Some by (simp add: child_of_def)
    ultimately show ?thesis using wf(2) by (auto simp: wf_sched_def wf_family_def st(3))
  qed
qed

lemma wf_perform:
  assumes "wf_sched cur s" "perform c ex s = Some (Inr s')" "outside c \<or> cur = Some ex"
  shows "wf_sched cur s'"
proof (cases c)
  case (Start_Script m)
  then show ?thesis using assms wf_start_script by (auto simp: perform_def)
next
  case (Run_Script m)
  then show ?thesis using assms wf_Run_Script by (auto simp: perform_def outside_def)
next
  case (Signal other v)
  then show ?thesis using assms wf_signal_event by (auto simp: perform_def split: option.splits)
next
  case (Revive other)
  then show ?thesis using assms wf_revive by (auto simp: perform_def split: option.splits)
next
  case (Kill other)
  then show ?thesis using assms wf_kill by (auto simp: perform_def split: option.splits)
qed (use assms wf_current own_call_minor wf_minor in \<open>fastforce simp: perform_def outside_def\<close>)+

lemma wf_perform_all:
  "wf_sched (Some ex) s \<Longrightarrow> perform_all cs ex s = Some (Inr s') \<Longrightarrow> wf_sched (Some ex) s'"
  by (induction cs arbitrary: s) (auto dest: wf_perform)

text \<open>A turn.\<close>

lemma wf_run_instr:
  assumes "wf_sched (Some ex) s" "run_instr execute ex s = Some (Inr s')"
  shows "wf_sched (Some ex) s'"
proof -
  obtain u where u: "scripts s ex = Some u" using wf_current[OF assms(1)] by blast
  let ?s = "set_ex ex (u\<lparr>instr_cycles := instr_cycles u + 1\<rparr>) s"
  obtain m calls where mc: "execute ex ?s = (m, calls)" by fastforce
  have "wf_sched (Some ex) (set_ex ex (u\<lparr>instr_cycles := instr_cycles u + 1, machine := m\<rparr>) ?s)"
    using wf_minor[OF wf_minor[OF assms(1) u], of "u\<lparr>instr_cycles := instr_cycles u + 1\<rparr>"]
    by (simp add: minor_def)
  then show ?thesis
    using assms(2) u mc wf_perform_all by (auto simp: run_instr_def Let_def)
qed

text \<open>What every instruction and the bookkeeping of a slice keep, the slice keeps.\<close>

lemma run_slice_keeps:
  assumes "run_slice execute ex insleft s = Some (Inr t)" "I s"
    and instr: "\<And>s s1. I s \<Longrightarrow> run_instr execute ex s = Some (Inr s1) \<Longrightarrow> I s1"
    and count: "\<And>s u c r. I s \<Longrightarrow> scripts s ex = Some u \<Longrightarrow>
      I (set_ex ex (u\<lparr>warn_runaway_on_cycle := c, runaway_cycles := r\<rparr>) s)"
  shows "I t"
proof -
  define keeps where "keeps execute ex \<longleftrightarrow>
      (\<forall>s s1. I s \<longrightarrow> run_instr execute ex s = Some (Inr s1) \<longrightarrow> I s1) \<and>
      (\<forall>s u c r. I s \<longrightarrow> scripts s ex = Some u \<longrightarrow>
        I (set_ex ex (u\<lparr>warn_runaway_on_cycle := c, runaway_cycles := r\<rparr>) s))" for execute ex
  have "keeps execute ex \<longrightarrow> r = Inr t \<longrightarrow> I s \<longrightarrow> I t"
    if "run_slice execute ex insleft s = Some r" for r
    apply (rule run_slice.raw_induct[OF _ that])
    subgoal premises step for slice execute ex insleft s r
    proof (intro impI)
      assume keeps: "keeps execute ex" and r: "r = Inr t" and I: "I s"
      obtain u0 where u0: "scripts s ex = Some u0" using step(2) r by (auto split: option.splits)
      show "I t"
      proof (cases "runnable u0")
        case False
        then show ?thesis using step(2) u0 r I by simp
      next
        case True
        then obtain s1 where s1: "run_instr execute ex s = Some (Inr s1)"
          using step(2) u0 r by (auto split: Option.bind_splits sum.splits)
        obtain u where u: "scripts s1 ex = Some u"
          using step(2) u0 r s1 True by (auto split: option.splits)
        have run: "check_runaway w u = u\<lparr>warn_runaway_on_cycle := warn_runaway_on_cycle (check_runaway w u),
            runaway_cycles := runaway_cycles (check_runaway w u)\<rparr>" for w
          by (simp add: check_runaway_def)
        have count: "I (set_ex ex (u\<lparr>warn_runaway_on_cycle := c, runaway_cycles := r\<rparr>) s1)" for c r
          using keeps I s1 u unfolding keeps_def by blast
        then have "I (set_ex ex (check_runaway (runaway_script_threshold s1) u) s1)"
          by (subst run)
        then show ?thesis
          using step u0 True s1 u r keeps count by (auto simp: Let_def split: if_splits)
      qed
    qed
    done
  then show ?thesis using assms unfolding keeps_def by blast
qed

lemma wf_run_slice:
  assumes "run_slice execute ex insleft s = Some (Inr t)" "wf_sched (Some ex) s"
  shows "wf_sched (Some ex) t"
  by (rule run_slice_keeps[OF assms(1), where I = "wf_sched (Some ex)"])
    (use assms(2) in \<open>auto intro: wf_run_instr wf_minor simp: minor_def\<close>)

text \<open>The executor that ran goes to one of the lists, or is deleted.\<close>

lemma set_hold_insert [simp]: "set (hold_insert x hs) = insert x (set hs)"
  by (induction x hs rule: hold_insert.induct) auto

lemma mset_hold_insert: "mset (hold_insert x hs) = add_mset x (mset hs)"
  by (induction x hs rule: hold_insert.induct) auto

lemma distinct_hold_insert:
  "distinct (map f (hold_insert x hs)) \<longleftrightarrow> f x \<notin> f ` set hs \<and> distinct (map f hs)"
proof -
  have "distinct (map f (hold_insert x hs)) = distinct (f x # map f hs)"
    by (rule mset_eq_imp_distinct_iff) (simp add: mset_hold_insert)
  then show ?thesis by simp
qed

lemma sorted_hold_insert:
  "sorted (map (fst \<circ> snd) hs) \<Longrightarrow> sorted (map (fst \<circ> snd) (hold_insert x hs))"
proof (induction x hs rule: hold_insert.induct)
  case (2 i c ex j d ey hs)
  then show ?case by (cases "c < d") force+
qed simp

lemma turn_list_Some: "turn_list (Some ex) s = ex # turn_list None s"
  by (simp add: turn_list_def)

lemma wf_leave:
  assumes "wf_sched (Some ex) s"
  shows "ex \<notin> set (turn_list None s)" "distinct (turn_list None s)"
    "ex \<notin> set (held s)" "ex \<notin> notimeoutholdlist s" "ex \<notin> debuggerholdlist s"
proof -
  obtain u where u: "scripts s ex = Some u" "in_hold_list u = NO_LIST" using wf_current[OF assms] by blast
  have "ex \<in> in_list (Some ex) s l \<longleftrightarrow> in_hold_list u = l" for l
    using wf_not_listed[OF _ u(1)] assms by (simp add: wf_sched_def)
  from this[of TIMEOUT_LIST] this[of NOTIMEOUT_LIST] this[of DEBUGGER_LIST]
  show "ex \<notin> set (held s)" "ex \<notin> notimeoutholdlist s" "ex \<notin> debuggerholdlist s" using u(2) by simp_all
  show "ex \<notin> set (turn_list None s)" "distinct (turn_list None s)"
    using distinct_turn[OF assms] by (simp_all add: turn_list_Some)
qed

lemma wf_put_ranlist:
  assumes "wf_sched (Some ex) s"
  shows "wf_sched None (put_ranlist ex s)"
proof -
  obtain u where u: "scripts s ex = Some u" "in_hold_list u = NO_LIST" using wf_current[OF assms] by blast
  let ?s = "put_ranlist ex s"
  have t: "turn_list None ?s = turn_list None s @ [ex]" by (simp add: put_ranlist_def turn_list_def)
  have "wf_lists None ?s"
  proof (rule wf_lists_move[where s = s and cur = "Some ex" and ex = ex and u = u])
    show "in_list None ?s l = in_list (Some ex) s l - {ex} \<union> (if in_hold_list u = l then {ex} else {})" for l
      using u(2) wf_leave[OF assms] t by (cases l) (auto simp: turn_list_Some put_ranlist_def held_def)
  qed (use assms u t wf_leave[OF assms] distinct_held[OF assms] in \<open>auto simp: wf_sched_def put_ranlist_def held_def\<close>)
  then show ?thesis using assms by (simp add: wf_sched_def put_ranlist_def wf_family_lists)
qed

lemma wf_put_debugger:
  assumes "wf_sched (Some ex) s" "scripts s ex = Some u"
  shows "wf_sched None (put_debugger ex u s)"
proof -
  let ?u = "u\<lparr>in_hold_list := DEBUGGER_LIST\<rparr>" and ?s = "put_debugger ex u s"
  note leave = wf_leave[OF assms(1)]
  have "wf_lists None ?s"
  proof (rule wf_lists_move[where s = s and cur = "Some ex" and ex = ex and u = ?u])
    show "in_list None ?s l = in_list (Some ex) s l - {ex} \<union> (if in_hold_list ?u = l then {ex} else {})" for l
      using leave by (cases l) (auto simp: turn_list_Some put_debugger_def)
  qed (use assms leave distinct_held[OF assms(1)] in \<open>auto simp: wf_sched_def put_debugger_def\<close>)
  then show ?thesis
    using assms leave wf_pids_minor[of s ex u ?u] wf_family_minor[of s ex u ?u]
    by (simp add: wf_sched_def put_debugger_def wf_family_lists wf_holds_other)
qed

lemma wf_put_hold:
  assumes "wf_sched (Some ex) s" "scripts s ex = Some u" "blocked u"
  shows "wf_sched None (put_hold ex u s)"
proof (cases "sleep_until_clock u = 0")
  case True
  let ?u = "u\<lparr>in_hold_list := NOTIMEOUT_LIST, sleep_cycles := sleep_cycles u - 1\<rparr>" and ?s = "put_hold ex u s"
  note leave = wf_leave[OF assms(1)]
  have "wf_lists None ?s"
  proof (rule wf_lists_move[where s = s and cur = "Some ex" and ex = ex and u = ?u])
    show "in_list None ?s l = in_list (Some ex) s l - {ex} \<union> (if in_hold_list ?u = l then {ex} else {})" for l
      using leave True by (cases l) (auto simp: turn_list_Some put_hold_def)
  qed (use assms leave True distinct_held[OF assms(1)] in \<open>auto simp: wf_sched_def put_hold_def\<close>)
  then show ?thesis
    using assms leave True wf_pids_minor[of s ex u ?u] wf_family_minor[of s ex u ?u]
    by (simp add: wf_sched_def put_hold_def wf_family_lists wf_holds_other)
next
  case False
  let ?u = "u\<lparr>in_hold_list := TIMEOUT_LIST, hold_itr := next_itr s, sleep_cycles := sleep_cycles u - 1\<rparr>"
    and ?s = "put_hold ex u s"
  note leave = wf_leave[OF assms(1)]
  have new: "(next_itr s, c, ey) \<notin> set (holdlist s)" for c ey
    using assms(1) by (force simp: wf_sched_def wf_holds_def)
  have dist: "distinct (held ?s)" "set (held ?s) = insert ex (set (held s))"
    using False leave(3) distinct_held[OF assms(1)]
    by (auto simp: put_hold_def held_def distinct_hold_insert)
  have "wf_lists None ?s"
  proof (rule wf_lists_move[where s = s and cur = "Some ex" and ex = ex and u = ?u])
    show "in_list None ?s l = in_list (Some ex) s l - {ex} \<union> (if in_hold_list ?u = l then {ex} else {})" for l
      using leave False dist(2) by (cases l) (auto simp: turn_list_Some put_hold_def)
  qed (use assms leave False dist in \<open>auto simp: wf_sched_def put_hold_def\<close>)
  moreover have "wf_holds ?s"
  proof -
    have "\<exists>v. scripts ?s ey = Some v \<and> hold_itr v = i \<and> sleep_until_clock v = c \<and> c \<noteq> 0 \<and> blocked v \<and> i < next_itr ?s"
      if "(i, c, ey) \<in> set (holdlist ?s)" for i c ey
    proof (cases "ey = ex")
      case True
      have "(i, c, ex) \<notin> set (holdlist s)" using leave(3) by (force simp: held_def)
      then show ?thesis using that True False assms(3) by (auto simp: put_hold_def)
    next
      case neq: False
      then have "(i, c, ey) \<in> set (holdlist s)" using that False by (simp add: put_hold_def)
      then show ?thesis using assms(1) neq False by (force simp: wf_sched_def wf_holds_def put_hold_def)
    qed
    moreover have "sorted (map (fst \<circ> snd) (holdlist ?s))" "distinct (map fst (holdlist ?s))"
      using assms(1) False new
      by (auto simp: put_hold_def wf_sched_def wf_holds_def sorted_hold_insert distinct_hold_insert)
    ultimately show ?thesis unfolding wf_holds_def by fast
  qed
  ultimately show ?thesis
    using assms False wf_pids_minor[of s ex u ?u] wf_family_minor[of s ex u ?u]
    by (simp add: wf_sched_def put_hold_def wf_family_lists)
qed

lemma wf_delete:
  assumes "wf_sched (Some ex) s" "scripts s ex = Some u"
    and "s1 = s \<and> pChild u = None \<or>
      (\<exists>child c. pChild u = Some child \<and> scripts s child = Some c \<and> s1 = set_ex child (c\<lparr>pParent := None\<rparr>) s)"
  shows "wf_sched None (delete_ex ex u s1)"
proof -
  let ?s = "delete_ex ex u s1"
  note leave = wf_leave[OF assms(1)]
  have wf: "wf_lists (Some ex) s1" "wf_holds s1" "wf_pids s1"
    using assms wf_relative[of "Some ex" s] by (auto simp: wf_sched_def minor_def)
  have "\<exists>u1. scripts s1 ex = Some u1 \<and> pid u1 = pid u" using assms(2,3) by auto
  then obtain u1 where u1: "scripts s1 ex = Some u1" "pid u1 = pid u" "turn_list None s1 = turn_list None s"
      "held s1 = held s" "notimeoutholdlist s1 = notimeoutholdlist s" "debuggerholdlist s1 = debuggerholdlist s"
      "next_ex s1 = next_ex s"
    using assms(2,3) by auto
  have same: "turn_list None ?s = turn_list None s1" "held ?s = held s1" "scripts ?s = (scripts s1)(ex := None)"
    by (simp_all add: delete_ex_def free_pid_def turn_list_def held_def)
  have "wf_lists None ?s"
  proof (rule wf_lists_delete[where s = s1 and cur = "Some ex" and ex = ex])
    show "in_list None ?s l = in_list (Some ex) s1 l - {ex}" for l
      using leave u1 same by (cases l) (auto simp: turn_list_Some delete_ex_def free_pid_def)
  qed (use wf leave u1 same distinct_held[OF assms(1)] in auto)
  moreover have "wf_holds ?s"
  proof -
    have "ex \<notin> set (held s1)" using leave(3) u1(4) by simp
    then have "(i, c, ex) \<notin> set (holdlist s1)" for i c by (force simp: held_def)
    then show ?thesis using wf(2) by (fastforce simp: wf_holds_def delete_ex_def free_pid_def)
  qed
  moreover have "wf_pids ?s"
  proof -
    have pids: "pidlist s1 p = Some ey \<longleftrightarrow> (\<exists>v. scripts s1 ey = Some v \<and> pid v = p)" for p ey
      using wf(3) by (simp add: wf_pids_def)
    have "pid v = pid u \<longleftrightarrow> ey = ex" if "scripts s1 ey = Some v" for ey v
      using pids[of "pid u" ey] pids[of "pid u" ex] that u1(1,2) by auto
    then show ?thesis
      using wf(3) by (auto simp: wf_pids_def delete_ex_def free_pid_def)
  qed
  moreover have "wf_family ?s"
  proof -
    have "child_of s1 = child_of s"
      using assms(3) by (auto simp: child_of_def fun_eq_iff)
    then have "child_of ?s = (child_of s)(ex := None)"
      by (auto simp: child_of_def fun_eq_iff same(3))
    moreover have "parent_of ?s y = (if y = ex \<or> pChild u = Some y then None else parent_of s y)" for y
      using assms(3) same(3) by (auto simp: parent_of_def)
    moreover have "child_of s ex = pChild u" using assms(2) by (simp add: child_of_def)
    ultimately show ?thesis
      using assms(1) u1(7) by (auto simp: wf_sched_def wf_family_def delete_ex_def free_pid_def split: if_splits)
  qed
  ultimately show ?thesis by (simp add: wf_sched_def)
qed

lemma wf_finish:
  assumes "wf_sched (Some ex) s" "scripts s ex = Some u" "finish ex u s = Some (Inr s')"
  shows "wf_sched None s'"
proof -
  have "wf_sched None (revive parent p (put_ranlist ex s))" if "scripts s parent = Some p" for parent p
    using wf_revive[OF wf_put_ranlist[OF assms(1)]] that by (simp add: put_ranlist_def)
  moreover have "wf_sched None t" if "(case pChild u of
            None \<Rightarrow> ok (delete_ex ex u s)
          | Some child \<Rightarrow> the_ex s child (\<lambda>c. ok (delete_ex ex u (set_ex child (c\<lparr>pParent := None\<rparr>) s)))) = Some (Inr t)" for t
    using wf_delete[OF assms(1,2)] that by (auto split: option.splits)
  ultimately show ?thesis
    using assms(3) by (auto simp: finish_def Let_def split: option.splits if_splits)
qed

lemma wf_place: "wf_sched (Some ex) s \<Longrightarrow> place ex s = Some (Inr s') \<Longrightarrow> wf_sched None s'"
  by (auto simp: place_def wf_finish wf_put_debugger wf_put_hold wf_put_ranlist split: if_splits)

lemma wf_turn_start:
  assumes "wf_sched None s" "runlist s = ex # exs"
  shows "wf_sched (Some ex) (s\<lparr>runlist := exs\<rparr>)"
proof -
  have "turn_list (Some ex) (s\<lparr>runlist := exs\<rparr>) = turn_list None s"
    using assms(2) by (simp add: turn_list_def)
  moreover have "in_list (Some ex) (s\<lparr>runlist := exs\<rparr>) l = in_list None s l" for l
    using calculation by (cases l) (simp_all add: held_def)
  ultimately show ?thesis
    using assms(1) by (simp add: wf_sched_def wf_lists_def wf_family_lists listed_def held_def)
qed

lemma wf_turn:
  assumes "wf_sched None s" "runlist s = ex # exs" "turn execute ex (s\<lparr>runlist := exs\<rparr>) = Some (Inr s')"
  shows "wf_sched None s'"
  using wf_turn_start[OF assms(1,2)] assms(3)
  by (auto simp: turn_def Let_def intro: wf_place wf_run_slice)

text \<open>What every turn keeps, \<open>run_ready\<close> keeps; at the end it swaps the two lists.\<close>

lemma run_ready_keeps:
  assumes "run_ready execute s = Some (Inr t)" "I s"
    and turn: "\<And>s ex exs s1. I s \<Longrightarrow> runlist s = ex # exs \<Longrightarrow>
      turn execute ex (s\<lparr>runlist := exs\<rparr>) = Some (Inr s1) \<Longrightarrow> I s1"
  shows "\<exists>s1. I s1 \<and> runlist s1 = [] \<and> t = swap_lists s1"
proof -
  define keeps where "keeps execute \<longleftrightarrow> (\<forall>s ex exs s1. I s \<longrightarrow> runlist s = ex # exs \<longrightarrow>
      turn execute ex (s\<lparr>runlist := exs\<rparr>) = Some (Inr s1) \<longrightarrow> I s1)" for execute
  have "keeps execute \<longrightarrow> r = Inr t \<longrightarrow> I s \<longrightarrow> (\<exists>s1. I s1 \<and> runlist s1 = [] \<and> t = swap_lists s1)"
    if "run_ready execute s = Some r" for r
    apply (rule run_ready.raw_induct[OF _ that])
    subgoal premises step for ready execute s r
    proof (intro impI)
      assume keeps: "keeps execute" and r: "r = Inr t" and I: "I s"
      show "\<exists>s1. I s1 \<and> runlist s1 = [] \<and> t = swap_lists s1"
      proof (cases "runlist s")
        case Nil
        then show ?thesis using step(2) r I by auto
      next
        case (Cons ex exs)
        then obtain s1 where s1: "turn execute ex (s\<lparr>runlist := exs\<rparr>) = Some (Inr s1)"
          using step(2) r by (auto split: Option.bind_splits sum.splits)
        then have "I s1" using keeps I Cons unfolding keeps_def by blast
        then show ?thesis using step(1)[of execute s1 r] step(2) Cons s1 keeps r by auto
      qed
    qed
    done
  then show ?thesis using assms unfolding keeps_def by blast
qed

lemma wf_swap_lists: "wf_sched None s \<Longrightarrow> wf_sched None (swap_lists s)"
proof -
  have "in_list None (swap_lists s) l = in_list None s l" for l
    by (cases l) (auto simp: swap_lists_def turn_list_def held_def)
  moreover have "distinct (turn_list None (swap_lists s)) = distinct (turn_list None s)"
    by (auto simp: swap_lists_def turn_list_def)
  moreover have "child_of (swap_lists s) = child_of s" "parent_of (swap_lists s) = parent_of s"
    by (simp_all add: swap_lists_def child_of_def parent_of_def fun_eq_iff)
  ultimately show "wf_sched None s \<Longrightarrow> wf_sched None (swap_lists s)"
    by (simp add: wf_sched_def wf_lists_def wf_holds_def wf_pids_def wf_family_def listed_def held_def swap_lists_def)
qed

lemma wf_run_ready: "wf_sched None s \<Longrightarrow> run_ready execute s = Some (Inr t) \<Longrightarrow> wf_sched None t"
  using run_ready_keeps[where I = "wf_sched None"] wf_turn wf_swap_lists by metis

section \<open>Waking sleepers\<close>

lemma revive_timeout_list:
  assumes "wf_sched cur s" "holdlist s = (i, c, ex) # hs" "scripts s ex = Some u"
  shows "holdlist (revive ex u s) = hs \<and> runlist (revive ex u s) = runlist s @ [ex]"
proof -
  have u: "in_hold_list u = TIMEOUT_LIST" "hold_itr u = i"
  proof -
    have "ex \<in> in_list cur s TIMEOUT_LIST" using assms(2) by (simp add: held_def)
    then show "in_hold_list u = TIMEOUT_LIST"
      using wf_not_listed[of cur s ex u TIMEOUT_LIST] assms(1,3) by (simp add: wf_sched_def)
    show "hold_itr u = i" using assms by (auto simp: wf_sched_def wf_holds_def)
  qed
  have "distinct (map fst (holdlist s))" using assms(1) by (simp add: wf_sched_def wf_holds_def)
  then have "filter (\<lambda>(j, _). j \<noteq> i) hs = hs" using assms(2) by (force simp: filter_id_conv)
  then show ?thesis using u assms(2) by (simp add: revive_def revive_timeout_def)
qed

definition due :: "polclock \<Rightarrow> (nat \<times> polclock \<times> ex_id) list \<Rightarrow> (nat \<times> polclock \<times> ex_id) list" where
  "due now hs = takeWhile (\<lambda>(_, c, _). c \<le> now) hs"

definition later :: "polclock \<Rightarrow> (nat \<times> polclock \<times> ex_id) list \<Rightarrow> (nat \<times> polclock \<times> ex_id) list" where
  "later now hs = dropWhile (\<lambda>(_, c, _). c \<le> now) hs"

lemma due_simps [simp]:
  "due now [] = []" "later now [] = []"
  "due now ((i, c, ex) # hs) = (if c \<le> now then (i, c, ex) # due now hs else [])"
  "later now ((i, c, ex) # hs) = (if c \<le> now then later now hs else (i, c, ex) # hs)"
  by (simp_all add: due_def later_def)

text \<open>
  \<open>check_blocked\<close> never fails. It moves the entries whose time has come, in their order, to
  the end of \<open>runlist\<close> and leaves the others.
\<close>

lemma check_blocked_moves:
  assumes "wf_sched None s"
  shows "\<exists>left' t. check_blocked_from now left s = Some (Inr (left', t)) \<and> wf_sched None t \<and>
    holdlist t = later now (holdlist s) \<and>
    runlist t = runlist s @ map (snd \<circ> snd) (due now (holdlist s)) \<and>
    (holdlist t \<noteq> [] \<longrightarrow> left' = fst (snd (hd (holdlist t))) - now) \<and>
    (holdlist s = [] \<longrightarrow> left' = left)"
  using assms
proof (induction "length (holdlist s)" arbitrary: s left)
  case 0
  then show ?case by (subst check_blocked_from.simps) (simp add: ok_def)
next
  case (Suc n)
  obtain i c ex hs where hs: "holdlist s = (i, c, ex) # hs" using Suc.hyps(2) by (cases "holdlist s") auto
  obtain u where u: "scripts s ex = Some u" "sleep_until_clock u = c" "c \<noteq> 0" "blocked u"
    using Suc.prems hs by (auto simp: wf_sched_def wf_holds_def)
  show ?case
  proof (cases "c \<le> now")
    case False
    then show ?thesis
      using hs u Suc.prems by (subst check_blocked_from.simps) (simp add: Let_def ok_def)
  next
    case True
    let ?s = "revive ex u s"
    note rev = revive_timeout_list[OF Suc.prems hs u(1)]
    have step: "check_blocked_from now left s = check_blocked_from now (c - now) ?s"
      using hs u True rev by (subst check_blocked_from.simps) (simp add: Let_def)
    have wf: "wf_sched None ?s" using wf_revive[OF Suc.prems u(1)] .
    obtain left' t where t: "check_blocked_from now (c - now) ?s = Some (Inr (left', t))" "wf_sched None t"
      "holdlist t = later now hs"
      "runlist t = runlist s @ [ex] @ map (snd \<circ> snd) (due now hs)"
      "holdlist t \<noteq> [] \<longrightarrow> left' = fst (snd (hd (holdlist t))) - now"
      using Suc.hyps(1)[of ?s "c - now"] Suc.hyps(2) hs rev wf by auto
    then show ?thesis using hs True by (auto simp: step)
  qed
qed

lemma wf_check_blocked:
  "wf_sched None s \<Longrightarrow> check_blocked now s = Some (Inr (left, t)) \<Longrightarrow> wf_sched None t"
  using check_blocked_moves[of s now "POLCLOCKS_PER_SEC * 60"] by (auto simp: check_blocked_def)

lemma wf_step_scripts:
  "wf_sched None s \<Longrightarrow> step_scripts execute now s = Some (Inr (left, act, t)) \<Longrightarrow> wf_sched None t"
  by (auto simp: step_scripts_def Let_def dest: wf_run_ready wf_check_blocked)

section \<open>Reachable schedulers\<close>

lemma wf_init: "wf_sched cur (init_sched threshold discard divisor) \<longleftrightarrow> cur = None"
proof -
  have "in_list cur (init_sched threshold discard divisor) l = (if l = NO_LIST then set_option cur else {})" for l
    by (cases l) (auto simp: turn_list_def init_sched_def held_def split: option.split)
  then show ?thesis
    by (auto simp: wf_sched_def wf_lists_def wf_holds_def wf_pids_def wf_family_def init_sched_def held_def
        turn_list_def listed_def parent_of_def child_of_def PID_MIN_def INT_MAX_def split: option.splits)
qed

lemma wf_sched_step:
  assumes "sched_step execute s s'" "wf_sched None s"
  shows "wf_sched None s'"
  using assms(1)
proof cases
  case (Scripts now clocksleft activity)
  then show ?thesis using wf_step_scripts assms(2) by blast
next
  case (Call c ex)
  then show ?thesis using wf_perform assms(2) by blast
next
  case (Attach p)
  then show ?thesis using assms(2) by (auto simp: cmd_attach_def intro: wf_minor split: option.splits)
next
  case (Cmd_Kill p)
  then show ?thesis using assms(2) by (auto simp: cmd_kill_def intro: wf_minor split: option.splits)
next
  case (Detach ex)
  have "wf_sched None (revive_debugged ex u s)" if "scripts s ex = Some u" "in_hold_list u = DEBUGGER_LIST" for u
    using wf_revive_debugged[OF assms(2) that(1) minor_refl that(2)] .
  then show ?thesis
    using Detach assms(2) by (auto simp: cmd_detach_def Let_def intro: wf_minor split: option.splits if_splits)
next
  case (Resume c ex)
  have "wf_sched None (revive_debugged ex (u\<lparr>machine := m\<rparr>) s)"
    if "scripts s ex = Some u" "in_hold_list u = DEBUGGER_LIST" for u m
    using wf_revive_debugged[OF assms(2) that(1) minor_simps(1) that(2)] .
  then show ?thesis using Resume assms(2) by (auto simp: cmd_resume_def split: option.splits if_splits)
next
  case (Mark c ex)
  then show ?thesis using assms(2) by (auto simp: cmd_mark_def intro: wf_minor split: option.splits)
qed

lemma reachable_wf:
  "(sched_step execute)\<^sup>*\<^sup>* (init_sched threshold discard divisor) s \<Longrightarrow> wf_sched None s"
  by (induction rule: rtranclp_induct) (auto simp: wf_init intro: wf_sched_step)

section \<open>A turn that ends\<close>

text \<open>Calls that concern no other script and do not make the caller critical.\<close>

definition quiet :: "os_call \<Rightarrow> bool" where
  "quiet c \<longleftrightarrow>
     (case c of
        Start_Script _ \<Rightarrow> False | Run_Script _ \<Rightarrow> False | Signal _ _ \<Rightarrow> False | Revive _ \<Rightarrow> False
      | Kill _ \<Rightarrow> False | Set_Critical _ \<Rightarrow> False | Set_Script_Option _ _ \<Rightarrow> False | _ \<Rightarrow> True)"

text \<open>Scripts that make no other calls.\<close>

locale calm_scripts =
  fixes execute :: execute
  assumes quiet_calls: "list_all quiet (snd (execute ex s))"

text \<open>What quiet calls leave alone.\<close>

definition quiet_change :: "ex_id \<Rightarrow> sched \<Rightarrow> sched \<Rightarrow> bool" where
  "quiet_change ex s t \<longleftrightarrow>
     (\<exists>u. t = set_ex ex u s \<and> (\<forall>v. scripts s ex = Some v \<longrightarrow> critical u = critical v)) \<and>
     scripts s ex \<noteq> None"

lemma quiet_change_trans:
  assumes "quiet_change ex s t" "quiet_change ex t w"
  shows "quiet_change ex s w"
proof -
  obtain u where u: "t = set_ex ex u s" "\<forall>v. scripts s ex = Some v \<longrightarrow> critical u = critical v" "scripts s ex \<noteq> None"
    using assms(1) by (auto simp: quiet_change_def)
  obtain u' where u': "w = set_ex ex u' t" "critical u' = critical u"
    using assms(2) u(1) by (auto simp: quiet_change_def)
  have "w = set_ex ex u' s" using u(1) u'(1) by (simp add: set_ex_def)
  then show ?thesis using u u' by (auto simp: quiet_change_def)
qed

definition ends :: "'a result \<Rightarrow> bool" where
  "ends r \<longleftrightarrow> r \<noteq> None"

lemma ends_simps [simp]:
  "ends (ok a)" "ends (fail e)"
  "ends (and_then_run r f) \<longleftrightarrow> ends r \<and> (\<forall>a. r = Some (Inr a) \<longrightarrow> ends (f a))"
  by (auto simp: ends_def ok_def fail_def and_then_run_def split: Option.bind_splits sum.splits)

lemma ends_the_ex [simp]: "ends (the_ex s ex f) \<longleftrightarrow> (\<forall>u. scripts s ex = Some u \<longrightarrow> ends (f u))"
  by (simp add: the_ex_def split: option.split)

lemma ends_paramAsLong: "(\<And>i. ends (f i)) \<Longrightarrow> ends (paramAsLong v f)"
  by (auto simp: paramAsLong_def split: value_splits option.splits)

lemma own_call_returns: "ends (own_call c u)"
  by (cases c) (auto simp: own_call_def mf_Sleep_def mf_Sleepms_def mf_Wait_For_Event_def
      intro!: ends_paramAsLong split: list.split)

lemma critical_simps [simp]: "critical (push_value v u) = critical u"
  "critical (SleepFor now n u) = critical u" "critical (SleepForMs now n u) = critical u"
  "critical (suspend u) = critical u"
  by (simp_all add: push_value_def SleepFor_def SleepForMs_def suspend_def)

lemma own_call_critical:
  "quiet c \<Longrightarrow> own_call c u = Some (Inr u') \<Longrightarrow> critical u' = critical u"
  by (cases c) (auto simp: quiet_def own_call_def mf_Sleep_def mf_Sleepms_def mf_Wait_For_Event_def
      mf_Events_Waiting_def mf_GetPid_def mf_Is_Critical_def mf_Set_Priority_def
      mf_Set_Event_Queue_Size_def mf_Clear_Event_Queue_def clear_event_queue_def
      dest!: paramAsLong_Inr split: list.splits sum.splits if_splits)

lemma perform_own:
  "quiet c \<Longrightarrow> perform c ex s = the_ex s ex (\<lambda>u. and_then_run (own_call c u) (\<lambda>u1. ok (set_ex ex u1 s)))"
  by (cases c) (simp_all add: perform_def quiet_def)

lemma quiet_perform:
  assumes "quiet c"
  shows "ends (perform c ex s)" "perform c ex s = Some (Inr t) \<Longrightarrow> quiet_change ex s t"
  using assms own_call_critical[OF assms]
  by (auto simp: perform_own quiet_change_def own_call_returns)

lemma quiet_perform_all:
  assumes "list_all quiet cs"
  shows "ends (perform_all cs ex s)" "scripts s ex \<noteq> None \<Longrightarrow> perform_all cs ex s = Some (Inr t) \<Longrightarrow> quiet_change ex s t"
proof -
  show "ends (perform_all cs ex s)"
    using assms by (induction cs arbitrary: s) (auto simp: quiet_perform)
  show "scripts s ex \<noteq> None \<Longrightarrow> perform_all cs ex s = Some (Inr t) \<Longrightarrow> quiet_change ex s t"
    using assms
  proof (induction cs arbitrary: s)
    case Nil
    then have "t = set_ex ex (the (scripts s ex)) s" by (auto simp: set_ex_def fun_upd_idem)
    then show ?case using Nil unfolding quiet_change_def by (metis option.sel)
  next
    case (Cons c cs)
    then obtain s1 where s1: "perform c ex s = Some (Inr s1)" "perform_all cs ex s1 = Some (Inr t)" by auto
    have q: "quiet_change ex s s1" using quiet_perform(2) s1(1) Cons.prems by auto
    then have "scripts s1 ex \<noteq> None" by (auto simp: quiet_change_def)
    then show ?case using quiet_change_trans[OF q] Cons s1 by auto
  qed
qed

context calm_scripts begin

lemma quiet_run_instr:
  "ends (run_instr execute ex s)" "run_instr execute ex s = Some (Inr t) \<Longrightarrow> quiet_change ex s t"
proof -
  have calls: "list_all quiet cs" if "execute ex s' = (m, cs)" for s' m cs
    using quiet_calls[of ex s'] that by simp
  show "ends (run_instr execute ex s)"
    using calls quiet_perform_all(1) by (auto simp: run_instr_def Let_def split: prod.split)
  assume "run_instr execute ex s = Some (Inr t)"
  then obtain u where u: "scripts s ex = Some u" by (auto simp: run_instr_def)
  obtain m cs where ex: "execute ex (set_ex ex (u\<lparr>instr_cycles := instr_cycles u + 1\<rparr>) s) = (m, cs)" by fastforce
  then have all: "perform_all cs ex (set_ex ex (u\<lparr>instr_cycles := instr_cycles u + 1, machine := m\<rparr>) s) = Some (Inr t)"
    using \<open>run_instr execute ex s = Some (Inr t)\<close> u by (simp add: run_instr_def Let_def set_ex_def)
  have "quiet_change ex (set_ex ex (u\<lparr>instr_cycles := instr_cycles u + 1, machine := m\<rparr>) s) t"
    using quiet_perform_all(2)[OF calls[OF ex]] all by simp
  then show "quiet_change ex s t" using u by (auto simp: quiet_change_def set_ex_def)
qed

lemma quiet_change_set:
  "quiet_change ex s t \<Longrightarrow> scripts t ex = Some u \<Longrightarrow> critical u' = critical u \<Longrightarrow> quiet_change ex s (set_ex ex u' t)"
  by (auto simp: quiet_change_def set_ex_def)

lemma quiet_slice:
  assumes "scripts s ex = Some u" "\<not> critical u"
  shows "ends (run_slice execute ex (int n + 1) s)"
    "run_slice execute ex insleft s = Some (Inr t) \<Longrightarrow> quiet_change ex s t"
proof -
  show "ends (run_slice execute ex (int n + 1) s)"
    using assms
  proof (induction n arbitrary: s u)
    case (0 s u)
    then show ?case
      using quiet_run_instr[of ex s]
      by (subst run_slice.simps)
        (auto simp: ends_def Let_def quiet_change_def split: Option.bind_splits sum.splits option.splits)
  next
    case (Suc n s u)
    have "ends (run_slice execute ex (int n + 1) (set_ex ex (check_runaway w v) s1))"
      if "run_instr execute ex s = Some (Inr s1)" "scripts s1 ex = Some v" for s1 v w
    proof -
      have "critical v = critical u"
        using quiet_run_instr(2)[OF that(1)] that(2) Suc.prems(1) by (auto simp: quiet_change_def)
      then show ?thesis
        using Suc.IH[of "set_ex ex (check_runaway w v) s1" "check_runaway w v"] Suc.prems(2)
        by (simp add: check_runaway_def)
    qed
    moreover have "\<not> critical v" if "run_instr execute ex s = Some (Inr s1)" "scripts s1 ex = Some v" for s1 v
      using quiet_run_instr(2)[OF that(1)] that(2) Suc.prems by (auto simp: quiet_change_def)
    ultimately show ?case
      using quiet_run_instr(1)[of ex s] Suc.prems
      by (subst run_slice.simps)
        (auto simp: ends_def Let_def algebra_simps split: Option.bind_splits sum.splits option.splits)
  qed
  have refl: "quiet_change ex s s"
    using assms(1) unfolding quiet_change_def by (auto simp: set_ex_def fun_upd_idem intro!: exI[of _ u])
  show "quiet_change ex s t" if "run_slice execute ex insleft s = Some (Inr t)"
    by (rule run_slice_keeps[OF that, where I = "quiet_change ex s"])
      (auto intro: refl quiet_change_trans quiet_run_instr(2) quiet_change_set)
qed

end

text \<open>
  Each turn of a calm script takes an executor out of those that still can be put in
  \<open>runlist\<close>, or shortens \<open>runlist\<close>.
\<close>

definition waiting :: "sched \<Rightarrow> nat" where
  "waiting s = card (dom (scripts s) - set (ranlist s))"

definition uncritical :: "sched \<Rightarrow> bool" where
  "uncritical s \<longleftrightarrow> (\<forall>ex u. scripts s ex = Some u \<longrightarrow> \<not> critical u)"

lemma finite_scripts: "wf_sched cur s \<Longrightarrow> finite (dom (scripts s))"
  by (rule finite_subset[of _ "{..<next_ex s}"]) (auto simp: wf_sched_def wf_pids_def)

lemma waiting_fewer:
  assumes "finite (dom (scripts s))" "dom (scripts t) \<subseteq> dom (scripts s)" "set (ranlist s) \<subseteq> set (ranlist t)"
  shows "waiting t \<le> waiting s"
    "ex \<in> dom (scripts s) \<Longrightarrow> ex \<notin> set (ranlist s) \<Longrightarrow> ex \<in> set (ranlist t) \<Longrightarrow> waiting t < waiting s"
proof -
  show "waiting t \<le> waiting s" unfolding waiting_def using assms by (intro card_mono) auto
  show "waiting t < waiting s" if "ex \<in> dom (scripts s)" "ex \<notin> set (ranlist s)" "ex \<in> set (ranlist t)"
    unfolding waiting_def using assms that by (intro psubset_card_mono) auto
qed

lemma waiting_same:
  "scripts s ex = Some u \<Longrightarrow> scripts t = (scripts s)(ex \<mapsto> v) \<Longrightarrow> ranlist t = ranlist s \<Longrightarrow> waiting t = waiting s"
  unfolding waiting_def by (metis domI dom_fun_upd insert_absorb option.distinct(1))

lemma ranlist_revive: "ranlist (revive ex u s) = ranlist s"
  by (cases "in_hold_list u") (simp_all add: revive_def revive_timeout_def revive_notimeout_def enqueue_def)

lemma finish_progress:
  assumes "wf_sched (Some ex) s" "scripts s ex = Some u" "uncritical s" "finish ex u s = Some (Inr t)"
  shows "uncritical t \<and> (waiting t < waiting s \<or> waiting t \<le> waiting s \<and> runlist t = runlist s)"
proof -
  have fin: "finite (dom (scripts s))" using finite_scripts[OF assms(1)] .
  have ex: "ex \<in> dom (scripts s)" "ex \<notin> set (ranlist s)"
    using assms(2) wf_leave(1)[OF assms(1)] by (auto simp: turn_list_def)
  consider parent p where "scripts s parent = Some p" "t = revive parent p (put_ranlist ex s)"
    | s1 where "t = delete_ex ex u s1" "runlist s1 = runlist s" "ranlist s1 = ranlist s"
        "dom (scripts s1) \<subseteq> dom (scripts s)" "uncritical s1"
    using assms(2-4) by (fastforce simp: finish_def Let_def uncritical_def split: option.splits if_splits)
  then show ?thesis
  proof cases
    case 1
    then have "uncritical t" using assms(3) by (auto simp: uncritical_def scripts_revive put_ranlist_def)
    moreover have "waiting t < waiting s"
      using 1 ex by (intro waiting_fewer(2)[OF fin, of _ ex]) (auto simp: scripts_revive ranlist_revive put_ranlist_def)
    ultimately show ?thesis by simp
  next
    case 2
    then have "uncritical t" by (auto simp: uncritical_def delete_ex_def free_pid_def)
    moreover have "waiting t \<le> waiting s"
      using 2 by (intro waiting_fewer(1)[OF fin]) (auto simp: delete_ex_def free_pid_def)
    ultimately show ?thesis using 2 by (simp add: delete_ex_def free_pid_def)
  qed
qed

lemma place_progress:
  assumes "wf_sched (Some ex) s" "uncritical s" "place ex s = Some (Inr t)"
  shows "uncritical t \<and> (waiting t < waiting s \<or> waiting t \<le> waiting s \<and> runlist t = runlist s)"
proof -
  obtain u where u: "scripts s ex = Some u" using wf_current[OF assms(1)] by blast
  have fin: "finite (dom (scripts s))" using finite_scripts[OF assms(1)] .
  have ex: "ex \<in> dom (scripts s)" "ex \<notin> set (ranlist s)"
    using u wf_leave(1)[OF assms(1)] by (auto simp: turn_list_def)
  have "uncritical (put_ranlist ex s) \<and> waiting (put_ranlist ex s) < waiting s"
    using assms(2) ex waiting_fewer(2)[OF fin, of "put_ranlist ex s" ex] by (auto simp: uncritical_def put_ranlist_def)
  moreover have "uncritical w \<and> waiting w \<le> waiting s \<and> runlist w = runlist s"
    if "w = put_debugger ex u s \<or> w = put_hold ex u s" for w
    using that assms(2) u waiting_same[OF u, of w]
    by (auto simp: uncritical_def put_debugger_def put_hold_def split: if_splits)
  ultimately show ?thesis
    using assms(3) u finish_progress[OF assms(1) u assms(2)] by (auto simp: place_def split: if_splits)
qed

lemma ends_place: "wf_sched (Some ex) s \<Longrightarrow> ends (place ex s)"
  by (auto simp: place_def finish_def Let_def split: option.split)

context calm_scripts begin

lemma turn_progress:
  assumes "wf_sched None s" "uncritical s" "runlist s = ex # exs"
  shows "ends (turn execute ex (s\<lparr>runlist := exs\<rparr>))"
    "turn execute ex (s\<lparr>runlist := exs\<rparr>) = Some (Inr t) \<Longrightarrow>
      uncritical t \<and> (waiting t < waiting s \<or> waiting t \<le> waiting s \<and> runlist t = exs)"
proof -
  let ?s = "s\<lparr>runlist := exs\<rparr>"
  note wf = wf_turn_start[OF assms(1,3)]
  obtain u where u: "scripts s ex = Some u" using wf_current[OF wf] by auto
  define n where "n = (if priority u div priority_divide s = 0 then 0 else priority u div priority_divide s - 1)"
  have n: "(if priority u div priority_divide s = 0 then 1 else int (priority u div priority_divide s)) = int n + 1"
    by (simp add: n_def)
  have turn: "turn execute ex ?s = and_then_run (run_slice execute ex (int n + 1) ?s) (place ex)"
    using u n by (simp add: turn_def the_ex_def Let_def)
  have crit: "\<not> critical u" using assms(2) u by (simp add: uncritical_def)
  note slice = quiet_slice[of ?s ex u]
  have slice_wf: "wf_sched (Some ex) w" if "run_slice execute ex k ?s = Some (Inr w)" for w k
    using wf_run_slice[OF that wf] .
  show "ends (turn execute ex ?s)"
    unfolding turn using slice(1) u crit ends_place[OF slice_wf] by simp
  assume "turn execute ex ?s = Some (Inr t)"
  then obtain w where w: "run_slice execute ex (int n + 1) ?s = Some (Inr w)" "place ex w = Some (Inr t)"
    unfolding turn by auto
  have q: "quiet_change ex ?s w" using slice(2)[OF _ _ w(1)] u crit by simp
  then have "uncritical w" using assms(2) by (auto simp: quiet_change_def uncritical_def split: if_splits)
  moreover have "waiting w = waiting s" "runlist w = exs"
    using q waiting_same[OF u, of w] by (auto simp: quiet_change_def)
  ultimately show "uncritical t \<and> (waiting t < waiting s \<or> waiting t \<le> waiting s \<and> runlist t = exs)"
    using place_progress[OF slice_wf[OF w(1)] _ w(2)] by simp
qed

lemma calm_run_ready_ends:
  assumes "wf_sched None s" "uncritical s"
  shows "ends (run_ready execute s)"
  using assms
proof (induction "(waiting s, length (runlist s))" arbitrary: s rule: wf_induct_rule[OF wf_lex_prod[OF wf_less wf_less]])
  case (1 s)
  show ?case
  proof (cases "runlist s")
    case Nil
    then show ?thesis by (subst run_ready.simps) (simp add: ends_def)
  next
    case (Cons ex exs)
    note progress = turn_progress[OF 1(2,3) Cons]
    have "ends (run_ready execute t)" if "turn execute ex (s\<lparr>runlist := exs\<rparr>) = Some (Inr t)" for t
      using 1(1)[of t] progress(2)[OF that] wf_turn[OF 1(2) Cons that] Cons by (auto simp: le_less)
    then show ?thesis
      using Cons progress(1)
      by (subst run_ready.simps) (auto simp: ends_def split: Option.bind_splits sum.splits)
  qed
qed

end

text \<open>
  Scripts whose instructions are those of the machine of \<open>Executor\<close>, which calls no module.
  A step that C++ does not define is left out.
\<close>

definition run_machine :: "program \<Rightarrow> execute" where
  "run_machine P ex s =
     (case scripts s ex of
        None \<Rightarrow> (init_executor P, [])
      | Some u \<Rightarrow> (case execInstr P (machine u) of Inl f \<Rightarrow> (machine u, []) | Inr m \<Rightarrow> (m, [])))"

interpretation machine_scripts: calm_scripts "run_machine P" for P
  by unfold_locales (auto simp: run_machine_def split: option.split sum.split)

section \<open>Evaluation\<close>

text \<open>Equations that run a concrete scheduler, arguments first.\<close>

lemma and_then_run_ok: "and_then_run (ok a) f = f a" "and_then_run (fail e) f = fail e"
  by (simp_all add: and_then_run_def ok_def fail_def)

lemma arguments_first:
  "s = s' \<Longrightarrow> the_ex s ex f = the_ex s' ex f" "r = r' \<Longrightarrow> and_then_run r f = and_then_run r' f"
  by simp_all

definition after_instr :: "execute \<Rightarrow> ex_id \<Rightarrow> int \<Rightarrow> sched \<Rightarrow> sched result" where
  "after_instr execute ex insleft s =
     the_ex s ex (\<lambda>u.
       if blocked u
       then ok (set_ex ex (u\<lparr>warn_runaway_on_cycle := instr_cycles u + runaway_script_threshold s,
                           runaway_cycles := 0\<rparr>) s)
       else let s2 = set_ex ex (check_runaway (runaway_script_threshold s) u) s
            in if critical u then run_slice execute ex insleft s2
               else if insleft - 1 = 0 then ok s2
               else run_slice execute ex (insleft - 1) s2)"

lemma run_slice_eq:
  "run_slice execute ex insleft s =
     the_ex s ex (\<lambda>u. if \<not> runnable u then ok s
       else and_then_run (run_instr execute ex s) (after_instr execute ex insleft))"
  by (subst run_slice.simps)
    (auto simp: the_ex_def and_then_run_def after_instr_def ok_def fail_def Let_def fun_eq_iff
      split: option.split sum.split intro!: arg_cong[where f = "Option.bind _"])

lemma run_ready_eq:
  "runlist s = [] \<Longrightarrow> run_ready execute s = ok (swap_lists s)"
  "runlist s \<noteq> [] \<Longrightarrow> run_ready execute s =
     and_then_run (turn execute (hd (runlist s)) (s\<lparr>runlist := tl (runlist s)\<rparr>)) (run_ready execute)"
  by (subst run_ready.simps, auto simp: and_then_run_def ok_def split: list.split)+

lemma get_new_pid_free:
  "pidlist s (next_pid s) = None \<Longrightarrow> get_new_pid ex s =
     Some (next_pid s, s\<lparr>next_pid := pid_after (next_pid s), pidlist := (pidlist s)(next_pid s \<mapsto> ex)\<rparr>)"
  by (subst get_new_pid.simps) (simp add: Let_def)

section \<open>Scripts that wake each other\<close>

text \<open>
  Two scripts with eleven instructions, of which each but three only moves values:
  \<^verbatim>\<open>set_priority( 20 ); while( 1 ) wait_for_event( 60 ); send_event( other, 1 ); endwhile\<close>.
  An instruction makes one call at most. The second script starts by sending.
\<close>

definition next_pc_of :: "ex_id \<Rightarrow> nat \<Rightarrow> nat" where
  "next_pc_of ex pc = (if pc = 10 then 3 else if pc = 2 \<and> ex = 1 then 6 else pc + 1)"

definition ping_pong :: execute where
  "ping_pong ex s =
     (case scripts s ex of
        None \<Rightarrow> (init_executor sample_program, [])
      | Some u \<Rightarrow>
          let m = machine u; pc = PC m; moved = m\<lparr>PC := next_pc_of ex pc\<rparr>
          in if pc = 1 then (moved, [Set_Priority (BLong 20)])
             else if pc = 4 then (moved, [Wait_For_Event 0 (BLong 60)])
             else if pc = 8 then (moved, [Signal (1 - ex) (BLong 1)])
             else if pc \<in> {2, 5, 9} then (moved\<lparr>ValueStack := tl (ValueStack m)\<rparr>, [])
             else (moved, []))"

text \<open>A script of the two that runs, and one that waits; a state in which one has just been woken.\<close>

definition playing :: "nat \<Rightarrow> uoexec \<Rightarrow> bool" where
  "playing pc u \<longleftrightarrow>
     runnable u \<and> \<not> blocked u \<and> \<not> critical u \<and> in_hold_list u = NO_LIST \<and> events u = [] \<and> priority u = 20 \<and>
     PC (machine u) = pc"

definition awaiting :: "uoexec \<Rightarrow> bool" where
  "awaiting u \<longleftrightarrow>
     runnable u \<and> blocked u \<and> \<not> critical u \<and> wait_type u = WAIT_EVENT \<and> sleep_until_clock u = 6000 \<and>
     events u = [] \<and> priority u = 20 \<and> ValueStack (machine u) \<noteq> [] \<and> PC (machine u) = 5"

definition rally :: "ex_id \<Rightarrow> sched \<Rightarrow> bool" where
  "rally a s \<longleftrightarrow>
     a < 2 \<and> runlist s = [a] \<and> ranlist s = [] \<and> priority_divide s = 1 \<and>
     (case (scripts s a, scripts s (1 - a)) of
        (Some u, Some v) \<Rightarrow>
          playing 5 u \<and> awaiting v \<and> in_hold_list v = TIMEOUT_LIST \<and> holdlist s = [(hold_itr v, 6000, 1 - a)]
      | _ \<Rightarrow> False)"

lemma run_ok_push [simp]: "run_ok (push_new v m) = run_ok m" "ValueStack (push_new v m) \<noteq> []" "PC (push_new v m) = PC m"
  by (simp_all add: push_new_def new_obj_def push_ref_def)

lemma run_ok_moved [simp]: "run_ok (m\<lparr>PC := pc\<rparr>) = run_ok m" "run_ok (m\<lparr>ValueStack := vs\<rparr>) = run_ok m"
  by simp_all

text \<open>An instruction that makes no call.\<close>

lemma plain_step:
  assumes "scripts s a = Some u" "playing pc u" "pc \<in> {3, 5, 6, 7, 9, 10}" "insleft \<noteq> 1"
  shows "\<exists>u'. run_slice ping_pong a insleft s = run_slice ping_pong a (insleft - 1) (set_ex a u' s) \<and>
    playing (next_pc_of a pc) u'"
proof -
  obtain m where calls: "ping_pong a (set_ex a (u\<lparr>instr_cycles := instr_cycles u + 1\<rparr>) s) = (m, [])"
    and m: "PC m = next_pc_of a pc" "run_ok m = run_ok (machine u)"
    using assms(1-3) by (auto simp: ping_pong_def set_ex_def playing_def Let_def)
  let ?u1 = "u\<lparr>instr_cycles := instr_cycles u + 1, machine := m\<rparr>"
  let ?u' = "check_runaway (runaway_script_threshold s) ?u1"
  have instr: "run_instr ping_pong a s = Some (Inr (set_ex a ?u1 s))"
    using assms(1) calls by (simp add: run_instr_def the_ex_def set_ex_def ok_def)
  have "run_slice ping_pong a insleft s = run_slice ping_pong a (insleft - 1) (set_ex a ?u' s)"
    using assms instr by (subst run_slice.simps) (simp add: playing_def set_ex_def check_runaway_def)
  moreover have "playing (next_pc_of a pc) ?u'"
    using assms(2) m by (simp add: playing_def check_runaway_def runnable_def)
  ultimately show ?thesis by blast
qed

text \<open>The event, and the wait.\<close>

lemma signal_step:
  assumes "a < 2" "scripts s a = Some u" "playing 8 u" "scripts s (1 - a) = Some v" "awaiting v"
    "in_hold_list v = TIMEOUT_LIST" "holdlist s = [(hold_itr v, 6000, 1 - a)]" "insleft \<noteq> 1"
  shows "\<exists>u' v'. run_slice ping_pong a insleft s =
      run_slice ping_pong a (insleft - 1) (s\<lparr>runlist := runlist s @ [1 - a], holdlist := [],
        scripts := (scripts s)(1 - a \<mapsto> v', a \<mapsto> u')\<rparr>) \<and> playing 9 u' \<and> playing 5 v'"
proof -
  obtain x vs where stack: "ValueStack (machine v) = x # vs" using assms(5) by (cases "ValueStack (machine v)") (auto simp: awaiting_def)
  have ne: "a \<noteq> 1 - a" using assms(1) by arith
  let ?m = "(machine u)\<lparr>PC := 9\<rparr>"
  let ?u1 = "u\<lparr>instr_cycles := instr_cycles u + 1, machine := ?m\<rparr>"
  let ?v = "v\<lparr>machine := push_new (BLong 1) ((machine v)\<lparr>ValueStack := vs\<rparr>), blocked := False, in_hold_list := NO_LIST\<rparr>"
  let ?s1 = "s\<lparr>runlist := runlist s @ [1 - a], holdlist := [], scripts := (scripts s)(a \<mapsto> ?u1, 1 - a \<mapsto> ?v)\<rparr>"
  let ?u' = "check_runaway (runaway_script_threshold s) ?u1"
  have calls: "ping_pong a (set_ex a (u\<lparr>instr_cycles := instr_cycles u + 1\<rparr>) s) = (?m, [Signal (1 - a) (BLong 1)])"
    using assms(2,3) by (simp add: ping_pong_def set_ex_def playing_def next_pc_of_def)
  have "perform (Signal (1 - a) (BLong 1)) a (set_ex a ?u1 s) = Some (Inr ?s1)"
    using assms(4-7) stack ne
    by (simp add: awaiting_def perform_def on_live_def signal_event_def back_set_def revive_def revive_timeout_def enqueue_def
        set_ex_def and_then_run_def ok_def fun_upd_twist)
  then have instr: "run_instr ping_pong a s = Some (Inr ?s1)"
    using assms(2) calls by (simp add: run_instr_def the_ex_def set_ex_def ok_def and_then_run_def)
  have "run_slice ping_pong a insleft s = run_slice ping_pong a (insleft - 1)
      (s\<lparr>runlist := runlist s @ [1 - a], holdlist := [], scripts := (scripts s)(1 - a \<mapsto> ?v, a \<mapsto> ?u')\<rparr>)"
    using assms(2,3,8) instr ne
    by (subst run_slice.simps) (simp add: playing_def set_ex_def check_runaway_def fun_upd_twist)
  moreover have "playing 9 ?u'" "playing 5 ?v"
    using assms(3,5) by (simp_all add: playing_def awaiting_def check_runaway_def runnable_def)
  ultimately show ?thesis by blast
qed

lemma wait_step:
  assumes "scripts s a = Some u" "playing 4 u"
  shows "\<exists>u'. run_slice ping_pong a insleft s = Some (Inr (set_ex a u' s)) \<and> awaiting u' \<and> in_hold_list u' = NO_LIST"
proof -
  let ?m = "(machine u)\<lparr>PC := 5\<rparr>"
  let ?u1 = "push_value (BLong 0) (u\<lparr>instr_cycles := instr_cycles u + 1, machine := ?m, wait_type := WAIT_EVENT, blocked := True,
    sleep_until_clock := 6000\<rparr>)"
  let ?u' = "?u1\<lparr>warn_runaway_on_cycle := instr_cycles ?u1 + runaway_script_threshold s, runaway_cycles := 0\<rparr>"
  have calls: "ping_pong a (set_ex a (u\<lparr>instr_cycles := instr_cycles u + 1\<rparr>) s) = (?m, [Wait_For_Event 0 (BLong 60)])"
    using assms by (simp add: ping_pong_def set_ex_def playing_def next_pc_of_def)
  have instr: "run_instr ping_pong a s = Some (Inr (set_ex a ?u1 s))"
    using assms calls
    by (simp add: run_instr_def the_ex_def set_ex_def ok_def and_then_run_def perform_def own_call_def mf_Wait_For_Event_def
        paramAsLong_def POLCLOCKS_PER_SEC_def playing_def push_value_def)
  have "run_slice ping_pong a insleft s = Some (Inr (set_ex a ?u' s))"
    using assms instr by (subst run_slice.simps) (simp add: playing_def set_ex_def push_value_def)
  moreover have "awaiting ?u'" "in_hold_list ?u' = NO_LIST"
    using assms(2) by (simp_all add: playing_def awaiting_def push_value_def runnable_def)
  ultimately show ?thesis by blast
qed

text \<open>A round of a script that was woken: it wakes the other one and waits.\<close>

lemma rally_turn:
  assumes "rally a s"
  shows "\<exists>t. turn ping_pong a (s\<lparr>runlist := []\<rparr>) = Some (Inr t) \<and> rally (1 - a) t"
proof -
  obtain u v where a: "a < 2" "runlist s = [a]" "ranlist s = []" "priority_divide s = 1"
    and u: "scripts s a = Some u" "playing 5 u"
    and v: "scripts s (1 - a) = Some v" "awaiting v" "in_hold_list v = TIMEOUT_LIST" "holdlist s = [(hold_itr v, 6000, 1 - a)]"
    using assms by (auto simp: rally_def split: option.splits)
  have ne: "a \<noteq> 1 - a" "1 - (1 - a) = a" using a(1) by arith+
  let ?s = "s\<lparr>runlist := []\<rparr>"
  have [simp]: "set_ex a y (set_ex a x t) = set_ex a y t" "scripts (set_ex a x t) a = Some x" for x y t
    by (simp_all add: set_ex_def)
  have [simp]: "next_pc_of a 5 = 6" "next_pc_of a 6 = 7" "next_pc_of a 7 = 8" "next_pc_of a 9 = 10" "next_pc_of a 10 = 3"
    "next_pc_of a 3 = 4" by (simp_all add: next_pc_of_def)
  obtain u1 where u1: "run_slice ping_pong a 20 ?s = run_slice ping_pong a 19 (set_ex a u1 ?s)" "playing 6 u1"
    using plain_step[of ?s a u 5 20] u by auto
  obtain u2 where u2: "run_slice ping_pong a 19 (set_ex a u1 ?s) = run_slice ping_pong a 18 (set_ex a u2 ?s)" "playing 7 u2"
    using plain_step[of "set_ex a u1 ?s" a u1 6 19] u1 by auto
  obtain u3 where u3: "run_slice ping_pong a 18 (set_ex a u2 ?s) = run_slice ping_pong a 17 (set_ex a u3 ?s)" "playing 8 u3"
    using plain_step[of "set_ex a u2 ?s" a u2 7 18] u2 by auto
  define s1 where "s1 = (\<lambda>u' v'. s\<lparr>runlist := [1 - a], holdlist := [], scripts := (scripts s)(1 - a \<mapsto> v', a \<mapsto> u')\<rparr>)"
  have s1 [simp]: "set_ex a y (s1 x z) = s1 y z" "scripts (s1 x z) a = Some x" for x y z by (simp_all add: s1_def set_ex_def)
  obtain u4 v' where u4: "run_slice ping_pong a 17 (set_ex a u3 ?s) = run_slice ping_pong a 16 (s1 u4 v')" "playing 9 u4" "playing 5 v'"
    using signal_step[of a "set_ex a u3 ?s" u3 v 17] a(1) u3(2) v ne by (auto simp: s1_def set_ex_def fun_upd_twist)
  obtain u5 where u5: "run_slice ping_pong a 16 (s1 u4 v') = run_slice ping_pong a 15 (s1 u5 v')" "playing 10 u5"
    using plain_step[of "s1 u4 v'" a u4 9 16] u4 by auto
  obtain u6 where u6: "run_slice ping_pong a 15 (s1 u5 v') = run_slice ping_pong a 14 (s1 u6 v')" "playing 3 u6"
    using plain_step[of "s1 u5 v'" a u5 10 15] u5 by auto
  obtain u7 where u7: "run_slice ping_pong a 14 (s1 u6 v') = run_slice ping_pong a 13 (s1 u7 v')" "playing 4 u7"
    using plain_step[of "s1 u6 v'" a u6 3 14] u6 by auto
  obtain u8 where u8: "run_slice ping_pong a 13 (s1 u7 v') = Some (Inr (s1 u8 v'))" "awaiting u8" "in_hold_list u8 = NO_LIST"
    using wait_step[of "s1 u7 v'" a u7 13] u7 by auto
  have slice: "run_slice ping_pong a 20 ?s = Some (Inr (s1 u8 v'))" using u1 u2 u3 u4 u5 u6 u7 u8 by simp
  let ?t = "put_hold a u8 (s1 u8 v')"
  have "turn ping_pong a ?s = Some (Inr ?t)"
    using u a slice u8(2)
    by (simp add: turn_def the_ex_def playing_def awaiting_def and_then_run_def place_def ok_def)
  moreover have "rally (1 - a) ?t"
    using a u8 u4(3) ne by (simp add: rally_def put_hold_def awaiting_def s1_def set_ex_def runnable_def)
  ultimately show ?thesis by blast
qed

lemma rally_never_ends: "rally a s \<Longrightarrow> run_ready ping_pong s = None"
proof (rule ccontr)
  assume "rally a s" "run_ready ping_pong s \<noteq> None"
  then obtain r where r: "run_ready ping_pong s = Some r" by blast
  have "\<forall>a. execute = ping_pong \<longrightarrow> rally a s \<longrightarrow> False" if "run_ready execute s = Some r" for execute
    apply (rule run_ready.raw_induct[OF _ that])
    subgoal premises step for ready execute s r
    proof (intro allI impI)
      fix a assume pp: "execute = ping_pong" "rally a s"
      obtain t where t: "turn ping_pong a (s\<lparr>runlist := []\<rparr>) = Some (Inr t)" "rally (1 - a) t"
        using rally_turn[OF pp(2)] by blast
      have "ready ping_pong t = Some r" using step(2) pp t(1) by (auto simp: rally_def)
      then show False using step(1) t(2) by blast
    qed
    done
  then show False using r \<open>rally a s\<close> by blast
qed

lemma run_ready_turn:
  "runlist s = ex # exs \<Longrightarrow> turn execute ex (s\<lparr>runlist := exs\<rparr>) = Some (Inr t) \<Longrightarrow>
    run_ready execute s = run_ready execute t"
  by (subst run_ready.simps) simp

definition on_ok :: "'a result \<Rightarrow> ('a \<Rightarrow> bool) \<Rightarrow> bool" where
  "on_ok r P = (case r of Some (Inr a) \<Rightarrow> P a | _ \<Rightarrow> False)"

lemma on_ok_iff: "on_ok r P \<longleftrightarrow> (\<exists>a. r = Some (Inr a) \<and> P a)"
  by (auto simp: on_ok_def split: option.splits sum.splits)

lemma the_ex_eq:
  "scripts s ex = Some u \<Longrightarrow> the_ex s ex f = f u" "scripts s ex = None \<Longrightarrow> the_ex s ex f = fail Freed"
  by (simp_all add: the_ex_def)

lemma on_ok_eq: "on_ok (ok a) P = P a"
  by (simp add: on_ok_def ok_def)

lemma on_ok_first: "r = r' \<Longrightarrow> on_ok r P = on_ok r' P"
  by simp

definition sample_machine :: executor where
  "sample_machine = init_executor sample_program"

lemmas run_simps =
  perform_def start_script_def new_uoexec_def fresh_ex_def get_new_pid_free set_ex_def enqueue_def
  turn_def run_slice_eq after_instr_def run_instr_def place_def finish_def put_ranlist_def
  put_hold_def the_ex_eq Let_def and_then_run_ok own_call_def runnable_def check_runaway_def
  PID_MIN_def INT_MAX_def pid_after_def init_sched_def swap_lists_def on_ok_eq push_value_def
  delete_ex_def free_pid_def on_live_def revive_def revive_notimeout_def revive_timeout_def
  step_scripts_def check_blocked_def check_blocked_from.simps kill_def suspend_def mf_Run_Script_def
  mf_Set_Priority_def getParam_range_def mf_Wait_For_Event_def paramAsLong_def POLCLOCKS_PER_SEC_def
  sample_machine_def init_executor_def calcrunnable_def ins_progend_def seterror_def
  push_new_def push_ref_def new_obj_def

text \<open>Two turns set the priorities; in the third the first script waits and the second wakes it.\<close>

lemma ping_pong_run:
  "on_ok (perform (Start_Script sample_machine) 0 (init_sched 5000 False 1)) (\<lambda>s1.
   on_ok (perform (Start_Script sample_machine) 0 s1) (\<lambda>s2. runlist s2 = [0, 1] \<and>
   on_ok (step_scripts ping_pong 0 s2) (\<lambda>(_, _, s3). on_ok (step_scripts ping_pong 0 s3) (\<lambda>(_, _, s4). runlist s4 = [0, 1] \<and>
   on_ok (turn ping_pong 0 (s4\<lparr>runlist := [1]\<rparr>)) (\<lambda>s5. runlist s5 = [1] \<and>
   on_ok (turn ping_pong 1 (s5\<lparr>runlist := []\<rparr>)) (rally 0))))))"
  by (simp add: run_simps run_ready_eq ping_pong_def next_pc_of_def rally_def playing_def awaiting_def sample_program_def signal_event_def back_set_def
      cong: arguments_first on_ok_first)

text \<open>
  A script starts a child with \<^verbatim>\<open>run_script\<close>; the child raises its priority, then kills
  its parent and ends within one turn.
\<close>

definition ambush :: execute where
  "ambush ex s =
     (case scripts s ex of
        None \<Rightarrow> (sample_machine, [])
      | Some u \<Rightarrow>
          if ex = 0 then (machine u, [Run_Script sample_machine])
          else if instr_cycles u = 1 then (machine u, [Set_Priority (BLong 10)])
          else if instr_cycles u = 2 then (machine u, [Kill 0])
          else (ins_progend (machine u), []))"

lemma ambush_run:
  "on_ok (perform (Start_Script sample_machine) 0 (init_sched 5000 False 1)) (\<lambda>s1.
   on_ok (step_scripts ambush 0 s1) (\<lambda>(left, activity, s2). run_ready ambush s2 = fail Freed))"
  by (simp add: run_simps run_ready_eq ambush_def cong: arguments_first on_ok_first)

section \<open>Properties\<close>

text \<open>
  C4. Every executor that is not deleted is in exactly one of the lists of the scheduler, and
  in it once; no list holds a deleted one. The process table maps the process ids to the live
  executors, one to one. This holds whatever the scripts do and whenever they are killed,
  revived, sent events or debugged.
\<close>

theorem each_script_in_one_list:
  assumes "(sched_step execute)\<^sup>*\<^sup>* (init_sched threshold discard divisor) s"
  shows "distinct (runlist s @ ranlist s @ held s) \<and>
    notimeoutholdlist s \<inter> debuggerholdlist s = {} \<and>
    set (runlist s @ ranlist s @ held s) \<inter> (notimeoutholdlist s \<union> debuggerholdlist s) = {} \<and>
    dom (scripts s) =
      set (runlist s @ ranlist s @ held s) \<union> notimeoutholdlist s \<union> debuggerholdlist s \<and>
    (\<forall>p ex. find_exec p s = Some ex \<longleftrightarrow> (\<exists>u. scripts s ex = Some u \<and> pid u = p))"
proof -
  have wf: "wf_sched None s" using reachable_wf[OF assms] .
  have turn: "turn_list None s = runlist s @ ranlist s" by (simp add: turn_list_def)
  have mem: "ex \<in> in_list None s l \<longleftrightarrow> listed s l ex" for l ex
    using wf by (simp add: wf_sched_def wf_lists_def)
  have disjoint: "l \<noteq> l' \<Longrightarrow> in_list None s l \<inter> in_list None s l' = {}" for l l'
    using mem by (auto simp: listed_def)
  note disj = disjoint[of NO_LIST TIMEOUT_LIST] disjoint[of NO_LIST NOTIMEOUT_LIST]
    disjoint[of NO_LIST DEBUGGER_LIST] disjoint[of TIMEOUT_LIST NOTIMEOUT_LIST]
    disjoint[of TIMEOUT_LIST DEBUGGER_LIST] disjoint[of NOTIMEOUT_LIST DEBUGGER_LIST]
  have "ex \<in> dom (scripts s) \<longleftrightarrow> (\<exists>l. ex \<in> in_list None s l)" for ex
    using mem by (auto simp: listed_def)
  then have "dom (scripts s) = (\<Union>l. in_list None s l)" by blast
  also have "\<dots> = set (turn_list None s) \<union> set (held s) \<union> notimeoutholdlist s \<union> debuggerholdlist s"
  proof -
    have univ: "(UNIV :: HoldListType set) = {NO_LIST, TIMEOUT_LIST, NOTIMEOUT_LIST, DEBUGGER_LIST}"
      by (auto intro: HoldListType.exhaust)
    show ?thesis unfolding univ by auto
  qed
  finally have "dom (scripts s) = set (runlist s @ ranlist s @ held s) \<union> notimeoutholdlist s \<union> debuggerholdlist s"
    using turn by auto
  moreover have "distinct (runlist s @ ranlist s @ held s)"
    using wf disj(1) turn by (auto simp: wf_sched_def wf_lists_def)
  moreover have "\<forall>p ex. find_exec p s = Some ex \<longleftrightarrow> (\<exists>u. scripts s ex = Some u \<and> pid u = p)"
    using wf by (simp add: wf_sched_def wf_pids_def find_exec_def)
  ultimately show ?thesis
    using disj turn by auto
qed

lemma start_step: "perform (Start_Script m) ex s = Some (Inr t) \<Longrightarrow> sched_step execute s t"
  by (rule Call[of "Start_Script m" ex]) (simp_all add: outside_def)

lemma two_started: "\<exists>s. (sched_step execute)\<^sup>*\<^sup>* (init_sched 5000 False 1) s \<and> runlist s = [0, 1]"
proof -
  obtain s1 s2 where s: "perform (Start_Script sample_machine) 0 (init_sched 5000 False 1) = Some (Inr s1)"
    "perform (Start_Script sample_machine) 0 s1 = Some (Inr s2)" "runlist s2 = [0, 1]"
    using ping_pong_run by (auto simp: on_ok_iff)
  have "sched_step execute (init_sched 5000 False 1) s1" "sched_step execute s1 s2"
    using s(1,2) start_step by blast+
  then show ?thesis using s(3) by (metis converse_rtranclp_into_rtranclp rtranclp.rtrancl_refl)
qed

lemma two_playing:
  "\<exists>s t t'. (sched_step ping_pong)\<^sup>*\<^sup>* (init_sched 5000 False 1) s \<and> runlist s = [0, 1] \<and>
    turn ping_pong 0 (s\<lparr>runlist := [1]\<rparr>) = Some (Inr t) \<and> runlist t = [1] \<and>
    turn ping_pong 1 (t\<lparr>runlist := []\<rparr>) = Some (Inr t') \<and> rally 0 t'"
proof -
  obtain s1 s2 l3 b3 s3 l4 b4 s4 t t' where s: "perform (Start_Script sample_machine) 0 (init_sched 5000 False 1) = Some (Inr s1)"
    "perform (Start_Script sample_machine) 0 s1 = Some (Inr s2)"
    "step_scripts ping_pong 0 s2 = Some (Inr (l3, b3, s3))" "step_scripts ping_pong 0 s3 = Some (Inr (l4, b4, s4))"
    and t: "runlist s4 = [0, 1]" "turn ping_pong 0 (s4\<lparr>runlist := [1]\<rparr>) = Some (Inr t)" "runlist t = [1]"
    "turn ping_pong 1 (t\<lparr>runlist := []\<rparr>) = Some (Inr t')" "rally 0 t'"
    using ping_pong_run unfolding on_ok_iff by auto
  have "sched_step ping_pong (init_sched 5000 False 1) s1" "sched_step ping_pong s1 s2" "sched_step ping_pong s2 s3"
    "sched_step ping_pong s3 s4"
    using s start_step Scripts by blast+
  then have "(sched_step ping_pong)\<^sup>*\<^sup>* (init_sched 5000 False 1) s4"
    by (metis converse_rtranclp_into_rtranclp rtranclp.rtrancl_refl)
  then show ?thesis using t by blast
qed

lemma each_script_in_one_list_witness:
  "\<exists>s. runlist s = [0, 1] \<and> distinct (runlist s @ ranlist s @ held s)"
  using two_started[of ping_pong] each_script_in_one_list by blast

text \<open>
  C5. After a turn of the scheduler no sleeper is overdue: each script whose time had come by
  the clock the turn read waits for its next turn, not blocked any more. The assertions of
  \<^verbatim>\<open>check_blocked\<close> hold, and the time to wait that the turn returns is the time to the
  first sleeper, a minute without one, and nothing while a script can run.
\<close>

theorem sleepers_wake:
  assumes "(sched_step execute)\<^sup>*\<^sup>* (init_sched threshold discard divisor) s"
    and "run_ready execute s = Some (Inr s1)"
  shows "\<exists>t left. step_scripts execute now s = Some (Inr (left, runlist s \<noteq> [], t)) \<and>
    (\<forall>ex u. scripts s1 ex = Some u \<longrightarrow> in_hold_list u = TIMEOUT_LIST \<longrightarrow> sleep_until_clock u \<le> now \<longrightarrow>
      ex \<in> set (runlist t)) \<and>
    (\<forall>(i, c, ex) \<in> set (holdlist t). now < c) \<and>
    left = (if runlist t \<noteq> [] then 0
      else if holdlist t = [] then 6000 else fst (snd (hd (holdlist t))) - now)"
proof -
  have wf: "wf_sched None s1" using wf_run_ready[OF reachable_wf[OF assms(1)] assms(2)] .
  have wait: "POLCLOCKS_PER_SEC * 60 = 6000" by (simp add: POLCLOCKS_PER_SEC_def)
  obtain left t where t: "check_blocked now s1 = Some (Inr (left, t))" "wf_sched None t"
    "holdlist t = later now (holdlist s1)" "runlist t = runlist s1 @ map (snd \<circ> snd) (due now (holdlist s1))"
    "holdlist t \<noteq> [] \<longrightarrow> left = fst (snd (hd (holdlist t))) - now" "holdlist s1 = [] \<longrightarrow> left = 6000"
    using check_blocked_moves[OF wf, of now "POLCLOCKS_PER_SEC * 60"] wait unfolding check_blocked_def by metis
  have sorted: "sorted (map (fst \<circ> snd) (holdlist s1))" using wf by (simp add: wf_sched_def wf_holds_def)
  have later: "\<forall>(i, c, ex) \<in> set (later now hs). now < c" "set (due now hs) \<union> set (later now hs) = set hs"
    if "sorted (map (fst \<circ> snd) hs)" for hs
    using that by (induction hs) (force split: if_splits)+
  have "ex \<in> set (runlist t)"
    if "scripts s1 ex = Some u" "in_hold_list u = TIMEOUT_LIST" "sleep_until_clock u \<le> now" for ex u
  proof -
    have "(hold_itr u, sleep_until_clock u, ex) \<in> set (holdlist s1)" using held_entry[OF wf that(1,2)] .
    then have "(hold_itr u, sleep_until_clock u, ex) \<in> set (due now (holdlist s1))"
      using later[OF sorted] that(3) by fastforce
    then show ?thesis using t(4) by force
  qed
  moreover have "step_scripts execute now s = Some (Inr (if runlist t \<noteq> [] then 0 else left, runlist s \<noteq> [], t))"
    using assms(2) t(1) by (simp add: step_scripts_def Let_def ok_def and_then_run_def)
  moreover have "left = 6000" if "runlist t = []" "holdlist t = []"
    using later(2)[OF sorted] t(3,4,6) that by simp
  then have "(if runlist t \<noteq> [] then 0 else left) = (if runlist t \<noteq> [] then 0
      else if holdlist t = [] then 6000 else fst (snd (hd (holdlist t))) - now)"
    using t(5) by simp
  moreover have "\<forall>(i, c, ex) \<in> set (holdlist t). now < c" using later(1)[OF sorted] t(3) by simp
  ultimately show ?thesis by blast
qed

text \<open>A script that sleeps for a second, over and over.\<close>

definition nap :: execute where
  "nap ex s =
     (case scripts s ex of None \<Rightarrow> (sample_machine, []) | Some u \<Rightarrow> (machine u, [Sleep 0 (BLong 1)]))"

lemma nap_run:
  "on_ok (perform (Start_Script sample_machine) 0 (init_sched 5000 False 1)) (\<lambda>s.
   on_ok (run_ready nap s) (\<lambda>s1. case scripts s1 0 of None \<Rightarrow> False
     | Some u \<Rightarrow> in_hold_list u = TIMEOUT_LIST \<and> sleep_until_clock u = 100))"
  by (simp add: run_simps run_ready_eq nap_def mf_Sleep_def SleepFor_def cong: arguments_first on_ok_first)

lemma sleepers_wake_witness:
  "\<exists>s t left activity. step_scripts nap 150 s = Some (Inr (left, activity, t)) \<and> 0 \<in> set (runlist t)"
proof -
  obtain s s1 u where s: "perform (Start_Script sample_machine) 0 (init_sched 5000 False 1) = Some (Inr s)"
    "run_ready nap s = Some (Inr s1)" "scripts s1 0 = Some u" "in_hold_list u = TIMEOUT_LIST" "sleep_until_clock u = 100"
    using nap_run by (auto simp: on_ok_iff split: option.splits)
  have "(sched_step nap)\<^sup>*\<^sup>* (init_sched 5000 False 1) s"
    using s(1) start_step by blast
  from sleepers_wake[OF this s(2), of 150] show ?thesis using s(3-5) by fastforce
qed

text \<open>
  C7. A turn of the scheduler ends when no script is critical and the scripts do not concern
  each other: each executor then runs a bounded number of instructions, however many scripts
  sleep, end or wait for their children.
\<close>

theorem calm_turns_end:
  assumes "(sched_step execute')\<^sup>*\<^sup>* (init_sched threshold discard divisor) s"
    and "\<forall>ex s. list_all quiet (snd (execute ex s))" "\<forall>ex u. scripts s ex = Some u \<longrightarrow> \<not> critical u"
  shows "(\<exists>r. run_ready execute s = Some r) \<and> (\<exists>r. run_ready (run_machine P) s = Some r)"
proof -
  have wf: "wf_sched None s" "uncritical s"
    using reachable_wf[OF assms(1)] assms(3) by (simp_all add: uncritical_def)
  have "calm_scripts execute" using assms(2) by (intro calm_scripts.intro) blast
  then show ?thesis
    using calm_scripts.calm_run_ready_ends machine_scripts.calm_run_ready_ends wf by (auto simp: ends_def)
qed

lemma calm_turns_end_witness: "\<exists>r. run_ready nap (init_sched 5000 False 1) = Some r"
  by (rule calm_turns_end[of nap 5000 False 1, THEN conjunct1])
    (auto simp: nap_def quiet_def init_sched_def split: option.split)

text \<open>
  C8. Two scripts that answer each other's events keep one turn of the scheduler from ever
  ending, with one call for each instruction and no critical script: each wake-up puts the other
  script at the end of the list the turn works on, and a priority above the eight
  instructions of a round lets each script come back to its wait before its turn is over.
\<close>

theorem answering_scripts_never_end:
  "(\<forall>ex s. length (snd (ping_pong ex s)) \<le> 1) \<and>
   (\<exists>s. (sched_step ping_pong)\<^sup>*\<^sup>* (init_sched 5000 False 1) s \<and> run_ready ping_pong s = None)"
proof
  show "\<forall>ex s. length (snd (ping_pong ex s)) \<le> 1" by (simp add: ping_pong_def Let_def split: option.split)
  obtain s t t' where "(sched_step ping_pong)\<^sup>*\<^sup>* (init_sched 5000 False 1) s" "runlist s = [0, 1]"
    "turn ping_pong 0 (s\<lparr>runlist := [1]\<rparr>) = Some (Inr t)" "runlist t = [1]"
    "turn ping_pong 1 (t\<lparr>runlist := []\<rparr>) = Some (Inr t')" "rally 0 t'"
    using two_playing by blast
  then show "\<exists>s. (sched_step ping_pong)\<^sup>*\<^sup>* (init_sched 5000 False 1) s \<and> run_ready ping_pong s = None"
    using rally_never_ends run_ready_turn by metis
qed

text \<open>
  C9. A script that a child kills in the turn in which the child ends is deleted after the
  child, and then writes to it: the parent that cannot take a result lets the child be
  deleted, but keeps its pointer to it.
\<close>

theorem killed_parent_uses_freed_child:
  "\<exists>s. (sched_step ambush)\<^sup>*\<^sup>* (init_sched 5000 False 1) s \<and> run_ready ambush s = Some (Inl Freed)"
proof -
  obtain s1 left activity s2 where s: "perform (Start_Script sample_machine) 0 (init_sched 5000 False 1) = Some (Inr s1)"
    "step_scripts ambush 0 s1 = Some (Inr (left, activity, s2))" "run_ready ambush s2 = fail Freed"
    using ambush_run by (auto simp: on_ok_iff)
  have "sched_step ambush (init_sched 5000 False 1) s1" "sched_step ambush s1 s2"
    using s(1,2) start_step Scripts by blast+
  then show ?thesis using s(3) by (metis converse_rtranclp_into_rtranclp rtranclp.rtrancl_refl fail_def)
qed

text \<open>
  C6. A script that waits for an event gets it as the value of its wait: the event replaces
  the default on the top of its stack, the rest of the stack is kept, and the script leaves the
  list it was held in at once, for the end of the list of the running turn. The events it had
  queued stay queued.
\<close>

theorem waiting_script_gets_event:
  assumes "(sched_step execute)\<^sup>*\<^sup>* (init_sched threshold discard divisor) s"
    and "scripts s ex = Some u" "blocked u" "wait_type u = WAIT_EVENT" "in_hold_list u \<noteq> DEBUGGER_LIST"
    and "ValueStack (machine u) = a # vs"
  shows "\<exists>t u'. perform (Signal ex v) self s = Some (Inr t) \<and> scripts t ex = Some u' \<and>
    (\<exists>b. ValueStack (machine u') = b # vs \<and> deref (machine u') b = v) \<and>
    \<not> blocked u' \<and> events u' = events u \<and>
    ex \<in> set (runlist t @ ranlist t) \<and> ex \<notin> set (held t) \<and> ex \<notin> notimeoutholdlist t \<and>
    (in_hold_list u \<noteq> NO_LIST \<longrightarrow> runlist t = runlist s @ [ex])"
proof -
  let ?m = "push_new v ((machine u)\<lparr>ValueStack := vs\<rparr>)"
  let ?t = "revive ex (u\<lparr>machine := ?m\<rparr>) s"
  let ?u = "u\<lparr>machine := ?m, blocked := False, in_hold_list := NO_LIST\<rparr>"
  have t: "perform (Signal ex v) self s = Some (Inr ?t)"
    using assms(2-4,6) by (simp add: perform_def on_live_def signal_event_def back_set_def and_then_run_def ok_def)
  have u: "scripts ?t ex = Some ?u" using assms(5) by (simp add: scripts_revive)
  have "wf_sched None ?t"
    using wf_perform[OF reachable_wf[OF assms(1)] t] by (simp add: outside_def)
  then have "ex \<in> in_list None ?t l \<longleftrightarrow> l = NO_LIST" for l
    using wf_not_listed[OF _ u] by (auto simp: wf_sched_def)
  from this[of NO_LIST] this[of TIMEOUT_LIST] this[of NOTIMEOUT_LIST]
  have "ex \<in> set (runlist ?t @ ranlist ?t)" "ex \<notin> set (held ?t)" "ex \<notin> notimeoutholdlist ?t"
    by (simp_all add: turn_list_def)
  moreover have "in_hold_list u \<noteq> NO_LIST \<Longrightarrow> runlist ?t = runlist s @ [ex]"
    using assms(5) by (cases "in_hold_list u")
      (simp_all add: revive_def revive_timeout_def revive_notimeout_def enqueue_def set_ex_def)
  ultimately show ?thesis
    using t u by (auto simp: push_new_def new_obj_def push_ref_def deref_def)
qed

definition listener :: execute where
  "listener ex s =
     (case scripts s ex of
        None \<Rightarrow> (sample_machine, []) | Some u \<Rightarrow> (machine u, [Wait_For_Event 0 (BLong 60)]))"

lemma listener_run:
  "on_ok (perform (Start_Script sample_machine) 0 (init_sched 5000 False 1)) (\<lambda>s1.
   on_ok (step_scripts listener 0 s1) (\<lambda>(left, activity, s). case scripts s 0 of None \<Rightarrow> False
     | Some u \<Rightarrow> blocked u \<and> wait_type u = WAIT_EVENT \<and> in_hold_list u = TIMEOUT_LIST \<and>
         ValueStack (machine u) = [1]))"
  by (simp add: run_simps run_ready_eq listener_def cong: arguments_first on_ok_first)
    (simp add: sample_program_def)

lemma waiting_script_gets_event_witness:
  "\<exists>s t u'. perform (Signal 0 (BString ''hit'')) 0 s = Some (Inr t) \<and> scripts t 0 = Some u' \<and>
    0 \<in> set (runlist t @ ranlist t) \<and> deref (machine u') (hd (ValueStack (machine u'))) = BString ''hit''"
proof -
  obtain s1 left activity s u where s: "perform (Start_Script sample_machine) 0 (init_sched 5000 False 1) = Some (Inr s1)"
    "step_scripts listener 0 s1 = Some (Inr (left, activity, s))" "scripts s 0 = Some u"
    "blocked u" "wait_type u = WAIT_EVENT" "in_hold_list u = TIMEOUT_LIST" "ValueStack (machine u) = [1]"
    using listener_run by (auto simp: on_ok_iff split: option.splits)
  have "(sched_step listener)\<^sup>*\<^sup>* (init_sched 5000 False 1) s"
    using start_step[OF s(1)] Scripts[OF s(2)] by (metis converse_rtranclp_into_rtranclp rtranclp.rtrancl_refl)
  from waiting_script_gets_event[OF this s(3-5), of 1 "[]" "BString ''hit''" 0] show ?thesis
    using s(6,7) by fastforce
qed

end
