(* ===== verification/Names.thy ===== *)
theory Names
  imports OrdMaps "HOL-Library.Multiset"
begin

text \<open>
  The names of members and methods that the compiler turns into numbers
  (\<^verbatim>\<open>pol-core/bscript/parser.cpp\<close>, \<^verbatim>\<open>objmembers.h\<close>,
  \<^verbatim>\<open>objmethods.h\<close>). A pointer to an entry of a table is the place of the
  entry. A table row is the constant of the enumeration, the name, and the flag.
\<close>

section \<open>Tables\<close>

definition MemberID :: "string list" where
  "MemberID = [
    ''MBR_X'', ''MBR_Y'', ''MBR_Z'', ''MBR_NAME'', ''MBR_OBJTYPE'', ''MBR_GRAPHIC'',
    ''MBR_SERIAL'', ''MBR_COLOR'', ''MBR_HEIGHT'', ''MBR_FACING'', ''MBR_DIRTY'',
    ''MBR_WEIGHT'', ''MBR_MULTI'', ''MBR_AMOUNT'', ''MBR_LAYER'', ''MBR_CONTAINER'',
    ''MBR_USESCRIPT'', ''MBR_EQUIPSCRIPT'', ''MBR_UNEQUIPSCRIPT'', ''MBR_DESC'',
    ''MBR_MOVABLE'', ''MBR_INVISIBLE'', ''MBR_DECAYAT'', ''MBR_SELLPRICE'', ''MBR_BUYPRICE'',
    ''MBR_NEWBIE'', ''MBR_ITEM_COUNT'', ''MBR_WARMODE'', ''MBR_GENDER'', ''MBR_TRUEOBJTYPE'',
    ''MBR_TRUECOLOR'', ''MBR_AR_MOD'', ''MBR_HIDDEN'', ''MBR_CONCEALED'', ''MBR_FROZEN'',
    ''MBR_PARALYZED'', ''MBR_POISONED'', ''MBR_STEALTHSTEPS'', ''MBR_SQUELCHED'',
    ''MBR_DEAD'', ''MBR_AR'', ''MBR_BACKPACK'', ''MBR_WEAPON'', ''MBR_SHIELD'',
    ''MBR_ACCTNAME'', ''MBR_ACCT'', ''MBR_CMDLEVEL'', ''MBR_CMDLEVELSTR'', ''MBR_CRIMINAL'',
    ''MBR_IP'', ''MBR_GOLD'', ''MBR_TITLE_PREFIX'', ''MBR_TITLE_SUFFIX'', ''MBR_TITLE_GUILD'',
    ''MBR_TITLE_RACE'', ''MBR_GUILDID'', ''MBR_GUILD'', ''MBR_MURDERER'', ''MBR_ATTACHED'',
    ''MBR_CLIENTVERSION'', ''MBR_REPORTABLES'', ''MBR_SCRIPT'', ''MBR_NPCTEMPLATE'',
    ''MBR_MASTER'', ''MBR_PROCESS'', ''MBR_EVENTMASK'', ''MBR_SPEECH_COLOR'',
    ''MBR_SPEECH_FONT'', ''MBR_USE_ADJUSTMENTS'', ''MBR_RUN_SPEED'', ''MBR_LOCKED'',
    ''MBR_CORPSETYPE'', ''MBR_TILLERMAN'', ''MBR_PORTPLANK'', ''MBR_STARBOARDPLANK'',
    ''MBR_HOLD'', ''MBR_HAS_OFFLINE_MOBILES'', ''MBR_COMPONENTS'', ''MBR_ITEMS'',
    ''MBR_MOBILES'', ''MBR_XEAST'', ''MBR_XWEST'', ''MBR_YNORTH'', ''MBR_YSOUTH'',
    ''MBR_GUMPWIDTH'', ''MBR_GUMPHEIGHT'', ''MBR_ISOPEN'', ''MBR_QUALITY'', ''MBR_HP'',
    ''MBR_MAXHP_MOD'', ''MBR_MAXHP'', ''MBR_DMG_MOD'', ''MBR_ATTRIBUTE'', ''MBR_INTRINSIC'',
    ''MBR_HITSCRIPT'', ''MBR_AR_BASE'', ''MBR_ONHIT_SCRIPT'', ''MBR_ENABLED'', ''MBR_BANNED'',
    ''MBR_USERNAMEPASSWORDHASH'', ''MBR_MEMBERS'', ''MBR_ALLYGUILDS'', ''MBR_ENEMYGUILDS'',
    ''MBR_PID'', ''MBR_STATE'', ''MBR_INSTR_CYCLES'', ''MBR_SLEEP_CYCLES'',
    ''MBR_CONSEC_CYCLES'', ''MBR_PC'', ''MBR_CALL_DEPTH'', ''MBR_NUM_GLOBALS'',
    ''MBR_VAR_SIZE'', ''MBR_REALM'', ''MBR_UO_EXPANSION'', ''MBR_CUSTOM'', ''MBR_GLOBALS'',
    ''MBR_FOOTPRINT'', ''MBR_CLIENTINFO'', ''MBR_DELAY_MOD'', ''MBR_CREATEDAT'',
    ''MBR_OPPONENT'', ''MBR_CONNECTED'', ''MBR_ATTACHED_TO'', ''MBR_CONTROLLER'',
    ''MBR_OWNERSERIAL'', ''MBR_DEFAULTCMDLEVEL'', ''MBR_UCLANG'', ''MBR_RACE'',
    ''MBR_TRADING_WITH'', ''MBR_TRADE_CONTAINER'', ''MBR_ALIGNMENT'', ''MBR_CURSOR'',
    ''MBR_GUMP'', ''MBR_PROMPT'', ''MBR_STACKABLE'', ''MBR_MOVEMODE'', ''MBR_HITCHANCE_MOD'',
    ''MBR_EVASIONCHANCE_MOD'', ''MBR_TILE_LAYER'', ''MBR_CLIENTVERSIONDETAIL'',
    ''MBR_SAVEONEXIT'', ''MBR_FIRE_RESIST'', ''MBR_COLD_RESIST'', ''MBR_ENERGY_RESIST'',
    ''MBR_POISON_RESIST'', ''MBR_PHYSICAL_RESIST'', ''MBR_FIRE_RESIST_MOD'',
    ''MBR_COLD_RESIST_MOD'', ''MBR_ENERGY_RESIST_MOD'', ''MBR_POISON_RESIST_MOD'',
    ''MBR_PHYSICAL_RESIST_MOD'', ''MBR_STATCAP'', ''MBR_SKILLCAP'', ''MBR_LUCK'',
    ''MBR_FOLLOWERSMAX'', ''MBR_TITHING'', ''MBR_FOLLOWERS'', ''MBR_FIRE_DAMAGE'',
    ''MBR_COLD_DAMAGE'', ''MBR_ENERGY_DAMAGE'', ''MBR_POISON_DAMAGE'',
    ''MBR_PHYSICAL_DAMAGE'', ''MBR_FIRE_DAMAGE_MOD'', ''MBR_COLD_DAMAGE_MOD'',
    ''MBR_ENERGY_DAMAGE_MOD'', ''MBR_POISON_DAMAGE_MOD'', ''MBR_PHYSICAL_DAMAGE_MOD'',
    ''MBR_PARTY'', ''MBR_LEADER'', ''MBR_PARTYLOOT'', ''MBR_CANDIDATE_OF_PARTY'',
    ''MBR_CANDIDATES'', ''MBR_MOVECOST_WALK'', ''MBR_MOVECOST_RUN'',
    ''MBR_MOVECOST_WALK_MOUNTED'', ''MBR_MOVECOST_RUN_MOUNTED'', ''MBR_AGGRESSORTO'',
    ''MBR_LAWFULLYDAMAGED'', ''MBR_GETGOTTENBY'', ''MBR_UO_EXPANSION_CLIENT'',
    ''MBR_CLIENTTYPE'', ''MBR_DEAFENED'', ''MBR_CLIENT'', ''MBR_TYPE'', ''MBR_ATTRIBUTES'',
    ''MBR_EDITING'', ''MBR_HOUSEPARTS'', ''MBR_DOUBLECLICKRANGE'', ''MBR_MOUNTEDSTEPS'',
    ''MBR_ROPE'', ''MBR_WHEEL'', ''MBR_HULL'', ''MBR_TILLER'', ''MBR_RUDDER'', ''MBR_SAILS'',
    ''MBR_STORAGE'', ''MBR_WEAPONSLOT'', ''MBR_MULTIID'', ''MBR_TRADEWINDOW'',
    ''MBR_LASTCOORD'', ''MBR_FACETID'', ''MBR_EDITABLE'', ''MBR_ACTIVE_SKILL'',
    ''MBR_CASTING_SPELL'', ''MBR_CARRYINGCAPACITY_MOD'', ''MBR_MAX_ITEMS_MOD'',
    ''MBR_MAX_WEIGHT_MOD'', ''MBR_MAX_SLOTS_MOD'', ''MBR_SPEED_MOD'', ''MBR_NAME_SUFFIX'',
    ''MBR_TEMPORALLY_CRIMINAL'', ''MBR_LAST_TEXTCOLOR'', ''MBR_INSURED'',
    ''MBR_LAST_ACTIVITY_AT'', ''MBR_LAST_PACKET_AT'', ''MBR_HOUSE'', ''MBR_SPECIFIC_NAME'',
    ''MBR_CARRYINGCAPACITY'', ''MBR_NO_DROP'', ''MBR_NO_DROP_EXCEPTION'', ''MBR_PORT'',
    ''MBR_LOWER_REAG_COST'', ''MBR_SPELL_DAMAGE_INCREASE'', ''MBR_FASTER_CASTING'',
    ''MBR_FASTER_CAST_RECOVERY'', ''MBR_DEFENCE_CHANCE_INCREASE'',
    ''MBR_DEFENCE_CHANCE_INCREASE_CAP'', ''MBR_LOWER_MANA_COST'', ''MBR_FIRE_RESIST_CAP'',
    ''MBR_COLD_RESIST_CAP'', ''MBR_ENERGY_RESIST_CAP'', ''MBR_POISON_RESIST_CAP'',
    ''MBR_PHYSICAL_RESIST_CAP'', ''MBR_HIT_CHANCE'', ''MBR_LOWER_REAG_COST_MOD'',
    ''MBR_SPELL_DAMAGE_INCREASE_MOD'', ''MBR_FASTER_CASTING_MOD'',
    ''MBR_FASTER_CAST_RECOVERY_MOD'', ''MBR_DEFENCE_CHANCE_INCREASE_MOD'',
    ''MBR_DEFENCE_CHANCE_INCREASE_CAP_MOD'', ''MBR_LOWER_MANA_COST_MOD'',
    ''MBR_FIRE_RESIST_CAP_MOD'', ''MBR_COLD_RESIST_CAP_MOD'', ''MBR_ENERGY_RESIST_CAP_MOD'',
    ''MBR_POISON_RESIST_CAP_MOD'', ''MBR_PHYSICAL_RESIST_CAP_MOD'', ''MBR_LUCK_MOD'',
    ''MBR_HIT_CHANCE_MOD'', ''MBR_PACKAGE'']"

definition object_members :: "(string \<times> string \<times> bool) list" where
  "object_members = [
    (''MBR_X'', ''x'', True), (''MBR_Y'', ''y'', True), (''MBR_Z'', ''z'', True),
    (''MBR_NAME'', ''name'', False), (''MBR_OBJTYPE'', ''objtype'', True),
    (''MBR_GRAPHIC'', ''graphic'', False), (''MBR_SERIAL'', ''serial'', True),
    (''MBR_COLOR'', ''color'', False), (''MBR_HEIGHT'', ''height'', True),
    (''MBR_FACING'', ''facing'', False), (''MBR_DIRTY'', ''dirty'', True),
    (''MBR_WEIGHT'', ''weight'', True), (''MBR_MULTI'', ''multi'', True),
    (''MBR_AMOUNT'', ''amount'', True), (''MBR_LAYER'', ''layer'', True),
    (''MBR_CONTAINER'', ''container'', True), (''MBR_USESCRIPT'', ''usescript'', False),
    (''MBR_EQUIPSCRIPT'', ''equipscript'', False),
    (''MBR_UNEQUIPSCRIPT'', ''unequipscript'', False), (''MBR_DESC'', ''desc'', False),
    (''MBR_MOVABLE'', ''movable'', False), (''MBR_INVISIBLE'', ''invisible'', False),
    (''MBR_DECAYAT'', ''decayat'', False), (''MBR_SELLPRICE'', ''sellprice'', False),
    (''MBR_BUYPRICE'', ''buyprice'', False), (''MBR_NEWBIE'', ''newbie'', False),
    (''MBR_ITEM_COUNT'', ''item_count'', True), (''MBR_WARMODE'', ''warmode'', True),
    (''MBR_GENDER'', ''gender'', False), (''MBR_TRUEOBJTYPE'', ''trueobjtype'', False),
    (''MBR_TRUECOLOR'', ''truecolor'', False), (''MBR_AR_MOD'', ''ar_mod'', False),
    (''MBR_HIDDEN'', ''hidden'', False), (''MBR_CONCEALED'', ''concealed'', False),
    (''MBR_FROZEN'', ''frozen'', False), (''MBR_PARALYZED'', ''paralyzed'', False),
    (''MBR_POISONED'', ''poisoned'', False), (''MBR_STEALTHSTEPS'', ''stealthsteps'', False),
    (''MBR_SQUELCHED'', ''squelched'', True), (''MBR_DEAD'', ''dead'', True),
    (''MBR_AR'', ''ar'', True), (''MBR_BACKPACK'', ''backpack'', True),
    (''MBR_WEAPON'', ''weapon'', True), (''MBR_SHIELD'', ''shield'', True),
    (''MBR_ACCTNAME'', ''acctname'', True), (''MBR_ACCT'', ''acct'', True),
    (''MBR_CMDLEVEL'', ''cmdlevel'', False), (''MBR_CMDLEVELSTR'', ''cmdlevelstr'', True),
    (''MBR_CRIMINAL'', ''criminal'', True), (''MBR_IP'', ''ip'', True),
    (''MBR_GOLD'', ''gold'', True), (''MBR_TITLE_PREFIX'', ''title_prefix'', False),
    (''MBR_TITLE_SUFFIX'', ''title_suffix'', False),
    (''MBR_TITLE_GUILD'', ''title_guild'', False),
    (''MBR_TITLE_RACE'', ''title_race'', False), (''MBR_GUILDID'', ''guildid'', True),
    (''MBR_GUILD'', ''guild'', True), (''MBR_MURDERER'', ''murderer'', False),
    (''MBR_ATTACHED'', ''attached'', True), (''MBR_CLIENTVERSION'', ''clientversion'', True),
    (''MBR_REPORTABLES'', ''reportables'', True), (''MBR_SCRIPT'', ''script'', False),
    (''MBR_NPCTEMPLATE'', ''npctemplate'', True), (''MBR_MASTER'', ''master'', True),
    (''MBR_PROCESS'', ''process'', True), (''MBR_EVENTMASK'', ''eventmask'', True),
    (''MBR_SPEECH_COLOR'', ''speech_color'', False),
    (''MBR_SPEECH_FONT'', ''speech_font'', False),
    (''MBR_USE_ADJUSTMENTS'', ''use_adjustments'', False),
    (''MBR_RUN_SPEED'', ''run_speed'', False), (''MBR_LOCKED'', ''locked'', False),
    (''MBR_CORPSETYPE'', ''corpsetype'', True), (''MBR_TILLERMAN'', ''tillerman'', True),
    (''MBR_PORTPLANK'', ''portplank'', True),
    (''MBR_STARBOARDPLANK'', ''starboardplank'', True), (''MBR_HOLD'', ''hold'', True),
    (''MBR_HAS_OFFLINE_MOBILES'', ''has_offline_mobiles'', True),
    (''MBR_COMPONENTS'', ''components'', True), (''MBR_ITEMS'', ''items'', True),
    (''MBR_MOBILES'', ''mobiles'', True), (''MBR_XEAST'', ''xeast'', False),
    (''MBR_XWEST'', ''xwest'', False), (''MBR_YNORTH'', ''ynorth'', False),
    (''MBR_YSOUTH'', ''ysouth'', False), (''MBR_GUMPWIDTH'', ''gumpwidth'', False),
    (''MBR_GUMPHEIGHT'', ''gumpheight'', False), (''MBR_ISOPEN'', ''isopen'', True),
    (''MBR_QUALITY'', ''quality'', False), (''MBR_HP'', ''hp'', False),
    (''MBR_MAXHP_MOD'', ''maxhp_mod'', False), (''MBR_MAXHP'', ''maxhp'', True),
    (''MBR_DMG_MOD'', ''dmg_mod'', False), (''MBR_ATTRIBUTE'', ''attribute'', True),
    (''MBR_INTRINSIC'', ''intrinsic'', True), (''MBR_HITSCRIPT'', ''hitscript'', False),
    (''MBR_AR_BASE'', ''ar_base'', True), (''MBR_ONHIT_SCRIPT'', ''onhitscript'', False),
    (''MBR_ENABLED'', ''enabled'', True), (''MBR_BANNED'', ''banned'', True),
    (''MBR_USERNAMEPASSWORDHASH'', ''usernamepasswordhash'', True),
    (''MBR_MEMBERS'', ''members'', True), (''MBR_ALLYGUILDS'', ''allyguilds'', True),
    (''MBR_ENEMYGUILDS'', ''enemyguilds'', True), (''MBR_PID'', ''pid'', True),
    (''MBR_STATE'', ''state'', True), (''MBR_INSTR_CYCLES'', ''instr_cycles'', True),
    (''MBR_SLEEP_CYCLES'', ''sleep_cycles'', True),
    (''MBR_CONSEC_CYCLES'', ''consec_cycles'', True), (''MBR_PC'', ''pc'', True),
    (''MBR_CALL_DEPTH'', ''call_depth'', True), (''MBR_NUM_GLOBALS'', ''num_globals'', True),
    (''MBR_VAR_SIZE'', ''var_size'', True), (''MBR_REALM'', ''realm'', True),
    (''MBR_UO_EXPANSION'', ''uo_expansion'', True), (''MBR_CUSTOM'', ''custom'', True),
    (''MBR_GLOBALS'', ''globals'', True), (''MBR_FOOTPRINT'', ''footprint'', True),
    (''MBR_CLIENTINFO'', ''clientinfo'', True), (''MBR_DELAY_MOD'', ''delay_mod'', False),
    (''MBR_CREATEDAT'', ''createdat'', True), (''MBR_OPPONENT'', ''opponent'', True),
    (''MBR_CONNECTED'', ''connected'', True), (''MBR_ATTACHED_TO'', ''attached_to'', True),
    (''MBR_CONTROLLER'', ''controller'', True), (''MBR_OWNERSERIAL'', ''ownerserial'', True),
    (''MBR_DEFAULTCMDLEVEL'', ''defaultcmdlevel'', True), (''MBR_UCLANG'', ''uclang'', True),
    (''MBR_RACE'', ''race'', False), (''MBR_TRADING_WITH'', ''trading_with'', False),
    (''MBR_TRADE_CONTAINER'', ''trade_container'', False),
    (''MBR_ALIGNMENT'', ''alignment'', False), (''MBR_CURSOR'', ''cursor'', False),
    (''MBR_GUMP'', ''gump'', False), (''MBR_PROMPT'', ''prompt'', False),
    (''MBR_STACKABLE'', ''stackable'', False), (''MBR_MOVEMODE'', ''movemode'', False),
    (''MBR_HITCHANCE_MOD'', ''hitchance_mod'', False),
    (''MBR_EVASIONCHANCE_MOD'', ''evasionchance_mod'', False),
    (''MBR_TILE_LAYER'', ''tile_layer'', True),
    (''MBR_CLIENTVERSIONDETAIL'', ''clientver_detail'', True),
    (''MBR_SAVEONEXIT'', ''saveonexit'', True), (''MBR_FIRE_RESIST'', ''resist_fire'', True),
    (''MBR_COLD_RESIST'', ''resist_cold'', True),
    (''MBR_ENERGY_RESIST'', ''resist_energy'', True),
    (''MBR_POISON_RESIST'', ''resist_poison'', True),
    (''MBR_PHYSICAL_RESIST'', ''resist_physical'', True),
    (''MBR_FIRE_RESIST_MOD'', ''resist_fire_mod'', True),
    (''MBR_COLD_RESIST_MOD'', ''resist_cold_mod'', True),
    (''MBR_ENERGY_RESIST_MOD'', ''resist_energy_mod'', True),
    (''MBR_POISON_RESIST_MOD'', ''resist_poison_mod'', True),
    (''MBR_PHYSICAL_RESIST_MOD'', ''resist_physical_mod'', True),
    (''MBR_STATCAP'', ''statcap'', False), (''MBR_SKILLCAP'', ''skillcap'', False),
    (''MBR_LUCK'', ''luck'', False), (''MBR_FOLLOWERSMAX'', ''followers_max'', False),
    (''MBR_TITHING'', ''tithing'', False), (''MBR_FOLLOWERS'', ''followers'', False),
    (''MBR_FIRE_DAMAGE'', ''damage_fire'', True),
    (''MBR_COLD_DAMAGE'', ''damage_cold'', True),
    (''MBR_ENERGY_DAMAGE'', ''damage_energy'', True),
    (''MBR_POISON_DAMAGE'', ''damage_poison'', True),
    (''MBR_PHYSICAL_DAMAGE'', ''damage_physical'', True),
    (''MBR_FIRE_DAMAGE_MOD'', ''damage_fire_mod'', True),
    (''MBR_COLD_DAMAGE_MOD'', ''damage_cold_mod'', True),
    (''MBR_ENERGY_DAMAGE_MOD'', ''damage_energy_mod'', True),
    (''MBR_POISON_DAMAGE_MOD'', ''damage_poison_mod'', True),
    (''MBR_PHYSICAL_DAMAGE_MOD'', ''damage_physical_mod'', True),
    (''MBR_PARTY'', ''party'', True), (''MBR_LEADER'', ''leader'', True),
    (''MBR_PARTYLOOT'', ''partycanloot'', True),
    (''MBR_CANDIDATE_OF_PARTY'', ''candidate_of_party'', True),
    (''MBR_CANDIDATES'', ''candidates'', True),
    (''MBR_MOVECOST_WALK'', ''movecost_walk_mod'', True),
    (''MBR_MOVECOST_RUN'', ''movecost_run_mod'', True),
    (''MBR_MOVECOST_WALK_MOUNTED'', ''movecost_walk_mounted_mod'', True),
    (''MBR_MOVECOST_RUN_MOUNTED'', ''movecost_run_mounted_mod'', True),
    (''MBR_AGGRESSORTO'', ''aggressorto'', True),
    (''MBR_LAWFULLYDAMAGED'', ''lawfullydamaged'', True),
    (''MBR_GETGOTTENBY'', ''getgottenby'', True),
    (''MBR_UO_EXPANSION_CLIENT'', ''uo_expansion_client'', True),
    (''MBR_CLIENTTYPE'', ''clienttype'', True), (''MBR_DEAFENED'', ''deafed'', True),
    (''MBR_CLIENT'', ''client'', True), (''MBR_TYPE'', ''type'', True),
    (''MBR_ATTRIBUTES'', ''attributes'', True), (''MBR_EDITING'', ''house_editing'', True),
    (''MBR_HOUSEPARTS'', ''house_parts'', True),
    (''MBR_DOUBLECLICKRANGE'', ''doubleclickrange'', False),
    (''MBR_MOUNTEDSTEPS'', ''mountedsteps'', False), (''MBR_ROPE'', ''rope'', True),
    (''MBR_WHEEL'', ''wheel'', True), (''MBR_HULL'', ''hull'', True),
    (''MBR_TILLER'', ''tiller'', True), (''MBR_RUDDER'', ''rudder'', True),
    (''MBR_SAILS'', ''sails'', True), (''MBR_STORAGE'', ''storage'', True),
    (''MBR_WEAPONSLOT'', ''weaponslot'', True), (''MBR_MULTIID'', ''multiid'', True),
    (''MBR_TRADEWINDOW'', ''tradewindow'', True), (''MBR_LASTCOORD'', ''lastcoord'', True),
    (''MBR_FACETID'', ''facetid'', True), (''MBR_EDITABLE'', ''editable'', True),
    (''MBR_ACTIVE_SKILL'', ''active_skill'', True),
    (''MBR_CASTING_SPELL'', ''casting_spell'', True),
    (''MBR_CARRYINGCAPACITY_MOD'', ''carrying_capacity_mod'', False),
    (''MBR_MAX_ITEMS_MOD'', ''max_items_mod'', False),
    (''MBR_MAX_WEIGHT_MOD'', ''max_weight_mod'', False),
    (''MBR_MAX_SLOTS_MOD'', ''max_slots_mod'', False),
    (''MBR_SPEED_MOD'', ''speed_mod'', False), (''MBR_NAME_SUFFIX'', ''name_suffix'', False),
    (''MBR_TEMPORALLY_CRIMINAL'', ''temporally_criminal'', True),
    (''MBR_LAST_TEXTCOLOR'', ''last_textcolor'', True), (''MBR_INSURED'', ''insured'', False),
    (''MBR_LAST_ACTIVITY_AT'', ''last_activity_at'', False),
    (''MBR_LAST_PACKET_AT'', ''last_packet_at'', False), (''MBR_HOUSE'', ''house'', True),
    (''MBR_SPECIFIC_NAME'', ''specific_name'', True),
    (''MBR_CARRYINGCAPACITY'', ''carrying_capacity'', True),
    (''MBR_NO_DROP'', ''no_drop'', False),
    (''MBR_NO_DROP_EXCEPTION'', ''no_drop_exception'', False),
    (''MBR_PORT'', ''port'', False), (''MBR_LOWER_REAG_COST'', ''lower_reagent_cost'', True),
    (''MBR_SPELL_DAMAGE_INCREASE'', ''spell_damage_increase'', True),
    (''MBR_FASTER_CASTING'', ''faster_casting'', True),
    (''MBR_FASTER_CAST_RECOVERY'', ''faster_cast_recovery'', True),
    (''MBR_DEFENCE_CHANCE_INCREASE'', ''defence_increase'', True),
    (''MBR_DEFENCE_CHANCE_INCREASE_CAP'', ''defence_increase_cap'', True),
    (''MBR_LOWER_MANA_COST'', ''lower_mana_cost'', True),
    (''MBR_FIRE_RESIST_CAP'', ''resist_fire_cap'', True),
    (''MBR_COLD_RESIST_CAP'', ''resist_cold_cap'', True),
    (''MBR_ENERGY_RESIST_CAP'', ''resist_energy_cap'', True),
    (''MBR_POISON_RESIST_CAP'', ''resist_poison_cap'', True),
    (''MBR_PHYSICAL_RESIST_CAP'', ''resist_physical_cap'', True),
    (''MBR_HIT_CHANCE'', ''hit_chance'', True),
    (''MBR_LOWER_REAG_COST_MOD'', ''lower_reagent_cost_mod'', False),
    (''MBR_SPELL_DAMAGE_INCREASE_MOD'', ''spell_damage_increase_mod'', False),
    (''MBR_FASTER_CASTING_MOD'', ''faster_casting_mod'', False),
    (''MBR_FASTER_CAST_RECOVERY_MOD'', ''faster_cast_recovery_mod'', False),
    (''MBR_DEFENCE_CHANCE_INCREASE_MOD'', ''defence_increase_mod'', False),
    (''MBR_DEFENCE_CHANCE_INCREASE_CAP_MOD'', ''defence_increase_cap_mod'', False),
    (''MBR_LOWER_MANA_COST_MOD'', ''lower_mana_cost_mod'', False),
    (''MBR_FIRE_RESIST_CAP_MOD'', ''resist_fire_cap_mod'', False),
    (''MBR_COLD_RESIST_CAP_MOD'', ''resist_cold_cap_mod'', False),
    (''MBR_ENERGY_RESIST_CAP_MOD'', ''resist_energy_cap_mod'', False),
    (''MBR_POISON_RESIST_CAP_MOD'', ''resist_poison_cap_mod'', False),
    (''MBR_PHYSICAL_RESIST_CAP_MOD'', ''resist_physical_cap_mod'', False),
    (''MBR_LUCK_MOD'', ''luck_mod'', False),
    (''MBR_HIT_CHANCE_MOD'', ''hit_chance_mod'', False), (''MBR_PACKAGE'', ''package'', True)]"

definition MethodID :: "string list" where
  "MethodID = [
    ''MTH_ISA'', ''MTH_SET_MEMBER'', ''MTH_GET_MEMBER'', ''MTH_SETPOISONED'',
    ''MTH_SETPARALYZED'', ''MTH_SETCRIMINAL'', ''MTH_SETLIGHTLEVEL'', ''MTH_SQUELCH'',
    ''MTH_ENABLE'', ''MTH_DISABLE'', ''MTH_ENABLED'', ''MTH_SETCMDLEVEL'', ''MTH_SPENDGOLD'',
    ''MTH_SETMURDERER'', ''MTH_REMOVEREPORTABLE'', ''MTH_GETGOTTENITEM'',
    ''MTH_CLEARGOTTENITEM'', ''MTH_SETWARMODE'', ''MTH_SETMASTER'',
    ''MTH_MOVE_OFFLINE_MOBILES'', ''MTH_SETCUSTOM'', ''MTH_GETPINS'', ''MTH_INSERTPIN'',
    ''MTH_APPENDPIN'', ''MTH_ERASEPIN'', ''MTH_OPEN'', ''MTH_CLOSE'', ''MTH_TOGGLE'',
    ''MTH_BAN'', ''MTH_UNBAN'', ''MTH_SETPASSWORD'', ''MTH_CHECKPASSWORD'', ''MTH_SETNAME'',
    ''MTH_GETCHARACTER'', ''MTH_DELETECHARACTER'', ''MTH_GETPROP'', ''MTH_SETPROP'',
    ''MTH_ERASEPROP'', ''MTH_PROPNAMES'', ''MTH_ISMEMBER'', ''MTH_ISALLYGUILD'',
    ''MTH_ISENEMYGUILD'', ''MTH_ADDMEMBER'', ''MTH_ADDALLYGUILD'', ''MTH_ADDENEMYGUILD'',
    ''MTH_REMOVEMEMBER'', ''MTH_REMOVEALLYGUILD'', ''MTH_REMOVEENEMYGUILD'', ''MTH_SIZE'',
    ''MTH_ERASE'', ''MTH_INSERT'', ''MTH_SHRINK'', ''MTH_APPEND'', ''MTH_REVERSE'',
    ''MTH_SORT'', ''MTH_EXISTS'', ''MTH_KEYS'', ''MTH_SENDPACKET'', ''MTH_SENDAREAPACKET'',
    ''MTH_GETINT8'', ''MTH_GETINT16'', ''MTH_GETINT32'', ''MTH_SETINT8'', ''MTH_SETINT16'',
    ''MTH_SETINT32'', ''MTH_GETSTRING'', ''MTH_GETUNICODESTRING'', ''MTH_SETSTRING'',
    ''MTH_SETUNICODESTRING'', ''MTH_GETSIZE'', ''MTH_SETSIZE'', ''MTH_CREATEELEMENT'',
    ''MTH_FINDELEMENT'', ''MTH_DELETEELEMENT'', ''MTH_SENDEVENT'', ''MTH_KILL'',
    ''MTH_LOADSYMBOLS'', ''MTH_SET_UO_EXPANSION'', ''MTH_CLEAR_EVENT_QUEUE'',
    ''MTH_ADD_COMPONENT'', ''MTH_ERASE_COMPONENT'', ''MTH_DELETE'', ''MTH_SPLIT'',
    ''MTH_MOVE_CHAR'', ''MTH_GETINT16FLIPPED'', ''MTH_GETINT32FLIPPED'',
    ''MTH_SETINT16FLIPPED'', ''MTH_SETINT32FLIPPED'', ''MTH_GETCORPSE'',
    ''MTH_SETDEFAULTCMDLEVEL'', ''MTH_PRIVILEGES'', ''MTH_GETUNICODESTRINGFLIPPED'',
    ''MTH_SETUNICODESTRINGFLIPPED'', ''MTH_ADD_CHARACTER'', ''MTH_SET_SWINGTIMER'',
    ''MTH_ATTACK_ONCE'', ''MTH_SETFACING'', ''MTH_COMPAREVERSION'', ''MTH_SETLEADER'',
    ''MTH_ADDCANDIDATE'', ''MTH_REMOVECANDIDATE'', ''MTH_RANDOMENTRY'', ''MTH_SEEK'',
    ''MTH_PEEK'', ''MTH_TELL'', ''MTH_FLUSH'', ''MTH_GETSINT8'', ''MTH_GETSINT16'',
    ''MTH_GETSINT32'', ''MTH_SETSINT8'', ''MTH_SETSINT16'', ''MTH_SETSINT32'',
    ''MTH_SETAGGRESSORTO'', ''MTH_SETLAWFULLYDAMAGEDTO'', ''MTH_CLEARAGGRESSORTO'',
    ''MTH_CLEARLAWFULLYDAMAGEDTO'', ''MTH_HASSPELL'', ''MTH_SPELLS'', ''MTH_REMOVESPELL'',
    ''MTH_ADDSPELL'', ''MTH_DEAF'', ''MTH_SETSEASON'', ''MTH_NEXTSIBLING'',
    ''MTH_FIRSTCHILD'', ''MTH_SAVEXML'', ''MTH_APPENDNODE'', ''MTH_SETDECLARATION'',
    ''MTH_SETATTRIBUTE'', ''MTH_REMOVEATTRIBUTE'', ''MTH_REMOVENODE'', ''MTH_APPENDTEXT'',
    ''MTH_XMLTOSTRING'', ''MTH_APPENDXMLCOMMENT'', ''MTH_ADD_HOUSE_PART'',
    ''MTH_ERASE_HOUSE_PART'', ''MTH_ACCEPT_COMMIT'', ''MTH_SPLITSTACK_AT'',
    ''MTH_SPLITSTACK_INTO'', ''MTH_CANCEL_EDITING'', ''MTH_CLONENODE'',
    ''MTH_HAS_EXISTING_STACK'', ''MTH_LENGTH'', ''MTH_JOIN'', ''MTH_FIND'', ''MTH_UPPER'',
    ''MTH_LOWER'', ''MTH_FORMAT'', ''MTH_DISABLE_SKILLS_FOR'', ''MTH_CYCLE'',
    ''MTH_ADD_BUFF'', ''MTH_DEL_BUFF'', ''MTH_CLEAR_BUFFS'', ''MTH_CALL'',
    ''MTH_SORTEDINSERT'']"

definition object_methods :: "(string \<times> string \<times> bool) list" where
  "object_methods = [
    (''MTH_ISA'', ''isa'', False), (''MTH_SET_MEMBER'', ''set_member'', False),
    (''MTH_GET_MEMBER'', ''get_member'', False),
    (''MTH_SETPOISONED'', ''setpoisoned'', False),
    (''MTH_SETPARALYZED'', ''setparalyzed'', False),
    (''MTH_SETCRIMINAL'', ''setcriminal'', False),
    (''MTH_SETLIGHTLEVEL'', ''setlightlevel'', False), (''MTH_SQUELCH'', ''squelch'', False),
    (''MTH_ENABLE'', ''enable'', False), (''MTH_DISABLE'', ''disable'', False),
    (''MTH_ENABLED'', ''enabled'', False), (''MTH_SETCMDLEVEL'', ''setcmdlevel'', False),
    (''MTH_SPENDGOLD'', ''spendgold'', False), (''MTH_SETMURDERER'', ''setmurderer'', False),
    (''MTH_REMOVEREPORTABLE'', ''removereportable'', False),
    (''MTH_GETGOTTENITEM'', ''getgottenitem'', False),
    (''MTH_CLEARGOTTENITEM'', ''cleargottenitem'', False),
    (''MTH_SETWARMODE'', ''setwarmode'', False), (''MTH_SETMASTER'', ''setmaster'', False),
    (''MTH_MOVE_OFFLINE_MOBILES'', ''move_offline_mobiles'', False),
    (''MTH_SETCUSTOM'', ''setcustom'', False), (''MTH_GETPINS'', ''getpins'', False),
    (''MTH_INSERTPIN'', ''insertpin'', False), (''MTH_APPENDPIN'', ''appendpin'', False),
    (''MTH_ERASEPIN'', ''erasepin'', False), (''MTH_OPEN'', ''open'', False),
    (''MTH_CLOSE'', ''close'', False), (''MTH_TOGGLE'', ''toggle'', False),
    (''MTH_BAN'', ''ban'', False), (''MTH_UNBAN'', ''unban'', False),
    (''MTH_SETPASSWORD'', ''setpassword'', False),
    (''MTH_CHECKPASSWORD'', ''checkpassword'', False), (''MTH_SETNAME'', ''setname'', False),
    (''MTH_GETCHARACTER'', ''getcharacter'', False),
    (''MTH_DELETECHARACTER'', ''deletecharacter'', False),
    (''MTH_GETPROP'', ''getprop'', False), (''MTH_SETPROP'', ''setprop'', False),
    (''MTH_ERASEPROP'', ''eraseprop'', False), (''MTH_PROPNAMES'', ''propnames'', False),
    (''MTH_ISMEMBER'', ''ismember'', False), (''MTH_ISALLYGUILD'', ''isallyguild'', False),
    (''MTH_ISENEMYGUILD'', ''isenemyguild'', False),
    (''MTH_ADDMEMBER'', ''addmember'', False),
    (''MTH_ADDALLYGUILD'', ''addallyguild'', False),
    (''MTH_ADDENEMYGUILD'', ''addenemyguild'', False),
    (''MTH_REMOVEMEMBER'', ''removemember'', False),
    (''MTH_REMOVEALLYGUILD'', ''removeallyguild'', False),
    (''MTH_REMOVEENEMYGUILD'', ''removeenemyguild'', False), (''MTH_SIZE'', ''size'', False),
    (''MTH_ERASE'', ''erase'', False), (''MTH_INSERT'', ''insert'', False),
    (''MTH_SHRINK'', ''shrink'', False), (''MTH_APPEND'', ''append'', False),
    (''MTH_REVERSE'', ''reverse'', False), (''MTH_SORT'', ''sort'', False),
    (''MTH_EXISTS'', ''exists'', False), (''MTH_KEYS'', ''keys'', False),
    (''MTH_SENDPACKET'', ''sendpacket'', False),
    (''MTH_SENDAREAPACKET'', ''sendareapacket'', False),
    (''MTH_GETINT8'', ''getint8'', False), (''MTH_GETINT16'', ''getint16'', False),
    (''MTH_GETINT32'', ''getint32'', False), (''MTH_SETINT8'', ''setint8'', False),
    (''MTH_SETINT16'', ''setint16'', False), (''MTH_SETINT32'', ''setint32'', False),
    (''MTH_GETSTRING'', ''getstring'', False),
    (''MTH_GETUNICODESTRING'', ''getunicodestring'', False),
    (''MTH_SETSTRING'', ''setstring'', False),
    (''MTH_SETUNICODESTRING'', ''setunicodestring'', False),
    (''MTH_GETSIZE'', ''getsize'', False), (''MTH_SETSIZE'', ''setsize'', False),
    (''MTH_CREATEELEMENT'', ''createelement'', False),
    (''MTH_FINDELEMENT'', ''findelement'', False),
    (''MTH_DELETEELEMENT'', ''deleteelement'', False),
    (''MTH_SENDEVENT'', ''sendevent'', False), (''MTH_KILL'', ''kill'', False),
    (''MTH_LOADSYMBOLS'', ''loadsymbols'', False),
    (''MTH_SET_UO_EXPANSION'', ''set_uo_expansion'', False),
    (''MTH_CLEAR_EVENT_QUEUE'', ''clear_event_queue'', False),
    (''MTH_ADD_COMPONENT'', ''add_component'', False),
    (''MTH_ERASE_COMPONENT'', ''erase_component'', False),
    (''MTH_DELETE'', ''delete'', False), (''MTH_SPLIT'', ''split'', False),
    (''MTH_MOVE_CHAR'', ''move_char'', False),
    (''MTH_GETINT16FLIPPED'', ''getint16flipped'', False),
    (''MTH_GETINT32FLIPPED'', ''getint32flipped'', False),
    (''MTH_SETINT16FLIPPED'', ''setint16flipped'', False),
    (''MTH_SETINT32FLIPPED'', ''setint32flipped'', False),
    (''MTH_GETCORPSE'', ''getcorpse'', False),
    (''MTH_SETDEFAULTCMDLEVEL'', ''setdefaultcmdlevel'', False),
    (''MTH_PRIVILEGES'', ''privileges'', False),
    (''MTH_GETUNICODESTRINGFLIPPED'', ''getunicodestringflipped'', False),
    (''MTH_SETUNICODESTRINGFLIPPED'', ''setunicodestringflipped'', False),
    (''MTH_ADD_CHARACTER'', ''addcharacter'', False),
    (''MTH_SET_SWINGTIMER'', ''setswingtimer'', False),
    (''MTH_ATTACK_ONCE'', ''attack_once'', False), (''MTH_SETFACING'', ''setfacing'', False),
    (''MTH_COMPAREVERSION'', ''compareversion'', False),
    (''MTH_SETLEADER'', ''setleader'', False),
    (''MTH_ADDCANDIDATE'', ''addcandidate'', False),
    (''MTH_REMOVECANDIDATE'', ''removecandidate'', False),
    (''MTH_RANDOMENTRY'', ''randomentry'', False), (''MTH_SEEK'', ''seek'', False),
    (''MTH_PEEK'', ''peek'', False), (''MTH_TELL'', ''tell'', False),
    (''MTH_FLUSH'', ''flush'', False), (''MTH_GETSINT8'', ''getsint8'', False),
    (''MTH_GETSINT16'', ''getsint16'', False), (''MTH_GETSINT32'', ''getsint32'', False),
    (''MTH_SETSINT8'', ''setsint8'', False), (''MTH_SETSINT16'', ''setsint16'', False),
    (''MTH_SETSINT32'', ''setsint32'', False),
    (''MTH_SETAGGRESSORTO'', ''setaggressorto'', False),
    (''MTH_SETLAWFULLYDAMAGEDTO'', ''setlawfullydamagedto'', False),
    (''MTH_CLEARAGGRESSORTO'', ''clearaggressorto'', False),
    (''MTH_CLEARLAWFULLYDAMAGEDTO'', ''clearlawfullydamagedto'', False),
    (''MTH_HASSPELL'', ''hasspell'', False), (''MTH_SPELLS'', ''spells'', False),
    (''MTH_REMOVESPELL'', ''removespell'', False), (''MTH_ADDSPELL'', ''addspell'', False),
    (''MTH_DEAF'', ''deaf'', False), (''MTH_SETSEASON'', ''setseason'', False),
    (''MTH_NEXTSIBLING'', ''nextxmlsibling'', False),
    (''MTH_FIRSTCHILD'', ''firstxmlchild'', False), (''MTH_SAVEXML'', ''savexml'', False),
    (''MTH_APPENDNODE'', ''appendxmlnode'', False),
    (''MTH_SETDECLARATION'', ''setxmldeclaration'', False),
    (''MTH_SETATTRIBUTE'', ''setxmlattribute'', False),
    (''MTH_REMOVEATTRIBUTE'', ''removexmlattribute'', False),
    (''MTH_REMOVENODE'', ''removexmlnode'', False),
    (''MTH_APPENDTEXT'', ''appendxmltext'', False),
    (''MTH_XMLTOSTRING'', ''xmltostring'', False),
    (''MTH_APPENDXMLCOMMENT'', ''appendxmlcomment'', False),
    (''MTH_ADD_HOUSE_PART'', ''addhousepart'', False),
    (''MTH_ERASE_HOUSE_PART'', ''erasehousepart'', False),
    (''MTH_ACCEPT_COMMIT'', ''acceptcommit'', False),
    (''MTH_SPLITSTACK_AT'', ''splitstackat'', False),
    (''MTH_SPLITSTACK_INTO'', ''splitstackinto'', False),
    (''MTH_CANCEL_EDITING'', ''cancelediting'', False),
    (''MTH_CLONENODE'', ''clonenode'', False),
    (''MTH_HAS_EXISTING_STACK'', ''hasexistingstack'', False),
    (''MTH_LENGTH'', ''length'', False), (''MTH_JOIN'', ''join'', False),
    (''MTH_FIND'', ''find'', False), (''MTH_UPPER'', ''upper'', False),
    (''MTH_LOWER'', ''lower'', False), (''MTH_FORMAT'', ''format'', False),
    (''MTH_DISABLE_SKILLS_FOR'', ''disableskillsfor'', False),
    (''MTH_CYCLE'', ''cycle'', False), (''MTH_ADD_BUFF'', ''addbuff'', False),
    (''MTH_DEL_BUFF'', ''delbuff'', False), (''MTH_CLEAR_BUFFS'', ''clearbuffs'', False),
    (''MTH_CALL'', ''call'', False), (''MTH_SORTEDINSERT'', ''sorted_insert'', False)]"

section \<open>Lookup\<close>

definition entry_code :: "string \<times> string \<times> bool \<Rightarrow> string" where
  "entry_code e = fst (snd e)"

text \<open>The value of a constant of an enumeration without explicit values.\<close>

definition enum_value :: "string list \<Rightarrow> string \<Rightarrow> nat" where
  "enum_value names c = length (takeWhile (\<lambda>n. n \<noteq> c) names)"

text \<open>
  The \<^verbatim>\<open>cache\<close> is filled in the order of the table, so that of two entries with one
  name the later one stays.
\<close>

definition name_cache :: "(string \<times> string \<times> bool) list \<Rightarrow> (string \<times> nat) list" where
  "name_cache table = rev (zip (map entry_code table) [0..<length table])"

definition getKnownObjMember :: "string \<Rightarrow> nat option" where
  "getKnownObjMember token = map_of (name_cache object_members) (map tolower (c_str token))"

definition getKnownObjMethod :: "string \<Rightarrow> nat option" where
  "getKnownObjMethod token = map_of (name_cache object_methods) (map tolower (c_str token))"

text \<open>A null pointer is \<open>Some None\<close>; a negative number reads outside the table.\<close>

definition getObjMember :: "int \<Rightarrow> nat option option" where
  "getObjMember i =
     (if i \<ge> int (length object_members) then Some None else if i < 0 then None else Some (Some (nat i)))"

definition getObjMethod :: "int \<Rightarrow> nat option option" where
  "getObjMethod i =
     (if i \<ge> int (length object_methods) then Some None else if i < 0 then None else Some (Some (nat i)))"

text \<open>The start-up check of the tables: the messages it prints.\<close>

definition table_errors :: "string \<Rightarrow> string list \<Rightarrow> (string \<times> string \<times> bool) list \<Rightarrow> string list" where
  "table_errors kind names table =
     concat (map (\<lambda>(i, c, code, _).
       (if enum_value names c \<noteq> i
        then [''ERROR: '' @ kind @ '' definition of '' @ code @ '' has an invalid index!''] else []) @
       (if \<not> list_all (\<lambda>ch. tolower ch = ch) code
        then [''ERROR: '' @ kind @ '' definition of '' @ code @ '' is not lowercase!''] else []))
       (enumerate 0 table))"

definition testparserdefinitions :: "string list" where
  "testparserdefinitions =
     table_errors ''Object Method'' MethodID object_methods @ table_errors ''Object Member'' MemberID object_members"

section \<open>No name stands twice\<close>

text \<open>The names are sorted by the low bits of their characters, to compare neighbours only.\<close>

fun low_bits_of :: "char \<Rightarrow> bool list" where
  "low_bits_of (Char b0 b1 b2 b3 b4 b5 b6 b7) = [b4, b3, b2, b1, b0]"

fun bits_lt :: "bool list \<Rightarrow> bool list \<Rightarrow> bool" where
  "bits_lt [] ys = (ys \<noteq> [])"
| "bits_lt (x # xs) [] = False"
| "bits_lt (x # xs) (y # ys) = (if x = y then bits_lt xs ys else y)"

fun merge_keys :: "bool list list \<Rightarrow> bool list list \<Rightarrow> bool list list" where
  "merge_keys [] ys = ys"
| "merge_keys (x # xs) [] = x # xs"
| "merge_keys (x # xs) (y # ys) =
     (if bits_lt x y then x # merge_keys xs (y # ys) else y # merge_keys (x # xs) ys)"

fun merge_pairs :: "bool list list list \<Rightarrow> bool list list list" where
  "merge_pairs (xs # ys # xss) = merge_keys xs ys # merge_pairs xss"
| "merge_pairs xss = xss"

fun ascending :: "bool list list \<Rightarrow> bool" where
  "ascending (x # y # xs) \<longleftrightarrow> bits_lt x y \<and> ascending (y # xs)"
| "ascending xs \<longleftrightarrow> True"

definition sorted_keys :: "nat \<Rightarrow> string list \<Rightarrow> bool list list" where
  "sorted_keys n names = concat ((merge_pairs ^^ n) (map (\<lambda>x. [concat (map low_bits_of x)]) names))"

lemma bits_lt_irrefl: "\<not> bits_lt x x"
  by (induction x) auto

lemma bits_lt_trans: "bits_lt x y \<Longrightarrow> bits_lt y z \<Longrightarrow> bits_lt x z"
proof (induction x y arbitrary: z rule: bits_lt.induct)
  case (1 ys) then show ?case by (cases z; cases ys) auto
next
  case (3 x xs y ys) then show ?case by (cases z) (auto split: if_splits)
qed auto

lemma mset_merge_keys: "mset (merge_keys xs ys) = mset xs + mset ys"
  by (induction xs ys rule: merge_keys.induct) auto

lemma mset_merge_pairs: "mset (concat (merge_pairs xss)) = mset (concat xss)"
  by (induction xss rule: merge_pairs.induct) (auto simp: mset_merge_keys)

lemma ascending_less: "ascending (x # xs) \<Longrightarrow> y \<in> set xs \<Longrightarrow> bits_lt x y"
  by (induction xs arbitrary: x) (auto intro: bits_lt_trans)

lemma ascending_distinct: "ascending xs \<Longrightarrow> distinct xs"
proof (induction xs rule: ascending.induct)
  case (1 x y xs)
  then show ?case using ascending_less[of x "y # xs" x] bits_lt_irrefl by auto
qed auto

lemma sorted_keys_distinct:
  assumes "ascending (sorted_keys n names)" shows "distinct names"
proof -
  have "mset (concat ((merge_pairs ^^ n) xss)) = mset (concat xss)" for xss
    by (induction n) (simp_all add: mset_merge_pairs)
  then have "mset (sorted_keys n names) = mset (map (\<lambda>x. concat (map low_bits_of x)) names)"
    by (simp add: sorted_keys_def comp_def flip: mset_map)
  then show ?thesis using ascending_distinct[OF assms]
    by (metis distinct_map mset_eq_imp_distinct_iff)
qed

lemma method_names_distinct: "distinct (map entry_code object_methods)"
  by (rule sorted_keys_distinct[of 8]) code_simp

lemma member_names_distinct: "distinct (map entry_code object_members)"
  by (rule sorted_keys_distinct[of 8]) code_simp

text \<open>All constants of an enumeration begin with the same four characters.\<close>

lemma constants_distinct:
  "ascending (sorted_keys n (map (drop 4) names)) \<Longrightarrow> distinct names"
  using sorted_keys_distinct distinct_map by blast

lemma method_ids_distinct: "distinct MethodID"
  by (rule constants_distinct[of 8]) code_simp

lemma member_ids_distinct: "distinct MemberID"
  by (rule constants_distinct[of 8]) code_simp

lemma tables_in_order: "map fst object_methods = MethodID" "map fst object_members = MemberID"
  by code_simp+

fun lower_bits :: "char \<Rightarrow> bool" where
  "lower_bits (Char b0 b1 b2 b3 b4 b5 b6 b7) \<longleftrightarrow> b5 \<or> \<not> b6 \<or> b4 \<and> b3 \<and> b2"

lemma byte_Char:
  "byte (Char b0 b1 b2 b3 b4 b5 b6 b7) =
     of_bool b0 + 2 * (of_bool b1 + 2 * (of_bool b2 + 2 * (of_bool b3 + 2 * (of_bool b4 + 2 * (of_bool b5 +
       2 * (of_bool b6 + 2 * of_bool b7))))))"
  by (simp add: byte_def of_char_def)

lemma lower_bits: "lower_bits c \<Longrightarrow> tolower c = c"
proof (cases c)
  case (Char b0 b1 b2 b3 b4 b5 b6 b7)
  have "of_bool b \<le> (1 :: nat)" for b by simp
  moreover assume "lower_bits c"
  ultimately have "\<not> (65 \<le> byte c \<and> byte c \<le> 90)"
    unfolding Char byte_Char by (cases b7; cases b6; cases b5) (auto simp: of_bool_def split: if_splits)
  then show ?thesis by (auto simp: tolower_def)
qed

lemma names_lowercase:
  "list_all (\<lambda>e. list_all (\<lambda>ch. tolower ch = ch) (entry_code e)) object_methods"
  "list_all (\<lambda>e. list_all (\<lambda>ch. tolower ch = ch) (entry_code e)) object_members"
proof -
  have "list_all (\<lambda>e. list_all lower_bits (entry_code e)) object_methods"
    "list_all (\<lambda>e. list_all lower_bits (entry_code e)) object_members"
    by code_simp+
  then show "list_all (\<lambda>e. list_all (\<lambda>ch. tolower ch = ch) (entry_code e)) object_methods"
    "list_all (\<lambda>e. list_all (\<lambda>ch. tolower ch = ch) (entry_code e)) object_members"
    by (auto simp: list_all_iff lower_bits)
qed

lemma enum_value_nth: "distinct names \<Longrightarrow> i < length names \<Longrightarrow> enum_value names (names ! i) = i"
proof (induction names arbitrary: i)
  case (Cons n names)
  then show ?case by (cases i) (auto simp: enum_value_def)
qed simp

lemma table_errors_none:
  assumes "distinct names" "map fst table = names"
    and "list_all (\<lambda>e. list_all (\<lambda>ch. tolower ch = ch) (entry_code e)) table"
  shows "table_errors kind names table = []"
proof -
  have "enum_value names c = i \<and> list_all (\<lambda>ch. tolower ch = ch) code"
    if "(i, c, code, f) \<in> set (enumerate 0 table)" for i c code f
  proof -
    from that have i: "i < length table" "table ! i = (c, code, f)"
      by (auto simp: in_set_enumerate_eq)
    then have "names ! i = c" "i < length names" using assms(2) by auto
    moreover have "list_all (\<lambda>ch. tolower ch = ch) (entry_code (table ! i))"
      using assms(3) i(1) by (auto simp: list_all_iff)
    ultimately show ?thesis using enum_value_nth[OF assms(1)] i(2) by (auto simp: entry_code_def)
  qed
  then show ?thesis by (force simp: table_errors_def)
qed

lemma name_cache_lookup:
  assumes "distinct (map entry_code table)"
  shows "map_of (name_cache table) name = Some i \<longleftrightarrow> i < length table \<and> name = entry_code (table ! i)"
proof -
  have "map fst (name_cache table) = rev (map entry_code table)"
    by (simp add: name_cache_def rev_map[symmetric])
  then have "distinct (map fst (name_cache table))" using assms by simp
  then have "map_of (name_cache table) name = Some i \<longleftrightarrow> (name, i) \<in> set (name_cache table)"
    by (rule map_of_eq_Some_iff)
  then show ?thesis by (force simp: name_cache_def in_set_zip)
qed

section \<open>Property\<close>

text \<open>
  C30. The start-up check of the tables prints nothing: the number of every member and method is
  its place in the table and every name is in lower case. A name in any spelling of its letters
  is found at exactly that place, and no other name is found.
\<close>

theorem known_names:
  "testparserdefinitions = [] \<and>
   (getKnownObjMember name = Some i \<longleftrightarrow> i < length object_members \<and> ci_key name = entry_code (object_members ! i)) \<and>
   (getKnownObjMethod name = Some i \<longleftrightarrow> i < length object_methods \<and> ci_key name = entry_code (object_methods ! i))"
  using table_errors_none[OF method_ids_distinct tables_in_order(1) names_lowercase(1)]
    table_errors_none[OF member_ids_distinct tables_in_order(2) names_lowercase(2)]
    name_cache_lookup[OF method_names_distinct] name_cache_lookup[OF member_names_distinct]
  by (simp add: testparserdefinitions_def getKnownObjMember_def getKnownObjMethod_def ci_key_def)

end
