(* ===== verification/Utf8.thy ===== *)
theory Utf8
  imports Strings
begin

text \<open>
  Validation of UTF-8 text (\<^verbatim>\<open>lib/utf8/utf8/core.h\<close>) and the repair of text in
  ISO 8859-1 (\<^verbatim>\<open>pol-core/clib/strutil.cpp\<close>), which every string that enters the
  compiler or the server passes. An iterator is the rest of the text from it on.
\<close>

section \<open>Validation\<close>

datatype utf_error =
    NOT_ENOUGH_ROOM | INVALID_LEAD | INCOMPLETE_SEQUENCE | OVERLONG_SEQUENCE | INVALID_CODE_POINT

definition is_trail :: "char \<Rightarrow> bool" where
  "is_trail c \<longleftrightarrow> byte c div 64 = 2"

definition is_surrogate :: "nat \<Rightarrow> bool" where
  "is_surrogate cp \<longleftrightarrow> 0xd800 \<le> cp \<and> cp \<le> 0xdfff"

definition is_code_point_valid :: "nat \<Rightarrow> bool" where
  "is_code_point_valid cp \<longleftrightarrow> cp \<le> 0x10ffff \<and> \<not> is_surrogate cp"

definition sequence_length :: "char \<Rightarrow> nat" where
  "sequence_length c =
     (let lead = byte c
      in if lead < 0x80 then 1
         else if lead div 32 = 6 then 2
         else if lead div 16 = 0xE then 3
         else if lead div 8 = 0x1E then 4
         else 0)"

definition is_overlong_sequence :: "nat \<Rightarrow> nat \<Rightarrow> bool" where
  "is_overlong_sequence cp n =
     (if cp < 0x80 then n \<noteq> 1 else if cp < 0x800 then n \<noteq> 2 else if cp < 0x10000 then n \<noteq> 3 else False)"

definition increase_safely :: "string \<Rightarrow> utf_error + string" where
  "increase_safely it =
     (case tl it of
        [] \<Rightarrow> Inl NOT_ENOUGH_ROOM
      | c # t \<Rightarrow> if \<not> is_trail c then Inl INCOMPLETE_SEQUENCE else Inr (c # t))"

definition increased :: "string \<Rightarrow> (string \<Rightarrow> utf_error + 'a) \<Rightarrow> utf_error + 'a" where
  "increased it f = (case increase_safely it of Inl e \<Rightarrow> Inl e | Inr it' \<Rightarrow> f it')"

definition get_sequence_1 :: "string \<Rightarrow> utf_error + nat \<times> string" where
  "get_sequence_1 it = (case it of [] \<Rightarrow> Inl NOT_ENOUGH_ROOM | c # _ \<Rightarrow> Inr (byte c, it))"

definition get_sequence_2 :: "string \<Rightarrow> utf_error + nat \<times> string" where
  "get_sequence_2 it =
     (case it of
        [] \<Rightarrow> Inl NOT_ENOUGH_ROOM
      | c # _ \<Rightarrow> increased it (\<lambda>it1. Inr (byte c * 64 mod 0x800 + byte (hd it1) mod 64, it1)))"

definition get_sequence_3 :: "string \<Rightarrow> utf_error + nat \<times> string" where
  "get_sequence_3 it =
     (case it of
        [] \<Rightarrow> Inl NOT_ENOUGH_ROOM
      | c # _ \<Rightarrow> increased it (\<lambda>it1. increased it1 (\<lambda>it2.
          Inr (byte c * 4096 mod 0x10000 + byte (hd it1) * 64 mod 0x1000 + byte (hd it2) mod 64, it2))))"

definition get_sequence_4 :: "string \<Rightarrow> utf_error + nat \<times> string" where
  "get_sequence_4 it =
     (case it of
        [] \<Rightarrow> Inl NOT_ENOUGH_ROOM
      | c # _ \<Rightarrow> increased it (\<lambda>it1. increased it1 (\<lambda>it2. increased it2 (\<lambda>it3.
          Inr (byte c * 262144 mod 0x200000 + byte (hd it1) * 4096 mod 0x40000 +
               byte (hd it2) * 64 mod 0x1000 + byte (hd it3) mod 64, it3)))))"

definition validate_next :: "string \<Rightarrow> utf_error + nat \<times> string" where
  "validate_next it =
     (let n = sequence_length (hd it);
          decoded = (if n = 0 then Inl INVALID_LEAD
                     else if n = 1 then get_sequence_1 it
                     else if n = 2 then get_sequence_2 it
                     else if n = 3 then get_sequence_3 it
                     else get_sequence_4 it)
      in case decoded of
           Inl err \<Rightarrow> Inl err
         | Inr (cp, it') \<Rightarrow>
             if \<not> is_code_point_valid cp then Inl INVALID_CODE_POINT
             else if is_overlong_sequence cp n then Inl OVERLONG_SEQUENCE
             else Inr (cp, tl it'))"

lemma increased_Inr:
  "increased (c # t) f = Inr r \<longleftrightarrow> (\<exists>c' t'. t = c' # t' \<and> is_trail c' \<and> f (c' # t') = Inr r)"
  by (cases t) (auto simp: increased_def increase_safely_def)

lemmas get_sequence_defs = get_sequence_1_def get_sequence_2_def get_sequence_3_def get_sequence_4_def

lemma validate_next_shorter:
  "it \<noteq> [] \<Longrightarrow> validate_next it = Inr (cp, it') \<Longrightarrow> length it' < length it"
  by (cases it) (auto simp: validate_next_def Let_def get_sequence_defs increased_Inr split: if_splits sum.splits)

function find_invalid :: "string \<Rightarrow> string" where
  "find_invalid it =
     (if it = [] then []
      else case validate_next it of Inl _ \<Rightarrow> it | Inr (_, it') \<Rightarrow> find_invalid it')"
  by pat_completeness auto
termination
  by (relation "measure length") (auto dest: validate_next_shorter)

declare find_invalid.simps [simp del]

definition isValidUnicode :: "string \<Rightarrow> bool" where
  "isValidUnicode str \<longleftrightarrow> find_invalid str = []"

section \<open>Repair\<close>

definition iso_char :: "char \<Rightarrow> string" where
  "iso_char c = (if byte c < 0x80 then [c] else [char_of (0xc2 OR (byte c div 64)), char_of (0xbf AND byte c)])"

definition sanitizeUnicodeWithIso :: "string \<Rightarrow> string" where
  "sanitizeUnicodeWithIso str = (if isValidUnicode str then str else concat (map iso_char str))"

lemma byte_char_of_small [simp]: "n < 256 \<Longrightarrow> byte (char_of n) = n"
  by (simp add: byte_def)

lemma high_bits: "128 \<le> n \<Longrightarrow> n < 256 \<Longrightarrow> n div 64 = 2 \<or> n div 64 = (3::nat)"
  by linarith

lemma low_bits: "r < 64 \<Longrightarrow> (128 + r) mod 64 = r \<and> (128 + r) div 64 = (2::nat)"
  using div_mult_self1[of 64 r 2] mod_mult_self1[of r 2 64] by (simp add: add.commute)

lemma iso_bytes:
  assumes "128 \<le> n" "n < (256::nat)"
  shows "0xc2 OR (n div 64) = 0xc2 + n div 64 mod 2" "0xbf AND n = 128 + n mod 64"
proof -
  have "list_all (\<lambda>n. 0xbf AND n = 128 + n mod (64::nat)) [128..<256]"
    by (simp add: upt_rec_numeral)
  then have "\<forall>n\<in>{128..<256}. 0xbf AND n = 128 + n mod (64::nat)" unfolding list_all_iff set_upt .
  then show "0xbf AND n = 128 + n mod 64" using assms by (metis atLeastLessThan_iff)
  have "n div 64 = 2 \<or> n div 64 = 3" using assms by linarith
  then show "0xc2 OR (n div 64) = 0xc2 + n div 64 mod 2" by auto
qed

lemma byte_less [simp]: "byte c < 256"
  by (simp add: byte_def)

lemma validate_iso_char: "validate_next (iso_char c @ t) = Inr (byte c, t)"
proof (cases "byte c < 128")
  case True
  then show ?thesis
    by (simp add: iso_char_def validate_next_def sequence_length_def get_sequence_1_def
        is_code_point_valid_def is_surrogate_def is_overlong_sequence_def)
next
  case False
  define b where "b = byte c"
  have b: "128 \<le> b" "b < 256" using False by (simp_all add: b_def)
  have c: "iso_char c = [char_of (0xc2 + b div 64 mod 2), char_of (128 + b mod 64)]"
    using False iso_bytes[OF b] by (simp add: iso_char_def b_def)
  have d: "b div 64 = 2 \<or> b div 64 = 3" using b by (rule high_bits)

  have e: "b = b div 64 * 64 + b mod 64" by (rule div_mod_decomp)
  have "b mod 64 < 64" by (rule mod_less_divisor) simp
  then obtain m where m: "b mod 64 = m" "m < 64" by blast
  from d have split: "b div 64 = 2 \<and> b mod 64 + 128 = b \<or> b div 64 = 3 \<and> b mod 64 + 192 = b"
    using e by linarith
  show ?thesis using split b low_bits[OF m(2)] m(2)
    unfolding c b_def[symmetric] m
    by (elim disjE conjE) (simp_all add: validate_next_def sequence_length_def get_sequence_2_def increased_def
        increase_safely_def is_trail_def is_code_point_valid_def is_surrogate_def is_overlong_sequence_def)
qed

lemma find_invalid_iso: "find_invalid (concat (map iso_char s)) = []"
proof (induction s)
  case (Cons c s)
  have "iso_char c @ concat (map iso_char s) \<noteq> []" by (simp add: iso_char_def)
  then show ?case using Cons by (subst find_invalid.simps) (simp add: validate_iso_char)
qed (simp add: find_invalid.simps)

lemma trail_mod: "is_trail c \<Longrightarrow> continuation c"
  by (simp add: is_trail_def continuation_def)

lemma validate_next_char:
  assumes "validate_next it = Inr (cp, it')" "it \<noteq> []"
  shows "\<exists>p. it = p @ it' \<and> utf8_char p"
proof -
  obtain c t where it: "it = c # t" using assms(2) by (cases it) auto
  have n: "sequence_length c \<noteq> 0" using assms by (auto simp: it validate_next_def Let_def intro!: Nat.gr0I)
  then have step: "sequence_length c = sequence_step c" "\<not> continuation c"
    by (auto simp: sequence_length_def sequence_step_def continuation_def Let_def split: if_splits)
  have "sequence_length c \<in> {1, 2, 3, 4}"
    using n by (auto simp: sequence_length_def Let_def split: if_splits)
  then show ?thesis using assms(1) step
    by (auto simp: it validate_next_def Let_def get_sequence_defs increased_Inr utf8_char_def code_point_def
        trail_mod split: if_splits sum.splits)
qed

lemma find_invalid_characters: "find_invalid it = [] \<Longrightarrow> \<exists>cps. it = concat cps \<and> list_all utf8_char cps"
proof (induction it rule: find_invalid.induct)
  case (1 it)
  show ?case
  proof (cases "it = []")
    case True
    then show ?thesis by (intro exI[of _ "[]"]) simp
  next
    case False
    then obtain cp it' where n: "validate_next it = Inr (cp, it')" "find_invalid it' = []"
      using 1(2) by (subst (asm) find_invalid.simps) (auto split: sum.splits)
    then obtain cps where "it' = concat cps" "list_all utf8_char cps"
      using 1(1)[OF False n(1) refl] by blast
    moreover obtain p where "it = p @ it'" "utf8_char p" using validate_next_char[OF n(1) False] by blast
    ultimately show ?thesis by (intro exI[of _ "p # cps"]) simp
  qed
qed

lemma sanitize_valid: "isValidUnicode (sanitizeUnicodeWithIso str)"
  by (simp add: sanitizeUnicodeWithIso_def isValidUnicode_def find_invalid_iso)

text \<open>The code points of a text, or nothing when it is not UTF-8.\<close>

function decoded :: "string \<Rightarrow> nat list option" where
  "decoded it =
     (if it = [] then Some []
      else case validate_next it of Inl _ \<Rightarrow> None | Inr (cp, it') \<Rightarrow> map_option ((#) cp) (decoded it'))"
  by pat_completeness auto
termination
  by (relation "measure length") (auto dest: validate_next_shorter)

declare decoded.simps [simp del]

lemma decoded_iso: "decoded (concat (map iso_char s)) = Some (map byte s)"
proof (induction s)
  case (Cons c s)
  have "iso_char c @ concat (map iso_char s) \<noteq> []" by (simp add: iso_char_def)
  then show ?case using Cons by (subst decoded.simps) (simp add: validate_iso_char)
qed (simp add: decoded.simps)

section \<open>Property\<close>

text \<open>
  C29. Text that is UTF-8 stays as it is. Any other text is read as ISO 8859-1: its bytes are
  the code points of the repaired text. The repaired text is always UTF-8, a sequence of whole
  characters, as the operations on strings expect, and a second repair leaves it alone.
\<close>

theorem repaired_text_is_utf8:
  "(if isValidUnicode str then sanitizeUnicodeWithIso str = str
    else decoded (sanitizeUnicodeWithIso str) = Some (map byte str)) \<and>
   isValidUnicode (sanitizeUnicodeWithIso str) \<and>
   (\<exists>cps. sanitizeUnicodeWithIso str = concat cps \<and> list_all utf8_char cps) \<and>
   sanitizeUnicodeWithIso (sanitizeUnicodeWithIso str) = sanitizeUnicodeWithIso str"
proof -
  have "if isValidUnicode str then sanitizeUnicodeWithIso str = str
    else decoded (sanitizeUnicodeWithIso str) = Some (map byte str)"
    by (simp add: sanitizeUnicodeWithIso_def decoded_iso)
  then show ?thesis
    using sanitize_valid[of str] find_invalid_characters[of "sanitizeUnicodeWithIso str"]
    by (simp add: isValidUnicode_def sanitizeUnicodeWithIso_def[of "sanitizeUnicodeWithIso str"])
qed

end
