(* ===== verification/Lexer.thy ===== *)
theory Lexer
  imports Names Utf8 Optimizer
begin

text \<open>
  The tokeniser of the compiler (\<^verbatim>\<open>pol-core/bscript/parser.cpp\<close>, with
  \<^verbatim>\<open>compctx.cpp\<close> for comments and \<^verbatim>\<open>fmodule.cpp\<close> for the functions of
  modules). A position in the source is the text from it on, to its terminating zero. Line
  numbers, warnings and the texts of messages are not kept.
\<close>

section \<open>Tokens\<close>

text \<open>
  The identifiers the optimiser does not know are \<open>Unnamed\<close> with their number, the types
  it does not know are \<open>TYP_OTHER\<close> with theirs.
\<close>

abbreviation TOK_ADDMEMBER :: BTokenId where "TOK_ADDMEMBER \<equiv> TOK_OTHER (Unnamed 0x1e)"
abbreviation RSV_VAR :: BTokenId where "RSV_VAR \<equiv> TOK_OTHER (Unnamed 0x2e)"
abbreviation RSV_FUNCTION :: BTokenId where "RSV_FUNCTION \<equiv> TOK_OTHER (Unnamed 0x2f)"
abbreviation TOK_FUNC :: BTokenId where "TOK_FUNC \<equiv> TOK_OTHER (Unnamed 0x31)"
abbreviation TOK_USERFUNC :: BTokenId where "TOK_USERFUNC \<equiv> TOK_OTHER (Unnamed 0x32)"
abbreviation INS_CALL_METHOD :: BTokenId where "INS_CALL_METHOD \<equiv> TOK_OTHER (Unnamed 0x3c)"
abbreviation TOK_STACK :: BTokenId where "TOK_STACK \<equiv> TOK_OTHER (Unnamed 0x3e)"
abbreviation TOK_REFTO :: BTokenId where "TOK_REFTO \<equiv> TOK_OTHER (Unnamed 0x41)"
abbreviation INS_CALL_METHOD_ID :: BTokenId where "INS_CALL_METHOD_ID \<equiv> TOK_OTHER (Unnamed 0x5a)"
abbreviation TOK_EQUAL1 :: BTokenId where "TOK_EQUAL1 \<equiv> TOK_OTHER (Unnamed 0x5b)"
abbreviation TOK_FUNCREF :: BTokenId where "TOK_FUNCREF \<equiv> TOK_OTHER (Unnamed 0x61)"
abbreviation TOK_SEMICOLON :: BTokenId where "TOK_SEMICOLON \<equiv> TOK_OTHER (Unnamed 0x100)"
abbreviation TOK_COMMA :: BTokenId where "TOK_COMMA \<equiv> TOK_OTHER (Unnamed 0x101)"
abbreviation TOK_LPAREN :: BTokenId where "TOK_LPAREN \<equiv> TOK_OTHER (Unnamed 0x102)"
abbreviation TOK_RPAREN :: BTokenId where "TOK_RPAREN \<equiv> TOK_OTHER (Unnamed 0x103)"
abbreviation TOK_TERM :: BTokenId where "TOK_TERM \<equiv> TOK_OTHER (Unnamed 0x104)"
abbreviation TOK_LBRACKET :: BTokenId where "TOK_LBRACKET \<equiv> TOK_OTHER (Unnamed 0x105)"
abbreviation TOK_RBRACKET :: BTokenId where "TOK_RBRACKET \<equiv> TOK_OTHER (Unnamed 0x106)"
abbreviation TOK_LBRACE :: BTokenId where "TOK_LBRACE \<equiv> TOK_OTHER (Unnamed 0x107)"
abbreviation TOK_RBRACE :: BTokenId where "TOK_RBRACE \<equiv> TOK_OTHER (Unnamed 0x108)"
abbreviation RSV_FOREACH :: BTokenId where "RSV_FOREACH \<equiv> TOK_OTHER (Unnamed 0x109)"
abbreviation RSV_ENDFOREACH :: BTokenId where "RSV_ENDFOREACH \<equiv> TOK_OTHER (Unnamed 0x10a)"
abbreviation RSV_DECLARE :: BTokenId where "RSV_DECLARE \<equiv> TOK_OTHER (Unnamed 0x10b)"
abbreviation RSV_FUTURE :: BTokenId where "RSV_FUTURE \<equiv> TOK_OTHER (Unnamed 0x10c)"
abbreviation RSV_BREAK :: BTokenId where "RSV_BREAK \<equiv> TOK_OTHER (Unnamed 0x10d)"
abbreviation RSV_CONTINUE :: BTokenId where "RSV_CONTINUE \<equiv> TOK_OTHER (Unnamed 0x10e)"
abbreviation RSV_USE_MODULE :: BTokenId where "RSV_USE_MODULE \<equiv> TOK_OTHER (Unnamed 0x10f)"
abbreviation RSV_INCLUDE_FILE :: BTokenId where "RSV_INCLUDE_FILE \<equiv> TOK_OTHER (Unnamed 0x110)"
abbreviation RSV_FOR :: BTokenId where "RSV_FOR \<equiv> TOK_OTHER (Unnamed 0x111)"
abbreviation RSV_NEXT :: BTokenId where "RSV_NEXT \<equiv> TOK_OTHER (Unnamed 0x112)"
abbreviation RSV_TO :: BTokenId where "RSV_TO \<equiv> TOK_OTHER (Unnamed 0x113)"
abbreviation RSV_THEN :: BTokenId where "RSV_THEN \<equiv> TOK_OTHER (Unnamed 0x115)"
abbreviation RSV_ST_IF :: BTokenId where "RSV_ST_IF \<equiv> TOK_OTHER (Unnamed 0x116)"
abbreviation RSV_ELSE :: BTokenId where "RSV_ELSE \<equiv> TOK_OTHER (Unnamed 0x117)"
abbreviation RSV_ELSEIF :: BTokenId where "RSV_ELSEIF \<equiv> TOK_OTHER (Unnamed 0x118)"
abbreviation RSV_ENDIF :: BTokenId where "RSV_ENDIF \<equiv> TOK_OTHER (Unnamed 0x119)"
abbreviation RSV_DO :: BTokenId where "RSV_DO \<equiv> TOK_OTHER (Unnamed 0x11d)"
abbreviation RSV_WHILE :: BTokenId where "RSV_WHILE \<equiv> TOK_OTHER (Unnamed 0x11e)"
abbreviation RSV_OPTION_BRACKETED :: BTokenId where "RSV_OPTION_BRACKETED \<equiv> TOK_OTHER (Unnamed 0x11f)"
abbreviation CTRL_LABEL :: BTokenId where "CTRL_LABEL \<equiv> TOK_OTHER (Unnamed 0x120)"
abbreviation RSV_CONST :: BTokenId where "RSV_CONST \<equiv> TOK_OTHER (Unnamed 0x122)"
abbreviation RSV_ENDWHILE :: BTokenId where "RSV_ENDWHILE \<equiv> TOK_OTHER (Unnamed 0x123)"
abbreviation RSV_REPEAT :: BTokenId where "RSV_REPEAT \<equiv> TOK_OTHER (Unnamed 0x124)"
abbreviation RSV_UNTIL :: BTokenId where "RSV_UNTIL \<equiv> TOK_OTHER (Unnamed 0x125)"
abbreviation RSV_ENDFOR :: BTokenId where "RSV_ENDFOR \<equiv> TOK_OTHER (Unnamed 0x126)"
abbreviation RSV_ENDFUNCTION :: BTokenId where "RSV_ENDFUNCTION \<equiv> TOK_OTHER (Unnamed 0x127)"
abbreviation RSV_SWITCH :: BTokenId where "RSV_SWITCH \<equiv> TOK_OTHER (Unnamed 0x128)"
abbreviation RSV_DEFAULT :: BTokenId where "RSV_DEFAULT \<equiv> TOK_OTHER (Unnamed 0x12a)"
abbreviation RSV_ENDSWITCH :: BTokenId where "RSV_ENDSWITCH \<equiv> TOK_OTHER (Unnamed 0x12b)"
abbreviation RSV_COLON :: BTokenId where "RSV_COLON \<equiv> TOK_OTHER (Unnamed 0x12c)"
abbreviation RSV_PROGRAM :: BTokenId where "RSV_PROGRAM \<equiv> TOK_OTHER (Unnamed 0x12d)"
abbreviation RSV_ENDPROGRAM :: BTokenId where "RSV_ENDPROGRAM \<equiv> TOK_OTHER (Unnamed 0x12e)"
abbreviation RSV_ENUM :: BTokenId where "RSV_ENUM \<equiv> TOK_OTHER (Unnamed 0x12f)"
abbreviation RSV_ENDENUM :: BTokenId where "RSV_ENDENUM \<equiv> TOK_OTHER (Unnamed 0x130)"
abbreviation RSV_EXPORTED :: BTokenId where "RSV_EXPORTED \<equiv> TOK_OTHER (Unnamed 0x131)"
abbreviation TOK_DICTKEY :: BTokenId where "TOK_DICTKEY \<equiv> TOK_OTHER (Unnamed 0x133)"
abbreviation RSV_DOWHILE :: BTokenId where "RSV_DOWHILE \<equiv> TOK_OTHER (Unnamed 0x134)"
abbreviation TOK_UNUSED :: BTokenId where "TOK_UNUSED \<equiv> TOK_OTHER (Unnamed 0x135)"

abbreviation TYP_TERMINATOR :: BTokenType where "TYP_TERMINATOR \<equiv> TYP_OTHER 0x00"
abbreviation TYP_LEFTPAREN :: BTokenType where "TYP_LEFTPAREN \<equiv> TYP_OTHER 0x04"
abbreviation TYP_RIGHTPAREN :: BTokenType where "TYP_RIGHTPAREN \<equiv> TYP_OTHER 0x05"
abbreviation TYP_LEFTBRACKET :: BTokenType where "TYP_LEFTBRACKET \<equiv> TYP_OTHER 0x06"
abbreviation TYP_RIGHTBRACKET :: BTokenType where "TYP_RIGHTBRACKET \<equiv> TYP_OTHER 0x07"
abbreviation TYP_RESERVED :: BTokenType where "TYP_RESERVED \<equiv> TYP_OTHER 0x08"
abbreviation TYP_LABEL :: BTokenType where "TYP_LABEL \<equiv> TYP_OTHER 0x09"
abbreviation TYP_SEPARATOR :: BTokenType where "TYP_SEPARATOR \<equiv> TYP_OTHER 0x1c"
abbreviation TYP_DELIMITER :: BTokenType where "TYP_DELIMITER \<equiv> TYP_OTHER 0x1d"
abbreviation TYP_CONTROL :: BTokenType where "TYP_CONTROL \<equiv> TYP_OTHER 0x1e"
abbreviation TYP_LEFTBRACE :: BTokenType where "TYP_LEFTBRACE \<equiv> TYP_OTHER 0x1f"
abbreviation TYP_RIGHTBRACE :: BTokenType where "TYP_RIGHTBRACE \<equiv> TYP_OTHER 0x20"
abbreviation TYP_FUNCREF :: BTokenType where "TYP_FUNCREF \<equiv> TYP_OTHER 0x22"
abbreviation TYP_UNARY_PLACEHOLDER :: BTokenType where "TYP_UNARY_PLACEHOLDER \<equiv> TYP_OTHER 0x23"

abbreviation PREC_PAREN :: int where "PREC_PAREN \<equiv> 14"
abbreviation PREC_UNARY_OPS :: int where "PREC_UNARY_OPS \<equiv> 12"
abbreviation PREC_MULT :: int where "PREC_MULT \<equiv> 11"
abbreviation PREC_PLUS :: int where "PREC_PLUS \<equiv> 10"
abbreviation PREC_LESSTHAN :: int where "PREC_LESSTHAN \<equiv> 9"
abbreviation PREC_BSLEFT :: int where "PREC_BSLEFT \<equiv> 8"
abbreviation PREC_BSRIGHT :: int where "PREC_BSRIGHT \<equiv> 8"
abbreviation PREC_BITAND :: int where "PREC_BITAND \<equiv> 8"
abbreviation PREC_BITXOR :: int where "PREC_BITXOR \<equiv> 7"
abbreviation PREC_BITOR :: int where "PREC_BITOR \<equiv> 6"
abbreviation PREC_EQUALTO :: int where "PREC_EQUALTO \<equiv> 5"
abbreviation PREC_LOGAND :: int where "PREC_LOGAND \<equiv> 4"
abbreviation PREC_LOGOR :: int where "PREC_LOGOR \<equiv> 3"
abbreviation PREC_ASSIGN :: int where "PREC_ASSIGN \<equiv> 1"
abbreviation PREC_COMMA :: int where "PREC_COMMA \<equiv> 0"
abbreviation PREC_DEPRECATED :: int where "PREC_DEPRECATED \<equiv> 0"
abbreviation PREC_TERMINATOR :: int where "PREC_TERMINATOR \<equiv> -1"

fun type_code :: "BTokenType \<Rightarrow> nat" where
  "type_code TYP_OPERAND = 0x01"
| "type_code TYP_OPERATOR = 0x02"
| "type_code TYP_UNARY_OPERATOR = 0x03"
| "type_code TYP_FUNC = 0x10"
| "type_code TYP_METHOD = 0x1a"
| "type_code TYP_USERFUNC = 0x1b"
| "type_code (TYP_OTHER n) = n"

text \<open>
  A token of the parser also has its precedence. A \<^verbatim>\<open>tokval\<close> that is null is empty.
\<close>

record Token = token +
  precedence :: int

definition new_Token :: "BTokenId \<Rightarrow> BTokenType \<Rightarrow> Token" where
  "new_Token i t = \<lparr>tid = i, ttype = t, tlval = 0, tdval = dzero False, tokval = [], nparams = 0,
     module = 0, userfunc = None, precedence = -1\<rparr>"

definition Token0 :: Token where "Token0 = new_Token TOK_TERM TYP_TERMINATOR"

section \<open>Operators and reserved words\<close>

text \<open>Code, identifier, precedence, type, and whether the code begins another one.\<close>

type_synonym Operator = "string \<times> BTokenId \<times> int \<times> BTokenType \<times> bool"

definition binary_operators :: "Operator list" where
  "binary_operators = [
     (''('', TOK_LPAREN, PREC_PAREN, TYP_LEFTPAREN, False),
     ('')'', TOK_RPAREN, PREC_PAREN, TYP_RIGHTPAREN, False),
     (''['', TOK_LBRACKET, PREC_PAREN, TYP_LEFTBRACKET, False),
     ('']'', TOK_RBRACKET, PREC_PAREN, TYP_RIGHTBRACKET, False),
     (''{'', TOK_LBRACE, PREC_PAREN, TYP_LEFTBRACE, False),
     (''}'', TOK_RBRACE, PREC_PAREN, TYP_RIGHTBRACE, False),
     (''.'', TOK_MEMBER, PREC_PAREN, TYP_OPERATOR, True),
     (''->'', TOK_DICTKEY, PREC_ASSIGN, TYP_RESERVED, False),
     (''*'', TOK_MULT, PREC_MULT, TYP_OPERATOR, True),
     (''/'', TOK_DIV, PREC_MULT, TYP_OPERATOR, True),
     (''%'', TOK_MODULUS, PREC_MULT, TYP_OPERATOR, True),
     (''+'', TOK_ADD, PREC_PLUS, TYP_OPERATOR, True),
     (''-'', TOK_SUBTRACT, PREC_PLUS, TYP_OPERATOR, True),
     (''+='', TOK_PLUSEQUAL, PREC_ASSIGN, TYP_OPERATOR, False),
     (''-='', TOK_MINUSEQUAL, PREC_ASSIGN, TYP_OPERATOR, False),
     (''*='', TOK_TIMESEQUAL, PREC_ASSIGN, TYP_OPERATOR, False),
     (''/='', TOK_DIVIDEEQUAL, PREC_ASSIGN, TYP_OPERATOR, False),
     (''%='', TOK_MODULUSEQUAL, PREC_ASSIGN, TYP_OPERATOR, False),
     (''<='', TOK_LESSEQ, PREC_LESSTHAN, TYP_OPERATOR, False),
     (''<'', TOK_LESSTHAN, PREC_LESSTHAN, TYP_OPERATOR, True),
     (''>='', TOK_GREQ, PREC_LESSTHAN, TYP_OPERATOR, False),
     (''>'', TOK_GRTHAN, PREC_LESSTHAN, TYP_OPERATOR, True),
     (''>>'', TOK_BSRIGHT, PREC_BSRIGHT, TYP_OPERATOR, False),
     (''<<'', TOK_BSLEFT, PREC_BSLEFT, TYP_OPERATOR, False),
     (''&'', TOK_BITAND, PREC_BITAND, TYP_OPERATOR, True),
     (''^'', TOK_BITXOR, PREC_BITXOR, TYP_OPERATOR, False),
     (''|'', TOK_BITOR, PREC_BITOR, TYP_OPERATOR, True),
     (''<>'', TOK_NEQ, PREC_EQUALTO, TYP_OPERATOR, False),
     (''!='', TOK_NEQ, PREC_EQUALTO, TYP_OPERATOR, False),
     (''='', TOK_EQUAL1, PREC_EQUALTO, TYP_OPERATOR, True),
     (''=='', TOK_EQUAL, PREC_EQUALTO, TYP_OPERATOR, False),
     (''&&'', TOK_AND, PREC_LOGAND, TYP_OPERATOR, False),
     (''||'', TOK_OR, PREC_LOGOR, TYP_OPERATOR, False),
     ('':='', TOK_ASSIGN, PREC_ASSIGN, TYP_OPERATOR, False),
     (''.+'', TOK_ADDMEMBER, PREC_ASSIGN, TYP_OPERATOR, False),
     (''.-'', TOK_OTHER TOK_DELMEMBER, PREC_ASSIGN, TYP_OPERATOR, False),
     (''.?'', TOK_OTHER TOK_CHKMEMBER, PREC_ASSIGN, TYP_OPERATOR, False),
     ('','', TOK_COMMA, PREC_COMMA, TYP_SEPARATOR, False),
     ('''', TOK_TERM, PREC_TERMINATOR, TYP_TERMINATOR, False),
     (''++'', TOK_ADD, PREC_PLUS, TYP_UNARY_PLACEHOLDER, False),
     (''--'', TOK_SUBTRACT, PREC_PLUS, TYP_UNARY_PLACEHOLDER, False)]"

definition unary_operators :: "Operator list" where
  "unary_operators = [
     (''+'', TOK_UNPLUS, PREC_UNARY_OPS, TYP_UNARY_OPERATOR, False),
     (''-'', TOK_UNMINUS, PREC_UNARY_OPS, TYP_UNARY_OPERATOR, False),
     (''!'', TOK_LOG_NOT, PREC_UNARY_OPS, TYP_UNARY_OPERATOR, False),
     (''~'', TOK_BITWISE_NOT, PREC_UNARY_OPS, TYP_UNARY_OPERATOR, False),
     (''@'', TOK_FUNCREF, PREC_UNARY_OPS, TYP_FUNCREF, False),
     (''++'', TOK_UNPLUSPLUS, PREC_UNARY_OPS, TYP_UNARY_OPERATOR, True),
     (''--'', TOK_UNMINUSMINUS, PREC_UNARY_OPS, TYP_UNARY_OPERATOR, True)]"

definition reserved_words :: "(string \<times> BTokenId \<times> BTokenType \<times> int) list" where
  "reserved_words = [
     (''if'', RSV_ST_IF, TYP_RESERVED, PREC_TERMINATOR),
     (''then'', RSV_THEN, TYP_RESERVED, PREC_TERMINATOR),
     (''elseif'', RSV_ELSEIF, TYP_RESERVED, PREC_TERMINATOR),
     (''endif'', RSV_ENDIF, TYP_RESERVED, PREC_TERMINATOR),
     (''else'', RSV_ELSE, TYP_RESERVED, PREC_TERMINATOR),
     (''_OptionBracketed'', RSV_OPTION_BRACKETED, TYP_RESERVED, PREC_TERMINATOR),
     (''goto'', TOK_OTHER RSV_GOTO, TYP_RESERVED, PREC_TERMINATOR),
     (''gosub'', TOK_OTHER RSV_GOSUB, TYP_RESERVED, PREC_TERMINATOR),
     (''return'', TOK_OTHER RSV_RETURN, TYP_RESERVED, PREC_TERMINATOR),
     (''const'', RSV_CONST, TYP_RESERVED, PREC_TERMINATOR),
     (''var'', RSV_VAR, TYP_RESERVED, PREC_TERMINATOR),
     (''do'', RSV_DO, TYP_RESERVED, PREC_TERMINATOR),
     (''dowhile'', RSV_DOWHILE, TYP_RESERVED, PREC_TERMINATOR),
     (''while'', RSV_WHILE, TYP_RESERVED, PREC_TERMINATOR),
     (''endwhile'', RSV_ENDWHILE, TYP_RESERVED, PREC_TERMINATOR),
     (''exit'', TOK_OTHER RSV_EXIT, TYP_RESERVED, PREC_TERMINATOR),
     (''declare'', RSV_DECLARE, TYP_RESERVED, PREC_TERMINATOR),
     (''function'', RSV_FUNCTION, TYP_RESERVED, PREC_TERMINATOR),
     (''endfunction'', RSV_ENDFUNCTION, TYP_RESERVED, PREC_TERMINATOR),
     (''exported'', RSV_EXPORTED, TYP_RESERVED, PREC_TERMINATOR),
     (''use'', RSV_USE_MODULE, TYP_RESERVED, PREC_TERMINATOR),
     (''include'', RSV_INCLUDE_FILE, TYP_RESERVED, PREC_TERMINATOR),
     (''break'', RSV_BREAK, TYP_RESERVED, PREC_TERMINATOR),
     (''continue'', RSV_CONTINUE, TYP_RESERVED, PREC_TERMINATOR),
     (''for'', RSV_FOR, TYP_RESERVED, PREC_TERMINATOR),
     (''endfor'', RSV_ENDFOR, TYP_RESERVED, PREC_TERMINATOR),
     (''to'', RSV_TO, TYP_RESERVED, PREC_TERMINATOR),
     (''next'', RSV_NEXT, TYP_RESERVED, PREC_TERMINATOR),
     (''foreach'', RSV_FOREACH, TYP_RESERVED, PREC_TERMINATOR),
     (''endforeach'', RSV_ENDFOREACH, TYP_RESERVED, PREC_TERMINATOR),
     (''repeat'', RSV_REPEAT, TYP_RESERVED, PREC_TERMINATOR),
     (''until'', RSV_UNTIL, TYP_RESERVED, PREC_TERMINATOR),
     (''program'', RSV_PROGRAM, TYP_RESERVED, PREC_TERMINATOR),
     (''endprogram'', RSV_ENDPROGRAM, TYP_RESERVED, PREC_TERMINATOR),
     (''case'', RSV_SWITCH, TYP_RESERVED, PREC_TERMINATOR),
     (''default'', RSV_DEFAULT, TYP_RESERVED, PREC_TERMINATOR),
     (''endcase'', RSV_ENDSWITCH, TYP_RESERVED, PREC_TERMINATOR),
     (''enum'', RSV_ENUM, TYP_RESERVED, PREC_TERMINATOR),
     (''endenum'', RSV_ENDENUM, TYP_RESERVED, PREC_TERMINATOR),
     (''downto'', RSV_FUTURE, TYP_RESERVED, PREC_TERMINATOR),
     (''step'', RSV_FUTURE, TYP_RESERVED, PREC_TERMINATOR),
     (''reference'', RSV_FUTURE, TYP_RESERVED, PREC_TERMINATOR),
     (''out'', RSV_FUTURE, TYP_RESERVED, PREC_TERMINATOR),
     (''inout'', RSV_FUTURE, TYP_RESERVED, PREC_TERMINATOR),
     (''ByVal'', RSV_FUTURE, TYP_RESERVED, PREC_TERMINATOR),
     (''string'', RSV_FUTURE, TYP_RESERVED, PREC_TERMINATOR),
     (''long'', RSV_FUTURE, TYP_RESERVED, PREC_TERMINATOR),
     (''integer'', RSV_FUTURE, TYP_RESERVED, PREC_TERMINATOR),
     (''unsigned'', RSV_FUTURE, TYP_RESERVED, PREC_TERMINATOR),
     (''signed'', RSV_FUTURE, TYP_RESERVED, PREC_TERMINATOR),
     (''real'', RSV_FUTURE, TYP_RESERVED, PREC_TERMINATOR),
     (''float'', RSV_FUTURE, TYP_RESERVED, PREC_TERMINATOR),
     (''double'', RSV_FUTURE, TYP_RESERVED, PREC_TERMINATOR),
     (''as'', RSV_FUTURE, TYP_RESERVED, PREC_TERMINATOR),
     (''is'', RSV_FUTURE, TYP_RESERVED, PREC_TERMINATOR),
     (''and'', TOK_AND, TYP_OPERATOR, PREC_LOGAND),
     (''or'', TOK_OR, TYP_OPERATOR, PREC_LOGOR),
     (''not'', TOK_LOG_NOT, TYP_UNARY_OPERATOR, PREC_UNARY_OPS),
     (''byref'', TOK_REFTO, TYP_RESERVED, PREC_TERMINATOR),
     (''unused'', TOK_UNUSED, TYP_RESERVED, PREC_TERMINATOR),
     (''error'', TOK_OTHER TOK_ERROR, TYP_OPERAND, PREC_TERMINATOR),
     (''hash'', RSV_FUTURE, TYP_RESERVED, PREC_TERMINATOR),
     (''dictionary'', TOK_OTHER TOK_DICTIONARY, TYP_OPERAND, PREC_TERMINATOR),
     (''struct'', TOK_OTHER TOK_STRUCT, TYP_OPERAND, PREC_TERMINATOR),
     (''array'', TOK_OTHER TOK_ARRAY, TYP_OPERAND, PREC_TERMINATOR),
     (''stack'', TOK_STACK, TYP_OPERAND, PREC_TERMINATOR),
     (''in'', TOK_OTHER TOK_IN, TYP_OPERATOR, PREC_EQUALTO)]"

section \<open>Results\<close>

text \<open>
  \<open>Err\<close> is the result -1, with the error it notes, if any; \<open>Over\<close> reads past the end of
  the text.
\<close>

datatype ParseError =
    PERR_NONE | PERR_UNEXRPAREN | PERR_MISSLPAREN | PERR_MISSRPAREN | PERR_BADTOKEN | PERR_BADOPER
  | PERR_WAAH | PERR_UNTERMSTRING | PERR_INVESCAPE | PERR_TOOFEWARGS | PERR_TOOMANYARGS
  | PERR_UNEXPCOMMA | PERR_ILLEGALCONS | PERR_MISSINGDELIM | PERR_NOTLEGALHERE
  | PERR_PROCNOTALLOWED | PERR_UNEXPSEMI | PERR_EXPWHILE | PERR_UNEXRBRACKET | PERR_MISSRBRACKET

datatype 'a lexed = Lexed 'a | Err "ParseError option" | Over

section \<open>Comments\<close>

definition eatToEndOfLine :: "string \<Rightarrow> string" where
  "eatToEndOfLine s = dropWhile (\<lambda>c. c \<noteq> CHR 0x0D \<and> c \<noteq> CHR 0x0A) s"

definition starts_with :: "string \<Rightarrow> string \<Rightarrow> bool" where
  "starts_with p s \<longleftrightarrow> take (length p) s = p"

text \<open>
  The loop of \<^verbatim>\<open>eatToCommentEnd\<close>. After a comment inside the comment it goes on
  to \<^verbatim>\<open>tmp.s++\<close>, which steps over one more character or over the terminating zero.
  The nesting depth of comments is bounded by the length of the text.
\<close>

fun eatToCommentEnd :: "nat \<Rightarrow> string \<Rightarrow> string lexed" where
  "eatToCommentEnd 0 s = Err None"
| "eatToCommentEnd (Suc n) s =
     (if s = [] then Err None
      else if starts_with ''*/'' s then Lexed (drop 2 s)
      else
        let inner =
          (if starts_with ''/*'' s then eatToCommentEnd n (drop 2 s)
           else if starts_with ''//'' s then Lexed (eatToEndOfLine s)
           else Lexed s)
        in case inner of
             Lexed t \<Rightarrow> (if t = [] then Over else eatToCommentEnd n (tl t))
           | e \<Rightarrow> e)"

text \<open>The result 1, the end of the text, is \<open>True\<close>.\<close>

fun skipcomments_from :: "nat \<Rightarrow> string \<Rightarrow> (bool \<times> string) lexed" where
  "skipcomments_from 0 s = Err None"
| "skipcomments_from (Suc n) s =
     (let t = dropWhile isspace s
      in if t = [] then Lexed (True, t)
         else if starts_with ''/*'' t
         then (case eatToCommentEnd (length t) (drop 2 t) of
                 Lexed t' \<Rightarrow> skipcomments_from n t'
               | Err e \<Rightarrow> Err e
               | Over \<Rightarrow> Over)
         else if starts_with ''//'' t then skipcomments_from n (eatToEndOfLine t)
         else Lexed (False, t))"

definition skipcomments :: "string \<Rightarrow> (bool \<times> string) lexed" where
  "skipcomments s = skipcomments_from (Suc (length s)) s"

section \<open>Operators\<close>

fun match_one :: "Operator list \<Rightarrow> char \<Rightarrow> nat \<Rightarrow> Operator option \<Rightarrow> nat \<times> Operator option" where
  "match_one [] c nPartial pMatch = (nPartial, pMatch)"
| "match_one (op # ops) c nPartial pMatch =
     (case op of (code, _, _, _, ambig) \<Rightarrow>
        if code \<noteq> [] \<and> hd code = c
        then (if tl code = []
              then (if \<not> ambig then (nPartial, Some op) else match_one ops c nPartial (Some op))
              else match_one ops c (nPartial + 1) pMatch)
        else match_one ops c nPartial pMatch)"

definition matchOperators :: "Operator list \<Rightarrow> string \<Rightarrow> nat \<times> Operator option" where
  "matchOperators oplist b =
     (case b of
        [c] \<Rightarrow> match_one oplist c 0 None
      | _ \<Rightarrow> (0, find (\<lambda>(code, _). take 2 code = take 2 b) oplist))"

text \<open>The characters of the buffer, the last match remembered and the match of the buffer.\<close>

fun operator_loop ::
  "Operator list \<Rightarrow> string \<Rightarrow> string \<Rightarrow> Operator option \<Rightarrow> Operator option \<Rightarrow> Operator option lexed" where
  "operator_loop opList [] opbuf pLast pMatch = Lexed (if pMatch = None then pLast else pMatch)"
| "operator_loop opList (c # t) opbuf pLast pMatch =
     (if length opbuf = 4 then Err (Some PERR_BADTOKEN)
      else
        let b = opbuf @ [c]; (nPartial, m) = matchOperators opList b
        in if nPartial = 0
           then (if m \<noteq> None then Lexed m else Lexed pLast)
           else operator_loop opList t b (if m \<noteq> None then m else pLast) m)"

definition operator_token :: "Operator \<Rightarrow> Token \<Rightarrow> Token" where
  "operator_token op tok =
     (case op of (code, i, prec, t, _) \<Rightarrow>
        tok\<lparr>module := 0, tid := i, ttype := t, precedence := prec, tokval := code\<rparr>)"

definition tryOperator :: "Operator list \<Rightarrow> Token \<Rightarrow> string \<Rightarrow> (Token \<times> string) option lexed" where
  "tryOperator opList tok s =
     (case operator_loop opList s [] None None of
        Lexed (Some op) \<Rightarrow> Lexed (Some (operator_token op tok, drop (length (fst op)) s))
      | Lexed None \<Rightarrow> Lexed None
      | Err e \<Rightarrow> Err e
      | Over \<Rightarrow> Over)"

definition recognize_unary :: "Token \<Rightarrow> string \<Rightarrow> Token" where
  "recognize_unary tok word =
     (case find (\<lambda>(code, _). map tolower code = map tolower word) unary_operators of
        Some op \<Rightarrow> operator_token op tok
      | None \<Rightarrow> tok)"

section \<open>Numbers\<close>

text \<open>
  \<^verbatim>\<open>strtol\<close> with base 0 or 16 and \<^verbatim>\<open>strtod\<close> on texts that begin with a
  digit, a point or a sign: the value and the rest of the text. A \<^verbatim>\<open>long\<close> has 64 bits.
\<close>

definition hex_val :: "char \<Rightarrow> nat" where
  "hex_val c =
     (if is_digit c then digit_val c
      else if 97 \<le> byte c \<and> byte c \<le> 102 then byte c - 87
      else if 65 \<le> byte c \<and> byte c \<le> 70 then byte c - 55 else 16)"

definition read_base :: "nat \<Rightarrow> string \<Rightarrow> nat" where
  "read_base b ds = fold (\<lambda>c n. b * n + hex_val c) ds 0"

definition hex_prefix :: "string \<Rightarrow> bool" where
  "hex_prefix s \<longleftrightarrow> length s > 2 \<and> s ! 0 = CHR ''0'' \<and> tolower (s ! 1) = CHR ''x'' \<and> hex_val (s ! 2) < 16"

definition clamp_long :: "int \<Rightarrow> int" where
  "clamp_long i = max (- (2 ^ 63)) (min (2 ^ 63 - 1) i)"

definition strtol :: "nat \<Rightarrow> string \<Rightarrow> int \<times> string" where
  "strtol base s =
     (let (neg, t) = scan_sign (dropWhile isspace s);
          hex = (hex_prefix t \<and> (base = 0 \<or> base = 16));
          b = (if hex \<or> base = 16 then 16 else if t \<noteq> [] \<and> hd t = CHR ''0'' then 8 else 10);
          u = (if hex then drop 2 t else t);
          ds = takeWhile (\<lambda>c. hex_val c < b) u;
          v = int (read_base b ds)
      in if ds = [] then (0, s) else (clamp_long (if neg then - v else v), drop (length ds) u))"

definition scan_exponent :: "string \<Rightarrow> string \<Rightarrow> int \<times> string" where
  "scan_exponent es s =
     (case s of
        c # t \<Rightarrow>
          (let (neg, ds, r) = scan_int t
           in if c \<in> set es \<and> ds \<noteq> []
              then (if neg then - int (read_nat ds) else int (read_nat ds), r) else (0, s))
      | [] \<Rightarrow> (0, s))"

definition strtod :: "string \<Rightarrow> dbl \<times> string" where
  "strtod s =
     (let hex = hex_prefix s;
          isd = (\<lambda>c. if hex then hex_val c < 16 else is_digit c);
          u = (if hex then drop 2 s else s);
          ip = takeWhile isd u; r1 = dropWhile isd u;
          point = (r1 \<noteq> [] \<and> hd r1 = CHR ''.'');
          fp = (if point then takeWhile isd (tl r1) else []);
          r2 = (if point then drop (length fp) (tl r1) else r1);
          (x, r3) = scan_exponent (if hex then ''pP'' else ''eE'') r2
      in if ip @ fp = [] then (dzero False, s)
         else if hex
         then (let m = read_base 16 (ip @ fp); y = x - 4 * int (length fp)
               in (if 0 \<le> y then dround False (m * 2 ^ nat y) 1 else dround False m (2 ^ nat (- y)), r3))
         else (dbl_of_dec False (read_nat (ip @ fp)) (x - int (length fp)), r3))"

text \<open>
  \<^verbatim>\<open>tryNumeric\<close>. Its second reading, of a text in which \<^verbatim>\<open>strtod\<close> took the
  letter \<^verbatim>\<open>d\<close>, is for one compiler whose \<^verbatim>\<open>strtod\<close> is not the standard one.
\<close>

definition tryNumeric :: "Token \<Rightarrow> string \<Rightarrow> (Token \<times> string) option" where
  "tryNumeric tok s =
     (if s \<noteq> [] \<and> (is_digit (hd s) \<or> hd s = CHR ''.'')
      then (let (l, endptr) = strtol 0 s; (d, endptr2) = strtod s
            in if length endptr \<le> length endptr2
               then Some (tok\<lparr>ttype := TYP_OPERAND, tid := TOK_LONG, tlval := word_of_int l\<rparr>, endptr)
               else Some (tok\<lparr>ttype := TYP_OPERAND, tid := TOK_DOUBLE, tdval := d\<rparr>, endptr2))
      else None)"

section \<open>Strings and identifiers\<close>

text \<open>
  The text after the opening quote; the literal so far; whether the next character ends an
  escape; the characters of a hexadecimal escape read so far, \<open>None\<close> outside of one.
\<close>

fun read_string :: "string \<Rightarrow> string \<Rightarrow> bool \<Rightarrow> string option \<Rightarrow> (string \<times> string) lexed" where
  "read_string [] lit escnext hex = Err (Some PERR_UNTERMSTRING)"
| "read_string (c # t) lit escnext hex =
     (if escnext
      then (if c = CHR ''n'' then read_string t (lit @ [CHR 0x0A]) False None
            else if c = CHR ''t'' then read_string t (lit @ [CHR 0x09]) False None
            else if c = CHR ''x'' then read_string t lit False (Some [])
            else read_string t (lit @ [c]) False None)
      else case hex of
        Some [] \<Rightarrow> read_string t lit False (Some [c])
      | Some h \<Rightarrow>
          (case strtol 16 (h @ [c]) of
             (v, r) \<Rightarrow> if r \<noteq> [] then Err (Some PERR_INVESCAPE)
                       else read_string t (lit @ [char_of (nat (v mod 256))]) False None)
      | None \<Rightarrow>
          (if c = CHR 0x5C then read_string t lit True None
           else if c = CHR 0x22 then Lexed (lit, t)
           else read_string t (lit @ [c]) False None))"

definition isalpha :: "char \<Rightarrow> bool" where
  "isalpha c \<longleftrightarrow> 65 \<le> byte c \<and> byte c \<le> 90 \<or> 97 \<le> byte c \<and> byte c \<le> 122"

definition ident_allowed :: "char \<Rightarrow> bool" where
  "ident_allowed c \<longleftrightarrow> isalpha c \<or> is_digit c \<or> c = CHR ''_''"

definition Parser_tryLiteral :: "Token \<Rightarrow> string \<Rightarrow> (Token \<times> string) option lexed" where
  "Parser_tryLiteral tok s =
     (case s of
        [] \<Rightarrow> Lexed None
      | c # t \<Rightarrow>
          if c = CHR 0x22
          then (case read_string t [] False None of
                  Lexed (lit, r) \<Rightarrow>
                    Lexed (Some (tok\<lparr>tid := TOK_STRING, ttype := TYP_OPERAND,
                                    tokval := c_str (sanitizeUnicodeWithIso lit)\<rparr>, r))
                | Err e \<Rightarrow> Err e
                | Over \<Rightarrow> Over)
          else if isalpha c \<or> c = CHR ''_''
          then (let n = length (takeWhile ident_allowed s);
                    m = (if starts_with ''::'' (drop n s)
                         then n + 2 + length (takeWhile ident_allowed (drop (n + 2) s)) else n)
                in Lexed (Some (tok\<lparr>tid := TOK_OTHER TOK_IDENT, ttype := TYP_OPERAND, tokval := take m s\<rparr>, drop m s)))
          else Lexed None)"

text \<open>\<^verbatim>\<open>SmartParser::tryLiteral\<close> also knows labels.\<close>

definition tryLiteral :: "Token \<Rightarrow> string \<Rightarrow> (Token \<times> string) option lexed" where
  "tryLiteral tok s =
     (case Parser_tryLiteral tok s of
        Lexed (Some (tok', r)) \<Rightarrow>
          if tid tok' = TOK_OTHER TOK_IDENT \<and> r \<noteq> [] \<and> hd r = CHR '':'' \<and> (tl r = [] \<or> isspace (hd (tl r)))
          then Lexed (Some (tok'\<lparr>tid := CTRL_LABEL, ttype := TYP_LABEL\<rparr>, tl r))
          else Lexed (Some (tok', r))
      | res \<Rightarrow> res)"

definition reserved_word :: "string \<Rightarrow> (string \<times> BTokenId \<times> BTokenType \<times> int) option" where
  "reserved_word word = map_of (rev (map (\<lambda>w. (ci_key (fst w), w)) reserved_words)) (ci_key word)"

definition recognize_reserved_word :: "Token \<Rightarrow> Token" where
  "recognize_reserved_word tok =
     (if tid tok \<noteq> TOK_OTHER TOK_IDENT then tok
      else case reserved_word (tokval tok) of
        Some (word, i, t, prec) \<Rightarrow>
          tok\<lparr>module := 0, tid := i, ttype := t, precedence := prec, tokval := word\<rparr>
      | None \<Rightarrow> tok)"

section \<open>The next token\<close>

text \<open>
  The result is the number the code returns, 0 or 1 at the end of the text, where the token
  stays as it was.
\<close>

definition Parser_getToken :: "Token \<Rightarrow> string \<Rightarrow> (int \<times> Token \<times> string) lexed" where
  "Parser_getToken tok s =
     (case skipcomments s of
        Err e \<Rightarrow> Err e
      | Over \<Rightarrow> Over
      | Lexed (True, t) \<Rightarrow> Lexed (1, tok, t)
      | Lexed (False, t) \<Rightarrow>
          if hd t = CHR '';''
          then Lexed (0, tok\<lparr>module := 0, tid := TOK_SEMICOLON, ttype := TYP_DELIMITER, tokval := '';''\<rparr>, tl t)
          else case tryLiteral tok t of
            Err e \<Rightarrow> Err e
          | Over \<Rightarrow> Over
          | Lexed (Some (tok', r)) \<Rightarrow> Lexed (0, recognize_reserved_word tok', r)
          | Lexed None \<Rightarrow>
            (case tryOperator binary_operators tok t of
               Err e \<Rightarrow> Err e
             | Over \<Rightarrow> Over
             | Lexed (Some (tok', r)) \<Rightarrow> Lexed (0, tok', r)
             | Lexed None \<Rightarrow>
               (case tryOperator unary_operators tok t of
                  Err e \<Rightarrow> Err e
                | Over \<Rightarrow> Over
                | Lexed (Some (tok', r)) \<Rightarrow> Lexed (0, tok', r)
                | Lexed None \<Rightarrow>
                  (case tryNumeric tok t of
                     Some (tok', r) \<Rightarrow> Lexed (0, tok', r)
                   | None \<Rightarrow>
                       if hd t = CHR '':''
                       then Lexed (0, tok\<lparr>tid := RSV_COLON, ttype := TYP_RESERVED, tokval := '':''\<rparr>, tl t)
                       else Err (Some PERR_WAAH)))))"

end
