(* ===== verification/Parser.thy ===== *)
theory Parser
  imports Lexer
begin

text \<open>
  The expression parser of the compiler: \<^verbatim>\<open>SmartParser\<close> in
  \<^verbatim>\<open>pol-core/bscript/parser.cpp\<close> and the calls it makes into
  \<^verbatim>\<open>compiler.cpp\<close> for arguments, initialisers, variables and constants. It turns
  the text of an expression into the postfix tokens that \<open>Optimizer\<close> rewrites. The members
  \<^verbatim>\<open>modfunc_\<close> and \<^verbatim>\<open>userfunc_\<close> are read only where they denote the
  function of the current token.
\<close>

section \<open>Functions, variables and constants\<close>

record ModuleFunction =
  fname :: string
  module_uf :: "nat option"

text \<open>
  A pointer to a function of a module is its place in \<open>declared\<close>; \<open>functions_of\<close> is the order
  that gives the functions their numbers.
\<close>

record FunctionalityModule =
  modulename :: string
  declared :: "ModuleFunction list"
  functions_of :: "nat list"
  used_functions :: "nat list"

definition addFunction :: "string \<Rightarrow> nat option \<Rightarrow> FunctionalityModule \<Rightarrow> FunctionalityModule" where
  "addFunction name u m =
     m\<lparr>declared := declared m @ [\<lparr>fname = name, module_uf = u\<rparr>], functions_of := functions_of m @ [length (declared m)]\<rparr>"

definition functionsByName :: "FunctionalityModule \<Rightarrow> string \<Rightarrow> nat option" where
  "functionsByName m name =
     map_of (rev (zip (map (\<lambda>mf. ci_key (fname mf)) (declared m)) [0..<length (declared m)])) (ci_key name)"

definition funcidx :: "FunctionalityModule \<Rightarrow> nat \<Rightarrow> nat" where
  "funcidx m f = length (takeWhile (\<lambda>g. g \<noteq> f) (functions_of m))"

text \<open>A function gets the next number when it is first used: it changes places with the one there.\<close>

definition use_function :: "nat \<Rightarrow> FunctionalityModule \<Rightarrow> FunctionalityModule" where
  "use_function f m =
     (if f \<in> set (used_functions m) then m
      else let old = funcidx m f; new = length (used_functions m)
           in m\<lparr>used_functions := used_functions m @ [f],
                functions_of := (functions_of m)[old := functions_of m ! new, new := f]\<rparr>)"

definition module_isFunc :: "FunctionalityModule \<Rightarrow> string \<Rightarrow> (FunctionalityModule \<times> nat \<times> nat option) option" where
  "module_isFunc m name =
     (case functionsByName m name of
        None \<Rightarrow> None
      | Some f \<Rightarrow> (let m' = use_function f m in Some (m', funcidx m' f, module_uf (declared m ! f))))"

record UserParam =
  pname :: string
  have_default :: bool
  dflt_value :: Token

record UserFunction =
  uname :: string
  parameters :: "UserParam list"

text \<open>What the parser reads and does not change.\<close>

record compile_env =
  funcs :: "UserFunction list"
  userFunctions :: "(string \<times> nat) list"
  constants :: "(string \<times> Token) list"
  localscope :: "string list"
  globalvars :: "string list"
  OptimizeObjectMembers :: bool

type_synonym modules = "FunctionalityModule list"

definition with_function :: "compile_env \<Rightarrow> nat option \<Rightarrow> Token \<Rightarrow> Token" where
  "with_function env u tok =
     tok\<lparr>userfunc := u,
         nparams := (case u of None \<Rightarrow> 0 | Some f \<Rightarrow> length (parameters (funcs env ! f)))\<rparr>"

fun candidates :: "string \<Rightarrow> string \<Rightarrow> nat \<Rightarrow> modules \<Rightarrow> modules \<times> (nat \<times> nat \<times> nat option) list" where
  "candidates modname name i [] = ([], [])"
| "candidates modname name i (m # ms) =
     (case (if modname \<noteq> [] \<and> modname \<noteq> modulename m then None else module_isFunc m name) of
        None \<Rightarrow> (let (ms', cs) = candidates modname name (i + 1) ms in (m # ms', cs))
      | Some (m', idx, u) \<Rightarrow>
          (let (ms', cs) = candidates modname name (i + 1) ms in (m' # ms', (i, idx, u) # cs)))"

text \<open>The result is zero, one, or the -1 of an ambiguous or too long name.\<close>

definition isFunc :: "compile_env \<Rightarrow> Token \<Rightarrow> modules \<Rightarrow> int \<times> Token \<times> modules" where
  "isFunc env tok mods =
     (let colon = takeWhile (\<lambda>c. c \<noteq> CHR '':'') (tokval tok);
          qualified = (colon \<noteq> tokval tok);
          modname = (if qualified then colon else []);
          name = (if qualified then drop (length colon + 2) (tokval tok) else tokval tok)
      in if qualified \<and> length colon \<ge> 9 then (-1, tok, mods)
         else let (mods', cs) = candidates modname name 0 mods
              in case cs of
                   [] \<Rightarrow> (0, tok, mods')
                 | [(i, idx, u)] \<Rightarrow>
                     (1, with_function env u
                           (tok\<lparr>module := i mod 256, ttype := TYP_FUNC, tid := TOK_FUNC, tlval := of_nat idx\<rparr>), mods')
                 | _ \<Rightarrow> (-1, tok, mods'))"

definition isUserFunc :: "compile_env \<Rightarrow> Token \<Rightarrow> Token option" where
  "isUserFunc env tok =
     (if tid tok \<noteq> TOK_OTHER TOK_IDENT then None
      else case map_of (map (\<lambda>(n, f). (ci_key n, f)) (userFunctions env)) (ci_key (tokval tok)) of
             None \<Rightarrow> None
           | Some f \<Rightarrow>
               Some (with_function env (Some f) (tok\<lparr>module := 0, ttype := TYP_USERFUNC, tid := TOK_USERFUNC\<rparr>)))"

section \<open>Results and state\<close>

datatype 'a parsed = Parsed 'a | Failed "ParseError option" | Thrown string | Undef | OutOfFuel

definition and_parse :: "'a parsed \<Rightarrow> ('a \<Rightarrow> 'b parsed) \<Rightarrow> 'b parsed" where
  "and_parse r f =
     (case r of Parsed a \<Rightarrow> f a | Failed e \<Rightarrow> Failed e | Thrown e \<Rightarrow> Thrown e | Undef \<Rightarrow> Undef
      | OutOfFuel \<Rightarrow> OutOfFuel)"

definition of_lexed :: "'a lexed \<Rightarrow> 'a parsed" where
  "of_lexed r = (case r of Lexed a \<Rightarrow> Parsed a | Err e \<Rightarrow> Failed e | Over \<Rightarrow> Undef)"

text \<open>
  The position in the text with the modules, and what an expression has collected: the
  operators that wait (\<open>TX\<close>, a stack) and the tokens that are out (\<open>CA\<close>, a queue).
\<close>

type_synonym position = "string \<times> modules"

record Expression =
  TX :: "Token list"
  CA :: "token list"

definition emit :: "token list \<Rightarrow> Expression \<Rightarrow> Expression" where
  "emit ts e = e\<lparr>CA := CA e @ ts\<rparr>"

abbreviation plain_token :: "Token \<Rightarrow> token" where "plain_token \<equiv> token.truncate"

section \<open>The next token\<close>

text \<open>
  \<open>txtop\<close> is the operator on top of \<open>TX\<close>, if an expression was passed: after a member operator
  a name is a string. The first result is the number the code returns, 0 or 1.
\<close>

definition getToken ::
  "compile_env \<Rightarrow> BTokenId option \<Rightarrow> Token \<Rightarrow> position \<Rightarrow> (int \<times> Token \<times> position) parsed" where
  "getToken env txtop tok pos =
     (case pos of (s, mods) \<Rightarrow>
      and_parse (of_lexed (Parser_getToken tok s)) (\<lambda>(res, tok1, r).
        if tid tok1 \<noteq> TOK_OTHER TOK_IDENT then Parsed (res, tok1, r, mods)
        else if txtop \<in> {Some TOK_MEMBER, Some TOK_ADDMEMBER, Some (TOK_OTHER TOK_DELMEMBER), Some (TOK_OTHER TOK_CHKMEMBER)}
        then Parsed (res, tok1\<lparr>tid := TOK_STRING\<rparr>, r, mods)
        else case isFunc env tok1 mods of (found, tok2, mods') \<Rightarrow>
          if found \<noteq> 0 then Parsed (0, tok2, r, mods')
          else case isUserFunc env tok2 of
                 Some tok3 \<Rightarrow> Parsed (0, tok3, r, mods')
               | None \<Rightarrow> Parsed (res, tok2, r, mods')))"

text \<open>A peek keeps the place in the text, but functions it meets are used.\<close>

definition peekToken :: "compile_env \<Rightarrow> Token \<Rightarrow> position \<Rightarrow> (int \<times> Token \<times> position) parsed" where
  "peekToken env tok pos =
     and_parse (getToken env None tok pos) (\<lambda>(res, tok', _, mods'). Parsed (res, tok', fst pos, mods'))"

text \<open>A peek whose result is not looked at leaves the token as it was when it fails.\<close>

definition callingMethod :: "compile_env \<Rightarrow> position \<Rightarrow> (bool \<times> position) parsed" where
  "callingMethod env pos =
     (case getToken env None Token0 pos of
        Parsed (res, tk_name, pos1) \<Rightarrow>
          if res \<noteq> 0 then Parsed (False, fst pos, snd pos1)
          else
            (case getToken env None Token0 pos1 of
               Parsed (res2, tk_paren, pos2) \<Rightarrow>
                 Parsed (res2 = 0 \<and> tid tk_name \<in> {TOK_OTHER TOK_IDENT, TOK_FUNC, TOK_USERFUNC} \<and>
                         tid tk_paren = TOK_LPAREN, fst pos, snd pos2)
             | Undef \<Rightarrow> Undef
             | _ \<Rightarrow> Parsed (False, fst pos, snd pos1))
      | Undef \<Rightarrow> Undef
      | _ \<Rightarrow> Parsed (False, pos))"

section \<open>Legal sequences of tokens\<close>

definition allowed_table :: "bool list list" where
  "allowed_table =
     [[True, True, False, True, True, False, False, False],
      [True, False, True, False, False, True, True, True],
      [False, True, False, True, True, False, False, False],
      [False, True, False, False, True, False, False, False],
      [False, True, False, True, True, False, False, False],
      [True, False, True, False, False, True, False, True],
      [False, True, False, False, True, False, True, False],
      [True, False, True, False, False, True, True, True]]"

definition as_operand :: "BTokenType \<Rightarrow> BTokenType" where
  "as_operand t = (if t \<in> {TYP_FUNC, TYP_USERFUNC, TYP_METHOD, TYP_FUNCREF} then TYP_OPERAND else t)"

definition isOkay :: "Token \<Rightarrow> Token \<Rightarrow> bool" where
  "isOkay tok prev =
     (let last_type = as_operand (ttype prev);
          this_type = (if tid tok = TOK_LBRACE then TYP_OPERAND else as_operand (ttype tok))
      in if last_type = TYP_UNARY_PLACEHOLDER \<or> this_type = TYP_UNARY_PLACEHOLDER then False
         else
           let swapped = (tid tok = TOK_UNPLUSPLUS_POST \<or> tid tok = TOK_UNMINUSMINUS_POST);
               this = type_code (if swapped then last_type else this_type);
               last1 = (if swapped then this_type else last_type);
               last_code = type_code (if tid prev = TOK_UNPLUSPLUS_POST \<or> tid prev = TOK_UNMINUSMINUS_POST
                                   then TYP_OPERAND else last1)
           in if last_code > 7 \<or> this > 7 then True
              else allowed_table ! last_code ! this)"

section \<open>Infix to postfix\<close>

text \<open>
  The result 0 is \<open>Going\<close>, the result 1 is \<open>AllDone\<close>; the error of a closing parenthesis
  without an opening one is a result of its own, since it can end an expression. Each round of
  the loop moves the top of \<open>TX\<close> out or ends.
\<close>

datatype parse_step = Going | AllDone | UnexRParen

fun parseToken :: "Token \<Rightarrow> Token list \<Rightarrow> token list \<Rightarrow> (parse_step \<times> Expression) parsed" where
  "parseToken tok [] ca = Undef"
| "parseToken tok (prev # tx) ca =
     (let out = (\<lambda>tx ca. Parsed (Going, \<lparr>TX = tx, CA = ca\<rparr>));
          operator_top = (ttype prev = TYP_UNARY_OPERATOR \<or> ttype prev = TYP_OPERATOR);
          next = parseToken tok tx (ca @ [plain_token prev])
      in if ttype tok \<in> {TYP_FUNC, TYP_USERFUNC, TYP_OPERAND}
         then out (prev # tx) (ca @ [plain_token tok])
         else if ttype tok = TYP_TERMINATOR
         then (if ttype prev = TYP_TERMINATOR then Parsed (AllDone, \<lparr>TX = tx, CA = ca\<rparr>)
               else if operator_top then next
               else if ttype prev = TYP_LEFTPAREN then Failed (Some PERR_MISSRPAREN)
               else if ttype prev = TYP_LEFTBRACKET then Failed (Some PERR_MISSRBRACKET)
               else Failed (Some PERR_WAAH))
         else if ttype tok \<in> {TYP_UNARY_OPERATOR, TYP_OPERATOR, TYP_LEFTBRACKET}
         then (let t = (if ttype tok = TYP_LEFTBRACKET then tok\<lparr>tlval := 1\<rparr> else tok)
               in if ttype prev \<in> {TYP_TERMINATOR, TYP_LEFTPAREN, TYP_LEFTBRACKET}
                  then out (t # prev # tx) ca
                  else if operator_top
                  then (if precedence tok > precedence prev then out (t # prev # tx) ca else next)
                  else Failed (Some PERR_WAAH))
         else if ttype tok = TYP_LEFTPAREN then out (tok # prev # tx) ca
         else if ttype tok = TYP_RIGHTPAREN
         then (if ttype prev = TYP_TERMINATOR then Parsed (UnexRParen, \<lparr>TX = prev # tx, CA = ca\<rparr>)
               else if operator_top then next
               else if ttype prev = TYP_LEFTPAREN then out tx ca
               else Thrown ''Error in parseToken() (1)'')
         else if ttype tok = TYP_RIGHTBRACKET
         then (if ttype prev = TYP_TERMINATOR then Failed (Some PERR_UNEXRBRACKET)
               else if operator_top then next
               else if ttype prev = TYP_LEFTBRACKET
               then out tx (ca @ [plain_token ((new_Token (if tlval prev \<noteq> 1 then INS_MULTISUBSCRIPT else TOK_ARRAY_SUBSCRIPT)
                      TYP_OPERATOR)\<lparr>tlval := tlval prev\<rparr>)])
               else Thrown ''Error in parseToken() (2)'')
         else if ttype tok = TYP_SEPARATOR
         then (if ttype prev = TYP_LEFTBRACKET then out (prev\<lparr>tlval := tlval prev + 1\<rparr> # tx) ca
               else if operator_top then next
               else Failed (Some PERR_UNEXPCOMMA))
         else Failed (Some PERR_WAAH))"

definition parse_token :: "Token \<Rightarrow> Expression \<Rightarrow> (parse_step \<times> Expression) parsed" where
  "parse_token tok e = parseToken tok (TX e) (CA e)"

section \<open>Whole expressions\<close>

definition substitute_constant :: "compile_env \<Rightarrow> token \<Rightarrow> token" where
  "substitute_constant env t =
     (if tid t = TOK_OTHER TOK_IDENT
      then (case map_of (constants env) (tokval t) of Some c \<Rightarrow> plain_token c | None \<Rightarrow> t)
      else t)"

definition scope_index :: "string list \<Rightarrow> string \<Rightarrow> nat option" where
  "scope_index names name = map_of (zip (map ci_key names) [0..<length names]) (ci_key name)"

definition localexists :: "compile_env \<Rightarrow> string \<Rightarrow> nat option" where
  "localexists env name = map_of (rev (zip (map ci_key (localscope env)) [0..<length (localscope env)])) (ci_key name)"

definition globalexists :: "compile_env \<Rightarrow> string \<Rightarrow> nat option" where
  "globalexists env name = scope_index (globalvars env) name"

definition varexists :: "compile_env \<Rightarrow> string \<Rightarrow> bool" where
  "varexists env name \<longleftrightarrow> localexists env name \<noteq> None \<or> globalexists env name \<noteq> None"

definition convert_variable :: "compile_env \<Rightarrow> token \<Rightarrow> token" where
  "convert_variable env t =
     (if tid t = TOK_OTHER TOK_IDENT
      then (case localexists env (tokval t) of
              Some i \<Rightarrow> t\<lparr>tid := TOK_LOCALVAR, tlval := of_nat i\<rparr>
            | None \<Rightarrow>
               (case globalexists env (tokval t) of
                  Some i \<Rightarrow> t\<lparr>tid := TOK_GLOBALVAR, tlval := of_nat i\<rparr>
                | None \<Rightarrow> t))
      else t)"

definition validate_token :: "compile_env \<Rightarrow> token list \<Rightarrow> nat \<Rightarrow> unit parsed" where
  "validate_token env ts i =
     (let t = ts ! i in
      if tid t = TOK_OTHER TOK_IDENT \<and> \<not> varexists env (tokval t) then Failed None
      else if tid t = TOK_EQUAL1 then Failed None
      else if ttype t = TYP_OPERATOR
      then (if i = 0 then Thrown ''Unbalanced operator''
            else case get_num_tokens ts (int i - 1) of
                   None \<Rightarrow> Undef
                 | Some n \<Rightarrow> if int i - 1 - int n < 0 then Thrown ''Unbalanced operator'' else Parsed ())
      else if ttype t = TYP_UNARY_OPERATOR \<and> i = 0 then Thrown ''Unbalanced operator''
      else Parsed ())"

fun validate_from :: "compile_env \<Rightarrow> token list \<Rightarrow> nat list \<Rightarrow> unit parsed" where
  "validate_from env ts [] = Parsed ()"
| "validate_from env ts (i # js) = and_parse (validate_token env ts i) (\<lambda>_. validate_from env ts js)"

definition validate :: "compile_env \<Rightarrow> token list \<Rightarrow> unit parsed" where
  "validate env ts = validate_from env ts [0..<length ts]"

datatype expr_flag =
    SEMICOLON_TERM_ALLOWED | COMMA_TERM_ALLOWED | RIGHTPAREN_TERM_ALLOWED | SINGLE_ELEMENT
  | ENDENUM_TERM_ALLOWED | RIGHTBRACE_TERM_ALLOWED | TO_TERM_ALLOWED | AUTO_TERM_ALLOWED
  | CONSUME_RESULT | DICTKEY_TERM_ALLOWED

definition member_number :: "string \<Rightarrow> int32 option" where
  "member_number name =
     map_option (\<lambda>i. of_nat (enum_value MemberID (fst (object_members ! i)))) (getKnownObjMember name)"

text \<open>What \<^verbatim>\<open>readexpr\<close> does with the tokens that \<^verbatim>\<open>IIP\<close> found.\<close>

definition finish_expr :: "compile_env \<Rightarrow> expr_flag set \<Rightarrow> token list \<Rightarrow> token list parsed" where
  "finish_expr env flags ca =
     (let ts = ca @ (if CONSUME_RESULT \<in> flags \<and> ca \<noteq> []
                     then [plain_token (new_Token TOK_CONSUMER TYP_UNARY_OPERATOR)] else []);
          ts' = map (convert_variable env) (map (substitute_constant env) ts)
      in case optimize member_number (OptimizeObjectMembers env) ts' of
           Done opt \<Rightarrow> and_parse (validate env opt) (\<lambda>_. Parsed opt)
         | Throws e \<Rightarrow> Thrown e
         | Undefined \<Rightarrow> Undef)"

text \<open>
  Whether the token ends the expression before it is taken, whether it ends one that stops by
  itself, and the token with the meaning that fits the one before it.
\<close>

definition ends_before :: "expr_flag set \<Rightarrow> int \<Rightarrow> Token \<Rightarrow> bool" where
  "ends_before flags brackets tok \<longleftrightarrow>
     brackets = 0 \<and>
       (COMMA_TERM_ALLOWED \<in> flags \<and> (tid tok = TOK_COMMA \<or> tid tok = TOK_SEMICOLON) \<or>
        ENDENUM_TERM_ALLOWED \<in> flags \<and> tid tok = RSV_ENDENUM \<or>
        TO_TERM_ALLOWED \<in> flags \<and> tid tok = RSV_TO) \<or>
     RIGHTBRACE_TERM_ALLOWED \<in> flags \<and> tid tok = TOK_RBRACE \<or>
     DICTKEY_TERM_ALLOWED \<in> flags \<and> tid tok = TOK_DICTKEY"

definition in_auto_expr :: "Token \<Rightarrow> bool" where
  "in_auto_expr tok \<longleftrightarrow>
     ttype tok \<in> {TYP_FUNC, TYP_USERFUNC, TYP_OPERAND, TYP_UNARY_OPERATOR, TYP_OPERATOR, TYP_LEFTPAREN,
                  TYP_RIGHTPAREN, TYP_LEFTBRACKET, TYP_RIGHTBRACKET, TYP_SEPARATOR} \<or>
     tid tok = TOK_LBRACE \<or> tid tok = TOK_RBRACE"

definition reinterpret :: "BTokenType \<Rightarrow> Token \<Rightarrow> Token" where
  "reinterpret last_type tok =
     (let t = (if ttype tok = TYP_OPERATOR \<or> ttype tok = TYP_UNARY_PLACEHOLDER
               then recognize_unary tok (tokval tok) else tok)
      in if tid t = TOK_UNPLUSPLUS \<and> last_type = TYP_OPERAND then t\<lparr>tid := TOK_UNPLUSPLUS_POST\<rparr>
         else if tid t = TOK_UNMINUSMINUS \<and> last_type = TYP_OPERAND then t\<lparr>tid := TOK_UNMINUSMINUS_POST\<rparr>
         else t)"

definition top_id :: "Expression \<Rightarrow> BTokenId option" where
  "top_id e = (case TX e of [] \<Rightarrow> None | t # _ \<Rightarrow> Some (tid t))"

text \<open>The instruction that a call of a method becomes, from the member operator on \<open>TX\<close>.\<close>

definition method_call :: "bool \<Rightarrow> string \<Rightarrow> nat \<Rightarrow> Token \<Rightarrow> Token" where
  "method_call opt name nargs tok =
     (case getKnownObjMethod name of
        Some i \<Rightarrow>
          if opt
          then tok\<lparr>tid := INS_CALL_METHOD_ID, ttype := TYP_METHOD, tlval := of_nat nargs,
                   tdval := d_of_int (int (enum_value MethodID (fst (object_methods ! i))))\<rparr>
          else tok\<lparr>tid := INS_CALL_METHOD, ttype := TYP_METHOD, tlval := of_nat nargs, tokval := c_str name\<rparr>
      | None \<Rightarrow> tok\<lparr>tid := INS_CALL_METHOD, ttype := TYP_METHOD, tlval := of_nat nargs, tokval := c_str name\<rparr>)"

definition move_method :: "bool \<Rightarrow> string \<Rightarrow> nat \<Rightarrow> Expression \<Rightarrow> Expression parsed" where
  "move_method opt name nargs e =
     (case TX e of
        [] \<Rightarrow> Undef
      | t # tx \<Rightarrow> Parsed \<lparr>TX = tx, CA = CA e @ [plain_token (method_call opt name nargs t)]\<rparr>)"

text \<open>The arguments of a call in the order of the parameters, with the defaults of those left out.\<close>

fun pass_params :: "UserParam list \<Rightarrow> (string \<times> token list) list \<Rightarrow> token list parsed" where
  "pass_params [] passed = (if passed = [] then Parsed [] else Failed None)"
| "pass_params (p # ps) passed =
     (case map_of passed (pname p) of
        None \<Rightarrow>
          if have_default p
          then and_parse (pass_params ps passed) (\<lambda>ts. Parsed (plain_token (dflt_value p) # ts))
          else Failed None
      | Some ts \<Rightarrow>
          and_parse (pass_params ps (filter (\<lambda>(n, _). n \<noteq> pname p) passed)) (\<lambda>ts'. Parsed (ts @ ts')))"

definition call_tokens :: "compile_env \<Rightarrow> nat \<Rightarrow> token list" where
  "call_tokens env f =
     [plain_token (new_Token CTRL_MAKELOCAL TYP_CONTROL),
      plain_token (with_function env (Some f) (new_Token CTRL_JSR_USERFUNC TYP_CONTROL))]"

section \<open>The parser\<close>

text \<open>
  The functions below call each other. Each takes the functions it calls as its first argument,
  and \<open>parser_at\<close> gives them with a bound on the nesting of the calls and the rounds of the
  loops; five for each character of the text are enough, see \<open>Parsing\<close>. A result 1 that a
  caller goes on with is the integer of the result.
\<close>

abbreviation element_flags :: "expr_flag set" where
  "element_flags \<equiv> {COMMA_TERM_ALLOWED, RIGHTBRACE_TERM_ALLOWED}"

abbreviation argument_flags :: "expr_flag set" where
  "argument_flags \<equiv> {COMMA_TERM_ALLOWED, RIGHTPAREN_TERM_ALLOWED}"

definition getFunctionPArgument :: "compile_env \<Rightarrow> Token \<Rightarrow> position \<Rightarrow> (Token \<times> position) parsed" where
  "getFunctionPArgument env ref_tkn pos =
     and_parse (getToken env None ref_tkn pos) (\<lambda>(_, t, pos1).
       if tid t \<noteq> TOK_USERFUNC then Failed None
       else Parsed (t\<lparr>tid := TOK_FUNCREF, ttype := TYP_OPERAND\<rparr>, pos1))"

text \<open>
  What stands before the first element of a list: \<open>None\<close> when there is none. \<open>open_list\<close> is
  the beginning of \<^verbatim>\<open>getArrayElements\<close>, \<^verbatim>\<open>getStructMembers\<close> and
  \<^verbatim>\<open>getDictionaryMembers\<close>, \<open>open_braced\<close> that of
  \<^verbatim>\<open>getNewArrayElements\<close>, whose brace has been read.
\<close>

definition open_braced :: "compile_env \<Rightarrow> position \<Rightarrow> (Token option \<times> position) parsed" where
  "open_braced env pos =
     and_parse (peekToken env Token0 pos) (\<lambda>(_, t, pos1).
       if tid t = TOK_RBRACE
       then and_parse (getToken env None t pos1) (\<lambda>(_, _, pos2). Parsed (None, pos2))
       else Parsed (Some t, pos1))"

definition open_list ::
  "compile_env \<Rightarrow> BTokenId \<Rightarrow> BTokenId \<Rightarrow> position \<Rightarrow> (Token option \<times> position) parsed" where
  "open_list env opening close pos =
     and_parse (peekToken env Token0 pos) (\<lambda>(_, t1, pos1).
       if tid t1 \<noteq> opening then Parsed (None, pos1)
       else and_parse (getToken env None t1 pos1) (\<lambda>(_, t2, pos2).
         and_parse (peekToken env t2 pos2) (\<lambda>(_, t3, pos3).
           if tid t3 = close
           then and_parse (getToken env None t3 pos3) (\<lambda>(_, _, pos4). Parsed (None, pos4))
           else Parsed (Some t3, pos3))))"

record parser =
  IIP :: "compile_env \<Rightarrow> expr_flag set \<Rightarrow> Expression \<Rightarrow> position \<Rightarrow> (Expression \<times> position) parsed"
  iip_loop :: "compile_env \<Rightarrow> expr_flag set \<Rightarrow> Expression \<Rightarrow> position \<Rightarrow> BTokenType \<Rightarrow> Token \<Rightarrow> int \<Rightarrow> (Expression \<times> position) parsed"
  iip_token :: "compile_env \<Rightarrow> expr_flag set \<Rightarrow> string \<Rightarrow> Token \<Rightarrow> Expression \<Rightarrow> position \<Rightarrow> (int \<times> Expression \<times> position \<times> BTokenType \<times> Token) parsed"
  readexpr :: "compile_env \<Rightarrow> expr_flag set \<Rightarrow> position \<Rightarrow> (token list \<times> position) parsed"
  getUserArgs :: "compile_env \<Rightarrow> bool \<Rightarrow> nat option \<Rightarrow> Expression \<Rightarrow> position \<Rightarrow> (int \<times> Expression \<times> position) parsed"
  user_args_loop :: "compile_env \<Rightarrow> UserFunction \<Rightarrow> (string \<times> token list) list \<Rightarrow> bool \<Rightarrow> position \<Rightarrow> (int \<times> (string \<times> token list) list \<times> position) parsed"
  array_loop :: "compile_env \<Rightarrow> BTokenId \<Rightarrow> expr_flag set \<Rightarrow> Token \<Rightarrow> Expression \<Rightarrow> position \<Rightarrow> (Expression \<times> position) parsed"
  struct_loop :: "compile_env \<Rightarrow> Token \<Rightarrow> Expression \<Rightarrow> position \<Rightarrow> (Expression \<times> position) parsed"
  dictionary_loop :: "compile_env \<Rightarrow> Token \<Rightarrow> Expression \<Rightarrow> position \<Rightarrow> (Expression \<times> position) parsed"
  method_loop :: "compile_env \<Rightarrow> Token \<Rightarrow> nat \<Rightarrow> Expression \<Rightarrow> position \<Rightarrow> (nat \<times> Expression \<times> position) parsed"

definition IIP_body :: "parser \<Rightarrow> compile_env \<Rightarrow> expr_flag set \<Rightarrow> Expression \<Rightarrow> position \<Rightarrow> (Expression \<times> position) parsed" where
  "IIP_body P env flags e pos =
     and_parse (iip_loop P env flags (e\<lparr>TX := Token0 # TX e\<rparr>) pos TYP_TERMINATOR Token0 0) (\<lambda>(e1, pos1).
       and_parse (parse_token Token0 e1) (\<lambda>(_, e2). Parsed (e2, pos1)))"

definition iip_loop_body :: "parser \<Rightarrow> compile_env \<Rightarrow> expr_flag set \<Rightarrow> Expression \<Rightarrow> position \<Rightarrow> BTokenType \<Rightarrow> Token \<Rightarrow> int \<Rightarrow> (Expression \<times> position) parsed" where
  "iip_loop_body P env flags e pos last_type last_token brackets =
     and_parse (peekToken env Token0 pos) (\<lambda>(res, tok0, pos0).
       if res \<noteq> 0 \<or> ends_before flags brackets tok0 then Parsed (e, pos0)
       else and_parse (getToken env (top_id e) tok0 pos0) (\<lambda>(_, tok1, pos1).
         if SEMICOLON_TERM_ALLOWED \<in> flags \<and> tid tok1 = TOK_SEMICOLON then Parsed (e, pos1)
         else
           let brackets' = (if tid tok1 = TOK_LBRACKET then brackets + 1
                            else if tid tok1 = TOK_RBRACKET then brackets - 1 else brackets);
               tok = (if isOkay tok1 last_token then tok1 else reinterpret last_type tok1);
               saved = (fst pos0, snd pos1)
           in if \<not> isOkay tok last_token
              then (if AUTO_TERM_ALLOWED \<in> flags then Parsed (e, saved) else Failed (Some PERR_ILLEGALCONS))
              else if AUTO_TERM_ALLOWED \<in> flags \<and> \<not> in_auto_expr tok then Parsed (e, saved)
              else and_parse (iip_token P env flags (fst pos) tok e pos1) (\<lambda>(stop, e', pos', last_type', last_token').
                if stop \<noteq> 0 \<or> SINGLE_ELEMENT \<in> flags then Parsed (e', pos')
                else iip_loop P env flags e' pos' last_type' last_token' brackets')))"

definition iip_token_body :: "parser \<Rightarrow> compile_env \<Rightarrow> expr_flag set \<Rightarrow> string \<Rightarrow> Token \<Rightarrow> Expression \<Rightarrow> position \<Rightarrow> (int \<times> Expression \<times> position \<times> BTokenType \<times> Token) parsed" where
  "iip_token_body P env flags t tok e pos =
     (let went = (\<lambda>e pos. Parsed (0, e, pos, ttype tok, tok));
          elements = (\<lambda>opened e elems. and_parse opened (\<lambda>(first, pos1).
            case first of
              None \<Rightarrow> went e pos1
            | Some t \<Rightarrow> and_parse (elems t e pos1) (\<lambda>(e', pos'). went e' pos')));
          push = (\<lambda>e pos. and_parse (parse_token tok e) (\<lambda>(step, e').
            if step = UnexRParen
            then (if RIGHTPAREN_TERM_ALLOWED \<in> flags then Parsed (1, e', (t, snd pos), ttype tok, tok)
                  else Failed (Some PERR_UNEXRPAREN))
            else went e' pos))
      in if ttype tok = TYP_USERFUNC
         then and_parse (getUserArgs P env True (userfunc tok) e pos) (\<lambda>(_, e1, pos1). push e1 pos1)
         else if ttype tok = TYP_FUNC
         then and_parse (getUserArgs P env False (userfunc tok) e pos) (\<lambda>(_, e1, pos1). push e1 pos1)
         else if tid tok = TOK_OTHER TOK_ARRAY
         then and_parse (parse_token (new_Token (TOK_OTHER TOK_ARRAY) TYP_OPERAND) e) (\<lambda>(_, e1).
           and_parse (peekToken env Token0 pos) (\<lambda>(res, peek, pos1).
             if res \<noteq> 0 then Parsed (1, e1, pos1, ttype tok, tok)
             else if tid peek = TOK_LPAREN
             then elements (open_list env TOK_LPAREN TOK_RPAREN pos1) e1 (array_loop P env TOK_RPAREN argument_flags)
             else if tid peek = TOK_LBRACE
             then and_parse (getToken env None peek pos1) (\<lambda>(_, _, pos2).
               elements (open_braced env pos2) e1 (array_loop P env TOK_RBRACE element_flags))
             else went e1 pos1))
         else if tid tok = TOK_LBRACE
         then elements (open_braced env pos) (emit [plain_token (new_Token (TOK_OTHER TOK_ARRAY) TYP_OPERAND)] e)
                (array_loop P env TOK_RBRACE element_flags)
         else if tid tok = TOK_OTHER TOK_ERROR \<or> tid tok = TOK_OTHER TOK_STRUCT
         then elements (open_list env TOK_LBRACE TOK_RBRACE pos)
                (emit [plain_token (new_Token (tid tok) TYP_OPERAND)] e) (struct_loop P env)
         else if tid tok = TOK_OTHER TOK_DICTIONARY
         then elements (open_list env TOK_LBRACE TOK_RBRACE pos) (emit [plain_token tok] e) (dictionary_loop P env)
         else if tid tok = TOK_FUNCREF
         then and_parse (getFunctionPArgument env tok pos) (\<lambda>(ref, pos1). went (emit [plain_token ref] e) pos1)
         else and_parse (if tid tok = TOK_MEMBER then callingMethod env pos else Parsed (False, pos)) (\<lambda>(calling, pos0).
           if \<not> calling then push e pos0
           else and_parse (parse_token tok e) (\<lambda>(_, e1).
             and_parse (getToken env (top_id e1) tok pos0) (\<lambda>(_, t1, pos1).
               let name = map tolower (tokval t1)
               in and_parse (getToken env None Token0 pos1) (\<lambda>(_, t2, pos2).
                 and_parse (method_loop P env t2 0 e1 pos2) (\<lambda>(nargs, e2, pos3).
                   and_parse (move_method (OptimizeObjectMembers env) name nargs e2) (\<lambda>e3.
                     Parsed (0, e3, pos3, TYP_OPERAND, tok\<lparr>ttype := TYP_OPERAND\<rparr>))))))))"

definition readexpr_body :: "parser \<Rightarrow> compile_env \<Rightarrow> expr_flag set \<Rightarrow> position \<Rightarrow> (token list \<times> position) parsed" where
  "readexpr_body P env flags pos =
     and_parse (IIP P env flags \<lparr>TX = [], CA = []\<rparr> pos) (\<lambda>(e, pos1).
       and_parse (finish_expr env flags (CA e)) (\<lambda>ts. Parsed (ts, pos1)))"

definition getUserArgs_body :: "parser \<Rightarrow> compile_env \<Rightarrow> bool \<Rightarrow> nat option \<Rightarrow> Expression \<Rightarrow> position \<Rightarrow> (int \<times> Expression \<times> position) parsed" where
  "getUserArgs_body P env inject u e pos =
     (case u of
        None \<Rightarrow> Undef
      | Some f \<Rightarrow>
          if length (funcs env) \<le> f then Undef
          else and_parse (case getToken env None Token0 pos of
                       Failed _ \<Rightarrow> Failed (Some PERR_MISSLPAREN)
                     | r \<Rightarrow> r) (\<lambda>(_, t, pos1).
            if tid t \<noteq> TOK_LPAREN then Failed (Some PERR_MISSLPAREN)
            else and_parse (user_args_loop P env (funcs env ! f) [] False pos1) (\<lambda>(res, passed, pos2).
              if res \<noteq> 0 then Parsed (res, e, pos2)
              else and_parse (pass_params (parameters (funcs env ! f)) passed) (\<lambda>ts.
                and_parse (getToken env None t pos2) (\<lambda>(_, t', pos3).
                  if tid t' \<noteq> TOK_RPAREN then Failed (Some PERR_MISSRPAREN)
                  else Parsed (0, emit (ts @ (if inject then call_tokens env f else [])) e, pos3))))))"

definition user_args_loop_body :: "parser \<Rightarrow> compile_env \<Rightarrow> UserFunction \<Rightarrow> (string \<times> token list) list \<Rightarrow> bool \<Rightarrow> position \<Rightarrow> (int \<times> (string \<times> token list) list \<times> position) parsed" where
  "user_args_loop_body P env uf passed any_named pos =
     and_parse (getToken env None Token0 pos) (\<lambda>(_, tk, tpos).
       if tid tk = TOK_RPAREN
       then (if passed = [] then Parsed (0, passed, fst pos, snd tpos) else Failed None)
       else if length passed \<ge> length (parameters uf) then Failed None
       else and_parse
         (if tid tk \<noteq> TOK_OTHER TOK_IDENT then Parsed (None, fst pos, snd tpos)
          else and_parse (getToken env None Token0 tpos) (\<lambda>(_, tk2, tpos2).
            if tid tk2 = TOK_ASSIGN then Parsed (Some (tokval tk), tpos2)
            else if tid tk2 = TOK_EQUAL1 then Failed None
            else Parsed (None, fst pos, snd tpos2))) (\<lambda>(named, pos1).
         if named = None \<and> any_named then Failed None
         else let name = (case named of Some v \<Rightarrow> v | None \<Rightarrow> pname (parameters uf ! length passed))
              in if name \<in> fst ` set passed then Failed None
                 else and_parse (IIP P env argument_flags \<lparr>TX = [], CA = []\<rparr> pos1) (\<lambda>(arg, pos2).
                   let passed' = passed @ [(name, CA arg)]
                   in and_parse (peekToken env Token0 pos2) (\<lambda>(res, tmp, pos3).
                     if res \<noteq> 0 then Parsed (res, passed', pos3)
                     else if tid tmp = TOK_COMMA
                     then and_parse (getToken env None tmp pos3) (\<lambda>(_, _, pos4).
                       user_args_loop P env uf passed' (any_named \<or> named \<noteq> None) pos4)
                     else if tid tmp = TOK_RPAREN then Parsed (0, passed', pos3)
                     else Failed None))))"

definition array_loop_body :: "parser \<Rightarrow> compile_env \<Rightarrow> BTokenId \<Rightarrow> expr_flag set \<Rightarrow> Token \<Rightarrow> Expression \<Rightarrow> position \<Rightarrow> (Expression \<times> position) parsed" where
  "array_loop_body P env close flags tok e pos =
     and_parse (peekToken env tok pos) (\<lambda>(_, t1, pos1).
       if tid t1 = close \<or> tid t1 = TOK_COMMA then Failed None
       else and_parse (readexpr P env flags pos1) (\<lambda>(ts, pos2).
         let e1 = emit (ts @ [plain_token (new_Token (TOK_OTHER TOK_INSERTINTO) TYP_OPERATOR)]) e
         in and_parse (getToken env None t1 pos2) (\<lambda>(_, t2, pos3).
           if tid t2 = TOK_COMMA then array_loop P env close flags t2 e1 pos3
           else if tid t2 = close then Parsed (e1, pos3)
           else Failed None)))"

definition struct_loop_body :: "parser \<Rightarrow> compile_env \<Rightarrow> Token \<Rightarrow> Expression \<Rightarrow> position \<Rightarrow> (Expression \<times> position) parsed" where
  "struct_loop_body P env tok e pos =
     and_parse (peekToken env tok pos) (\<lambda>(_, t1, pos1).
       if tid t1 \<noteq> TOK_OTHER TOK_IDENT \<and> tid t1 \<noteq> TOK_STRING then Failed None
       else and_parse (of_lexed (Parser_getToken Token0 (fst pos1))) (\<lambda>(_, ident_tkn, r).
         and_parse
           (case peekToken env t1 (r, snd pos1) of
              Failed _ \<Rightarrow> Parsed (1, t1, (r, snd pos1))
            | p \<Rightarrow> p) (\<lambda>(_, t2, pos2).
           and_parse
             (if tid t2 = TOK_ASSIGN
              then and_parse (getToken env None t2 pos2) (\<lambda>(_, t3, pos3).
                and_parse (readexpr P env element_flags pos3) (\<lambda>(ts, pos4).
                  Parsed (t3, emit (ts @ [plain_token (ident_tkn\<lparr>tid := INS_ADDMEMBER_ASSIGN\<rparr>)]) e, pos4)))
              else if tid t2 = TOK_EQUAL1 then Failed None
              else Parsed (t2, emit [plain_token (ident_tkn\<lparr>tid := INS_ADDMEMBER2\<rparr>)] e, pos2)) (\<lambda>(t4, e1, pos5).
             and_parse (getToken env None t4 pos5) (\<lambda>(_, t5, pos6).
               if tid t5 = TOK_COMMA then struct_loop P env t5 e1 pos6
               else if tid t5 = TOK_RBRACE then Parsed (e1, pos6)
               else Failed None)))))"

definition dictionary_loop_body :: "parser \<Rightarrow> compile_env \<Rightarrow> Token \<Rightarrow> Expression \<Rightarrow> position \<Rightarrow> (Expression \<times> position) parsed" where
  "dictionary_loop_body P env tok e pos =
     and_parse (peekToken env tok pos) (\<lambda>(_, t1, pos1).
       if tid t1 = TOK_RBRACE \<or> tid t1 = TOK_COMMA then Failed None
       else and_parse (readexpr P env (insert DICTKEY_TERM_ALLOWED element_flags) pos1) (\<lambda>(ks, pos2).
         and_parse (peekToken env t1 pos2) (\<lambda>(_, t2, pos3).
           and_parse
             (if tid t2 = TOK_DICTKEY
              then and_parse (getToken env None t2 pos3) (\<lambda>(_, t3, pos4).
                and_parse (readexpr P env element_flags pos4) (\<lambda>(vs, pos5). Parsed (t3, vs, pos5)))
              else Parsed (t2, [plain_token (new_Token (TOK_OTHER INS_UNINIT) TYP_OPERAND)], pos3)) (\<lambda>(t4, vs, pos6).
             let e1 = emit (ks @ vs @ [plain_token (new_Token INS_DICTIONARY_ADDMEMBER TYP_OPERATOR)]) e
             in and_parse (getToken env None t4 pos6) (\<lambda>(_, t5, pos7).
               if tid t5 = TOK_COMMA then dictionary_loop P env t5 e1 pos7
               else if tid t5 = TOK_RBRACE then Parsed (e1, pos7)
               else Failed None)))))"

definition method_loop_body :: "parser \<Rightarrow> compile_env \<Rightarrow> Token \<Rightarrow> nat \<Rightarrow> Expression \<Rightarrow> position \<Rightarrow> (nat \<times> Expression \<times> position) parsed" where
  "method_loop_body P env tok nargs e pos =
     and_parse (peekToken env tok pos) (\<lambda>(_, t1, pos1).
       if tid t1 = TOK_RPAREN
       then and_parse (getToken env None t1 pos1) (\<lambda>(_, _, pos2). Parsed (nargs, e, pos2))
       else if tid t1 = TOK_COMMA then Failed None
       else and_parse (readexpr P env argument_flags pos1) (\<lambda>(ts, pos2).
         and_parse (getToken env None t1 pos2) (\<lambda>(_, t2, pos3).
           if tid t2 = TOK_COMMA then method_loop P env t2 (nargs + 1) (emit ts e) pos3
           else if tid t2 = TOK_RPAREN then Parsed (nargs + 1, emit ts e, pos3)
           else Failed None)))"

text \<open>The parser with a bound on the nesting of its calls.\<close>

primrec parser_at :: "nat \<Rightarrow> parser" where
  "parser_at 0 =
     \<lparr>IIP = \<lambda>_ _ _ _. OutOfFuel,
      iip_loop = \<lambda>_ _ _ _ _ _ _. OutOfFuel,
      iip_token = \<lambda>_ _ _ _ _ _. OutOfFuel,
      readexpr = \<lambda>_ _ _. OutOfFuel,
      getUserArgs = \<lambda>_ _ _ _ _. OutOfFuel,
      user_args_loop = \<lambda>_ _ _ _ _. OutOfFuel,
      array_loop = \<lambda>_ _ _ _ _ _. OutOfFuel,
      struct_loop = \<lambda>_ _ _ _. OutOfFuel,
      dictionary_loop = \<lambda>_ _ _ _. OutOfFuel,
      method_loop = \<lambda>_ _ _ _ _. OutOfFuel\<rparr>"
| "parser_at (Suc n) =
     (let P = parser_at n in
     \<lparr>IIP = IIP_body P,
      iip_loop = iip_loop_body P,
      iip_token = iip_token_body P,
      readexpr = readexpr_body P,
      getUserArgs = getUserArgs_body P,
      user_args_loop = user_args_loop_body P,
      array_loop = array_loop_body P,
      struct_loop = struct_loop_body P,
      dictionary_loop = dictionary_loop_body P,
      method_loop = method_loop_body P\<rparr>)"

end
