(* ===== verification/Reading.thy ===== *)
theory Reading
  imports Lexer
begin

text \<open>
  The tokeniser reads back every token that is printed: numbers, string literals, names,
  operators and reserved words, each with a space before and after it.
\<close>

section \<open>Tokens that are printed\<close>

datatype word =
    Num nat | Str string | Name string | Field string | Op Operator | Pre Operator | Post Operator
  | Word "string \<times> BTokenId \<times> BTokenType \<times> int"

definition esc :: "char \<Rightarrow> string" where
  "esc c = (if c = CHR 0x22 \<or> c = CHR 0x5C then [CHR 0x5C, c] else [c])"

definition literal :: "string \<Rightarrow> string" where
  "literal s = CHR 0x22 # concat (map esc s) @ [CHR 0x22]"

fun spell :: "word \<Rightarrow> string" where
  "spell (Num n) = show_nat n"
| "spell (Str s) = literal s"
| "spell (Name x) = x"
| "spell (Field x) = x"
| "spell (Op op) = fst op"
| "spell (Pre op) = fst op"
| "spell (Post op) = fst op"
| "spell (Word w) = fst w"

definition found_operator :: "string \<Rightarrow> Operator" where
  "found_operator code =
     (case find (\<lambda>b. fst b = code) binary_operators of
        Some b \<Rightarrow> b
      | None \<Rightarrow> the (find (\<lambda>b. fst b = code) unary_operators))"

text \<open>What the tokeniser makes of a token that is printed, on any token it overwrites.\<close>

fun read_as :: "word \<Rightarrow> Token \<Rightarrow> Token" where
  "read_as (Num n) tok = tok\<lparr>ttype := TYP_OPERAND, tid := TOK_LONG, tlval := of_nat n\<rparr>"
| "read_as (Str s) tok = tok\<lparr>tid := TOK_STRING, ttype := TYP_OPERAND, tokval := s\<rparr>"
| "read_as (Name x) tok = tok\<lparr>tid := TOK_OTHER TOK_IDENT, ttype := TYP_OPERAND, tokval := x\<rparr>"
| "read_as (Field x) tok = tok\<lparr>tid := TOK_OTHER TOK_IDENT, ttype := TYP_OPERAND, tokval := x\<rparr>"
| "read_as (Op op) tok = operator_token op tok"
| "read_as (Pre op) tok = operator_token (found_operator (fst op)) tok"
| "read_as (Post op) tok = operator_token (found_operator (fst op)) tok"
| "read_as (Word w) tok =
     tok\<lparr>module := 0, tid := fst (snd w), ttype := fst (snd (snd w)), precedence := snd (snd (snd w)), tokval := fst w\<rparr>"

definition valid_name :: "string \<Rightarrow> bool" where
  "valid_name x \<longleftrightarrow>
     x \<noteq> [] \<and> (isalpha (hd x) \<or> hd x = CHR ''_'') \<and> list_all ident_allowed x \<and> reserved_word x = None"

definition op_id :: "Operator \<Rightarrow> BTokenId" where "op_id op = fst (snd op)"
definition op_prec :: "Operator \<Rightarrow> int" where "op_prec op = fst (snd (snd op))"
definition op_type :: "Operator \<Rightarrow> BTokenType" where "op_type op = fst (snd (snd (snd op)))"

definition prefix_operator :: "Operator \<Rightarrow> bool" where
  "prefix_operator op \<longleftrightarrow> op \<in> set unary_operators \<and> op_type op = TYP_UNARY_OPERATOR"

definition step_operator :: "Operator \<Rightarrow> bool" where
  "step_operator op \<longleftrightarrow> op \<in> set unary_operators \<and> op_id op \<in> {TOK_UNPLUSPLUS, TOK_UNMINUSMINUS}"

fun well_spelled :: "word \<Rightarrow> bool" where
  "well_spelled (Num n) \<longleftrightarrow> n < 2 ^ 63"
| "well_spelled (Str s) \<longleftrightarrow> isValidUnicode s \<and> CHR 0x00 \<notin> set s"
| "well_spelled (Name x) \<longleftrightarrow> valid_name x"
| "well_spelled (Field x) \<longleftrightarrow> valid_name x"
| "well_spelled (Op op) \<longleftrightarrow> op \<in> set binary_operators \<and> fst op \<noteq> []"
| "well_spelled (Pre op) \<longleftrightarrow> prefix_operator op"
| "well_spelled (Post op) \<longleftrightarrow> step_operator op"
| "well_spelled (Word w) \<longleftrightarrow> w \<in> set reserved_words"

section \<open>Reading them back\<close>

lemma read_string_esc: "read_string (concat (map esc s) @ CHR 0x22 # r) lit False None = Lexed (lit @ s, r)"
proof (induction s arbitrary: lit)
  case (Cons c s)
  then show ?case by (auto simp: esc_def)
qed simp

text \<open>Every operator of a list is found when a space follows.\<close>

definition matches :: "Operator list \<Rightarrow> Operator \<Rightarrow> bool" where
  "matches ops op =
     (case fst op of
        [] \<Rightarrow> True
      | c # ds \<Rightarrow>
         (case matchOperators ops [c] of
            (n, m) \<Rightarrow>
              if ds = [] then m = Some op \<and> (n = 0 \<or> matchOperators ops [c, CHR '' ''] = (0, None))
              else n \<noteq> 0 \<and> tl ds = [] \<and> matchOperators ops [c, hd ds] = (0, Some op)))"

lemma operators_match: "list_all (matches binary_operators) binary_operators"
  "list_all (\<lambda>op. found_operator (fst op) \<in> set binary_operators \<or> matches unary_operators op) unary_operators"
  by code_simp+

lemma matching_loop:
  "matches ops op \<Longrightarrow> fst op \<noteq> [] \<Longrightarrow>
     operator_loop ops (fst op @ CHR '' '' # r) [] None None = Lexed (Some op)"
  by (cases op; cases "fst op"; cases "tl (fst op)") (auto simp: matches_def Let_def split: prod.splits if_splits)

lemma binary_loop:
  "op \<in> set binary_operators \<Longrightarrow> fst op \<noteq> [] \<Longrightarrow>
     operator_loop binary_operators (fst op @ CHR '' '' # r) [] None None = Lexed (Some op)"
  using operators_match(1) by (simp add: list_all_iff matching_loop)

lemma binary_first: "op \<in> set binary_operators \<Longrightarrow> fst op \<noteq> [] \<Longrightarrow>
   (hd (fst op) \<in> set ''()[]{}.-*/%+<>&^|!=:,'') \<and> \<not> starts_with ''//'' (fst op @ CHR '' '' # r)
   \<and> \<not> starts_with ''/*'' (fst op @ CHR '' '' # r)"
  by (simp add: binary_operators_def starts_with_def) (elim disjE; simp)

definition not_binary :: "char \<Rightarrow> bool" where
  "not_binary c \<longleftrightarrow> matchOperators binary_operators [c] = (0, None) \<or>
     fst (matchOperators binary_operators [c]) \<noteq> 0 \<and> snd (matchOperators binary_operators [c]) = None \<and>
     matchOperators binary_operators [c, CHR '' ''] = (0, None)"

lemma unary_only:
  "list_all (\<lambda>op. found_operator (fst op) \<in> set binary_operators \<or>
     found_operator (fst op) = op \<and> not_binary (hd (fst op)) \<and> tl (fst op) = []) unary_operators"
  by code_simp

lemma unary_loop:
  assumes "op \<in> set unary_operators"
  shows "found_operator (fst op) \<in> set binary_operators \<or>
     operator_loop binary_operators (fst op @ CHR '' '' # r) [] None None = Lexed None \<and>
     operator_loop unary_operators (fst op @ CHR '' '' # r) [] None None = Lexed (Some op) \<and>
     found_operator (fst op) = op"
proof (cases "found_operator (fst op) \<in> set binary_operators")
  case False
  then have op: "found_operator (fst op) = op" "not_binary (hd (fst op))" "tl (fst op) = []"
    using unary_only assms by (auto simp: list_all_iff)
  have ne: "fst op \<noteq> []" using assms by (auto simp: unary_operators_def)
  then obtain c where c: "fst op = [c]" using op(3) by (cases "fst op") auto
  have "operator_loop unary_operators (fst op @ CHR '' '' # r) [] None None = Lexed (Some op)"
    using operators_match(2) assms ne False by (auto simp: list_all_iff matching_loop)
  moreover have "operator_loop binary_operators (fst op @ CHR '' '' # r) [] None None = Lexed None"
    using op(2) by (auto simp: c not_binary_def Let_def split: prod.splits)
  ultimately show ?thesis using op(1) by simp
qed simp

lemma found_code: "op \<in> set unary_operators \<Longrightarrow> fst (found_operator (fst op)) = fst op \<and> fst op \<noteq> []"
  by (simp add: unary_operators_def binary_operators_def found_operator_def) (elim disjE; simp)


lemma skipcomments_stay:
  assumes "s \<noteq> []" "\<not> isspace (hd s)" "\<not> starts_with ''/*'' s" "\<not> starts_with ''//'' s"
  shows "skipcomments s = Lexed (False, s)" "skipcomments (CHR '' '' # s) = Lexed (False, s)"
proof -
  have "dropWhile isspace s = s" using assms(1,2) by (cases s) simp_all
  moreover have "isspace (CHR '' '')" by (simp add: isspace_def byte_def)
  ultimately show "skipcomments s = Lexed (False, s)" "skipcomments (CHR '' '' # s) = Lexed (False, s)"
    using assms by (simp_all add: skipcomments_def)
qed

lemma tryLiteral_other:
  "c \<noteq> CHR 0x22 \<Longrightarrow> \<not> isalpha c \<Longrightarrow> c \<noteq> CHR ''_'' \<Longrightarrow> tryLiteral tok (c # s) = Lexed None"
  by (simp add: tryLiteral_def Parser_tryLiteral_def)

lemma digit_cases: "is_digit c \<Longrightarrow> c \<in> set ''0123456789''"
proof -
  assume "is_digit c"
  then have "byte c \<in> {48..57}" by (simp add: is_digit_def)
  then have "byte c \<in> {48,49,50,51,52,53,54,55,56,57}" by (simp add: atLeastAtMost_iff) arith
  moreover have "c = char_of (byte c)" by (simp add: byte_def)
  ultimately show ?thesis by (elim insertE emptyE; simp add: char_of_def bit_0)
qed

lemma digit_no_operator:
  assumes "is_digit c"
  shows "operator_loop binary_operators (c # s) [] None None = Lexed None"
    and "operator_loop unary_operators (c # s) [] None None = Lexed None"
  using digit_cases[OF assms]
  by (simp, elim disjE; simp add: binary_operators_def unary_operators_def matchOperators_def Let_def)+

lemma digit_plain:
  assumes "is_digit c"
  shows "c \<noteq> CHR 0x22 \<and> \<not> isalpha c \<and> c \<noteq> CHR ''_'' \<and> \<not> isspace c \<and> c \<noteq> CHR '';'' \<and> c \<noteq> CHR ''/''
    \<and> c \<noteq> CHR ''-'' \<and> c \<noteq> CHR ''+''"
proof -
  have "is_digit (CHR ''-'') = False" "is_digit (CHR ''+'') = False" "is_digit (CHR ''/'') = False"
    "is_digit (CHR '';'') = False" "is_digit (CHR ''_'') = False" "is_digit (CHR 0x22) = False"
    by (simp_all add: is_digit_def byte_def)
  moreover have "\<not> isalpha c" "\<not> isspace c" using assms by (auto simp: is_digit_def isalpha_def isspace_def)
  ultimately show ?thesis using assms by metis
qed

lemma show_nat_zero: "hd (show_nat n) = CHR ''0'' \<Longrightarrow> n = 0"
proof (induction n rule: show_nat.induct)
  case (1 n)
  show ?case
  proof (cases "n < 10")
    case True
    then have "byte (hd (show_nat n)) = 48 + n" by (subst show_nat.simps) (simp add: byte_digit_char)
    then show ?thesis using "1.prems" by (simp add: byte_def)
  next
    case False
    then have "hd (show_nat n) = hd (show_nat (n div 10))" by (subst show_nat.simps) simp
    then show ?thesis using 1 False by simp
  qed
qed

lemma show_nat_first: "is_digit (hd (show_nat n))"
  using show_nat_digits[of n] show_nat_nonempty[of n] by (cases "show_nat n") auto

lemma hex_val_digit: "is_digit c \<Longrightarrow> hex_val c = digit_val c \<and> digit_val c < 10"
  by (auto simp: hex_val_def is_digit_def digit_val_def)

lemma hex_val_other: "\<not> is_digit c \<Longrightarrow> \<not> hex_val c < 10"
  by (auto simp: hex_val_def)

lemma read_base_digits: "list_all is_digit ds \<Longrightarrow> read_base 10 ds = read_nat ds"
proof -
  assume "list_all is_digit ds"
  then have "fold (\<lambda>c n. 10 * n + hex_val c) ds v = foldl (\<lambda>v c. 10 * v + digit_val c) v ds" for v
    by (induction ds arbitrary: v) (simp_all add: hex_val_digit)
  then show ?thesis by (simp add: read_base_def read_nat_def)
qed

lemma takeWhile_number:
  assumes "list_all is_digit ds" "\<not> is_digit c"
  shows "takeWhile is_digit (ds @ c # r) = ds" "dropWhile is_digit (ds @ c # r) = c # r"
    "takeWhile (\<lambda>c. hex_val c < 10) (ds @ c # r) = ds"
  using assms by (induction ds) (auto simp: hex_val_digit hex_val_other)

lemma space_not_digit [simp]: "\<not> is_digit (CHR '' '')" by (simp add: is_digit_def byte_def)

lemma number_no_hex: "list_all is_digit ds \<Longrightarrow> ds \<noteq> [] \<Longrightarrow> \<not> hex_prefix (ds @ CHR '' '' # r)"
proof -
  assume ds: "list_all is_digit ds" "ds \<noteq> []"
  have "is_digit ((ds @ CHR '' '' # r) ! 1) \<or> (ds @ CHR '' '' # r) ! 1 = CHR '' ''"
    using ds by (cases ds; cases "tl ds") (auto simp: nth_append)
  then have "byte ((ds @ CHR '' '' # r) ! 1) < 65" by (auto simp: is_digit_def byte_def)
  then have "tolower ((ds @ CHR '' '' # r) ! 1) \<noteq> CHR ''x''"
    by (auto simp: tolower_def byte_def)
  then show ?thesis by (simp add: hex_prefix_def)
qed


lemma spaced [simp]: "\<not> isspace c \<Longrightarrow> c \<noteq> CHR '' ''" "isspace (CHR '' '')"
  by (auto simp: isspace_def byte_def)

lemma strtol_number:
  assumes "n < 2 ^ 63"
  shows "strtol 0 (show_nat n @ CHR '' '' # r) = (int n, CHR '' '' # r)"
proof -
  let ?s = "show_nat n @ CHR '' '' # r"
  obtain c ds where ds: "show_nat n = c # ds" by (cases "show_nat n") (use show_nat_nonempty[of n] in auto)
  have c: "is_digit c" using show_nat_first[of n] ds by simp
  have start: "dropWhile isspace ?s = ?s" "scan_sign ?s = (False, ?s)"
    using digit_plain[OF c] by (simp_all add: ds scan_sign_def)
  have nohex: "\<not> hex_prefix ?s" using number_no_hex[OF show_nat_digits, of n r] by simp
  have clamp: "clamp_long (int n) = int n" using assms by (simp add: clamp_long_def)
  show ?thesis
  proof (cases "c = CHR ''0''")
    case True
    then have n: "n = 0" using show_nat_zero[of n] ds by simp
    have zero: "show_nat 0 = ''0''" by (subst show_nat.simps) (simp add: digit_char_def char_of_def bit_0)
    have hv: "hex_val CHR ''0'' = 0" "\<not> hex_val CHR '' '' < 8" by (simp_all add: hex_val_def is_digit_def digit_val_def byte_def)
    show ?thesis using start nohex
      by (simp add: n zero strtol_def Let_def hv read_base_def clamp_long_def)
  next
    case False
    then show ?thesis using start nohex clamp takeWhile_number[OF show_nat_digits space_not_digit, of n r]
      by (simp add: strtol_def Let_def ds[symmetric]) (simp add: ds read_base_digits[OF show_nat_digits, of n, unfolded ds] read_show_nat[of n, unfolded ds])
  qed
qed

lemma strtod_number: "snd (strtod (show_nat n @ CHR '' '' # r)) = CHR '' '' # r"
proof -
  let ?s = "show_nat n @ CHR '' '' # r"
  have "\<not> hex_prefix ?s" using number_no_hex[OF show_nat_digits, of n r] by simp
  then show ?thesis using takeWhile_number[OF show_nat_digits space_not_digit, of n r]
    by (auto simp: strtod_def Let_def scan_exponent_def scan_int_def split: prod.splits)
qed

lemma tryNumeric_number:
  assumes "n < 2 ^ 63"
  shows "tryNumeric tok (show_nat n @ CHR '' '' # r) =
    Some (tok\<lparr>ttype := TYP_OPERAND, tid := TOK_LONG, tlval := of_nat n\<rparr>, CHR '' '' # r)"
  using strtol_number[OF assms, of r] strtod_number[of n r] show_nat_first[of n] show_nat_nonempty[of n]
  by (cases "strtod (show_nat n @ CHR '' '' # r)") (simp add: tryNumeric_def)

lemma name_read:
  assumes "list_all ident_allowed x" "x \<noteq> []" "isalpha (hd x) \<or> hd x = CHR ''_''"
  shows "tryLiteral tok (x @ CHR '' '' # r) =
    Lexed (Some (tok\<lparr>tid := TOK_OTHER TOK_IDENT, ttype := TYP_OPERAND, tokval := x\<rparr>, CHR '' '' # r))"
proof -
  have sp: "\<not> ident_allowed (CHR '' '')" by (simp add: ident_allowed_def isalpha_def byte_def is_digit_def)
  have tw: "takeWhile ident_allowed (x @ CHR '' '' # r) = x"
    using assms(1) sp by (induction x) auto
  obtain c t where x: "x = c # t" using assms(2) by (cases x) auto
  have "c \<noteq> CHR 0x22" using assms(3) by (auto simp: x isalpha_def byte_def)
  then show ?thesis using assms(3) tw
    by (simp add: x tryLiteral_def Parser_tryLiteral_def starts_with_def)
qed

lemma literal_read:
  assumes "isValidUnicode s" "CHR 0x00 \<notin> set s"
  shows "tryLiteral tok (literal s @ CHR '' '' # r) =
    Lexed (Some (tok\<lparr>tid := TOK_STRING, ttype := TYP_OPERAND, tokval := s\<rparr>, CHR '' '' # r))"
proof -
  have "takeWhile (\<lambda>c. c \<noteq> CHR 0x00) s = s" using assms(2) by (induction s) auto
  then have "c_str (sanitizeUnicodeWithIso s) = s"
    using assms(1) by (simp add: c_str_def sanitizeUnicodeWithIso_def)
  then show ?thesis
    by (simp add: literal_def tryLiteral_def Parser_tryLiteral_def read_string_esc)
qed


lemma operator_start: "c \<in> set ''()[]{}.-*/%+<>&^|!=:,~@'' \<Longrightarrow>
   c \<noteq> CHR 0x22 \<and> \<not> isalpha c \<and> c \<noteq> CHR ''_'' \<and> \<not> isspace c \<and> c \<noteq> CHR '';''"
  by (simp, elim disjE; simp add: isalpha_def isspace_def byte_def)

lemma getToken_stay:
  assumes "skipcomments s = Lexed (False, s)" "hd s \<noteq> CHR '';''"
  shows "tryLiteral tok s = Lexed (Some (t, r)) \<Longrightarrow> Parser_getToken tok s = Lexed (0, recognize_reserved_word t, r)"
    and "tryLiteral tok s = Lexed None \<Longrightarrow> operator_loop binary_operators s [] None None = Lexed (Some op) \<Longrightarrow>
      Parser_getToken tok s = Lexed (0, operator_token op tok, drop (length (fst op)) s)"
    and "tryLiteral tok s = Lexed None \<Longrightarrow> operator_loop binary_operators s [] None None = Lexed None \<Longrightarrow>
      operator_loop unary_operators s [] None None = Lexed (Some op) \<Longrightarrow>
      Parser_getToken tok s = Lexed (0, operator_token op tok, drop (length (fst op)) s)"
    and "tryLiteral tok s = Lexed None \<Longrightarrow> operator_loop binary_operators s [] None None = Lexed None \<Longrightarrow>
      operator_loop unary_operators s [] None None = Lexed None \<Longrightarrow> tryNumeric tok s = Some (t, r) \<Longrightarrow>
      Parser_getToken tok s = Lexed (0, t, r)"
  using assms by (simp_all add: Parser_getToken_def tryOperator_def)

lemma operator_read:
  assumes "op \<in> set binary_operators" "fst op \<noteq> []"
  shows "Parser_getToken tok (fst op @ CHR '' '' # r) = Lexed (0, operator_token op tok, CHR '' '' # r)"
proof -
  have start: "hd (fst op) \<in> set ''()[]{}.-*/%+<>&^|!=:,~@''" using binary_first[OF assms, of r] by auto
  obtain c t where op: "fst op = c # t" using assms(2) by (cases "fst op") auto
  have "tryLiteral tok (fst op @ CHR '' '' # r) = Lexed None"
    using operator_start[OF start] by (simp add: op tryLiteral_other)
  moreover have "skipcomments (fst op @ CHR '' '' # r) = Lexed (False, fst op @ CHR '' '' # r)"
    using operator_start[OF start] binary_first[OF assms, of r] by (intro skipcomments_stay) (auto simp: op)
  ultimately show ?thesis
    using getToken_stay(2)[OF _ _ _ binary_loop[OF assms], of r tok] operator_start[OF start] by (simp add: op)
qed

lemma unary_read:
  assumes "op \<in> set unary_operators"
  shows "Parser_getToken tok (fst op @ CHR '' '' # r) = Lexed (0, operator_token (found_operator (fst op)) tok, CHR '' '' # r)"
proof (cases "found_operator (fst op) \<in> set binary_operators")
  case True
  then show ?thesis using operator_read[OF True, of tok r] found_code[OF assms] by simp
next
  case False
  have start: "hd (fst op) \<in> set ''()[]{}.-*/%+<>&^|!=:,~@''" using assms by (auto simp: unary_operators_def)
  obtain c t where op: "fst op = c # t" using found_code[OF assms] by (cases "fst op") auto
  have "tryLiteral tok (fst op @ CHR '' '' # r) = Lexed None"
    using operator_start[OF start] by (simp add: op tryLiteral_other)
  moreover have "c \<noteq> CHR ''/''" using assms op by (auto simp: unary_operators_def)
  then have "skipcomments (fst op @ CHR '' '' # r) = Lexed (False, fst op @ CHR '' '' # r)"
    using operator_start[OF start] by (intro skipcomments_stay) (auto simp: op starts_with_def)
  ultimately show ?thesis
    using getToken_stay(3)[of "fst op @ CHR '' '' # r" tok op] operator_start[OF start]
      unary_loop[OF assms, of r] False by (simp add: op)
qed

lemma low_bits_tolower: "low_bits_of (tolower c) = low_bits_of c"
proof (cases c)
  case (Char b0 b1 b2 b3 b4 b5 b6 b7)
  have "of_bool b \<le> (1 :: nat)" for b by simp
  then have "65 \<le> byte c \<Longrightarrow> byte c \<le> 90 \<Longrightarrow> \<not> b7 \<and> b6 \<and> \<not> b5"
    unfolding Char byte_Char by (cases b7; cases b6; cases b5) (auto simp: of_bool_def split: if_splits)
  moreover have "char_of (byte (Char b0 b1 b2 b3 b4 False True False) + 32) = Char b0 b1 b2 b3 b4 True True False"
  proof -
    have "byte (Char b0 b1 b2 b3 b4 False True False) + 32 = byte (Char b0 b1 b2 b3 b4 True True False)"
      by (simp add: byte_Char)
    moreover have "char_of (byte d) = d" for d by (simp add: byte_def)
    ultimately show ?thesis by metis
  qed
  ultimately show ?thesis by (auto simp: tolower_def Char)
qed

lemma low_bits_ci_key: "CHR 0x00 \<notin> set x \<Longrightarrow> map low_bits_of (ci_key x) = map low_bits_of x"
proof -
  assume "CHR 0x00 \<notin> set x"
  then have "c_str x = x" by (induction x) (auto simp: c_str_def)
  then show ?thesis by (simp add: ci_key_def low_bits_tolower comp_def)
qed

lemma case_blind_keys_distinct:
  assumes "ascending (sorted_keys n names)" "list_all (\<lambda>x. CHR 0x00 \<notin> set x) names"
  shows "distinct (map ci_key names)"
proof -
  have keys: "map low_bits_of (ci_key x) = map low_bits_of x" if "x \<in> set names" for x
    using assms(2) that by (intro low_bits_ci_key) (simp add: list_all_iff)
  have "map (\<lambda>x. [concat (map low_bits_of x)]) (map ci_key names) = map (\<lambda>x. [concat (map low_bits_of x)]) names"
    using keys by simp
  then have "sorted_keys n (map ci_key names) = sorted_keys n names" by (simp only: sorted_keys_def)
  then show ?thesis using sorted_keys_distinct assms(1) by metis
qed

lemma words_no_zero: "list_all (\<lambda>x. CHR 0x00 \<notin> set x) (map fst reserved_words)"
  by (simp add: reserved_words_def)

lemma words_distinct: "distinct (map ci_key (map fst reserved_words))"
proof (rule case_blind_keys_distinct[of 7])
  show "ascending (sorted_keys 7 (map fst reserved_words))" by code_simp
qed (rule words_no_zero)

lemma not_reserved:
  assumes "list_all (\<lambda>w. map low_bits_of (fst w) \<noteq> map low_bits_of x) reserved_words" "CHR 0x00 \<notin> set x"
  shows "reserved_word x = None"
proof -
  have "ci_key (fst w) \<noteq> ci_key x" if "w \<in> set reserved_words" for w
    using assms that words_no_zero low_bits_ci_key[of "fst w"] low_bits_ci_key[of x]
    by (auto simp: list_all_iff)
  then show ?thesis by (force simp: reserved_word_def map_of_eq_None_iff)
qed

lemma words_are_names: "w \<in> set reserved_words \<Longrightarrow>
  fst w \<noteq> [] \<and> list_all ident_allowed (fst w) \<and> (isalpha (hd (fst w)) \<or> hd (fst w) = CHR ''_'')"
  by (simp add: reserved_words_def) (elim disjE; simp add: ident_allowed_def isalpha_def byte_def)

lemma reserved_word_found:
  assumes "w \<in> set reserved_words" shows "reserved_word (fst w) = Some w"
proof -
  have "distinct (map fst (rev (map (\<lambda>w. (ci_key (fst w), w)) reserved_words)))"
    using words_distinct by (simp add: rev_map[symmetric] comp_def)
  moreover have "(ci_key (fst w), w) \<in> set (rev (map (\<lambda>w. (ci_key (fst w), w)) reserved_words))" using assms by auto
  ultimately show ?thesis unfolding reserved_word_def by (rule map_of_is_SomeI)
qed

lemma identifier_start:
  assumes "list_all ident_allowed x" "x \<noteq> []" "isalpha (hd x) \<or> hd x = CHR ''_''"
  shows "hd (x @ s) \<noteq> CHR '';'' \<and> \<not> isspace (hd (x @ s)) \<and> \<not> starts_with ''/*'' (x @ s) \<and> \<not> starts_with ''//'' (x @ s)"
proof -
  obtain c t where x: "x = c # t" using assms(2) by (cases x) auto
  then have "\<not> isspace c" "c \<noteq> CHR ''/''" "c \<noteq> CHR '';''"
    using assms(3) by (auto simp: isalpha_def isspace_def byte_def)
  then show ?thesis by (simp add: x starts_with_def)
qed

lemma space_before:
  assumes "spell w @ CHR '' '' # r = s" "well_spelled w"
  shows "s \<noteq> [] \<and> hd s \<noteq> CHR '' '' \<and> hd s \<noteq> CHR '';'' \<and> \<not> isspace (hd s) \<and> \<not> starts_with ''/*'' s \<and> \<not> starts_with ''//'' s"
proof -
  have "hd s \<noteq> CHR '';'' \<and> \<not> isspace (hd s) \<and> \<not> starts_with ''/*'' s \<and> \<not> starts_with ''//'' s"
  proof (cases w)
    case (Num n)
    obtain c t where x: "show_nat n = c # t" by (cases "show_nat n") (use show_nat_nonempty[of n] in auto)
    have "is_digit c" using show_nat_first[of n] by (simp add: x)
    then show ?thesis using digit_plain[of c] assms(1) by (auto simp: Num x starts_with_def)
  next
    case (Str x)
    then show ?thesis using assms(1) by (auto simp: literal_def starts_with_def isspace_def byte_def)
  next
    case (Op op)
    then have o: "op \<in> set binary_operators" "fst op \<noteq> []" using assms(2) by auto
    have "hd (fst op) \<in> set ''()[]{}.-*/%+<>&^|!=:,~@''" using binary_first[OF o, of r] by auto
    then show ?thesis using operator_start[of "hd (fst op)"] binary_first[OF o, of r] assms(1) Op o
      by (auto simp del: list.set)
  next
    case (Word x)
    then show ?thesis using assms words_are_names[of x] identifier_start[of "fst x" "CHR '' '' # r"] by auto
  next
    case (Pre op)
    then have "op \<in> set unary_operators" using assms(2) by (simp add: prefix_operator_def)
    then show ?thesis using assms(1) Pre by (auto simp: unary_operators_def starts_with_def isspace_def byte_def)
  next
    case (Post op)
    then have "op \<in> set unary_operators" using assms(2) by (simp add: step_operator_def)
    then show ?thesis using assms(1) Post by (auto simp: unary_operators_def starts_with_def isspace_def byte_def)
  qed (use assms identifier_start[of "spell w" "CHR '' '' # r"] in \<open>auto simp: valid_name_def\<close>)
  then show ?thesis using assms(1) by auto
qed

lemma space_skipped:
  "well_spelled w \<Longrightarrow> Parser_getToken tok (CHR '' '' # spell w @ CHR '' '' # r) = Parser_getToken tok (spell w @ CHR '' '' # r)"
  using space_before[of w r] skipcomments_stay[of "spell w @ CHR '' '' # r"] by (simp add: Parser_getToken_def)

text \<open>A token that is printed and followed by a space is read back.\<close>

lemma token_read:
  assumes "well_spelled w"
  shows "Parser_getToken tok (spell w @ CHR '' '' # r) = Lexed (0, read_as w tok, CHR '' '' # r)"
proof -
  have name: "Parser_getToken tok (x @ CHR '' '' # r) =
      Lexed (0, tok\<lparr>tid := TOK_OTHER TOK_IDENT, ttype := TYP_OPERAND, tokval := x\<rparr>, CHR '' '' # r)"
    if v: "valid_name x" for x
  proof -
    obtain c t where x: "x = c # t" using v by (cases x) (auto simp: valid_name_def)
    have c: "isalpha c \<or> c = CHR ''_''" using v by (simp add: x valid_name_def)
    then have "\<not> isspace c" "c \<noteq> CHR ''/''" "c \<noteq> CHR '';''" by (auto simp: isalpha_def isspace_def byte_def)
    then have "skipcomments (x @ CHR '' '' # r) = Lexed (False, x @ CHR '' '' # r)" "hd (x @ CHR '' '' # r) \<noteq> CHR '';''"
      by (auto intro: skipcomments_stay simp: x starts_with_def)
    then show ?thesis using v getToken_stay(1)[OF _ _ name_read, of x r tok]
      by (simp add: recognize_reserved_word_def valid_name_def)
  qed
  show ?thesis
  proof (cases w)
    case (Num n)
    obtain c t where x: "show_nat n = c # t" by (cases "show_nat n") (use show_nat_nonempty[of n] in auto)
    have c: "is_digit c" using show_nat_first[of n] by (simp add: x)
    have "skipcomments (show_nat n @ CHR '' '' # r) = Lexed (False, show_nat n @ CHR '' '' # r)"
      using digit_plain[OF c] by (intro skipcomments_stay) (auto simp: x starts_with_def)
    then show ?thesis
      using digit_plain[OF c] tryLiteral_other[of c tok "t @ CHR '' '' # r"] digit_no_operator[OF c]
        tryNumeric_number[of n tok r] assms getToken_stay(4)[of "show_nat n @ CHR '' '' # r" tok]
      by (simp add: Num x)
  next
    case (Str s)
    have "skipcomments (literal s @ CHR '' '' # r) = Lexed (False, literal s @ CHR '' '' # r)"
      by (intro skipcomments_stay) (auto simp: literal_def isspace_def byte_def starts_with_def)
    then show ?thesis
      using getToken_stay(1)[OF _ _ literal_read, of s r tok] assms
      by (simp add: Str recognize_reserved_word_def) (simp add: literal_def)
  next
    case (Word x)
    then have x: "reserved_word (fst x) = Some x" "fst x \<noteq> []" "list_all ident_allowed (fst x)"
      "isalpha (hd (fst x)) \<or> hd (fst x) = CHR ''_''"
      using assms reserved_word_found words_are_names by auto
    then show ?thesis using getToken_stay(1)[OF _ _ name_read, of "fst x" r tok]
        skipcomments_stay[of "fst x @ CHR '' '' # r"] identifier_start[of "fst x" "CHR '' '' # r"]
      by (cases x) (simp add: Word recognize_reserved_word_def)
  next
    case (Pre op)
    then show ?thesis using assms unary_read[of op tok r] by (simp add: prefix_operator_def)
  next
    case (Post op)
    then show ?thesis using assms unary_read[of op tok r] by (simp add: step_operator_def)
  qed (use assms name operator_read in simp_all)
qed


lemma ascii_valid: "list_all (\<lambda>c. byte c < 128) s \<Longrightarrow> isValidUnicode s"
proof -
  assume "list_all (\<lambda>c. byte c < 128) s"
  then have "concat (map iso_char s) = s" by (induction s) (simp_all add: iso_char_def)
  then show ?thesis using find_invalid_iso[of s] by (simp add: isValidUnicode_def)
qed

lemma spaced_token_read:
  "well_spelled w \<Longrightarrow>
     Parser_getToken tok (CHR '' '' # spell w @ CHR '' '' # r) = Lexed (0, read_as w tok, CHR '' '' # r)"
  by (simp add: space_skipped token_read)

text \<open>
  C19. Every token that is printed is read back as what was printed, whatever token it
  overwrites and whatever text follows: integers below the largest \<^verbatim>\<open>long\<close> (as 32-bit
  words), string literals with quotes and backslashes escaped, names, all binary and
  unary operators and all reserved words.
\<close>

theorem tokens_read_back:
  assumes "well_spelled w"
  shows "Parser_getToken tok ('' '' @ spell w @ '' '' @ r) = Lexed (0, read_as w tok, '' '' @ r)"
  using spaced_token_read[OF assms] by simp

lemma tokens_read_back_witness:
  "Parser_getToken Token0 ('' '' @ spell (Str [CHR 0x22, CHR ''a'', CHR 0x5C]) @ '' '' @ '';'') =
     Lexed (0, Token0\<lparr>tid := TOK_STRING, ttype := TYP_OPERAND, tokval := [CHR 0x22, CHR ''a'', CHR 0x5C]\<rparr>, '' '' @ '';'')"
proof -
  have "well_spelled (Str [CHR 0x22, CHR ''a'', CHR 0x5C])" by (simp add: ascii_valid byte_def)
  then show ?thesis using tokens_read_back[of "Str [CHR 0x22, CHR ''a'', CHR 0x5C]"] by simp
qed

end
