(* ===== verification/Parsing.thy ===== *)
theory Parsing
  imports Parser Reading Folding
begin

text \<open>
  The expression parser inverts the printing of expressions: the text of an expression becomes
  the postfix form of its tree.
\<close>

section \<open>Expressions as they are written\<close>

text \<open>
  \<open>Prefix\<close> and \<open>Increment\<close> are the unary operators before and after an operand, \<open>Member\<close> is an
  operator that takes the name of a member.
\<close>

datatype source =
    Const word
  | Prefix Operator source
  | Increment Operator source
  | Binary source Operator source
  | Paren source
  | Subscript source "source list"
  | Member source Operator string

abbreviation lparen :: Operator where "lparen \<equiv> (''('', TOK_LPAREN, PREC_PAREN, TYP_LEFTPAREN, False)"
abbreviation rparen :: Operator where "rparen \<equiv> ('')'', TOK_RPAREN, PREC_PAREN, TYP_RIGHTPAREN, False)"
abbreviation lbracket :: Operator where "lbracket \<equiv> (''['', TOK_LBRACKET, PREC_PAREN, TYP_LEFTBRACKET, False)"
abbreviation rbracket :: Operator where "rbracket \<equiv> ('']'', TOK_RBRACKET, PREC_PAREN, TYP_RIGHTBRACKET, False)"
abbreviation comma :: Operator where "comma \<equiv> ('','', TOK_COMMA, PREC_COMMA, TYP_SEPARATOR, False)"

fun separated :: "word list list \<Rightarrow> word list" where
  "separated [] = []"
| "separated [ws] = ws"
| "separated (ws # wss) = ws @ Op comma # separated wss"

fun words :: "source \<Rightarrow> word list" where
  "words (Const w) = [w]"
| "words (Prefix op e) = Pre op # words e"
| "words (Increment op e) = words e @ [Post op]"
| "words (Binary a op b) = words a @ Op op # words b"
| "words (Paren e) = Op lparen # words e @ [Op rparen]"
| "words (Subscript e es) = words e @ Op lbracket # separated (map words es) @ [Op rbracket]"
| "words (Member e op x) = words e @ [Op op, Field x]"

definition text_of :: "word list \<Rightarrow> string" where
  "text_of ws = concat (map (\<lambda>w. CHR '' '' # spell w) ws)"

text \<open>The token that the parser makes of a token of an expression.\<close>

fun meant :: "word \<Rightarrow> Token" where
  "meant (Pre op) = operator_token op Token0"
| "meant (Post op) = (operator_token op Token0)
     \<lparr>tid := (if op_id op = TOK_UNPLUSPLUS then TOK_UNPLUSPLUS_POST else TOK_UNMINUSMINUS_POST)\<rparr>"
| "meant (Field x) = (read_as (Field x) Token0)\<lparr>tid := TOK_STRING\<rparr>"
| "meant w = read_as w Token0"

definition subscript_token :: "nat \<Rightarrow> token" where
  "subscript_token n =
     plain_token ((new_Token (if (of_nat n :: int32) \<noteq> 1 then INS_MULTISUBSCRIPT else TOK_ARRAY_SUBSCRIPT)
       TYP_OPERATOR)\<lparr>tlval := of_nat n\<rparr>)"

fun tree :: "source \<Rightarrow> expr" where
  "tree (Const w) = Node (plain_token (meant w)) []"
| "tree (Prefix op e) = Node (plain_token (meant (Pre op))) [tree e]"
| "tree (Increment op e) = Node (plain_token (meant (Post op))) [tree e]"
| "tree (Binary a op b) = Node (plain_token (meant (Op op))) [tree a, tree b]"
| "tree (Paren e) = tree e"
| "tree (Subscript e es) = Node (subscript_token (length es)) (tree e # map tree es)"
| "tree (Member e op x) =
     Node (plain_token (meant (Op op))) [tree e, Node (plain_token (meant (Field x))) []]"

section \<open>Which expressions need no more parentheses\<close>

definition member_ids :: "BTokenId set" where
  "member_ids = {TOK_MEMBER, TOK_ADDMEMBER, TOK_OTHER TOK_DELMEMBER, TOK_OTHER TOK_CHKMEMBER}"

definition infix_operator :: "Operator \<Rightarrow> bool" where
  "infix_operator op \<longleftrightarrow> op \<in> set binary_operators \<and> op_type op = TYP_OPERATOR \<and> op_id op \<notin> member_ids"

definition member_operator :: "Operator \<Rightarrow> bool" where
  "member_operator op \<longleftrightarrow> op \<in> set binary_operators \<and> op_id op \<in> member_ids"

text \<open>The precedence of the operator that is applied last; operands bind tightest.\<close>

fun level :: "source \<Rightarrow> int" where
  "level (Const w) = 15"
| "level (Prefix op e) = PREC_UNARY_OPS"
| "level (Increment op e) = PREC_UNARY_OPS"
| "level (Binary a op b) = op_prec op"
| "level (Paren e) = 15"
| "level (Subscript e es) = 15"
| "level (Member e op x) = op_prec op"

fun first :: "source \<Rightarrow> word" where
  "first (Const w) = w"
| "first (Prefix op e) = Pre op"
| "first (Increment op e) = first e"
| "first (Binary a op b) = first a"
| "first (Paren e) = Op lparen"
| "first (Subscript e es) = first e"
| "first (Member e op x) = first e"

fun final :: "source \<Rightarrow> word" where
  "final (Const w) = w"
| "final (Prefix op e) = final e"
| "final (Increment op e) = Post op"
| "final (Binary a op b) = final b"
| "final (Paren e) = Op rparen"
| "final (Subscript e es) = Op rbracket"
| "final (Member e op x) = Field x"

definition is_prefix :: "word \<Rightarrow> bool" where
  "is_prefix w = (case w of Pre op \<Rightarrow> True | _ \<Rightarrow> False)"

definition is_operand :: "word \<Rightarrow> bool" where
  "is_operand w = (case w of Num n \<Rightarrow> True | Str s \<Rightarrow> True | Name x \<Rightarrow> True | Field x \<Rightarrow> True | _ \<Rightarrow> False)"

text \<open>A name of a variable is not the name of a function.\<close>

definition variable_name :: "compile_env \<Rightarrow> modules \<Rightarrow> string \<Rightarrow> bool" where
  "variable_name env mods x \<longleftrightarrow>
     valid_name x \<and> list_all (\<lambda>m. functionsByName m x = None) mods \<and>
     list_all (\<lambda>f. ci_key (fst f) \<noteq> ci_key x) (userFunctions env)"

fun simple_operand :: "compile_env \<Rightarrow> modules \<Rightarrow> word \<Rightarrow> bool" where
  "simple_operand env mods (Num n) = well_spelled (Num n)"
| "simple_operand env mods (Str s) = well_spelled (Str s)"
| "simple_operand env mods (Name x) = variable_name env mods x"
| "simple_operand env mods w = False"

text \<open>
  Operators of equal precedence group to the left; a prefix operator takes an operand that
  binds tighter; the base of a subscript is not in parentheses, its indices do not begin with
  a prefix operator, and only an operand is incremented.
\<close>

fun well_formed :: "compile_env \<Rightarrow> modules \<Rightarrow> source \<Rightarrow> bool" where
  "well_formed env mods (Const w) \<longleftrightarrow> simple_operand env mods w"
| "well_formed env mods (Prefix op e) \<longleftrightarrow>
     prefix_operator op \<and> well_formed env mods e \<and> PREC_UNARY_OPS < level e"
| "well_formed env mods (Increment op e) \<longleftrightarrow>
     step_operator op \<and> well_formed env mods e \<and> PREC_UNARY_OPS \<le> level e \<and> is_operand (final e)"
| "well_formed env mods (Binary a op b) \<longleftrightarrow>
     infix_operator op \<and> well_formed env mods a \<and> well_formed env mods b \<and>
     op_prec op \<le> level a \<and> op_prec op < level b"
| "well_formed env mods (Paren e) \<longleftrightarrow> well_formed env mods e"
| "well_formed env mods (Subscript e es) \<longleftrightarrow>
     well_formed env mods e \<and> PREC_PAREN \<le> level e \<and> final e \<noteq> Op rparen \<and> es \<noteq> [] \<and>
     list_all (\<lambda>i. well_formed env mods i \<and> \<not> is_prefix (first i)) es"
| "well_formed env mods (Member e op x) \<longleftrightarrow>
     member_operator op \<and> variable_name env mods x \<and> well_formed env mods e \<and> op_prec op \<le> level e"


section \<open>The next token of a written expression\<close>

definition known :: "compile_env \<Rightarrow> modules \<Rightarrow> word \<Rightarrow> bool" where
  "known env mods w \<longleftrightarrow> well_spelled w \<and>
     (case w of Name x \<Rightarrow> variable_name env mods x | Field x \<Rightarrow> variable_name env mods x | Word w \<Rightarrow> False | _ \<Rightarrow> True)"

lemma no_candidates:
  "list_all (\<lambda>m. functionsByName m x = None) mods \<Longrightarrow> candidates [] x i mods = (mods, [])"
  by (induction mods arbitrary: i) (simp_all add: module_isFunc_def)

lemma variable_no_function:
  assumes "variable_name env mods (tokval tok)" "tid tok = TOK_OTHER TOK_IDENT"
  shows "isFunc env tok mods = (0, tok, mods)" "isUserFunc env tok = None"
proof -
  have x: "list_all ident_allowed (tokval tok)" using assms(1) by (simp add: variable_name_def valid_name_def)
  have "\<not> ident_allowed (CHR '':'')" by (simp add: ident_allowed_def isalpha_def is_digit_def byte_def)
  then have "c \<in> set (tokval tok) \<Longrightarrow> c \<noteq> CHR '':''" for c using x by (auto simp: list_all_iff)
  then have "takeWhile (\<lambda>c. c \<noteq> CHR '':'') (tokval tok) = tokval tok" by (simp add: takeWhile_eq_all_conv)
  then show "isFunc env tok mods = (0, tok, mods)"
    using assms(1) by (simp add: isFunc_def variable_name_def no_candidates)
  have "map_of (map (\<lambda>(n, f). (ci_key n, f)) (userFunctions env)) (ci_key (tokval tok)) = None"
    using assms(1) by (force simp: variable_name_def map_of_eq_None_iff list_all_iff)
  then show "isUserFunc env tok = None" using assms(2) by (simp add: isUserFunc_def)
qed

lemma found_not_name: "op \<in> set unary_operators \<Longrightarrow> op_id (found_operator (fst op)) \<noteq> TOK_OTHER TOK_IDENT"
  by (simp add: unary_operators_def) (elim disjE; simp add: found_operator_def binary_operators_def unary_operators_def op_id_def)

lemma operator_not_name: "op \<in> set binary_operators \<Longrightarrow> op_id op \<noteq> TOK_OTHER TOK_IDENT"
  by (simp add: binary_operators_def) (elim disjE; simp add: op_id_def)

lemma operator_token_fields [simp]:
  "tid (operator_token op tok) = op_id op" "ttype (operator_token op tok) = op_type op"
  "precedence (operator_token op tok) = op_prec op" "tokval (operator_token op tok) = fst op"
  by (cases op; simp add: operator_token_def op_id_def op_type_def op_prec_def)+

lemma operator_token_twice [simp]: "operator_token op (operator_token op' tok) = operator_token op tok"
  by (cases op; cases op') (simp add: operator_token_def)

text \<open>The tokeniser's token, with the name of a member after an operator that takes one.\<close>

definition taken :: "BTokenId option \<Rightarrow> word \<Rightarrow> Token \<Rightarrow> Token" where
  "taken txtop w tok =
     (if (\<exists>x. w = Name x \<or> w = Field x) \<and> txtop \<in> Some ` member_ids
      then (read_as w tok)\<lparr>tid := TOK_STRING\<rparr> else read_as w tok)"

lemma getToken_word:
  assumes "known env mods w"
  shows "getToken env txtop tok (CHR '' '' # spell w @ CHR '' '' # r, mods) =
    Parsed (0, taken txtop w tok, CHR '' '' # r, mods)"
proof -
  have sp: "well_spelled w" using assms by (simp add: known_def)
  note lex = spaced_token_read[OF sp, of tok r]
  show ?thesis
  proof (cases "\<exists>x. w = Name x \<or> w = Field x")
    case True
    then obtain x where x: "w = Name x \<or> w = Field x" by blast
    then have v: "variable_name env mods x" using assms by (auto simp: known_def)
    show ?thesis using lex x variable_no_function[of env mods "read_as w tok"] v
      by (auto simp: getToken_def of_lexed_def and_parse_def taken_def member_ids_def image_iff)
  next
    case False
    have "tid (read_as w tok) \<noteq> TOK_OTHER TOK_IDENT"
      using False assms found_not_name operator_not_name
      by (cases w) (auto simp: known_def prefix_operator_def step_operator_def)
    then show ?thesis using lex False by (simp add: getToken_def of_lexed_def and_parse_def taken_def)
  qed
qed

lemma taken_again [simp]: "taken txtop w (read_as w tok) = taken txtop w tok"
  by (cases w) (simp_all add: taken_def)

lemma taken_None [simp]: "taken None w tok = read_as w tok"
  by (simp add: taken_def)

section \<open>One round of the loop\<close>

declare parser_at.simps(2) [simp del]

definition no_call :: "compile_env \<Rightarrow> modules \<Rightarrow> string \<Rightarrow> bool" where
  "no_call env mods s \<longleftrightarrow> callingMethod env (s, mods) = Parsed (False, s, mods)"

definition bracket_step :: "word \<Rightarrow> int" where
  "bracket_step w = (if w = Op lbracket then 1 else if w = Op rbracket then - 1 else 0)"

definition in_expression :: "int \<Rightarrow> BTokenId \<Rightarrow> bool" where
  "in_expression brackets i \<longleftrightarrow>
     i \<notin> {TOK_SEMICOLON, RSV_ENDENUM, RSV_TO, TOK_RBRACE, TOK_LBRACE, TOK_DICTKEY, TOK_OTHER TOK_ARRAY,
           TOK_OTHER TOK_ERROR, TOK_OTHER TOK_STRUCT, TOK_OTHER TOK_DICTIONARY, TOK_FUNCREF} \<and>
     (i = TOK_COMMA \<longrightarrow> brackets \<noteq> 0)"

lemma loop_round:
  assumes "known env mods w"
    and peek: "in_expression brackets (tid (read_as w Token0))"
    and tok1: "tok1 = taken (top_id e) w Token0" "in_expression brackets (tid tok1)"
    and tok: "tok = (if isOkay tok1 last_token then tok1 else reinterpret (ttype last_token) tok1)"
      "isOkay tok last_token" "in_expression brackets (tid tok)" "ttype tok \<notin> {TYP_FUNC, TYP_USERFUNC}"
      "in_auto_expr tok"
    and br: "brackets' = (if tid tok1 = TOK_LBRACKET then brackets + 1
               else if tid tok1 = TOK_RBRACKET then brackets - 1 else brackets)"
    and call: "tid tok = TOK_MEMBER \<Longrightarrow> no_call env mods (CHR '' '' # r)"
    and parse: "parse_token tok e = Parsed (Going, e')"
    and flags: "SINGLE_ELEMENT \<notin> flags"
  shows "iip_loop (parser_at (Suc (Suc n))) env flags e (CHR '' '' # spell w @ CHR '' '' # r, mods)
      (ttype last_token) last_token brackets =
    iip_loop (parser_at (Suc n)) env flags e' (CHR '' '' # r, mods) (ttype tok) tok brackets'"
proof -
  have b: "\<not> ends_before flags brackets (read_as w Token0)"
    using peek by (auto simp: ends_before_def in_expression_def)
  have calling: "(if tid tok = TOK_MEMBER then callingMethod env (CHR '' '' # r, mods)
      else Parsed (False, CHR '' '' # r, mods)) = Parsed (False, CHR '' '' # r, mods)"
    using call by (simp add: no_call_def)
  have step: "iip_token (parser_at (Suc n)) env flags s tok e (CHR '' '' # r, mods) =
      Parsed (0, e', (CHR '' '' # r, mods), ttype tok, tok)" for s
    using tok(3,4) by (simp add: parser_at.simps(2) Let_def iip_token_body_def calling parse and_parse_def in_expression_def)
  have peeked: "peekToken env Token0 (CHR '' '' # spell w @ CHR '' '' # r, mods) =
      Parsed (0, read_as w Token0, CHR '' '' # spell w @ CHR '' '' # r, mods)"
    using getToken_word[OF assms(1), of None Token0 r] by (simp add: peekToken_def and_parse_def)
  have got: "getToken env (top_id e) (read_as w Token0) (CHR '' '' # spell w @ CHR '' '' # r, mods) =
      Parsed (0, tok1, CHR '' '' # r, mods)"
    using getToken_word[OF assms(1), of "top_id e" "read_as w Token0" r] tok1(1) by simp
  have semi: "tid tok1 \<noteq> TOK_SEMICOLON" using tok1(2) by (simp add: in_expression_def)
  show ?thesis
    by (subst parser_at.simps(2))
      (simp add: Let_def iip_loop_body_def peeked got and_parse_def b semi step tok(1)[symmetric] tok(2,5) br[symmetric] flags)
qed


section \<open>What may follow what\<close>

abbreviation post_ids :: "BTokenId set" where "post_ids \<equiv> {TOK_UNPLUSPLUS_POST, TOK_UNMINUSMINUS_POST}"

definition before_prefix :: "Token \<Rightarrow> bool" where
  "before_prefix t \<longleftrightarrow> ttype t \<in> {TYP_TERMINATOR, TYP_OPERATOR, TYP_LEFTPAREN} \<and> tid t \<notin> post_ids"

definition before_operand :: "Token \<Rightarrow> bool" where
  "before_operand t \<longleftrightarrow>
     ttype t \<in> {TYP_TERMINATOR, TYP_OPERATOR, TYP_UNARY_OPERATOR, TYP_LEFTPAREN, TYP_LEFTBRACKET, TYP_SEPARATOR} \<and>
     tid t \<notin> post_ids"

definition after_operand :: "Token \<Rightarrow> bool" where
  "after_operand t \<longleftrightarrow>
     ttype t \<in> {TYP_OPERAND, TYP_RIGHTPAREN, TYP_RIGHTBRACKET} \<and> tid t \<notin> post_ids \<or>
     ttype t = TYP_UNARY_OPERATOR \<and> tid t \<in> post_ids"

lemmas okay_simps = isOkay_def as_operand_def Let_def allowed_table_def

lemma operand_okay:
  assumes "before_operand last_token" "ttype tok \<in> {TYP_OPERAND, TYP_LEFTPAREN}" "tid tok \<noteq> TOK_LBRACE"
    and "tid tok \<notin> post_ids"
  shows "isOkay tok last_token"
  using assms(2) assms(1)[unfolded before_operand_def] assms(3,4)
  by (elim conjE insertE emptyE; simp add: okay_simps)

lemma prefix_okay:
  assumes "before_prefix last_token" "tid tok \<noteq> TOK_LBRACE" "tid tok \<notin> post_ids"
  shows "ttype tok = TYP_UNARY_OPERATOR \<Longrightarrow> isOkay tok last_token"
    and "ttype tok = TYP_OPERATOR \<Longrightarrow> \<not> isOkay tok last_token"
  using assms(1)[unfolded before_prefix_def] assms(2,3)
  by (elim conjE insertE emptyE; simp add: okay_simps)+

lemma operator_okay:
  assumes "after_operand last_token"
    and "ttype tok \<in> {TYP_OPERATOR, TYP_RIGHTPAREN, TYP_RIGHTBRACKET, TYP_SEPARATOR}"
    and "tid tok \<noteq> TOK_LBRACE" "tid tok \<notin> post_ids"
  shows "isOkay tok last_token"
  using assms(1)[unfolded after_operand_def] assms(2,3,4)
  by (elim disjE conjE insertE emptyE; simp add: okay_simps)

lemma bracket_okay:
  assumes "after_operand last_token" "ttype last_token \<noteq> TYP_RIGHTPAREN" "ttype tok = TYP_LEFTBRACKET"
    and "tid tok \<noteq> TOK_LBRACE" "tid tok \<notin> post_ids"
  shows "isOkay tok last_token"
  using assms(1)[unfolded after_operand_def] assms(2-5)
  by (elim disjE conjE insertE emptyE; simp add: okay_simps)

lemma placeholder_okay: "ttype tok = TYP_UNARY_PLACEHOLDER \<Longrightarrow> tid tok \<noteq> TOK_LBRACE \<Longrightarrow> \<not> isOkay tok last_token"
  by (simp add: isOkay_def as_operand_def Let_def)

lemma post_okay:
  assumes "ttype last_token = TYP_OPERAND" "tid last_token \<notin> post_ids" "ttype tok = TYP_UNARY_OPERATOR"
    and "tid tok \<in> post_ids"
  shows "isOkay tok last_token"
  using assms(4) assms(1-3) by (elim insertE emptyE; simp add: okay_simps)

section \<open>Operators that leave the stack\<close>

definition operators :: "Token list \<Rightarrow> bool" where
  "operators ps \<longleftrightarrow> list_all (\<lambda>p. ttype p = TYP_UNARY_OPERATOR \<or> ttype p = TYP_OPERATOR) ps"

lemma pop_one:
  assumes "ttype p = TYP_UNARY_OPERATOR \<or> ttype p = TYP_OPERATOR"
  shows "ttype tok \<in> {TYP_TERMINATOR, TYP_RIGHTPAREN, TYP_RIGHTBRACKET, TYP_SEPARATOR} \<Longrightarrow>
      parseToken tok (p # tx) ca = parseToken tok tx (ca @ [plain_token p])"
    and "ttype tok \<in> {TYP_UNARY_OPERATOR, TYP_OPERATOR, TYP_LEFTBRACKET} \<Longrightarrow> precedence tok \<le> precedence p \<Longrightarrow>
      parseToken tok (p # tx) ca = parseToken tok tx (ca @ [plain_token p])"
  using assms by (elim disjE insertE emptyE; simp add: Let_def)+

declare parseToken.simps [simp del]

lemma pop_to_closing:
  assumes "operators ps" "ttype tok \<in> {TYP_TERMINATOR, TYP_RIGHTPAREN, TYP_RIGHTBRACKET, TYP_SEPARATOR}"
  shows "parseToken tok (ps @ prev # tx) ca = parseToken tok (prev # tx) (ca @ map plain_token ps)"
  using assms(1) by (induction ps arbitrary: ca) (simp_all add: operators_def pop_one(1)[OF _ assms(2)])

lemma pop_to_operator:
  assumes "operators ps" "list_all (\<lambda>p. precedence tok \<le> precedence p) ps"
    and "ttype tok \<in> {TYP_UNARY_OPERATOR, TYP_OPERATOR, TYP_LEFTBRACKET}"
  shows "parseToken tok (ps @ prev # tx) ca = parseToken tok (prev # tx) (ca @ map plain_token ps)"
  using assms(1,2) by (induction ps arbitrary: ca) (simp_all add: operators_def pop_one(2)[OF _ assms(3)])

text \<open>The operator below waits for an expression whose operators bind with \<open>p\<close> or tighter.\<close>

definition waits :: "int \<Rightarrow> Token \<Rightarrow> bool" where
  "waits p prev \<longleftrightarrow>
     tid prev \<notin> member_ids \<and>
     (ttype prev \<in> {TYP_TERMINATOR, TYP_LEFTPAREN, TYP_LEFTBRACKET} \<or>
      (ttype prev = TYP_UNARY_OPERATOR \<or> ttype prev = TYP_OPERATOR) \<and> precedence prev < p \<and> precedence prev < PREC_PAREN)"

lemma push_operator:
  assumes "waits p prev" "p \<le> precedence tok \<or> PREC_PAREN \<le> precedence tok"
    and "ttype tok \<in> {TYP_UNARY_OPERATOR, TYP_OPERATOR, TYP_LEFTBRACKET}"
  shows "parseToken tok (prev # tx) ca =
    Parsed (Going, \<lparr>TX = (if ttype tok = TYP_LEFTBRACKET then tok\<lparr>tlval := 1\<rparr> else tok) # prev # tx, CA = ca\<rparr>)"
  using assms(3) assms(1)[unfolded waits_def] assms(2)
  by (elim conjE disjE insertE emptyE; simp add: parseToken.simps Let_def)

lemma waits_mono: "waits p prev \<Longrightarrow> p \<le> q \<Longrightarrow> waits q prev"
  by (auto simp: waits_def)


section \<open>A round for each kind of token\<close>

abbreviation parse_from ::
  "nat \<Rightarrow> compile_env \<Rightarrow> expr_flag set \<Rightarrow> Token list \<Rightarrow> token list \<Rightarrow> string \<Rightarrow> modules \<Rightarrow> Token \<Rightarrow> int \<Rightarrow>
     (Expression \<times> position) parsed" where
  "parse_from n env flags tx ca s mods last_token brackets \<equiv>
     iip_loop (parser_at n) env flags \<lparr>TX = tx, CA = ca\<rparr> (s, mods) (ttype last_token) last_token brackets"

lemma simple_known: "simple_operand env mods w \<Longrightarrow> known env mods w"
  by (cases w) (simp_all add: known_def variable_name_def)

lemma infix_facts:
  assumes "op \<in> set binary_operators" "op_type op = TYP_OPERATOR"
  shows "in_expression brackets (op_id op) \<and> op_id op \<noteq> TOK_LBRACKET \<and> op_id op \<noteq> TOK_RBRACKET \<and>
    op_id op \<notin> post_ids \<and> fst op \<noteq> [] \<and> op_prec op \<le> 14 \<and> (op_id op \<notin> member_ids \<longrightarrow> op_prec op < 12) \<and> 1 \<le> op_prec op"
  using assms by (simp add: binary_operators_def)
    (elim disjE; simp add: in_expression_def op_id_def op_type_def op_prec_def member_ids_def)

lemma prefix_facts:
  assumes "prefix_operator op"
  shows "op_id op \<in> {TOK_UNPLUS, TOK_UNMINUS, TOK_LOG_NOT, TOK_BITWISE_NOT, TOK_UNPLUSPLUS, TOK_UNMINUSMINUS} \<and>
    op_prec op = 12 \<and> op_type op = TYP_UNARY_OPERATOR \<and> recognize_unary t (fst op) = operator_token op t \<and>
    (found_operator (fst op) = op \<or> op_id (found_operator (fst op)) \<in> {TOK_ADD, TOK_SUBTRACT} \<and>
       op_type (found_operator (fst op)) \<in> {TYP_OPERATOR, TYP_UNARY_PLACEHOLDER} \<and>
       fst (found_operator (fst op)) = fst op)"
  using assms by (simp add: prefix_operator_def unary_operators_def)
    (elim conjE disjE; simp add: op_id_def op_type_def op_prec_def found_operator_def binary_operators_def
        recognize_unary_def unary_operators_def tolower_def byte_def)

lemma step_facts:
  assumes "step_operator op"
  shows "op_id op \<in> {TOK_UNPLUSPLUS, TOK_UNMINUSMINUS} \<and>
    op_prec op = 12 \<and> op_type op = TYP_UNARY_OPERATOR \<and> recognize_unary t (fst op) = operator_token op t \<and>
    op_id (found_operator (fst op)) \<in> {TOK_ADD, TOK_SUBTRACT} \<and>
    op_type (found_operator (fst op)) = TYP_UNARY_PLACEHOLDER \<and> fst (found_operator (fst op)) = fst op"
  using assms by (simp add: step_operator_def unary_operators_def)
    (elim conjE disjE; simp add: op_id_def op_type_def op_prec_def found_operator_def binary_operators_def
        recognize_unary_def unary_operators_def tolower_def byte_def)

lemma round_operand:
  assumes "simple_operand env mods w" "before_operand last_token" "tid prev \<notin> member_ids" "SINGLE_ELEMENT \<notin> flags"
  shows "parse_from (Suc (Suc n)) env flags (prev # tx) ca (CHR '' '' # spell w @ CHR '' '' # r) mods last_token brackets =
    parse_from (Suc n) env flags (prev # tx) (ca @ [plain_token (meant w)]) (CHR '' '' # r) mods (meant w) brackets"
proof -
  have t: "taken (Some (tid prev)) w Token0 = read_as w Token0" using assms(3) by (auto simp: taken_def)
  have m: "meant w = read_as w Token0" "ttype (read_as w Token0) = TYP_OPERAND"
    "tid (read_as w Token0) \<in> {TOK_LONG, TOK_STRING, TOK_OTHER TOK_IDENT}"
    using assms(1) by (cases w; simp)+
  show ?thesis
  proof (rule loop_round[OF simple_known[OF assms(1)], where ?tok1.0 = "read_as w Token0"])
    show "read_as w Token0 = taken (top_id \<lparr>TX = prev # tx, CA = ca\<rparr>) w Token0" using t by (simp add: top_id_def)
    show "isOkay (meant w) last_token" using operand_okay[OF assms(2), of "meant w"] m by auto
    then show "meant w = (if isOkay (read_as w Token0) last_token then read_as w Token0
        else reinterpret (ttype last_token) (read_as w Token0))" by (simp add: m(1))
    show "parse_token (meant w) \<lparr>TX = prev # tx, CA = ca\<rparr> =
      Parsed (Going, \<lparr>TX = prev # tx, CA = ca @ [plain_token (meant w)]\<rparr>)"
      using m by (simp add: parse_token_def parseToken.simps)
  qed (use m assms(4) in \<open>auto simp: in_expression_def in_auto_expr_def\<close>)
qed

lemma round_field:
  assumes "variable_name env mods x" "before_operand last_token" "tid prev \<in> member_ids" "SINGLE_ELEMENT \<notin> flags"
  shows "parse_from (Suc (Suc n)) env flags (prev # tx) ca (CHR '' '' # spell (Field x) @ CHR '' '' # r) mods last_token brackets =
    parse_from (Suc n) env flags (prev # tx) (ca @ [plain_token (meant (Field x))]) (CHR '' '' # r) mods (meant (Field x)) brackets"
proof (rule loop_round[where ?tok1.0 = "meant (Field x)"])
  show "known env mods (Field x)" using assms(1) by (simp add: known_def variable_name_def)
  show "meant (Field x) = taken (top_id \<lparr>TX = prev # tx, CA = ca\<rparr>) (Field x) Token0"
    using assms(3) by (simp add: top_id_def taken_def)
  show "isOkay (meant (Field x)) last_token" using operand_okay[OF assms(2), of "meant (Field x)"] by simp
  then show "meant (Field x) = (if isOkay (meant (Field x)) last_token then meant (Field x)
      else reinterpret (ttype last_token) (meant (Field x)))" by simp
  show "parse_token (meant (Field x)) \<lparr>TX = prev # tx, CA = ca\<rparr> =
    Parsed (Going, \<lparr>TX = prev # tx, CA = ca @ [plain_token (meant (Field x))]\<rparr>)"
    by (simp add: parse_token_def parseToken.simps)
qed (use assms(4) in \<open>auto simp: in_expression_def in_auto_expr_def\<close>)


lemma round_prefix:
  assumes "prefix_operator op" "before_prefix last_token" "waits p prev" "p \<le> 12" "SINGLE_ELEMENT \<notin> flags"
  shows "parse_from (Suc (Suc n)) env flags (prev # tx) ca (CHR '' '' # spell (Pre op) @ CHR '' '' # r) mods last_token brackets =
    parse_from (Suc n) env flags (meant (Pre op) # prev # tx) ca (CHR '' '' # r) mods (meant (Pre op)) brackets"
proof -
  let ?f = "operator_token (found_operator (fst op)) Token0"
  have f: "op_id op \<in> {TOK_UNPLUS, TOK_UNMINUS, TOK_LOG_NOT, TOK_BITWISE_NOT, TOK_UNPLUSPLUS, TOK_UNMINUSMINUS}"
    "op_prec op = 12" "op_type op = TYP_UNARY_OPERATOR" "recognize_unary t (fst op) = operator_token op t" for t
    using prefix_facts[OF assms(1), of t] by auto
  have found: "found_operator (fst op) = op \<or> op_id (found_operator (fst op)) \<in> {TOK_ADD, TOK_SUBTRACT} \<and>
       op_type (found_operator (fst op)) \<in> {TYP_OPERATOR, TYP_UNARY_PLACEHOLDER} \<and> fst (found_operator (fst op)) = fst op"
    using prefix_facts[OF assms(1)] by blast
  have lt: "ttype last_token \<noteq> TYP_OPERAND" using assms(2) by (auto simp: before_prefix_def)
  have okay: "isOkay (meant (Pre op)) last_token" using prefix_okay(1)[OF assms(2), of "meant (Pre op)"] f by auto
  show ?thesis
  proof (rule loop_round[where ?tok1.0 = ?f])
    show "known env mods (Pre op)" using assms(1) by (simp add: known_def)
    show "?f = taken (top_id \<lparr>TX = prev # tx, CA = ca\<rparr>) (Pre op) Token0" by (simp add: taken_def)
    show "meant (Pre op) = (if isOkay ?f last_token then ?f else reinterpret (ttype last_token) ?f)"
    proof (cases "found_operator (fst op) = op")
      case True
      then show ?thesis using okay by simp
    next
      case False
      then have "\<not> isOkay ?f last_token"
        using found prefix_okay(2)[OF assms(2), of ?f] placeholder_okay[of ?f last_token] by auto
      then show ?thesis using False found f lt by (auto simp: reinterpret_def)
    qed
    show "parse_token (meant (Pre op)) \<lparr>TX = prev # tx, CA = ca\<rparr> =
      Parsed (Going, \<lparr>TX = meant (Pre op) # prev # tx, CA = ca\<rparr>)"
      using push_operator[OF assms(3), of "meant (Pre op)"] f assms(4) by (simp add: parse_token_def)
    have ids: "op_id (found_operator (fst op)) \<in>
        {TOK_UNPLUS, TOK_UNMINUS, TOK_LOG_NOT, TOK_BITWISE_NOT, TOK_UNPLUSPLUS, TOK_UNMINUSMINUS, TOK_ADD, TOK_SUBTRACT}"
      using f(1) found by auto
    show "in_expression brackets (tid (read_as (Pre op) Token0))" "in_expression brackets (tid ?f)"
      "brackets = (if tid ?f = TOK_LBRACKET then brackets + 1 else if tid ?f = TOK_RBRACKET then brackets - 1 else brackets)"
      using ids by (elim insertE emptyE; simp add: in_expression_def)+
    show "in_expression brackets (tid (meant (Pre op)))" "in_auto_expr (meant (Pre op))"
      "ttype (meant (Pre op)) \<notin> {TYP_FUNC, TYP_USERFUNC}"
      "tid (meant (Pre op)) = TOK_MEMBER \<Longrightarrow> no_call env mods (CHR '' '' # r)"
      using f(1,3) by (elim insertE emptyE; simp add: in_expression_def in_auto_expr_def)+
  qed (fact okay assms(5))+
qed

lemma round_increment:
  assumes "step_operator op" "ttype last_token = TYP_OPERAND" "tid last_token \<notin> post_ids"
    and "operators ps" "list_all (\<lambda>q. 12 \<le> precedence q) ps" "waits p prev" "p \<le> 12" "SINGLE_ELEMENT \<notin> flags"
  shows "parse_from (Suc (Suc n)) env flags (ps @ prev # tx) ca (CHR '' '' # spell (Post op) @ CHR '' '' # r) mods last_token brackets =
    parse_from (Suc n) env flags (meant (Post op) # prev # tx) (ca @ map plain_token ps) (CHR '' '' # r) mods (meant (Post op)) brackets"
proof -
  let ?f = "operator_token (found_operator (fst op)) Token0"
  have f: "op_id op \<in> {TOK_UNPLUSPLUS, TOK_UNMINUSMINUS}" "op_prec op = 12" "op_type op = TYP_UNARY_OPERATOR"
    "op_id (found_operator (fst op)) \<in> {TOK_ADD, TOK_SUBTRACT}"
    "op_type (found_operator (fst op)) = TYP_UNARY_PLACEHOLDER" "fst (found_operator (fst op)) = fst op"
    "recognize_unary t (fst op) = operator_token op t" for t
    using step_facts[OF assms(1), of t] by auto
  have m: "tid (meant (Post op)) \<in> post_ids" "ttype (meant (Post op)) = TYP_UNARY_OPERATOR" "precedence (meant (Post op)) = 12"
    using f by auto
  have okay: "isOkay (meant (Post op)) last_token" using post_okay[OF assms(2,3) m(2,1)] .
  show ?thesis
  proof (rule loop_round[where ?tok1.0 = ?f])
    show "known env mods (Post op)" using assms(1) by (simp add: known_def)
    show "?f = taken (top_id \<lparr>TX = ps @ prev # tx, CA = ca\<rparr>) (Post op) Token0" by (simp add: taken_def)
    have "\<not> isOkay ?f last_token" using f placeholder_okay[of ?f last_token] by auto
    then show "meant (Post op) = (if isOkay ?f last_token then ?f else reinterpret (ttype last_token) ?f)"
      using f assms(2) by (auto simp: reinterpret_def Let_def)
    have "parseToken (meant (Post op)) (ps @ prev # tx) ca = parseToken (meant (Post op)) (prev # tx) (ca @ map plain_token ps)"
      using pop_to_operator[OF assms(4), of "meant (Post op)"] assms(5) m by (simp del: meant.simps)
    then show "parse_token (meant (Post op)) \<lparr>TX = ps @ prev # tx, CA = ca\<rparr> =
      Parsed (Going, \<lparr>TX = meant (Post op) # prev # tx, CA = ca @ map plain_token ps\<rparr>)"
      using push_operator[OF assms(6), of "meant (Post op)"] m assms(7) by (simp add: parse_token_def del: meant.simps)
    show "in_expression brackets (tid (meant (Post op)))" "ttype (meant (Post op)) \<notin> {TYP_FUNC, TYP_USERFUNC}"
      "in_auto_expr (meant (Post op))" "tid (meant (Post op)) = TOK_MEMBER \<Longrightarrow> no_call env mods (CHR '' '' # r)"
      using m by (auto simp: in_expression_def in_auto_expr_def simp del: meant.simps)
    show "in_expression brackets (tid (read_as (Post op) Token0))" "in_expression brackets (tid ?f)"
      "brackets = (if tid ?f = TOK_LBRACKET then brackets + 1 else if tid ?f = TOK_RBRACKET then brackets - 1 else brackets)"
      using f(4) by (elim insertE emptyE; simp add: in_expression_def)+
  qed (fact okay assms(8))+
qed

lemma round_infix:
  assumes "op \<in> set binary_operators" "op_type op = TYP_OPERATOR" "after_operand last_token"
    and "operators ps" "list_all (\<lambda>q. op_prec op \<le> precedence q) ps" "waits (op_prec op) prev"
    and "op_id op = TOK_MEMBER \<Longrightarrow> no_call env mods (CHR '' '' # r)" "SINGLE_ELEMENT \<notin> flags"
  shows "parse_from (Suc (Suc n)) env flags (ps @ prev # tx) ca (CHR '' '' # spell (Op op) @ CHR '' '' # r) mods last_token brackets =
    parse_from (Suc n) env flags (meant (Op op) # prev # tx) (ca @ map plain_token ps) (CHR '' '' # r) mods (meant (Op op)) brackets"
proof -
  have f: "in_expression brackets (op_id op)" "op_id op \<noteq> TOK_LBRACKET" "op_id op \<noteq> TOK_RBRACKET"
    "op_id op \<notin> post_ids" "fst op \<noteq> []"
    using infix_facts[OF assms(1,2), of brackets] by auto
  have okay: "isOkay (meant (Op op)) last_token"
    using operator_okay[OF assms(3), of "meant (Op op)"] f assms(2) by (auto simp: in_expression_def)
  show ?thesis
  proof (rule loop_round[where ?tok1.0 = "meant (Op op)"])
    show "known env mods (Op op)" using assms(1) f(5) by (simp add: known_def)
    show "meant (Op op) = taken (top_id \<lparr>TX = ps @ prev # tx, CA = ca\<rparr>) (Op op) Token0" by (simp add: taken_def)
    show "meant (Op op) = (if isOkay (meant (Op op)) last_token then meant (Op op)
        else reinterpret (ttype last_token) (meant (Op op)))" using okay by simp
    have "parseToken (meant (Op op)) (ps @ prev # tx) ca = parseToken (meant (Op op)) (prev # tx) (ca @ map plain_token ps)"
      using pop_to_operator[OF assms(4), of "meant (Op op)"] assms(2,5) by simp
    then show "parse_token (meant (Op op)) \<lparr>TX = ps @ prev # tx, CA = ca\<rparr> =
      Parsed (Going, \<lparr>TX = meant (Op op) # prev # tx, CA = ca @ map plain_token ps\<rparr>)"
      using push_operator[OF assms(6), of "meant (Op op)"] assms(2) by (simp add: parse_token_def)
  qed (use f assms(2,7,8) okay in \<open>auto simp: in_auto_expr_def\<close>)
qed

lemma round_lparen:
  assumes "before_operand last_token" "SINGLE_ELEMENT \<notin> flags"
  shows "parse_from (Suc (Suc n)) env flags (prev # tx) ca (CHR '' '' # spell (Op lparen) @ CHR '' '' # r) mods last_token brackets =
    parse_from (Suc n) env flags (meant (Op lparen) # prev # tx) ca (CHR '' '' # r) mods (meant (Op lparen)) brackets"
proof (rule loop_round[where ?tok1.0 = "meant (Op lparen)"])
  show okay: "isOkay (meant (Op lparen)) last_token"
    using operand_okay[OF assms(1), of "meant (Op lparen)"] by (simp add: op_type_def op_id_def)
  then show "meant (Op lparen) = (if isOkay (meant (Op lparen)) last_token then meant (Op lparen)
      else reinterpret (ttype last_token) (meant (Op lparen)))" by simp
  show "parse_token (meant (Op lparen)) \<lparr>TX = prev # tx, CA = ca\<rparr> =
    Parsed (Going, \<lparr>TX = meant (Op lparen) # prev # tx, CA = ca\<rparr>)"
    by (simp add: parse_token_def parseToken.simps Let_def op_type_def)
qed (use assms in \<open>simp_all add: known_def binary_operators_def taken_def in_expression_def in_auto_expr_def op_id_def op_type_def\<close>)

lemma round_rparen:
  assumes "after_operand last_token" "operators ps" "SINGLE_ELEMENT \<notin> flags"
  shows "parse_from (Suc (Suc n)) env flags (ps @ meant (Op lparen) # tx) ca (CHR '' '' # spell (Op rparen) @ CHR '' '' # r) mods last_token brackets =
    parse_from (Suc n) env flags tx (ca @ map plain_token ps) (CHR '' '' # r) mods (meant (Op rparen)) brackets"
proof (rule loop_round[where ?tok1.0 = "meant (Op rparen)"])
  show okay: "isOkay (meant (Op rparen)) last_token"
    using operator_okay[OF assms(1), of "meant (Op rparen)"] by (simp add: op_type_def op_id_def)
  then show "meant (Op rparen) = (if isOkay (meant (Op rparen)) last_token then meant (Op rparen)
      else reinterpret (ttype last_token) (meant (Op rparen)))" by simp
  have "parseToken (meant (Op rparen)) (ps @ meant (Op lparen) # tx) ca =
      parseToken (meant (Op rparen)) (meant (Op lparen) # tx) (ca @ map plain_token ps)"
    by (rule pop_to_closing[OF assms(2)]) (simp add: op_type_def)
  then show "parse_token (meant (Op rparen)) \<lparr>TX = ps @ meant (Op lparen) # tx, CA = ca\<rparr> =
    Parsed (Going, \<lparr>TX = tx, CA = ca @ map plain_token ps\<rparr>)"
    by (simp add: parse_token_def parseToken.simps Let_def op_type_def)
qed (use assms in \<open>simp_all add: known_def binary_operators_def taken_def in_expression_def in_auto_expr_def op_id_def op_type_def\<close>)


text \<open>The bracket on the stack counts the indices that have begun.\<close>

definition open_bracket :: "nat \<Rightarrow> Token" where
  "open_bracket k = (meant (Op lbracket))\<lparr>tlval := of_nat k\<rparr>"

lemma open_bracket_fields [simp]:
  "ttype (open_bracket k) = TYP_LEFTBRACKET" "tlval (open_bracket k) = of_nat k" "tid (open_bracket k) = TOK_LBRACKET"
  by (simp_all add: open_bracket_def op_type_def op_id_def)

lemma round_lbracket:
  assumes "after_operand last_token" "ttype last_token \<noteq> TYP_RIGHTPAREN"
    and "operators ps" "list_all (\<lambda>q. PREC_PAREN \<le> precedence q) ps" "waits p prev" "SINGLE_ELEMENT \<notin> flags"
  shows "parse_from (Suc (Suc n)) env flags (ps @ prev # tx) ca (CHR '' '' # spell (Op lbracket) @ CHR '' '' # r) mods last_token brackets =
    parse_from (Suc n) env flags (open_bracket 1 # prev # tx) (ca @ map plain_token ps) (CHR '' '' # r) mods (meant (Op lbracket)) (brackets + 1)"
proof (rule loop_round[where ?tok1.0 = "meant (Op lbracket)"])
  show okay: "isOkay (meant (Op lbracket)) last_token"
    using bracket_okay[OF assms(1,2), of "meant (Op lbracket)"] by (simp add: op_type_def op_id_def)
  then show "meant (Op lbracket) = (if isOkay (meant (Op lbracket)) last_token then meant (Op lbracket)
      else reinterpret (ttype last_token) (meant (Op lbracket)))" by simp
  have "parseToken (meant (Op lbracket)) (ps @ prev # tx) ca =
      parseToken (meant (Op lbracket)) (prev # tx) (ca @ map plain_token ps)"
    by (rule pop_to_operator[OF assms(3)]) (use assms(4) in \<open>simp_all add: op_type_def op_prec_def\<close>)
  then show "parse_token (meant (Op lbracket)) \<lparr>TX = ps @ prev # tx, CA = ca\<rparr> =
    Parsed (Going, \<lparr>TX = open_bracket 1 # prev # tx, CA = ca @ map plain_token ps\<rparr>)"
    using push_operator[OF assms(5), of "meant (Op lbracket)"]
    by (simp add: parse_token_def op_type_def op_prec_def open_bracket_def)
qed (use assms in \<open>simp_all add: known_def binary_operators_def taken_def in_expression_def in_auto_expr_def op_id_def op_type_def\<close>)

lemma round_comma:
  assumes "after_operand last_token" "operators ps" "brackets \<noteq> 0" "SINGLE_ELEMENT \<notin> flags"
  shows "parse_from (Suc (Suc n)) env flags (ps @ open_bracket k # tx) ca (CHR '' '' # spell (Op comma) @ CHR '' '' # r) mods last_token brackets =
    parse_from (Suc n) env flags (open_bracket (Suc k) # tx) (ca @ map plain_token ps) (CHR '' '' # r) mods (meant (Op comma)) brackets"
proof (rule loop_round[where ?tok1.0 = "meant (Op comma)"])
  show okay: "isOkay (meant (Op comma)) last_token"
    using operator_okay[OF assms(1), of "meant (Op comma)"] by (simp add: op_type_def op_id_def)
  then show "meant (Op comma) = (if isOkay (meant (Op comma)) last_token then meant (Op comma)
      else reinterpret (ttype last_token) (meant (Op comma)))" by simp
  have "parseToken (meant (Op comma)) (ps @ open_bracket k # tx) ca =
      parseToken (meant (Op comma)) (open_bracket k # tx) (ca @ map plain_token ps)"
    by (rule pop_to_closing[OF assms(2)]) (simp add: op_type_def)
  moreover have "(open_bracket k)\<lparr>tlval := tlval (open_bracket k) + 1\<rparr> = open_bracket (Suc k)"
    by (simp add: open_bracket_def add.commute)
  ultimately show "parse_token (meant (Op comma)) \<lparr>TX = ps @ open_bracket k # tx, CA = ca\<rparr> =
    Parsed (Going, \<lparr>TX = open_bracket (Suc k) # tx, CA = ca @ map plain_token ps\<rparr>)"
    by (simp add: parse_token_def parseToken.simps Let_def op_type_def)
qed (use assms in \<open>simp_all add: known_def binary_operators_def taken_def in_expression_def in_auto_expr_def op_id_def op_type_def\<close>)

lemma round_rbracket:
  assumes "after_operand last_token" "operators ps" "SINGLE_ELEMENT \<notin> flags"
  shows "parse_from (Suc (Suc n)) env flags (ps @ open_bracket k # tx) ca (CHR '' '' # spell (Op rbracket) @ CHR '' '' # r) mods last_token brackets =
    parse_from (Suc n) env flags tx (ca @ map plain_token ps @ [subscript_token k]) (CHR '' '' # r) mods (meant (Op rbracket)) (brackets - 1)"
proof (rule loop_round[where ?tok1.0 = "meant (Op rbracket)"])
  show okay: "isOkay (meant (Op rbracket)) last_token"
    using operator_okay[OF assms(1), of "meant (Op rbracket)"] by (simp add: op_type_def op_id_def)
  then show "meant (Op rbracket) = (if isOkay (meant (Op rbracket)) last_token then meant (Op rbracket)
      else reinterpret (ttype last_token) (meant (Op rbracket)))" by simp
  have "parseToken (meant (Op rbracket)) (ps @ open_bracket k # tx) ca =
      parseToken (meant (Op rbracket)) (open_bracket k # tx) (ca @ map plain_token ps)"
    by (rule pop_to_closing[OF assms(2)]) (simp add: op_type_def)
  then show "parse_token (meant (Op rbracket)) \<lparr>TX = ps @ open_bracket k # tx, CA = ca\<rparr> =
    Parsed (Going, \<lparr>TX = tx, CA = ca @ map plain_token ps @ [subscript_token k]\<rparr>)"
    by (simp add: parse_token_def parseToken.simps Let_def op_type_def subscript_token_def)
qed (use assms in \<open>simp_all add: known_def binary_operators_def taken_def in_expression_def in_auto_expr_def op_id_def op_type_def\<close>)

section \<open>Whole expressions\<close>

text \<open>The operators that still wait when the last token of an expression has been read, and what is out.\<close>

fun pending :: "source \<Rightarrow> Token list" where
  "pending (Const w) = []"
| "pending (Prefix op e) = pending e @ [meant (Pre op)]"
| "pending (Increment op e) = [meant (Post op)]"
| "pending (Binary a op b) = pending b @ [meant (Op op)]"
| "pending (Paren e) = []"
| "pending (Subscript e es) = []"
| "pending (Member e op x) = [meant (Op op)]"

fun out_of :: "source \<Rightarrow> token list" where
  "out_of (Const w) = [plain_token (meant w)]"
| "out_of (Prefix op e) = out_of e"
| "out_of (Increment op e) = postfix (tree e)"
| "out_of (Binary a op b) = postfix (tree a) @ out_of b"
| "out_of (Paren e) = postfix (tree e)"
| "out_of (Subscript e es) = postfix (tree (Subscript e es))"
| "out_of (Member e op x) = postfix (tree e) @ [plain_token (meant (Field x))]"

lemma out_and_pending: "out_of e @ map plain_token (pending e) = postfix (tree e)"
proof (induction e)
  case (Prefix op e)
  then show ?case by (simp flip: append_assoc)
qed simp_all

lemma operators_simps [simp]: "operators []" "operators (p # ps) \<longleftrightarrow>
    (ttype p = TYP_UNARY_OPERATOR \<or> ttype p = TYP_OPERATOR) \<and> operators ps"
  "operators (ps @ qs) \<longleftrightarrow> operators ps \<and> operators qs"
  by (auto simp: operators_def)

lemma member_facts: "member_operator op \<Longrightarrow> op_type op = TYP_OPERATOR"
  by (simp add: member_operator_def binary_operators_def)
    (elim conjE disjE; simp add: op_id_def op_type_def member_ids_def)

lemma pending_operators:
  "well_formed env mods e \<Longrightarrow> operators (pending e) \<and> list_all (\<lambda>q. level e \<le> precedence q) (pending e)"
proof (induction e)
  case (Prefix op e)
  then show ?case using prefix_facts[of op] by (auto simp: list_all_iff)
next
  case (Increment op e)
  then show ?case using step_facts[of op] by (auto simp: list_all_iff)
next
  case (Binary a op b)
  then show ?case by (auto simp: list_all_iff infix_operator_def)
next
  case (Member e op x)
  then show ?case using member_facts[of op] by auto
qed simp_all


lemma text_of_simps [simp]: "text_of [] = []" "text_of (w # ws) = CHR '' '' # spell w @ text_of ws"
  "text_of (ws @ vs) = text_of ws @ text_of vs"
  by (simp_all add: text_of_def)

lemma text_starts: "\<exists>r'. text_of ws @ CHR '' '' # r = CHR '' '' # r'"
  by (cases ws) simp_all

lemma final_after: "well_formed env mods e \<Longrightarrow> after_operand (meant (final e))"
proof (induction e)
  case (Const w)
  then show ?case by (cases w) (simp_all add: after_operand_def)
next
  case (Increment op e)
  then show ?case using step_facts[of op] by (auto simp: after_operand_def)
qed (simp_all add: after_operand_def op_type_def op_id_def)

lemma final_operand:
  "is_operand w \<Longrightarrow> ttype (meant w) = TYP_OPERAND \<and> tid (meant w) \<notin> post_ids"
  by (cases w) (simp_all add: is_operand_def)

lemma final_not_paren:
  "well_formed env mods e \<Longrightarrow> final e \<noteq> Op rparen \<Longrightarrow> ttype (meant (final e)) \<noteq> TYP_RIGHTPAREN"
proof (induction e)
  case (Const w)
  then show ?case by (cases w) simp_all
next
  case (Increment op e)
  then show ?case using step_facts[of op] by simp
qed (simp_all add: op_type_def)

lemma tight_no_prefix: "well_formed env mods e \<Longrightarrow> 12 < level e \<Longrightarrow> \<not> is_prefix (first e)"
proof (induction e)
  case (Const w)
  then show ?case by (cases w) (simp_all add: is_prefix_def)
next
  case (Binary a op b)
  then show ?case using infix_facts[of op] by (auto simp: infix_operator_def)
qed (auto simp: is_prefix_def)

definition no_paren :: "compile_env \<Rightarrow> modules \<Rightarrow> string \<Rightarrow> bool" where
  "no_paren env mods s \<longleftrightarrow>
     (case getToken env None Token0 (s, mods) of
        Parsed (res, t, pos) \<Rightarrow> snd pos = mods \<and> tid t \<noteq> TOK_LPAREN
      | Failed e \<Rightarrow> True
      | _ \<Rightarrow> False)"

lemma no_paren_word:
  "known env mods w \<Longrightarrow> tid (read_as w Token0) \<noteq> TOK_LPAREN \<Longrightarrow> no_paren env mods (CHR '' '' # spell w @ CHR '' '' # r)"
  by (simp add: no_paren_def getToken_word)

lemma member_no_call:
  assumes "variable_name env mods x" "no_paren env mods (CHR '' '' # r)"
  shows "no_call env mods (CHR '' '' # x @ CHR '' '' # r)"
proof -
  have "known env mods (Field x)" using assms(1) by (simp add: known_def variable_name_def)
  then have "getToken env None Token0 (CHR '' '' # x @ CHR '' '' # r, mods) =
      Parsed (0, read_as (Field x) Token0, CHR '' '' # r, mods)"
    using getToken_word[of env mods "Field x" None Token0 r] by simp
  then show ?thesis using assms(2)
    by (auto simp: no_call_def callingMethod_def no_paren_def split: parsed.splits)
qed

definition parses :: "compile_env \<Rightarrow> modules \<Rightarrow> expr_flag set \<Rightarrow> source \<Rightarrow> bool" where
  "parses env mods flags e \<longleftrightarrow>
     (\<forall>n tx ca prev r last_token brackets.
        before_operand last_token \<longrightarrow> (is_prefix (first e) \<longrightarrow> before_prefix last_token) \<longrightarrow> waits (level e) prev \<longrightarrow>
        0 \<le> brackets \<longrightarrow> no_paren env mods (CHR '' '' # r) \<longrightarrow>
        parse_from (length (words e) + Suc n) env flags (prev # tx) ca (text_of (words e) @ CHR '' '' # r) mods last_token brackets =
        parse_from (Suc n) env flags (pending e @ prev # tx) (ca @ out_of e) (CHR '' '' # r) mods (meant (final e)) brackets)"

lemma parsesD:
  "parses env mods flags e \<Longrightarrow> before_operand last_token \<Longrightarrow> (is_prefix (first e) \<Longrightarrow> before_prefix last_token) \<Longrightarrow>
     waits (level e) prev \<Longrightarrow> 0 \<le> brackets \<Longrightarrow> no_paren env mods (CHR '' '' # r) \<Longrightarrow>
     parse_from (length (words e) + Suc n) env flags (prev # tx) ca (text_of (words e) @ CHR '' '' # r) mods last_token brackets =
     parse_from (Suc n) env flags (pending e @ prev # tx) (ca @ out_of e) (CHR '' '' # r) mods (meant (final e)) brackets"
  by (auto simp: parses_def)

lemma waits_tight: "waits p prev \<Longrightarrow> PREC_PAREN \<le> q \<Longrightarrow> waits q prev"
  by (auto simp: waits_def)

lemma waits_open: "ttype prev \<in> {TYP_TERMINATOR, TYP_LEFTPAREN, TYP_LEFTBRACKET} \<Longrightarrow> tid prev \<notin> member_ids \<Longrightarrow> waits p prev"
  by (simp add: waits_def)

lemma parses_prefix:
  assumes "well_formed env mods (Prefix op e)" "parses env mods flags e" "SINGLE_ELEMENT \<notin> flags"
  shows "parses env mods flags (Prefix op e)"
  unfolding parses_def
proof (intro allI impI, goal_cases)
  case (1 n tx ca prev r last_token brackets)
  have f: "op_id op \<notin> post_ids" "op_id op \<notin> member_ids" "op_prec op = 12" "op_type op = TYP_UNARY_OPERATOR"
    using assms(1) prefix_facts[of op] by (auto simp: member_ids_def)
  obtain r' where r': "text_of (words e) @ CHR '' '' # r = CHR '' '' # r'" using text_starts by blast
  have "parse_from (Suc (Suc (length (words e) + n))) env flags (prev # tx) ca
      (CHR '' '' # spell (Pre op) @ CHR '' '' # r') mods last_token brackets =
    parse_from (length (words e) + Suc n) env flags (meant (Pre op) # prev # tx) ca (CHR '' '' # r') mods (meant (Pre op)) brackets"
    using round_prefix[of op last_token 12 prev flags] 1 assms by (simp add: is_prefix_def)
  moreover have "parse_from (length (words e) + Suc n) env flags (meant (Pre op) # prev # tx) ca (text_of (words e) @ CHR '' '' # r) mods
      (meant (Pre op)) brackets =
    parse_from (Suc n) env flags (pending e @ meant (Pre op) # prev # tx) (ca @ out_of e) (CHR '' '' # r) mods (meant (final e)) brackets"
    using parsesD[OF assms(2), of "meant (Pre op)" "meant (Pre op)"] 1 f assms(1) tight_no_prefix[of env mods e]
    by (simp add: before_operand_def waits_def)
  ultimately show ?case by (simp add: r' del: meant.simps)
qed

lemma parses_increment:
  assumes "well_formed env mods (Increment op e)" "parses env mods flags e" "SINGLE_ELEMENT \<notin> flags"
  shows "parses env mods flags (Increment op e)"
  unfolding parses_def
proof (intro allI impI, goal_cases)
  case (1 n tx ca prev r last_token brackets)
  have next_word: "no_paren env mods (CHR '' '' # spell (Post op) @ CHR '' '' # r)"
    using assms(1) step_facts[of op] by (intro no_paren_word) (auto simp: known_def)
  have "parse_from (length (words e) + Suc (Suc n)) env flags (prev # tx) ca
      (text_of (words e) @ CHR '' '' # spell (Post op) @ CHR '' '' # r) mods last_token brackets =
    parse_from (Suc (Suc n)) env flags (pending e @ prev # tx) (ca @ out_of e) (CHR '' '' # spell (Post op) @ CHR '' '' # r) mods (meant (final e)) brackets"
    using parsesD[OF assms(2) _ _ _ _ next_word, where n = "Suc n"] 1 assms(1) waits_mono[of 12 prev "level e"] by simp
  moreover have "parse_from (Suc (Suc n)) env flags (pending e @ prev # tx) (ca @ out_of e) (CHR '' '' # spell (Post op) @ CHR '' '' # r) mods (meant (final e)) brackets =
    parse_from (Suc n) env flags (meant (Post op) # prev # tx) ((ca @ out_of e) @ map plain_token (pending e)) (CHR '' '' # r) mods (meant (Post op)) brackets"
  proof (rule round_increment[where p = 12])
    have "list_all (\<lambda>q. level e \<le> precedence q) (pending e)" "PREC_UNARY_OPS \<le> level e"
      using pending_operators[of env mods e] assms(1) by auto
    then show "list_all (\<lambda>q. 12 \<le> precedence q) (pending e)" by (auto simp: list_all_iff)
  qed (use 1 assms final_operand pending_operators[of env mods e] in auto)
  ultimately show ?case using out_and_pending[of e] by (simp del: meant.simps)
qed


lemma parses_binary:
  assumes "well_formed env mods (Binary a op b)" "parses env mods flags a" "parses env mods flags b"
    and "SINGLE_ELEMENT \<notin> flags"
  shows "parses env mods flags (Binary a op b)"
  unfolding parses_def
proof (intro allI impI, goal_cases)
  case (1 n tx ca prev r last_token brackets)
  have op: "op \<in> set binary_operators" "op_type op = TYP_OPERATOR" "op_id op \<notin> member_ids" "fst op \<noteq> []"
    "op_id op \<notin> post_ids" "op_prec op < 12"
    using assms(1) infix_facts[of op] by (auto simp: infix_operator_def)
  have next_word: "no_paren env mods (CHR '' '' # spell (Op op) @ CHR '' '' # s)" for s
    using op by (intro no_paren_word) (auto simp: known_def op_id_def op_type_def binary_operators_def)
  obtain r' where r': "text_of (words b) @ CHR '' '' # r = CHR '' '' # r'" using text_starts by blast
  have "parse_from (length (words a) + Suc (length (words b) + Suc n)) env flags (prev # tx) ca
      (text_of (words a) @ CHR '' '' # spell (Op op) @ CHR '' '' # r') mods last_token brackets =
    parse_from (Suc (length (words b) + Suc n)) env flags (pending a @ prev # tx) (ca @ out_of a)
      (CHR '' '' # spell (Op op) @ CHR '' '' # r') mods (meant (final a)) brackets"
    by (rule parsesD[OF assms(2)]) (use 1 assms(1) waits_mono[of "op_prec op" prev "level a"] next_word in auto)
  moreover have "parse_from (Suc (Suc (length (words b) + n))) env flags (pending a @ prev # tx) (ca @ out_of a)
      (CHR '' '' # spell (Op op) @ CHR '' '' # r') mods (meant (final a)) brackets =
    parse_from (Suc (length (words b) + n)) env flags (meant (Op op) # prev # tx) ((ca @ out_of a) @ map plain_token (pending a))
      (CHR '' '' # r') mods (meant (Op op)) brackets"
    by (rule round_infix)
      (use 1 assms op pending_operators[of env mods a] final_after[of env mods a] in \<open>auto simp: list_all_iff member_ids_def\<close>)
  moreover have "parse_from (length (words b) + Suc n) env flags (meant (Op op) # prev # tx) (ca @ postfix (tree a))
      (text_of (words b) @ CHR '' '' # r) mods (meant (Op op)) brackets =
    parse_from (Suc n) env flags (pending b @ meant (Op op) # prev # tx) ((ca @ postfix (tree a)) @ out_of b)
      (CHR '' '' # r) mods (meant (final b)) brackets"
    by (rule parsesD[OF assms(3)])
      (use 1 assms(1) op in \<open>auto simp: before_operand_def before_prefix_def waits_def\<close>)
  ultimately show ?case using out_and_pending[of a] by (simp add: r' add.assoc del: meant.simps)
qed

lemma parses_member:
  assumes "well_formed env mods (Member e op x)" "parses env mods flags e" "SINGLE_ELEMENT \<notin> flags"
  shows "parses env mods flags (Member e op x)"
  unfolding parses_def
proof (intro allI impI, goal_cases)
  case (1 n tx ca prev r last_token brackets)
  have op: "op \<in> set binary_operators" "op_type op = TYP_OPERATOR" "op_id op \<in> member_ids" "fst op \<noteq> []"
    "op_id op \<notin> post_ids" "variable_name env mods x" "op_prec op \<le> level e"
    using assms(1) infix_facts[of op] member_facts[of op] by (auto simp: member_operator_def)
  have next_word: "no_paren env mods (CHR '' '' # spell (Op op) @ CHR '' '' # s)" for s
    using op by (intro no_paren_word) (auto simp: known_def member_ids_def)
  have "parse_from (length (words e) + Suc (Suc (Suc n))) env flags (prev # tx) ca
      (text_of (words e) @ CHR '' '' # spell (Op op) @ CHR '' '' # x @ CHR '' '' # r) mods last_token brackets =
    parse_from (Suc (Suc (Suc n))) env flags (pending e @ prev # tx) (ca @ out_of e)
      (CHR '' '' # spell (Op op) @ CHR '' '' # x @ CHR '' '' # r) mods (meant (final e)) brackets"
    by (rule parsesD[OF assms(2)]) (use 1 op waits_mono[of "op_prec op" prev "level e"] next_word in auto)
  moreover have "parse_from (Suc (Suc (Suc n))) env flags (pending e @ prev # tx) (ca @ out_of e)
      (CHR '' '' # spell (Op op) @ CHR '' '' # x @ CHR '' '' # r) mods (meant (final e)) brackets =
    parse_from (Suc (Suc n)) env flags (meant (Op op) # prev # tx) ((ca @ out_of e) @ map plain_token (pending e))
      (CHR '' '' # x @ CHR '' '' # r) mods (meant (Op op)) brackets"
    by (rule round_infix)
      (use 1 assms op pending_operators[of env mods e] final_after[of env mods e] member_no_call[of env mods x r]
        in \<open>auto simp: list_all_iff\<close>)
  moreover have "parse_from (Suc (Suc n)) env flags (meant (Op op) # prev # tx) (ca @ postfix (tree e))
      (CHR '' '' # spell (Field x) @ CHR '' '' # r) mods (meant (Op op)) brackets =
    parse_from (Suc n) env flags (meant (Op op) # prev # tx) ((ca @ postfix (tree e)) @ [plain_token (meant (Field x))])
      (CHR '' '' # r) mods (meant (Field x)) brackets"
    by (rule round_field) (use op assms(3) in \<open>auto simp: before_operand_def\<close>)
  ultimately show ?case using out_and_pending[of e] by (simp del: meant.simps)
qed

lemma parses_paren:
  assumes "well_formed env mods (Paren e)" "parses env mods flags e" "SINGLE_ELEMENT \<notin> flags"
  shows "parses env mods flags (Paren e)"
  unfolding parses_def
proof (intro allI impI, goal_cases)
  case (1 n tx ca prev r last_token brackets)
  have next_word: "no_paren env mods (CHR '' '' # spell (Op rparen) @ CHR '' '' # r)"
    by (intro no_paren_word) (simp_all add: known_def binary_operators_def op_id_def)
  obtain r' where r': "text_of (words e) @ CHR '' '' # spell (Op rparen) @ CHR '' '' # r = CHR '' '' # r'"
    using text_starts by blast
  have "parse_from (Suc (Suc (length (words e) + Suc n))) env flags (prev # tx) ca
      (CHR '' '' # spell (Op lparen) @ CHR '' '' # r') mods last_token brackets =
    parse_from (Suc (length (words e) + Suc n)) env flags (meant (Op lparen) # prev # tx) ca (CHR '' '' # r') mods (meant (Op lparen)) brackets"
    by (rule round_lparen[OF 1(1) assms(3)])
  moreover have "parse_from (length (words e) + Suc (Suc n)) env flags (meant (Op lparen) # prev # tx) ca
      (text_of (words e) @ CHR '' '' # spell (Op rparen) @ CHR '' '' # r) mods (meant (Op lparen)) brackets =
    parse_from (Suc (Suc n)) env flags (pending e @ meant (Op lparen) # prev # tx) (ca @ out_of e)
      (CHR '' '' # spell (Op rparen) @ CHR '' '' # r) mods (meant (final e)) brackets"
    by (rule parsesD[OF assms(2) _ _ _ _ next_word])
      (use 1 in \<open>simp_all add: before_operand_def before_prefix_def waits_def op_type_def op_id_def member_ids_def\<close>)
  moreover have "parse_from (Suc (Suc n)) env flags (pending e @ meant (Op lparen) # prev # tx) (ca @ out_of e)
      (CHR '' '' # spell (Op rparen) @ CHR '' '' # r) mods (meant (final e)) brackets =
    parse_from (Suc n) env flags (prev # tx) ((ca @ out_of e) @ map plain_token (pending e)) (CHR '' '' # r) mods (meant (Op rparen)) brackets"
    by (rule round_rparen)
      (use assms pending_operators[of env mods e] final_after[of env mods e] in auto)
  ultimately show ?case using r' out_and_pending[of e] by (simp del: meant.simps)
qed


fun indices_out :: "source list \<Rightarrow> token list" where
  "indices_out [] = []"
| "indices_out [e] = out_of e"
| "indices_out (e # es) = postfix (tree e) @ indices_out es"

lemma indices_postfix:
  "es \<noteq> [] \<Longrightarrow> indices_out es @ map plain_token (pending (last es)) = concat (map (\<lambda>e. postfix (tree e)) es)"
  by (induction es rule: indices_out.induct) (simp_all add: out_and_pending)

lemma parse_indices:
  assumes "es \<noteq> []" "list_all (\<lambda>e. well_formed env mods e \<and> \<not> is_prefix (first e) \<and> parses env mods flags e) es"
    and "before_operand last_token" "0 < brackets" "no_paren env mods (CHR '' '' # r)" "SINGLE_ELEMENT \<notin> flags"
  shows "parse_from (length (separated (map words es)) + Suc n) env flags (open_bracket (Suc k) # tx) ca
      (text_of (separated (map words es)) @ CHR '' '' # r) mods last_token brackets =
    parse_from (Suc n) env flags (pending (last es) @ open_bracket (k + length es) # tx) (ca @ indices_out es)
      (CHR '' '' # r) mods (meant (final (last es))) brackets"
  using assms(1-4)
proof (induction es arbitrary: k ca last_token rule: indices_out.induct)
  case (2 e)
  then show ?case using parsesD[of env mods flags e last_token "open_bracket (Suc k)" brackets r n tx ca] assms(5)
    by (simp add: waits_open member_ids_def)
next
  case (3 e e' es)
  let ?rest = "separated (map words (e' # es))"
  have next_word: "no_paren env mods (CHR '' '' # spell (Op comma) @ CHR '' '' # s)" for s
    by (intro no_paren_word) (simp_all add: known_def binary_operators_def op_id_def)
  obtain r' where r': "text_of ?rest @ CHR '' '' # r = CHR '' '' # r'" using text_starts by blast
  have "parse_from (length (words e) + Suc (length ?rest + Suc n)) env flags (open_bracket (Suc k) # tx) ca
      (text_of (words e) @ CHR '' '' # spell (Op comma) @ CHR '' '' # r') mods last_token brackets =
    parse_from (Suc (length ?rest + Suc n)) env flags (pending e @ open_bracket (Suc k) # tx) (ca @ out_of e)
      (CHR '' '' # spell (Op comma) @ CHR '' '' # r') mods (meant (final e)) brackets"
    by (rule parsesD) (use "3.prems" next_word in \<open>simp_all add: waits_open member_ids_def\<close>)
  moreover have "parse_from (Suc (Suc (length ?rest + n))) env flags (pending e @ open_bracket (Suc k) # tx) (ca @ out_of e)
      (CHR '' '' # spell (Op comma) @ CHR '' '' # r') mods (meant (final e)) brackets =
    parse_from (Suc (length ?rest + n)) env flags (open_bracket (Suc (Suc k)) # tx) ((ca @ out_of e) @ map plain_token (pending e))
      (CHR '' '' # r') mods (meant (Op comma)) brackets"
    by (rule round_comma) (use "3.prems" assms(6) final_after[of env mods e] pending_operators[of env mods e] in auto)
  moreover have "parse_from (length ?rest + Suc n) env flags (open_bracket (Suc (Suc k)) # tx) (ca @ postfix (tree e))
      (text_of ?rest @ CHR '' '' # r) mods (meant (Op comma)) brackets =
    parse_from (Suc n) env flags (pending (last (e' # es)) @ open_bracket (Suc k + length (e' # es)) # tx)
      ((ca @ postfix (tree e)) @ indices_out (e' # es)) (CHR '' '' # r) mods (meant (final (last (e' # es)))) brackets"
    by (rule "3.IH") (use "3.prems" in \<open>simp_all add: before_operand_def op_type_def op_id_def\<close>)
  ultimately show ?case using out_and_pending[of e] r' by (simp add: add.assoc del: meant.simps)
qed simp

lemma parses_subscript:
  assumes "well_formed env mods (Subscript e es)" "parses env mods flags e"
    and "\<And>i. i \<in> set es \<Longrightarrow> parses env mods flags i" "SINGLE_ELEMENT \<notin> flags"
  shows "parses env mods flags (Subscript e es)"
  unfolding parses_def
proof (intro allI impI, goal_cases)
  case (1 n tx ca prev r last_token brackets)
  have es: "es \<noteq> []" "list_all (\<lambda>e. well_formed env mods e \<and> \<not> is_prefix (first e) \<and> parses env mods flags e) es"
    using assms(1,3) by (auto simp: list_all_iff)
  have wf: "well_formed env mods e" "PREC_PAREN \<le> level e" "final e \<noteq> Op rparen" using assms(1) by auto
  let ?is = "separated (map words es)"
  have next_word: "no_paren env mods (CHR '' '' # spell (Op lbracket) @ CHR '' '' # s)"
    "no_paren env mods (CHR '' '' # spell (Op rbracket) @ CHR '' '' # s)" for s
    by (intro no_paren_word; simp add: known_def binary_operators_def op_id_def)+
  obtain r' where r': "text_of ?is @ CHR '' '' # spell (Op rbracket) @ CHR '' '' # r = CHR '' '' # r'"
    using text_starts by blast
  have "parse_from (length (words e) + Suc (Suc (length ?is + Suc n))) env flags (prev # tx) ca
      (text_of (words e) @ CHR '' '' # spell (Op lbracket) @ CHR '' '' # r') mods last_token brackets =
    parse_from (Suc (Suc (length ?is + Suc n))) env flags (pending e @ prev # tx) (ca @ out_of e)
      (CHR '' '' # spell (Op lbracket) @ CHR '' '' # r') mods (meant (final e)) brackets"
    by (rule parsesD[OF assms(2)]) (use 1 wf waits_tight[of 15 prev "level e"] next_word in simp_all)
  moreover have "parse_from (Suc (Suc (length ?is + Suc n))) env flags (pending e @ prev # tx) (ca @ out_of e)
      (CHR '' '' # spell (Op lbracket) @ CHR '' '' # r') mods (meant (final e)) brackets =
    parse_from (Suc (length ?is + Suc n)) env flags (open_bracket 1 # prev # tx) ((ca @ out_of e) @ map plain_token (pending e))
      (CHR '' '' # r') mods (meant (Op lbracket)) (brackets + 1)"
  proof (rule round_lbracket)
    show "list_all (\<lambda>q. PREC_PAREN \<le> precedence q) (pending e)"
      using pending_operators[OF wf(1)] wf(2) by (auto simp: list_all_iff)
  qed (use 1 wf assms(4) final_after[OF wf(1)] final_not_paren[OF wf(1)] pending_operators[OF wf(1)] in simp_all)
  moreover have "parse_from (length ?is + Suc (Suc n)) env flags (open_bracket (Suc 0) # prev # tx) (ca @ postfix (tree e))
      (text_of ?is @ CHR '' '' # spell (Op rbracket) @ CHR '' '' # r) mods (meant (Op lbracket)) (brackets + 1) =
    parse_from (Suc (Suc n)) env flags (pending (last es) @ open_bracket (0 + length es) # prev # tx)
      ((ca @ postfix (tree e)) @ indices_out es) (CHR '' '' # spell (Op rbracket) @ CHR '' '' # r) mods (meant (final (last es))) (brackets + 1)"
    by (rule parse_indices[OF es _ _ next_word(2)])
      (use 1 assms(4) in \<open>simp_all add: before_operand_def op_type_def op_id_def\<close>)
  moreover have "parse_from (Suc (Suc n)) env flags (pending (last es) @ open_bracket (length es) # prev # tx)
      (ca @ postfix (tree e) @ indices_out es) (CHR '' '' # spell (Op rbracket) @ CHR '' '' # r) mods (meant (final (last es))) (brackets + 1) =
    parse_from (Suc n) env flags (prev # tx)
      ((ca @ postfix (tree e) @ indices_out es) @ map plain_token (pending (last es)) @ [subscript_token (length es)])
      (CHR '' '' # r) mods (meant (Op rbracket)) (brackets + 1 - 1)"
    by (rule round_rbracket)
      (use es assms(4) final_after[of env mods "last es"] pending_operators[of env mods "last es"] in \<open>auto simp: list_all_iff\<close>)
  moreover have "indices_out es @ map plain_token (pending (last es)) @ [subscript_token (length es)] =
      concat (map (\<lambda>e. postfix (tree e)) es) @ [subscript_token (length es)]"
    using indices_postfix[OF es(1)] by simp
  ultimately show ?case using out_and_pending[of e] r'
    by (simp add: add.assoc comp_def del: meant.simps)
qed

lemma parses_all: "well_formed env mods e \<Longrightarrow> SINGLE_ELEMENT \<notin> flags \<Longrightarrow> parses env mods flags e"
proof (induction e)
  case (Const w)
  have w: "simple_operand env mods w" using Const.prems(1) by simp
  show ?case unfolding parses_def
  proof (intro allI impI, goal_cases)
    case (1 n tx ca prev r last_token brackets)
    then have "tid prev \<notin> member_ids" by (simp add: waits_def)
    then show ?case using round_operand[OF w, of last_token prev flags n tx ca r brackets] 1 Const.prems(2)
      by (simp del: meant.simps)
  qed
next
  case (Subscript e es)
  then show ?case by (intro parses_subscript) (auto simp: list_all_iff)
qed (auto intro: parses_prefix parses_increment parses_binary parses_paren parses_member)


section \<open>Properties\<close>

lemma semicolon_read:
  "getToken env txtop tok (CHR '' '' # CHR '';'' # r, mods) =
     Parsed (0, tok\<lparr>module := 0, tid := TOK_SEMICOLON, ttype := TYP_DELIMITER, tokval := '';''\<rparr>, r, mods)"
proof -
  have "skipcomments (CHR '' '' # CHR '';'' # r) = Lexed (False, CHR '';'' # r)"
    by (rule skipcomments_stay(2)) (simp_all add: isspace_def byte_def starts_with_def)
  then show ?thesis by (simp add: getToken_def Parser_getToken_def of_lexed_def and_parse_def)
qed

lemma semicolon_ends:
  assumes "SEMICOLON_TERM_ALLOWED \<in> flags" "COMMA_TERM_ALLOWED \<notin> flags"
  shows "iip_loop (parser_at (Suc n)) env flags e (CHR '' '' # CHR '';'' # r, mods) last_type last_token brackets =
    Parsed (e, r, mods)"
  using assms by (subst parser_at.simps(2))
    (simp add: Let_def iip_loop_body_def peekToken_def semicolon_read and_parse_def ends_before_def)

definition no_names :: compile_env where
  "no_names = \<lparr>funcs = [], userFunctions = [], constants = [], localscope = [], globalvars = [], OptimizeObjectMembers = False\<rparr>"

text \<open>
  C13. The parser inverts printing. An expression whose operators need no more parentheses, printed
  with a space before each token and ended by a semicolon, is read completely, up to the
  semicolon, and comes out as the postfix form of its tree: binary operators by precedence and
  grouped to the left, prefix operators, increments, parentheses, members and subscripts with
  several indices. The expressions are those of \<open>source\<close> that are \<open>well_formed\<close>: integers,
  strings and variables under the operators of the tables that are symbols, with no calls, no
  initialisers of arrays, structures or dictionaries, no reals, no operators spelled as words, no
  subscript of a parenthesis and no prefix operator under another. The precedences are those of
  the tables; the comment in \<^verbatim>\<open>parser.cpp\<close> has \<open>==\<close> above \<open>&\<close>, \<open>^\<close> and \<open>|\<close>, the tables have it
  below them. The fuel needed is three more than the number of tokens.
\<close>

theorem expression_becomes_postfix:
  assumes "well_formed env mods e" "length (words e) + 3 \<le> n"
    and "SEMICOLON_TERM_ALLOWED \<in> flags" "COMMA_TERM_ALLOWED \<notin> flags" "SINGLE_ELEMENT \<notin> flags"
  shows "IIP (parser_at n) env flags \<lparr>TX = [], CA = []\<rparr> (text_of (words e) @ '' ;'' @ r, mods) =
    Parsed (\<lparr>TX = [], CA = postfix (tree e)\<rparr>, (r, mods))"
proof -
  obtain k where n: "n = Suc (length (words e) + Suc (Suc k))"
    using assms(2) that[of "n - length (words e) - 3"] by simp
  have next_word: "no_paren env mods (CHR '' '' # CHR '';'' # r)" by (simp add: no_paren_def semicolon_read)
  have "parse_from (length (words e) + Suc (Suc k)) env flags [Token0] [] (text_of (words e) @ CHR '' '' # CHR '';'' # r) mods Token0 0 =
      parse_from (Suc (Suc k)) env flags (pending e @ [Token0]) ([] @ out_of e) (CHR '' '' # CHR '';'' # r) mods (meant (final e)) 0"
    by (rule parsesD[OF parses_all[OF assms(1,5)] _ _ _ _ next_word])
      (simp_all add: before_operand_def before_prefix_def waits_def member_ids_def Token0_def new_Token_def)
  then have loop: "iip_loop (parser_at (length (words e) + Suc (Suc k))) env flags \<lparr>TX = [Token0], CA = []\<rparr>
      (text_of (words e) @ CHR '' '' # CHR '';'' # r, mods) TYP_TERMINATOR Token0 0 =
    Parsed (\<lparr>TX = pending e @ [Token0], CA = out_of e\<rparr>, r, mods)"
    by (simp add: semicolon_ends[OF assms(3,4)] Token0_def new_Token_def)
  have "parseToken Token0 (pending e @ [Token0]) (out_of e) =
      parseToken Token0 [Token0] (out_of e @ map plain_token (pending e))"
    by (rule pop_to_closing) (use pending_operators[OF assms(1)] in \<open>simp_all add: Token0_def new_Token_def\<close>)
  then have "parse_token Token0 \<lparr>TX = pending e @ [Token0], CA = out_of e\<rparr> =
      Parsed (AllDone, \<lparr>TX = [], CA = postfix (tree e)\<rparr>)"
    by (simp add: parse_token_def parseToken.simps Let_def out_and_pending) (simp add: Token0_def new_Token_def)
  then show ?thesis using loop unfolding n
    by (subst parser_at.simps(2)) (simp add: Let_def IIP_body_def and_parse_def)
qed

text \<open>\<^verbatim>\<open>- a . b + 2 * ( x - 1 ) ;\<close>\<close>

lemma expression_becomes_postfix_witness:
  "let op = (\<lambda>c. the (find (\<lambda>b. fst b = c) binary_operators));
       neg = (''-'', TOK_UNMINUS, PREC_UNARY_OPS, TYP_UNARY_OPERATOR, False);
       e = Binary (Prefix neg (Member (Const (Name ''a'')) (op ''.'') ''b'')) (op ''+'')
             (Binary (Const (Num 2)) (op ''*'') (Paren (Binary (Const (Name ''x'')) (op ''-'') (Const (Num 1)))))
   in IIP (parser_at 16) no_names {SEMICOLON_TERM_ALLOWED} \<lparr>TX = [], CA = []\<rparr> (text_of (words e) @ '' ;'' @ [], []) =
        Parsed (\<lparr>TX = [], CA = postfix (tree e)\<rparr>, ([], []))"
  unfolding Let_def
proof (rule expression_becomes_postfix, goal_cases)
  case 1
  have "valid_name ''a''" "valid_name ''b''" "valid_name ''x''"
    by (simp add: valid_name_def isalpha_def ident_allowed_def byte_def, rule not_reserved, code_simp, simp)+
  then show ?case
    by (simp add: variable_name_def no_names_def prefix_operator_def infix_operator_def member_operator_def
        binary_operators_def unary_operators_def op_id_def op_type_def op_prec_def member_ids_def)
qed (simp_all add: binary_operators_def)

end
