(* ===== verification/FunctionNumbers.thy ===== *)
theory FunctionNumbers
  imports Parser
begin

text \<open>
  The numbers of the functions of a module. A program refers to a function by its place among
  those it uses; the module list written to the program is cut after them.
\<close>

definition wf_module :: "FunctionalityModule \<Rightarrow> bool" where
  "wf_module m \<longleftrightarrow>
     distinct (functions_of m) \<and> set (functions_of m) = {..<length (declared m)} \<and>
     take (length (used_functions m)) (functions_of m) = used_functions m"

lemma index_of_nth: "distinct xs \<Longrightarrow> i < length xs \<Longrightarrow> length (takeWhile (\<lambda>g. g \<noteq> xs ! i) xs) = i"
proof (induction xs arbitrary: i)
  case (Cons x xs)
  then show ?case by (cases i) auto
qed simp

lemma funcidx_nth: "wf_module m \<Longrightarrow> i < length (functions_of m) \<Longrightarrow> funcidx m (functions_of m ! i) = i"
  by (simp add: funcidx_def wf_module_def index_of_nth)

lemma used_nth:
  assumes "wf_module m" "i < length (used_functions m)"
  shows "functions_of m ! i = used_functions m ! i \<and> i < length (functions_of m)"
proof -
  have t: "take (length (used_functions m)) (functions_of m) = used_functions m" using assms(1) by (simp add: wf_module_def)
  have "i < length (take (length (used_functions m)) (functions_of m))" using assms(2) t by simp
  then have "i < length (functions_of m)" by simp
  then show ?thesis using nth_take[OF assms(2), of "functions_of m"] t by simp
qed

lemma funcidx_used: "wf_module m \<Longrightarrow> i < length (used_functions m) \<Longrightarrow> funcidx m (used_functions m ! i) = i"
  using used_nth[of m i] funcidx_nth[of m i] by simp

lemma addFunction_wf: "wf_module m \<Longrightarrow> wf_module (addFunction name u m)"
proof -
  assume a: "wf_module m"
  define fo uf where "fo = functions_of m" and "uf = used_functions m"
  have f: "distinct fo" "set fo = {..<length (declared m)}" "take (length uf) fo = uf"
    using a by (simp_all add: wf_module_def fo_def uf_def)
  then have "length (take (length uf) fo) = length uf" by simp
  then have "length uf \<le> length fo" by simp
  then have "take (length uf) (fo @ [length (declared m)]) = uf" using f(3) by simp
  moreover have "distinct (fo @ [length (declared m)])" "set (fo @ [length (declared m)]) = {..<Suc (length (declared m))}"
    using f(1,2) by (auto simp: lessThan_Suc)
  ultimately show ?thesis by (simp add: wf_module_def addFunction_def fo_def[symmetric] uf_def[symmetric])
qed

text \<open>The number a function gets: the next free one, in exchange with the function that was there.\<close>

lemma use_function_wf:
  assumes wf: "wf_module m" and f: "f < length (declared m)"
  shows "wf_module (use_function f m) \<and> declared (use_function f m) = declared m \<and>
    modulename (use_function f m) = modulename m \<and>
    (\<exists>xs. used_functions (use_function f m) = used_functions m @ xs) \<and>
    f \<in> set (used_functions (use_function f m))"
proof (cases "f \<in> set (used_functions m)")
  case False
  define fo uf where "fo = functions_of m" and "uf = used_functions m"
  define old new where "old = funcidx m f" and "new = length uf"
  have fo: "distinct fo" "set fo = {..<length (declared m)}" "take new fo = uf"
    using wf by (simp_all add: wf_module_def fo_def uf_def new_def)
  obtain j where j: "j < length fo" "fo ! j = f" using f fo(2) by (metis in_set_conv_nth lessThan_iff)
  have old: "old = j" using funcidx_nth[OF wf] j by (auto simp: old_def fo_def)
  have new: "new \<le> j"
  proof (rule ccontr)
    assume "\<not> new \<le> j"
    then have "f \<in> set (take new fo)" using j by (metis in_set_conv_nth length_take min_less_iff_conj not_le nth_take)
    then show False using False fo(3) by (simp add: uf_def)
  qed
  have m': "use_function f m = m\<lparr>used_functions := uf @ [f], functions_of := fo[j := fo ! new, new := f]\<rparr>"
    using False old by (simp add: use_function_def fo_def uf_def old_def new_def Let_def)
  have swap: "fo[j := fo ! new, new := f] = fo[new := fo ! j, j := fo ! new]"
    using j(2) by (cases "j = new") (simp_all add: list_update_swap)
  have perm: "mset (fo[new := fo ! j, j := fo ! new]) = mset fo" using new j by (intro mset_swap) auto
  then have "distinct (fo[j := fo ! new, new := f])" "set (fo[j := fo ! new, new := f]) = {..<length (declared m)}"
    using fo(1,2) unfolding swap by (metis mset_eq_imp_distinct_iff, metis mset_eq_setD)
  moreover have "take (Suc new) (fo[j := fo ! new, new := f]) = uf @ [f]"
    using new j fo(3) by (simp add: take_Suc_conv_app_nth)
  ultimately show ?thesis by (simp add: m' wf_module_def new_def uf_def)
qed (use wf in \<open>simp add: use_function_def\<close>)


lemma functionsByName_bound:
  assumes "functionsByName m name = Some f"
  shows "f < length (declared m) \<and> ci_key (fname (declared m ! f)) = ci_key name"
proof -
  have "(ci_key name, f) \<in> set (zip (map (\<lambda>mf. ci_key (fname mf)) (declared m)) [0..<length (declared m)])"
    using map_of_SomeD[OF assms[unfolded functionsByName_def]] by simp
  then show ?thesis by (auto simp: in_set_zip)
qed

text \<open>A module that has been used more: its functions keep the numbers they have.\<close>

definition used_more :: "FunctionalityModule \<Rightarrow> FunctionalityModule \<Rightarrow> bool" where
  "used_more m m' \<longleftrightarrow> wf_module m' \<and> declared m' = declared m \<and> modulename m' = modulename m \<and>
     (\<exists>xs. used_functions m' = used_functions m @ xs)"

lemma used_more_numbers:
  assumes "used_more m m'" "wf_module m" "g \<in> set (used_functions m)"
  shows "g \<in> set (used_functions m') \<and> funcidx m' g = funcidx m g"
proof -
  obtain xs where xs: "used_functions m' = used_functions m @ xs" and m': "wf_module m'"
    using assms(1) by (auto simp: used_more_def)
  obtain i where i: "i < length (used_functions m)" "used_functions m ! i = g"
    using assms(3) by (auto simp: in_set_conv_nth)
  then have "used_functions m' ! i = g" "i < length (used_functions m')" by (simp_all add: xs nth_append)
  then show ?thesis using funcidx_used[OF assms(2) i(1)] funcidx_used[OF m', of i] i(2) xs assms(3) by simp
qed

lemma used_more_refl: "wf_module m \<Longrightarrow> used_more m m"
  by (simp add: used_more_def)

lemma module_isFunc_used:
  assumes "wf_module m" "module_isFunc m name = Some (m', idx, u)"
  shows "used_more m m' \<and> idx < length (used_functions m') \<and>
    ci_key (fname (declared m' ! (used_functions m' ! idx))) = ci_key name"
proof -
  obtain f where f: "functionsByName m name = Some f" "m' = use_function f m" "idx = funcidx m' f"
    using assms(2) by (auto simp: module_isFunc_def Let_def split: option.splits)
  have b: "f < length (declared m)" "ci_key (fname (declared m ! f)) = ci_key name"
    using functionsByName_bound[OF f(1)] by auto
  have u: "used_more m m'" "f \<in> set (used_functions m')"
    using use_function_wf[OF assms(1) b(1)] f(2) by (auto simp: used_more_def)
  then obtain i where i: "i < length (used_functions m')" "used_functions m' ! i = f"
    by (auto simp: in_set_conv_nth)
  then have "idx = i" using funcidx_used[of m' i] u(1) f(3) by (simp add: used_more_def)
  then show ?thesis using u(1) i b(2) by (simp add: used_more_def)
qed

lemma candidates_used:
  assumes "list_all wf_module mods" "candidates modname name i mods = (mods', cs)"
  shows "list_all2 used_more mods mods' \<and>
    (\<forall>(k, idx, u) \<in> set cs. i \<le> k \<and> k < i + length mods \<and> idx < length (used_functions (mods' ! (k - i))) \<and>
       ci_key (fname (declared (mods' ! (k - i)) ! (used_functions (mods' ! (k - i)) ! idx))) = ci_key name)"
  using assms
proof (induction mods arbitrary: i mods' cs)
  case (Cons m ms)
  obtain ms1 cs1 where rest: "candidates modname name (i + 1) ms = (ms1, cs1)" by (cases "candidates modname name (i + 1) ms")
  note IH = Cons.IH[OF _ rest]
  have shift: "(m1 # ms1) ! (k - i) = ms1 ! (k - (i + 1))" if "i + 1 \<le> k" for m1 k
    using that by (simp add: Suc_diff_le nth_Cons')
  show ?case
  proof (cases "if modname \<noteq> [] \<and> modname \<noteq> modulename m then None else module_isFunc m name")
    case None
    then have "mods' = m # ms1" "cs = cs1" using Cons.prems(2) rest by (auto split: if_splits)
    then show ?thesis using IH Cons.prems(1) used_more_refl[of m] shift by fastforce
  next
    case (Some r)
    obtain m1 idx u where r: "r = (m1, idx, u)" by (cases r)
    have m1: "module_isFunc m name = Some (m1, idx, u)" using Some r by (auto split: if_splits)
    have e: "mods' = m1 # ms1" "cs = (i, idx, u) # cs1" using Cons.prems(2) Some r rest by simp_all
    show ?thesis using IH Cons.prems(1) module_isFunc_used[OF _ m1] shift unfolding e by fastforce
  qed
qed simp


definition unqualified :: "string \<Rightarrow> string" where
  "unqualified name =
     (let modname = takeWhile (\<lambda>c. c \<noteq> CHR '':'') name
      in if modname = name then name else drop (length modname + 2) name)"

lemma used_lengths: "wf_module m \<Longrightarrow> length (used_functions m) \<le> length (declared m)"
proof -
  assume m: "wf_module m"
  have "distinct (used_functions m)" "set (used_functions m) \<subseteq> {..<length (declared m)}"
    using m unfolding wf_module_def by (metis distinct_take, metis set_take_subset)
  then show ?thesis by (metis card_lessThan card_mono distinct_card finite_lessThan)
qed

section \<open>Properties\<close>

text \<open>
  C20. A function token refers to the function it names, and keeps doing so: the module and the
  number that \<^verbatim>\<open>isFunc\<close> puts into the token denote, among the functions the module
  has used so far, one with the name in the source, and every function that had a number keeps
  it, however many functions are used after it.
\<close>

theorem function_numbers:
  assumes "list_all wf_module mods" "list_all (\<lambda>m. length (declared m) < 2 ^ 31) mods" "length mods \<le> 256"
    and "isFunc env tok mods = (found, tok', mods')"
  shows "list_all2 (\<lambda>m m'. wf_module m' \<and> declared m' = declared m \<and>
           (\<forall>g \<in> set (used_functions m). funcidx m' g = funcidx m g)) mods mods' \<and>
    (found = 1 \<longrightarrow>
       (let m' = mods' ! module tok'
        in module tok' < length mods \<and> nat (sint (tlval tok')) < length (used_functions m') \<and>
           ci_key (fname (declared m' ! (used_functions m' ! nat (sint (tlval tok'))))) = ci_key (unqualified (tokval tok))))"
proof -
  let ?colon = "takeWhile (\<lambda>c. c \<noteq> CHR '':'') (tokval tok)"
  let ?modname = "if ?colon \<noteq> tokval tok then ?colon else []"
  have numbers: "list_all2 (\<lambda>m m'. wf_module m' \<and> declared m' = declared m \<and>
      (\<forall>g \<in> set (used_functions m). funcidx m' g = funcidx m g)) mods ms" if "list_all2 used_more mods ms" for ms
    using that assms(1) used_more_numbers
    by (auto simp: list_all2_conv_all_nth list_all_length used_more_def)
  show ?thesis
  proof (cases "?colon \<noteq> tokval tok \<and> length ?colon \<ge> 9")
    case True
    then have "mods' = mods" "found = -1" using assms(4) by (simp_all add: isFunc_def Let_def)
    then show ?thesis using numbers[of mods] assms(1) used_more_refl
      by (simp add: list_all2_same list_all_iff)
  next
    case False
    obtain ms cs where c: "candidates ?modname (unqualified (tokval tok)) 0 mods = (ms, cs)"
      by (cases "candidates ?modname (unqualified (tokval tok)) 0 mods")
    have name: "(if ?colon \<noteq> tokval tok then drop (length ?colon + 2) (tokval tok) else tokval tok) = unqualified (tokval tok)"
      by (cases "?colon = tokval tok") (simp_all only: unqualified_def Let_def if_True if_False simp_thms)
    have res: "isFunc env tok mods = (case cs of
                   [] \<Rightarrow> (0, tok, ms)
                 | [(i, idx, u)] \<Rightarrow>
                     (1, with_function env u
                           (tok\<lparr>module := i mod 256, ttype := TYP_FUNC, tid := TOK_FUNC, tlval := of_nat idx\<rparr>), ms)
                 | _ \<Rightarrow> (-1, tok, ms))"
      unfolding isFunc_def Let_def name c by (simp only: False if_False prod.case)
    note used = candidates_used[OF assms(1) c]
    have ms: "mods' = ms" using res assms(4) by (auto split: list.splits)
    have "let m' = mods' ! module tok'
        in module tok' < length mods \<and> nat (sint (tlval tok')) < length (used_functions m') \<and>
           ci_key (fname (declared m' ! (used_functions m' ! nat (sint (tlval tok'))))) = ci_key (unqualified (tokval tok))"
      if found: "found = 1"
    proof -
      obtain i idx u where cs: "cs = [(i, idx, u)]"
        "tok' = with_function env u (tok\<lparr>module := i mod 256, ttype := TYP_FUNC, tid := TOK_FUNC, tlval := of_nat idx\<rparr>)"
        using res assms(4) found by (auto split: list.splits)
      have i: "i < length mods" "idx < length (used_functions (ms ! i))"
        "ci_key (fname (declared (ms ! i) ! (used_functions (ms ! i) ! idx))) = ci_key (unqualified (tokval tok))"
        using used cs(1) by auto
      have "wf_module (ms ! i)" "declared (ms ! i) = declared (mods ! i)"
        using used i(1) by (auto simp: list_all2_conv_all_nth used_more_def)
      then have "idx < 2 ^ 31" using used_lengths[of "ms ! i"] i(1,2) assms(2) by (auto simp: list_all_length)
      then have "nat (sint (of_nat idx :: int32)) = idx" using sint_of_int32[of "int idx"] by simp
      then show ?thesis using i assms(3) by (simp add: cs(2) ms with_function_def Let_def)
    qed
    then show ?thesis using numbers used ms by blast
  qed
qed


text \<open>Two modules; \<^verbatim>\<open>b\<close> of the second is used after \<^verbatim>\<open>c\<close>.\<close>

lemma function_numbers_witness:
  "let m1 = addFunction ''a'' None \<lparr>modulename = ''m'', declared = [], functions_of = [], used_functions = []\<rparr>;
       m2 = addFunction ''c'' None (addFunction ''b'' None \<lparr>modulename = ''n'', declared = [], functions_of = [], used_functions = []\<rparr>);
       env = \<lparr>funcs = [], userFunctions = [], constants = [], localscope = [], globalvars = [], OptimizeObjectMembers = False\<rparr>;
       tok = Token0\<lparr>tid := TOK_OTHER TOK_IDENT, tokval := ''n::b''\<rparr>;
       mods = [m1, use_function 1 m2];
       (found, tok', mods') = isFunc env tok mods
   in found = 1 \<and> module tok' = 1 \<and> tlval tok' = 1 \<and>
      list_all2 (\<lambda>m m'. wf_module m' \<and> declared m' = declared m \<and>
           (\<forall>g \<in> set (used_functions m). funcidx m' g = funcidx m g)) mods mods'"
proof -
  define m1 where "m1 = addFunction ''a'' None \<lparr>modulename = ''m'', declared = [], functions_of = [], used_functions = []\<rparr>"
  define m2 where "m2 = addFunction ''c'' None (addFunction ''b'' None \<lparr>modulename = ''n'', declared = [], functions_of = [], used_functions = []\<rparr>)"
  define env :: compile_env where "env = \<lparr>funcs = [], userFunctions = [], constants = [], localscope = [], globalvars = [], OptimizeObjectMembers = False\<rparr>"
  define tok where "tok = Token0\<lparr>tid := TOK_OTHER TOK_IDENT, tokval := ''n::b''\<rparr>"
  define u2 where "u2 = use_function 1 m2"
  define mods where "mods = [m1, u2]"
  have m: "m1 = \<lparr>modulename = ''m'', declared = [\<lparr>fname = ''a'', module_uf = None\<rparr>], functions_of = [0], used_functions = []\<rparr>"
    "u2 = \<lparr>modulename = ''n'', declared = [\<lparr>fname = ''b'', module_uf = None\<rparr>, \<lparr>fname = ''c'', module_uf = None\<rparr>],
       functions_of = [1, 0], used_functions = [1]\<rparr>"
    by (simp_all add: m1_def m2_def u2_def addFunction_def use_function_def funcidx_def Let_def)
  have keys: "ci_key ''a'' = ''a''" "ci_key ''b'' = ''b''" "ci_key ''c'' = ''c''"
    by (simp_all add: ci_key_def tolower_def c_str_def byte_def)
  obtain found tok' mods' where r: "isFunc env tok mods = (found, tok', mods')" by (cases "isFunc env tok mods")
  have "found = 1 \<and> module tok' = 1 \<and> tlval tok' = 1"
    using r by (auto simp: isFunc_def tok_def mods_def m module_isFunc_def functionsByName_def keys use_function_def funcidx_def
        with_function_def Let_def)
  moreover have "list_all2 (\<lambda>m m'. wf_module m' \<and> declared m' = declared m \<and>
           (\<forall>g \<in> set (used_functions m). funcidx m' g = funcidx m g)) mods mods'"
    using function_numbers[of mods env tok found tok' mods'] r by (auto simp: mods_def m wf_module_def lessThan_Suc)
  ultimately show ?thesis using r by (simp add: m1_def m2_def u2_def env_def tok_def mods_def)
qed

end
