(* ===== verification/Eprog.thy ===== *)
theory Eprog
  imports Parser Executor
begin

text \<open>
  Compiled programs: the tables of instructions and of symbols
  (\<^verbatim>\<open>pol-core/bscript/symcont.cpp\<close>), how the compiler adds tokens to them
  (\<^verbatim>\<open>eprog2.cpp\<close>), and how the executor gets the tokens back
  (\<^verbatim>\<open>eprog_read.cpp\<close>). Debug information is not kept: the compiler runs without
  \<^verbatim>\<open>include_debug\<close>.
\<close>

section \<open>Numbers of tokens\<close>

abbreviation INS_INITFOREACH :: BTokenId where "INS_INITFOREACH \<equiv> TOK_OTHER (Unnamed 0x37)"
abbreviation INS_STEPFOREACH :: BTokenId where "INS_STEPFOREACH \<equiv> TOK_OTHER (Unnamed 0x38)"

text \<open>The identifiers that instructions can have, in the order of their numbers.\<close>

definition token_ids :: "BTokenId list" where
  "token_ids =
     [TOK_LONG, TOK_DOUBLE, TOK_STRING, TOK_OTHER TOK_IDENT, TOK_ADD, TOK_SUBTRACT, TOK_MULT,
      TOK_DIV, TOK_ASSIGN, INS_ASSIGN_CONSUME, TOK_PLUSEQUAL, TOK_MINUSEQUAL, TOK_TIMESEQUAL,
      TOK_DIVIDEEQUAL, TOK_MODULUSEQUAL, TOK_OTHER TOK_INSERTINTO, TOK_LESSTHAN, TOK_LESSEQ,
      TOK_GRTHAN, TOK_GREQ, TOK_AND, TOK_OR, TOK_EQUAL, TOK_NEQ, TOK_UNPLUS, TOK_UNMINUS,
      TOK_LOG_NOT, TOK_BITWISE_NOT, TOK_CONSUMER, TOK_ARRAY_SUBSCRIPT, TOK_ADDMEMBER,
      TOK_OTHER TOK_DELMEMBER, TOK_OTHER TOK_CHKMEMBER, TOK_OTHER CTRL_STATEMENTBEGIN,
      TOK_OTHER CTRL_PROGEND, CTRL_MAKELOCAL, CTRL_JSR_USERFUNC, TOK_OTHER INS_POP_PARAM,
      TOK_OTHER CTRL_LEAVE_BLOCK, TOK_OTHER RSV_JMPIFFALSE, TOK_OTHER RSV_JMPIFTRUE,
      TOK_OTHER RSV_GOTO, TOK_OTHER RSV_RETURN, TOK_OTHER RSV_EXIT, TOK_OTHER RSV_LOCAL,
      TOK_OTHER RSV_GLOBAL, RSV_VAR, RSV_FUNCTION, TOK_OTHER INS_DECLARE_ARRAY, TOK_FUNC,
      TOK_USERFUNC, TOK_OTHER TOK_ERROR, TOK_OTHER TOK_IN, TOK_LOCALVAR, TOK_GLOBALVAR,
      INS_INITFOREACH, INS_STEPFOREACH, TOK_OTHER INS_CASEJMP, TOK_OTHER INS_GET_ARG,
      TOK_OTHER TOK_ARRAY, INS_CALL_METHOD, TOK_OTHER TOK_DICTIONARY, TOK_STACK,
      TOK_OTHER INS_INITFOR, TOK_OTHER INS_NEXTFOR, TOK_REFTO, TOK_OTHER INS_POP_PARAM_BYREF,
      TOK_MODULUS, TOK_BSLEFT, TOK_BSRIGHT, TOK_BITAND, TOK_BITOR, TOK_BITXOR,
      TOK_OTHER TOK_STRUCT, INS_SUBSCRIPT_ASSIGN, INS_SUBSCRIPT_ASSIGN_CONSUME, INS_MULTISUBSCRIPT,
      INS_MULTISUBSCRIPT_ASSIGN, INS_ASSIGN_LOCALVAR, INS_ASSIGN_GLOBALVAR, INS_GET_MEMBER,
      INS_SET_MEMBER, INS_SET_MEMBER_CONSUME, INS_ADDMEMBER2, INS_ADDMEMBER_ASSIGN,
      TOK_OTHER INS_UNINIT, INS_DICTIONARY_ADDMEMBER, INS_GET_MEMBER_ID, INS_SET_MEMBER_ID,
      INS_SET_MEMBER_ID_CONSUME, INS_CALL_METHOD_ID, TOK_EQUAL1,
      INS_SET_MEMBER_ID_CONSUME_PLUSEQUAL, INS_SET_MEMBER_ID_CONSUME_MINUSEQUAL,
      INS_SET_MEMBER_ID_CONSUME_TIMESEQUAL, INS_SET_MEMBER_ID_CONSUME_DIVIDEEQUAL,
      INS_SET_MEMBER_ID_CONSUME_MODULUSEQUAL, TOK_FUNCREF, TOK_UNPLUSPLUS, TOK_UNMINUSMINUS,
      TOK_UNPLUSPLUS_POST, TOK_UNMINUSMINUS_POST, INS_SET_MEMBER_ID_UNPLUSPLUS,
      INS_SET_MEMBER_ID_UNMINUSMINUS, INS_SET_MEMBER_ID_UNPLUSPLUS_POST,
      INS_SET_MEMBER_ID_UNMINUSMINUS_POST]"

definition id_code :: "BTokenId \<Rightarrow> nat" where
  "id_code t =
     (case map_of (zip token_ids [0..<length token_ids] @ [(TOK_MEMBER, 0x132), (TOK_OTHER RSV_GOSUB, 0x11a)]) t of
        Some n \<Rightarrow> n
      | None \<Rightarrow> (case t of TOK_OTHER (Unnamed n) \<Rightarrow> n | _ \<Rightarrow> 0))"

definition id_of_code :: "nat \<Rightarrow> BTokenId" where
  "id_of_code n = (if n < length token_ids then token_ids ! n else TOK_OTHER (Unnamed n))"

section \<open>Symbols\<close>

text \<open>
  The search for data that is there already leaves out the first byte. A string is added
  with its terminating zero, and it and the block of a case are added only if they are not found;
  the bytes of a number are always added. The first result is the position of the data.
\<close>

definition findexisting :: "string \<Rightarrow> string \<Rightarrow> nat option" where
  "findexisting syms data =
     (if length syms < length data + 1 then None
      else map_option Suc (find_sub data (drop 1 syms)))"

definition append_data :: "string \<Rightarrow> string \<Rightarrow> nat \<times> string" where
  "append_data data syms =
     (case findexisting syms data of
        Some i \<Rightarrow> (i, syms)
      | None \<Rightarrow> (length syms, syms @ data))"

definition append_string :: "string \<Rightarrow> string \<Rightarrow> nat \<times> string" where
  "append_string str syms = append_data (c_str str @ [CHR 0x00]) syms"

definition append_int :: "int32 \<Rightarrow> string \<Rightarrow> nat \<times> string" where
  "append_int v syms = (length syms, syms @ le_bytes 4 (unat v))"

text \<open>The bits of a \<^verbatim>\<open>double\<close>, and the number that eight bytes stand for.\<close>

fun double_bits :: "dbl \<Rightarrow> nat" where
  "double_bits DNaN = 0x7FF8000000000000"
| "double_bits (DInf s) = (if s then 0x8000000000000000 else 0) + 0x7FF0000000000000"
| "double_bits (DFin s m e) =
     (if s then 0x8000000000000000 else 0) +
     (if m < 2 ^ 52 then m else nat (e + 1075) * 2 ^ 52 + (m - 2 ^ 52))"

definition bits_double :: "nat \<Rightarrow> dbl" where
  "bits_double b =
     (let s = (b div 2 ^ 63 mod 2 = 1); x = b div 2 ^ 52 mod 2 ^ 11; f = b mod 2 ^ 52
      in if x = 2047 then (if f = 0 then DInf s else DNaN)
         else if x = 0 then DFin s f (-1074)
         else DFin s (2 ^ 52 + f) (int x - 1075))"

definition append_double :: "dbl \<Rightarrow> string \<Rightarrow> nat \<times> string" where
  "append_double d syms = (length syms, syms @ le_bytes 8 (double_bits d))"

fun le_number :: "string \<Rightarrow> nat" where
  "le_number [] = 0"
| "le_number (c # cs) = byte c + 256 * le_number cs"

section \<open>Instructions\<close>

record stored_token =
  st_type :: nat
  st_id :: BTokenId
  st_offset :: nat
  st_module :: nat

text \<open>
  \<open>callers\<close> are the \<^verbatim>\<open>forward_callers\<close> of all functions: the place of the
  function with the position of the instruction that refers to it.
\<close>

record eprog =
  tokens :: "stored_token list"
  syms :: string
  callers :: "(nat \<times> nat) list"

text \<open>The constructor checks the offset; the type is cut to a byte.\<close>

definition StoredToken :: "nat \<Rightarrow> BTokenId \<Rightarrow> nat \<Rightarrow> nat \<Rightarrow> stored_token parsed" where
  "StoredToken modl i ty off =
     (if off < 2 ^ 16
      then Parsed \<lparr>st_type = ty mod 256, st_id = i, st_offset = off, st_module = modl mod 256\<rparr>
      else Thrown ''Data segment overflowed'')"

definition append_tok :: "nat \<Rightarrow> BTokenId \<Rightarrow> nat \<Rightarrow> nat \<Rightarrow> eprog \<Rightarrow> eprog parsed" where
  "append_tok modl i ty off p =
     and_parse (StoredToken modl i ty off) (\<lambda>st. Parsed (p\<lparr>tokens := tokens p @ [st]\<rparr>))"

definition with_symbol :: "(string \<Rightarrow> nat \<times> string) \<Rightarrow> eprog \<Rightarrow> (nat \<Rightarrow> eprog \<Rightarrow> 'a) \<Rightarrow> 'a" where
  "with_symbol add p f = (let (pos, s) = add (syms p) in f pos (p\<lparr>syms := s\<rparr>))"

definition remember_caller :: "nat option \<Rightarrow> nat \<Rightarrow> eprog \<Rightarrow> eprog parsed" where
  "remember_caller u pos p =
     (case u of None \<Rightarrow> Undef | Some f \<Rightarrow> Parsed (p\<lparr>callers := callers p @ [(f, pos)]\<rparr>))"

definition addToken :: "token \<Rightarrow> eprog \<Rightarrow> eprog parsed" where
  "addToken t p =
     (let put = append_tok (module t) (tid t);
          ty = type_code (ttype t);
          pos = length (tokens p);
          lval = unat (tlval t)
      in if id_code (tid t) > 255 then Thrown ''Trying to write an illegal token''
         else if ttype t = TYP_OPERAND
         then (if tid t = TOK_LONG then with_symbol (append_int (tlval t)) p (put ty)
               else if tid t = TOK_DOUBLE then with_symbol (append_double (tdval t)) p (put ty)
               else if tid t \<in> {TOK_STRING, INS_ADDMEMBER2, INS_ADDMEMBER_ASSIGN, TOK_OTHER TOK_IDENT}
               then with_symbol (append_string (tokval t)) p (put ty)
               else if tid t \<in> {TOK_GLOBALVAR, TOK_LOCALVAR} then put ty lval p
               else if tid t = TOK_FUNCREF
               then and_parse (put (nparams t) 0 p) (remember_caller (userfunc t) pos)
               else put ty 0 p)
         else if ttype t = TYP_USERFUNC then Parsed p
         else if ttype t = TYP_METHOD
         then (if tid t \<noteq> INS_CALL_METHOD_ID
               then with_symbol (append_string (tokval t)) p (put lval)
               else case d_trunc (tdval t) of
                      None \<Rightarrow> Undef
                    | Some n \<Rightarrow> if n < 0 \<or> 2 ^ 32 \<le> n then Undef else put lval (nat n) p)
         else if ttype t = TYP_FUNC then put lval 0 p
         else if ttype t \<in> {TYP_RESERVED, TYP_OPERATOR, TYP_UNARY_OPERATOR}
         then (if tid t \<in> {INS_GET_MEMBER, INS_SET_MEMBER, INS_SET_MEMBER_CONSUME}
               then with_symbol (append_string (tokval t)) p (put ty)
               else put ty lval p)
         else if ttype t = TYP_CONTROL
         then (if tid t = CTRL_MAKELOCAL then put ty 0 p
               else if tid t = CTRL_JSR_USERFUNC
               then and_parse (put ty 0 p) (remember_caller (userfunc t) pos)
               else if tid t \<in> {TOK_OTHER INS_POP_PARAM_BYREF, TOK_OTHER INS_POP_PARAM}
               then with_symbol (append_string (tokval t)) p (put ty)
               else Thrown ''Unexpected token in AddToken() (1)'')
         else Thrown ''Unexpected Token passed to AddToken() (2)'')"

fun addTokens :: "token list \<Rightarrow> eprog \<Rightarrow> eprog parsed" where
  "addTokens [] p = Parsed p"
| "addTokens (t # ts) p = and_parse (addToken t p) (addTokens ts)"

section \<open>Tokens read back\<close>

text \<open>
  A byte that is no type of a token is \<open>TYP_OTHER\<close>; the parameters of a method are such a type.
  \<open>functions\<close> are the names of the functions of each module, in the order of their numbers.
\<close>

definition type_of_code :: "nat \<Rightarrow> BTokenType" where
  "type_of_code n =
     (if n = 0x01 then TYP_OPERAND else if n = 0x02 then TYP_OPERATOR else if n = 0x03 then TYP_UNARY_OPERATOR
      else if n = 0x10 then TYP_FUNC else if n = 0x1a then TYP_METHOD else if n = 0x1b then TYP_USERFUNC
      else TYP_OTHER n)"

definition symbol_error :: string where
  "symbol_error = ''Symbol offset exceeds symbol store length''"

definition at_symbol :: "string \<Rightarrow> nat \<Rightarrow> (string \<Rightarrow> 'a parsed) \<Rightarrow> 'a parsed" where
  "at_symbol s off f = (if off < length s then f (drop off s) else Thrown symbol_error)"

text \<open>\<^verbatim>\<open>memcpy\<close> of \<open>n\<close> bytes, and a C string, inside the table.\<close>

definition take_bytes :: "nat \<Rightarrow> string \<Rightarrow> (nat \<Rightarrow> 'a parsed) \<Rightarrow> 'a parsed" where
  "take_bytes n s f = (if n \<le> length s then f (le_number (take n s)) else Undef)"

definition take_string :: "string \<Rightarrow> (string \<Rightarrow> 'a parsed) \<Rightarrow> 'a parsed" where
  "take_string s f = (if CHR 0x00 \<in> set s then f (c_str s) else Undef)"

definition offset_ids :: "BTokenId list" where
  "offset_ids =
     [INS_INITFOREACH, INS_STEPFOREACH, TOK_OTHER INS_INITFOR, TOK_OTHER INS_NEXTFOR, TOK_GLOBALVAR,
      TOK_LOCALVAR, CTRL_JSR_USERFUNC, TOK_OTHER CTRL_LEAVE_BLOCK, TOK_ARRAY_SUBSCRIPT,
      TOK_OTHER RSV_JMPIFFALSE, TOK_OTHER RSV_JMPIFTRUE, TOK_OTHER RSV_GOTO, TOK_OTHER RSV_LOCAL,
      TOK_OTHER RSV_GLOBAL, INS_ASSIGN_GLOBALVAR, INS_ASSIGN_LOCALVAR, INS_GET_MEMBER_ID,
      INS_SET_MEMBER_ID, INS_SET_MEMBER_ID_CONSUME, INS_CALL_METHOD_ID,
      INS_SET_MEMBER_ID_CONSUME_PLUSEQUAL, INS_SET_MEMBER_ID_CONSUME_MINUSEQUAL,
      INS_SET_MEMBER_ID_CONSUME_TIMESEQUAL, INS_SET_MEMBER_ID_CONSUME_DIVIDEEQUAL,
      INS_SET_MEMBER_ID_CONSUME_MODULUSEQUAL, INS_SET_MEMBER_ID_UNPLUSPLUS,
      INS_SET_MEMBER_ID_UNMINUSMINUS, INS_SET_MEMBER_ID_UNPLUSPLUS_POST,
      INS_SET_MEMBER_ID_UNMINUSMINUS_POST, TOK_FUNCREF]"

definition readToken :: "string list list \<Rightarrow> string \<Rightarrow> stored_token \<Rightarrow> token parsed" where
  "readToken functions s st =
     (let t = plain_token (new_Token (st_id st) (type_of_code (st_type st)))
                \<lparr>module := st_module st, tlval := of_nat (st_offset st)\<rparr>;
          off = st_offset st;
          named = (\<lambda>t. if off = 0 then Parsed t
                       else at_symbol s off (\<lambda>r. take_string r (\<lambda>x. Parsed (t\<lparr>tokval := x\<rparr>))))
      in if st_id st = TOK_OTHER INS_CASEJMP
         then at_symbol s off (\<lambda>r. Parsed t)
         else if st_id st = TOK_LONG
         then at_symbol s off (\<lambda>r. take_bytes 4 r (\<lambda>n. Parsed (t\<lparr>tlval := of_nat n\<rparr>)))
         else if st_id st = TOK_DOUBLE
         then at_symbol s off (\<lambda>r. take_bytes 8 r (\<lambda>n. Parsed (t\<lparr>tdval := bits_double n\<rparr>)))
         else if st_id st = TOK_OTHER CTRL_STATEMENTBEGIN
         then (if off = 0 then Parsed t
               else at_symbol s off (\<lambda>r. take_bytes 4 (drop 4 r) (\<lambda>line. take_bytes 4 (drop 8 r) (\<lambda>str.
                 at_symbol s str (\<lambda>x. let t' = t\<lparr>tlval := of_nat line\<rparr>
                   in if str = 0 then Parsed t' else take_string x (\<lambda>v. Parsed (t'\<lparr>tokval := v\<rparr>)))))))
         else if st_id st \<in> set offset_ids then Parsed t
         else if st_id st \<in> {INS_CALL_METHOD, TOK_FUNC, TOK_USERFUNC}
         then (let t' = t\<lparr>tlval := of_nat (st_type st), ttype := (if st_id st = TOK_FUNC then TYP_FUNC else TYP_USERFUNC)\<rparr>
               in if off = 0 \<and> st_id st = TOK_FUNC
                  then (if st_module st < length functions
                        then (if st_type st < length (functions ! st_module st)
                              then Parsed (t'\<lparr>tokval := functions ! st_module st ! st_type st\<rparr>)
                              else Thrown ''vector::at'')
                        else Undef)
                  else named t')
         else named t)"

fun create_instructions :: "string list list \<Rightarrow> string \<Rightarrow> stored_token list \<Rightarrow> token list parsed" where
  "create_instructions functions s [] = Parsed []"
| "create_instructions functions s (st # sts) =
     and_parse (readToken functions s st) (\<lambda>t.
       and_parse (create_instructions functions s sts) (\<lambda>ts. Parsed (t # ts)))"

end
