(* ===== verification/ProgramFile.thy ===== *)
theory ProgramFile
  imports Eprog
begin

text \<open>
  The file of a compiled script (\<^verbatim>\<open>filefmt.h\<close>): how the compiler writes it
  (\<^verbatim>\<open>eprog2.cpp\<close>) and how the executor reads it
  (\<^verbatim>\<open>eprog_read.cpp\<close>), and that reading inverts writing. The file is its bytes.
\<close>

section \<open>Parts of a file\<close>

text \<open>
  A module with its functions and the numbers of their arguments, and an exported function
  with the number of its arguments and its position.
\<close>

type_synonym file_module = "string \<times> (string \<times> nat) list"
type_synonym exported_function = "string \<times> nat \<times> nat"

text \<open>\<open>file_args\<close> is \<open>None\<close> for a script without a program.\<close>

record script_file =
  file_globals :: nat
  file_args :: "nat option"
  file_modules :: "file_module list"
  file_tokens :: "stored_token list"
  file_symbols :: string
  file_exports :: "exported_function list"
  file_varnames :: "string list"

section \<open>Writing\<close>

text \<open>\<^verbatim>\<open>stracpy\<close> into a field of zeros: cut so that a zero is left.\<close>

definition name_field :: "nat \<Rightarrow> string \<Rightarrow> string" where
  "name_field n s = (let t = take (n - 1) (c_str s) in t @ replicate (n - length t) (CHR 0x00))"

definition section_hdr :: "nat \<Rightarrow> nat \<Rightarrow> string" where
  "section_hdr ty len = le_bytes 2 ty @ le_bytes 4 len"

definition write_module :: "file_module \<Rightarrow> string" where
  "write_module m =
     (case m of (name, fs) \<Rightarrow>
      section_hdr 1 0 @ name_field 14 name @ le_bytes 4 (length fs) @
      concat (map (\<lambda>(f, nargs). name_field 33 f @ le_bytes 1 nargs) fs))"

definition write_token :: "stored_token \<Rightarrow> string" where
  "write_token st =
     le_bytes 1 (st_type st) @ le_bytes 1 (id_code (st_id st)) @ le_bytes 2 (st_offset st) @ le_bytes 1 (st_module st)"

text \<open>A table is written with its length before it.\<close>

definition write_table :: "nat \<Rightarrow> string \<Rightarrow> string" where
  "write_table ty bytes = section_hdr ty (4 + length bytes) @ le_bytes 4 (length bytes) @ bytes"

definition write_export :: "exported_function \<Rightarrow> string" where
  "write_export ef = (case ef of (name, nargs, pc) \<Rightarrow> name_field 33 name @ le_bytes 4 nargs @ le_bytes 4 pc)"

definition write_args :: "nat option \<Rightarrow> string" where
  "write_args args =
     (case args of None \<Rightarrow> [] | Some n \<Rightarrow> section_hdr 4 16 @ le_bytes 4 n @ replicate 12 (CHR 0x00))"

definition write_exports :: "exported_function list \<Rightarrow> string" where
  "write_exports efs =
     (if efs = [] then [] else section_hdr 6 (41 * length efs) @ concat (map write_export efs))"

definition write_script :: "script_file \<Rightarrow> string" where
  "write_script p =
     ''CE'' @ le_bytes 2 0x0F @ le_bytes 2 (file_globals p) @
     write_args (file_args p) @
     concat (map write_module (file_modules p)) @
     write_table 2 (concat (map write_token (file_tokens p))) @
     write_table 3 (file_symbols p) @
     write_exports (file_exports p)"

section \<open>Reading\<close>

text \<open>
  \<^verbatim>\<open>fread\<close> of \<open>n\<close> bytes. Reading fails with \<open>Failed\<close> or with an exception; the caller
  of both sees the result -1.
\<close>

definition read_bytes :: "nat \<Rightarrow> string \<Rightarrow> (string \<times> string) parsed" where
  "read_bytes n s = (if n \<le> length s then Parsed (take n s, drop n s) else Failed None)"

definition read_number :: "nat \<Rightarrow> string \<Rightarrow> (nat \<times> string) parsed" where
  "read_number n s = and_parse (read_bytes n s) (\<lambda>(b, r). Parsed (le_number b, r))"

text \<open>A C string in a field that need not end with a zero.\<close>

definition read_name :: "nat \<Rightarrow> string \<Rightarrow> (string \<times> string) parsed" where
  "read_name n s =
     and_parse (read_bytes n s) (\<lambda>(b, r). if CHR 0x00 \<in> set b then Parsed (c_str b, r) else Undef)"

primrec read_times :: "(string \<Rightarrow> ('a \<times> string) parsed) \<Rightarrow> nat \<Rightarrow> string \<Rightarrow> ('a list \<times> string) parsed" where
  "read_times f 0 s = Parsed ([], s)"
| "read_times f (Suc n) s =
     and_parse (f s) (\<lambda>(a, r). and_parse (read_times f n r) (\<lambda>(as, r'). Parsed (a # as, r')))"

definition read_function :: "string \<Rightarrow> ((string \<times> nat) \<times> string) parsed" where
  "read_function s =
     and_parse (read_bytes 34 s) (\<lambda>(b, r).
       and_parse (read_name 33 b) (\<lambda>(name, t). Parsed ((name, le_number t), r)))"

definition read_module_section :: "string \<Rightarrow> (file_module \<times> string) parsed" where
  "read_module_section s =
     and_parse (read_bytes 18 s) (\<lambda>(b, r).
     and_parse (read_name 14 b) (\<lambda>(name, t).
     and_parse (read_times read_function (le_number t) r) (\<lambda>(fs, r'). Parsed ((name, fs), r'))))"

text \<open>An empty table cannot be read: its one item has no bytes.\<close>

definition read_table :: "string \<Rightarrow> (string \<times> string) parsed" where
  "read_table s =
     (case and_parse (read_number 4 s) (\<lambda>(n, r). if n = 0 then Failed None else read_bytes n r) of
        Failed _ \<Rightarrow> Thrown ''failed to read in SymbolContainer::read().''
      | res \<Rightarrow> res)"

function token_table :: "string \<Rightarrow> stored_token list" where
  "token_table s =
     (if length s < 5 then []
      else \<lparr>st_type = byte (s ! 0), st_id = id_of_code (byte (s ! 1)), st_offset = le_number (take 2 (drop 2 s)),
            st_module = byte (s ! 4)\<rparr> # token_table (drop 5 s))"
  by pat_completeness auto
termination
  by (relation "measure length") auto

declare token_table.simps [simp del]

definition read_export :: "string \<Rightarrow> (exported_function \<times> string) parsed" where
  "read_export s =
     and_parse (read_bytes 41 s) (\<lambda>(b, r).
     and_parse (read_name 33 b) (\<lambda>(name, t).
       Parsed ((name, le_number (take 4 t), le_number (drop 4 t)), r)))"

text \<open>
  A name of a variable, as no version of the compiler writes it any more. The length is an
  unsigned number, to which the code adds.
\<close>

definition read_varname :: "string \<Rightarrow> (string \<times> string) parsed" where
  "read_varname s =
     and_parse (read_number 4 s) (\<lambda>(n, r).
       if 2 ^ 32 - 5 \<le> n then Undef else read_name (n + 1) r)"

text \<open>What a section adds, from the bytes after its header.\<close>

definition read_section :: "nat \<Rightarrow> nat \<Rightarrow> script_file \<Rightarrow> string \<Rightarrow> (script_file \<times> string) parsed" where
  "read_section ty len p s =
     (if ty = 4 then and_parse (read_bytes 16 s) (\<lambda>(b, r). Parsed (p\<lparr>file_args := Some (le_number (take 4 b))\<rparr>, r))
      else if ty = 1 then and_parse (read_module_section s) (\<lambda>(m, r). Parsed (p\<lparr>file_modules := file_modules p @ [m]\<rparr>, r))
      else if ty = 2 then and_parse (read_table s) (\<lambda>(b, r). Parsed (p\<lparr>file_tokens := token_table b\<rparr>, r))
      else if ty = 3 then and_parse (read_table s) (\<lambda>(b, r). Parsed (p\<lparr>file_symbols := b\<rparr>, r))
      else if ty = 5
      then and_parse (read_number 4 s) (\<lambda>(n, r).
           and_parse (read_times read_varname n r) (\<lambda>(xs, r'). Parsed (p\<lparr>file_varnames := file_varnames p @ xs\<rparr>, r')))
      else if ty = 6
      then and_parse (read_times read_export (len div 41) s) (\<lambda>(efs, r).
             Parsed (p\<lparr>file_exports := file_exports p @ efs\<rparr>, r))
      else Failed None)"

text \<open>The sections, of which each takes six bytes at least; fewer bytes than a header end them.\<close>

primrec read_sections :: "nat \<Rightarrow> script_file \<Rightarrow> string \<Rightarrow> script_file parsed" where
  "read_sections 0 p s = Parsed p"
| "read_sections (Suc n) p s =
     (if length s < 6 then Parsed p
      else and_parse (read_section (le_number (take 2 s)) (le_number (take 4 (drop 2 s))) p (drop 6 s)) (\<lambda>(p', r).
             read_sections n p' r))"

definition read_script :: "string \<Rightarrow> script_file parsed" where
  "read_script s =
     (if length s < 6 \<or> take 2 s \<noteq> ''CE'' \<or> le_number (take 2 (drop 2 s)) \<noteq> 0x0F then Failed None
      else read_sections (length s)
             \<lparr>file_globals = le_number (take 2 (drop 4 s)), file_args = None, file_modules = [], file_tokens = [],
              file_symbols = [], file_exports = [], file_varnames = []\<rparr> (drop 6 s))"

text \<open>The script with its instructions.\<close>

definition load_script :: "string \<Rightarrow> token list parsed" where
  "load_script s =
     and_parse (read_script s) (\<lambda>p.
       create_instructions (map (map fst \<circ> snd) (file_modules p)) (file_symbols p) (file_tokens p))"

section \<open>Fields\<close>

lemma le_bytes_Suc: "le_bytes (Suc k) n = char_of (n mod 256) # le_bytes k (n div 256)"
proof -
  have "[0..<Suc k] = 0 # map Suc [0..<k]" by (simp add: upt_conv_Cons map_Suc_upt del: upt_Suc)
  then show ?thesis by (simp add: le_bytes_def div_mult2_eq[symmetric] mult.commute)
qed

lemma le_bytes_0 [simp]: "le_bytes 0 n = []"
  by (simp add: le_bytes_def)

lemma le_bytes_width [simp]: "length (le_bytes k n) = k"
  by (simp add: le_bytes_def)

lemma le_number_le_bytes [simp]: "n < 256 ^ k \<Longrightarrow> le_number (le_bytes k n) = n"
proof (induction k arbitrary: n)
  case (Suc k)
  then have "n div 256 < 256 ^ k" by (simp add: less_mult_imp_div_less mult.commute)
  then show ?case using Suc.IH by (simp add: le_bytes_Suc byte_def)
qed simp

lemma read_bytes_append: "length b = n \<Longrightarrow> read_bytes n (b @ r) = Parsed (b, r)"
  by (simp add: read_bytes_def)

lemma read_number_append: "v < 256 ^ n \<Longrightarrow> read_number n (le_bytes n v @ r) = Parsed (v, r)"
  by (simp add: read_number_def read_bytes_append and_parse_def)

definition fits :: "nat \<Rightarrow> string \<Rightarrow> bool" where
  "fits n s \<longleftrightarrow> length s < n \<and> CHR 0x00 \<notin> set s"

lemma c_str_zeros: "CHR 0x00 \<notin> set s \<Longrightarrow> c_str (s @ replicate (Suc n) (CHR 0x00)) = s"
  by (induction s) (auto simp: c_str_def)

lemma c_str_id: "CHR 0x00 \<notin> set s \<Longrightarrow> c_str s = s"
  unfolding c_str_def by (rule takeWhile_eq_all_conv[THEN iffD2]) auto

lemma name_field_fits: "fits n s \<Longrightarrow> name_field n s = s @ replicate (Suc (n - length s - 1)) (CHR 0x00)"
  by (cases n) (auto simp: name_field_def fits_def c_str_id Suc_diff_le simp flip: replicate_Suc)

lemma name_field_width: "fits n s \<Longrightarrow> length (name_field n s) = n"
  by (simp add: name_field_fits fits_def)

lemma read_name_append:
  assumes "fits n s"
  shows "read_name n (name_field n s @ r) = Parsed (s, r)"
proof -
  have "CHR 0x00 \<in> set (name_field n s)" "c_str (name_field n s) = s"
    using assms unfolding name_field_fits[OF assms] fits_def by (simp_all add: c_str_zeros del: replicate_Suc)
  then show ?thesis
    by (simp add: read_name_def read_bytes_append[OF name_field_width[OF assms]] and_parse_def)
qed

lemma read_times_append:
  "(\<And>x r. x \<in> set xs \<Longrightarrow> f (g x @ r) = Parsed (x, r)) \<Longrightarrow>
   read_times f (length xs) (concat (map g xs) @ r) = Parsed (xs, r)"
  by (induction xs) (simp_all add: and_parse_def)

section \<open>Sections\<close>

definition function_fits :: "string \<times> nat \<Rightarrow> bool" where
  "function_fits f \<longleftrightarrow> fits 33 (fst f) \<and> snd f < 256"

definition module_fits :: "file_module \<Rightarrow> bool" where
  "module_fits m \<longleftrightarrow> fits 14 (fst m) \<and> length (snd m) < 2 ^ 32 \<and> list_all function_fits (snd m)"

definition token_fits :: "stored_token \<Rightarrow> bool" where
  "token_fits st \<longleftrightarrow> st_type st < 256 \<and> st_id st \<in> set token_ids \<and> st_offset st < 2 ^ 16 \<and> st_module st < 256"

definition export_fits :: "exported_function \<Rightarrow> bool" where
  "export_fits ef \<longleftrightarrow> fits 33 (fst ef) \<and> fst (snd ef) < 2 ^ 32 \<and> snd (snd ef) < 2 ^ 32"

text \<open>What the file can hold: fields in their widths, names without zeros, tables that are not empty.\<close>

definition writable :: "script_file \<Rightarrow> bool" where
  "writable p \<longleftrightarrow>
     file_globals p < 2 ^ 16 \<and> (\<forall>n \<in> set_option (file_args p). n < 2 ^ 32) \<and>
     list_all module_fits (file_modules p) \<and>
     list_all token_fits (file_tokens p) \<and> file_tokens p \<noteq> [] \<and> 5 * length (file_tokens p) + 4 < 2 ^ 32 \<and>
     file_symbols p \<noteq> [] \<and> length (file_symbols p) + 4 < 2 ^ 32 \<and>
     list_all export_fits (file_exports p) \<and> 41 * length (file_exports p) < 2 ^ 32 \<and>
     file_varnames p = []"

lemma read_function_append:
  assumes "function_fits f"
  shows "read_function ((\<lambda>(f, nargs). name_field 33 f @ le_bytes 1 nargs) f @ r) = Parsed (f, r)"
proof -
  obtain name n where f: "f = (name, n)" by (cases f)
  then have fits: "fits 33 name" "n < 256 ^ 1" using assms by (simp_all add: function_fits_def)
  have "read_bytes 34 ((name_field 33 name @ le_bytes 1 n) @ r) = Parsed (name_field 33 name @ le_bytes 1 n, r)"
    using name_field_width[OF fits(1)] by (intro read_bytes_append) simp
  then show ?thesis using fits by (simp add: read_function_def f read_name_append and_parse_def)
qed

lemma read_module_append:
  assumes "module_fits m"
  shows "read_section 1 len p (drop 6 (write_module m) @ r) = Parsed (p\<lparr>file_modules := file_modules p @ [m]\<rparr>, r)"
proof -
  obtain name fs where m: "m = (name, fs)" by (cases m)
  then have fits: "fits 14 name" "length fs < 256 ^ 4" "\<And>f. f \<in> set fs \<Longrightarrow> function_fits f"
    using assms by (simp_all add: module_fits_def list_all_iff)
  have "read_bytes 18 ((name_field 14 name @ le_bytes 4 (length fs)) @ s) =
      Parsed (name_field 14 name @ le_bytes 4 (length fs), s)" for s
    using name_field_width[OF fits(1)] by (intro read_bytes_append) simp
  then show ?thesis
    using fits read_times_append[of fs read_function "\<lambda>(f, nargs). name_field 33 f @ le_bytes 1 nargs", OF read_function_append]
    by (simp add: read_section_def read_module_section_def write_module_def m section_hdr_def read_name_append and_parse_def)
qed

lemma token_ids_length: "length token_ids = 106"
  by (simp add: token_ids_def)

lemma token_ids_distinct: "distinct token_ids"
  by (simp add: token_ids_def)

lemma id_code_nth: "n < 106 \<Longrightarrow> id_code (token_ids ! n) = n"
  using map_of_zip_nth[of token_ids "[0..<length token_ids]" n] token_ids_distinct
  by (simp add: id_code_def token_ids_length map_add_def)

lemma id_of_id_code: "i \<in> set token_ids \<Longrightarrow> id_of_code (id_code i) = i \<and> id_code i < 106"
  by (auto simp: in_set_conv_nth token_ids_length id_code_nth id_of_code_def)

lemma token_table_step: "length b = 5 \<Longrightarrow> token_table (b @ r) =
  \<lparr>st_type = byte (b ! 0), st_id = id_of_code (byte (b ! 1)), st_offset = le_number (take 2 (drop 2 b)),
   st_module = byte (b ! 4)\<rparr> # token_table r"
  by (subst token_table.simps) (simp add: nth_append)

lemma write_token_eq:
  "write_token st = char_of (st_type st mod 256) # char_of (id_code (st_id st) mod 256) #
     le_bytes 2 (st_offset st) @ [char_of (st_module st mod 256)]"
  by (simp add: write_token_def le_bytes_Suc)

lemma token_table_append: "token_fits st \<Longrightarrow> token_table (write_token st @ r) = st # token_table r"
  using id_of_id_code[of "st_id st"]
  by (subst token_table_step)
    (auto simp: write_token_eq token_fits_def byte_def nth_append)

lemma token_table_all: "list_all token_fits ts \<Longrightarrow> token_table (concat (map write_token ts)) = ts"
  by (induction ts) (simp_all add: token_table_append token_table.simps[of "[]"])

lemma read_table_append:
  "b \<noteq> [] \<Longrightarrow> length b < 2 ^ 32 \<Longrightarrow> read_table (le_bytes 4 (length b) @ b @ r) = Parsed (b, r)"
  by (simp add: read_table_def read_number_append read_bytes_append and_parse_def)

lemma read_export_append:
  assumes "export_fits ef"
  shows "read_export (write_export ef @ r) = Parsed (ef, r)"
proof -
  obtain name nargs pc where ef: "ef = (name, nargs, pc)" by (cases ef)
  then have fits: "fits 33 name" "nargs < 256 ^ 4" "pc < 256 ^ 4" using assms by (simp_all add: export_fits_def)
  have "read_bytes 41 ((name_field 33 name @ le_bytes 4 nargs @ le_bytes 4 pc) @ r) =
      Parsed (name_field 33 name @ le_bytes 4 nargs @ le_bytes 4 pc, r)"
    using name_field_width[OF fits(1)] by (intro read_bytes_append) simp
  then show ?thesis using fits by (simp add: read_export_def write_export_def ef read_name_append and_parse_def)
qed

section \<open>Files\<close>

lemma read_sections_end: "read_sections n p [] = Parsed p"
  by (cases n) simp_all

lemma read_sections_step:
  assumes "read_section ty len p (body @ r) = Parsed (p', r)" "ty < 256 ^ 2" "len < 256 ^ 4"
  shows "read_sections (Suc n) p (section_hdr ty len @ body @ r) = read_sections n p' r"
  using assms by (simp add: section_hdr_def and_parse_def)

declare read_sections.simps [simp del]

lemma read_modules:
  "list_all module_fits ms \<Longrightarrow>
   read_sections (length ms + n) p (concat (map write_module ms) @ r) =
   read_sections n (p\<lparr>file_modules := file_modules p @ ms\<rparr>) r"
proof (induction ms arbitrary: p)
  case (Cons m ms)
  have hdr: "write_module m = section_hdr 1 0 @ drop 6 (write_module m)"
    by (cases m) (simp add: write_module_def section_hdr_def)
  have fits: "module_fits m" using Cons.prems by simp
  let ?x = "concat (map write_module ms) @ r"
  have "read_sections (Suc (length ms + n)) p (section_hdr 1 0 @ drop 6 (write_module m) @ ?x) =
      read_sections (length ms + n) (p\<lparr>file_modules := file_modules p @ [m]\<rparr>) ?x"
    by (rule read_sections_step[OF read_module_append[OF fits]]) simp_all
  then have "read_sections (Suc (length ms + n)) p (write_module m @ ?x) =
      read_sections (length ms + n) (p\<lparr>file_modules := file_modules p @ [m]\<rparr>) ?x"
    by (subst hdr) simp
  then show ?case using Cons.IH[of "p\<lparr>file_modules := file_modules p @ [m]\<rparr>"] Cons.prems by simp
qed simp

lemma read_table_section:
  assumes "b \<noteq> []" "length b + 4 < 2 ^ 32" "read_section ty (4 + length b) p (le_bytes 4 (length b) @ b @ r) = Parsed (p', r)"
    and "ty < 256 ^ 2"
  shows "read_sections (Suc n) p (write_table ty b @ r) = read_sections n p' r"
  using read_sections_step[of ty "4 + length b" p "le_bytes 4 (length b) @ b" r p' n] assms
  by (simp add: write_table_def)

lemma read_exports:
  assumes "list_all export_fits efs" "41 * length efs < 2 ^ 32"
  shows "read_section 6 (41 * length efs) p (concat (map write_export efs) @ r) =
    Parsed (p\<lparr>file_exports := file_exports p @ efs\<rparr>, r)"
  using assms read_times_append[of efs read_export write_export r, OF read_export_append]
  by (simp add: read_section_def list_all_iff and_parse_def)

lemma write_token_width: "length (write_token st) = 5"
  by (simp add: write_token_def)

lemma write_tokens_width: "length (concat (map write_token ts)) = 5 * length ts"
  by (induction ts) (simp_all add: write_token_width)

lemma write_tokens_nonempty: "ts \<noteq> [] \<Longrightarrow> concat (map write_token ts) \<noteq> []"
  using write_tokens_width[of ts] by (metis length_0_conv mult_is_0 zero_neq_numeral)

text \<open>The tables and the exported functions, which end the file.\<close>

lemma read_last_sections:
  assumes "writable p" "file_exports q = []"
  shows "read_sections (Suc (Suc (Suc n))) q
     (write_table 2 (concat (map write_token (file_tokens p))) @ write_table 3 (file_symbols p) @
      write_exports (file_exports p)) =
     Parsed (q\<lparr>file_tokens := file_tokens p, file_symbols := file_symbols p, file_exports := file_exports p\<rparr>)"
    (is "read_sections _ q (_ @ _ @ ?exports) = _")
proof -
  let ?b = "concat (map write_token (file_tokens p))"
  let ?q1 = "q\<lparr>file_tokens := file_tokens p\<rparr>" and ?q2 = "q\<lparr>file_tokens := file_tokens p, file_symbols := file_symbols p\<rparr>"
  note w = assms(1)[unfolded writable_def]
  have b: "?b \<noteq> []" "length ?b + 4 < 2 ^ 32" "token_table ?b = file_tokens p"
    using w write_tokens_nonempty[of "file_tokens p"] token_table_all[of "file_tokens p"]
    by (simp_all only: write_tokens_width) simp_all
  have "read_sections (Suc (Suc (Suc n))) q (write_table 2 ?b @ write_table 3 (file_symbols p) @ ?exports) =
      read_sections (Suc (Suc n)) ?q1 (write_table 3 (file_symbols p) @ ?exports)"
    using b by (intro read_table_section) (simp_all add: read_section_def read_table_append and_parse_def)
  also have "\<dots> = read_sections (Suc n) ?q2 ?exports"
    using w by (intro read_table_section) (simp_all add: read_section_def read_table_append and_parse_def)
  also have "\<dots> = Parsed (?q2\<lparr>file_exports := file_exports p\<rparr>)"
  proof (cases "file_exports p = []")
    case True
    then show ?thesis using assms(2) by (simp add: write_exports_def read_sections_end)
  next
    case False
    have "read_sections (Suc n) ?q2 (section_hdr 6 (41 * length (file_exports p)) @
        concat (map write_export (file_exports p)) @ []) = read_sections n (?q2\<lparr>file_exports := file_exports ?q2 @ file_exports p\<rparr>) []"
      using w by (intro read_sections_step read_exports) simp_all
    then show ?thesis using False assms(2) by (simp add: write_exports_def read_sections_end)
  qed
  finally show ?thesis by simp
qed

lemma write_modules_width: "length ms \<le> length (concat (map write_module ms))"
  by (induction ms) (auto simp: write_module_def section_hdr_def split: prod.splits)

text \<open>
  C18. A compiled script that fits its file format is read back from the file as it was written:
  the number of its globals, the arguments of its program, the modules with their functions, the
  instructions, the symbols and the exported functions.
\<close>

theorem script_file_read_back:
  assumes "writable p"
  shows "read_script (write_script p) = Parsed p"
proof -
  note w = assms[unfolded writable_def]
  let ?ms = "file_modules p"
  let ?last = "write_table 2 (concat (map write_token (file_tokens p))) @ write_table 3 (file_symbols p) @
      write_exports (file_exports p)"
  let ?tail = "concat (map write_module ?ms) @ ?last"
  let ?q = "\<lparr>file_globals = file_globals p, file_args = None, file_modules = [], file_tokens = [],
              file_symbols = [], file_exports = [], file_varnames = []\<rparr>"
  have "length (write_script p) \<ge> Suc (length ?ms + Suc (Suc (Suc 0)))"
    using write_modules_width[of ?ms] by (simp add: write_script_def write_table_def section_hdr_def)
  then obtain k where "length (write_script p) = Suc (length ?ms + Suc (Suc (Suc 0))) + k"
    using le_Suc_ex by blast
  then have k: "length (write_script p) = Suc (length ?ms + Suc (Suc (Suc k)))" by simp
  have rest: "read_sections (length ?ms + Suc (Suc (Suc n))) (?q\<lparr>file_args := a\<rparr>) ?tail =
      Parsed (?q\<lparr>file_args := a, file_modules := ?ms, file_tokens := file_tokens p,
        file_symbols := file_symbols p, file_exports := file_exports p\<rparr>)" for n a
    by (subst read_modules, use w in blast, subst read_last_sections[OF assms]) simp_all
  have "read_sections (length (write_script p)) ?q (write_args (file_args p) @ ?tail) = Parsed p"
  proof (cases "file_args p")
    case None
    then show ?thesis using rest[of "Suc k" None] w k by (simp add: write_args_def)
  next
    case (Some a)
    have "read_sections (Suc (length ?ms + Suc (Suc (Suc k)))) ?q
        (section_hdr 4 16 @ (le_bytes 4 a @ replicate 12 (CHR 0x00)) @ ?tail) =
        read_sections (length ?ms + Suc (Suc (Suc k))) (?q\<lparr>file_args := Some a\<rparr>) ?tail"
      using Some w by (intro read_sections_step)
        (simp_all add: read_section_def read_bytes_def and_parse_def)
    then show ?thesis using rest[of k "Some a"] w k Some by (simp add: write_args_def)
  qed
  then show ?thesis
    using w by (simp add: read_script_def write_script_def and_parse_def)
qed

theorem script_file_read_back_witness:
  "let p = \<lparr>file_globals = 1, file_args = Some 2, file_modules = [(''basicio'', [(''Print'', 2)])],
            file_tokens = [\<lparr>st_type = 1, st_id = TOK_LONG, st_offset = 1, st_module = 0\<rparr>,
                           \<lparr>st_type = 0, st_id = TOK_FUNC, st_offset = 0, st_module = 1\<rparr>],
            file_symbols = CHR 0x00 # le_bytes 4 7, file_exports = [(''f'', 0, 1)], file_varnames = []\<rparr>
   in writable p \<and> read_script (write_script p) = Parsed p"
proof -
  define p where "p = \<lparr>file_globals = 1, file_args = Some 2, file_modules = [(''basicio'', [(''Print'', 2)])],
            file_tokens = [\<lparr>st_type = 1, st_id = TOK_LONG, st_offset = 1, st_module = 0\<rparr>,
                           \<lparr>st_type = 0, st_id = TOK_FUNC, st_offset = 0, st_module = 1\<rparr>],
            file_symbols = CHR 0x00 # le_bytes 4 7, file_exports = [(''f'', 0, 1)], file_varnames = []\<rparr>"
  have "writable p"
    by (simp add: writable_def p_def module_fits_def function_fits_def token_fits_def export_fits_def fits_def token_ids_def)
  then show ?thesis using script_file_read_back[of p] by (simp add: p_def Let_def)
qed

end
