(* ===== verification/Declarations.thy ===== *)
theory Declarations
  imports Eprog
begin

text \<open>
  The compiler's state and the parts of \<^verbatim>\<open>pol-core/bscript/compiler.cpp\<close> that
  statements are made of: the scope of the local variables with the jumps that wait for their
  target, the expressions that are compiled in place, and the declarations of variables,
  constants, enumerations, functions and modules.
\<close>

section \<open>State\<close>

text \<open>A block with its variables and the positions of the jumps that leave or repeat it.\<close>

record BlockDesc =
  varcount :: nat
  break_ok :: bool
  continue_ok :: bool
  block_label :: string
  break_tokens :: "nat list"
  continue_tokens :: "nat list"

text \<open>
  What \<open>UserFunction\<close> of \<open>Parser\<close> leaves out: how each parameter is passed, the text of
  the body, the address.
\<close>

record function_info =
  pass_by_reference :: "bool list"
  exported :: bool
  function_body :: string
  position :: nat
  emitted :: bool

text \<open>
  The files that can be read, the directories of the configuration, and the packages: the
  directory of the package, if one is named, and the path in it. \<open>FullPath\<close> is the
  operating system's.
\<close>

record sources =
  files :: "string \<Rightarrow> string option"
  ModuleDirectory :: string
  IncludeDirectory :: string
  PolScriptRoot :: string
  pkgdef_split :: "string \<Rightarrow> (string option \<times> string) option"
  FullPath :: "string \<Rightarrow> string"
  compiling_include :: bool

text \<open>
  The innermost block is the head of \<open>blocks\<close>; \<open>infos\<close> is in the order of \<open>funcs\<close>. The
  text that is compiled is part of the state. \<open>program_text\<close> is the body of the program, once
  there is one.
\<close>

record compiler =
  ctext :: string
  cmods :: modules
  cenv :: compile_env
  infos :: "function_info list"
  blocks :: "BlockDesc list"
  latest_label :: string
  inFunction :: bool
  program_text :: "string option"
  program_args :: "nat option"
  exported_functions :: "(string \<times> nat \<times> nat) list"
  current_file_path :: string
  included :: "string list"
  eprog :: eprog

section \<open>Steps\<close>

text \<open>
  A step of the compiler changes its state and gives a result. A result less than zero of the
  code is \<open>Failed\<close>, an exception \<open>Thrown\<close>; both end the compilation, so that the state is
  not kept.
\<close>

type_synonym 'a step = "compiler \<Rightarrow> ('a \<times> compiler) parsed"

definition give :: "'a \<Rightarrow> 'a step" where
  "give a c = Parsed (a, c)"

definition fail :: "'a step" where
  "fail c = Failed None"

definition throw :: "string \<Rightarrow> 'a step" where
  "throw e c = Thrown e"

definition then_do :: "'a step \<Rightarrow> ('a \<Rightarrow> 'b step) \<Rightarrow> 'b step" where
  "then_do m f c = and_parse (m c) (\<lambda>(a, c'). f a c')"

definition modify :: "(compiler \<Rightarrow> compiler) \<Rightarrow> unit step" where
  "modify f c = Parsed ((), f c)"

definition look :: "(compiler \<Rightarrow> 'a step) \<Rightarrow> 'a step" where
  "look f c = f c c"

definition check :: "bool \<Rightarrow> unit step" where
  "check b = (if b then give () else fail)"

text \<open>
  A loop whose rounds give \<open>Inl\<close> to go on and \<open>Inr\<close> to stop. A round of the compiler's loops takes
  a character at least, or else the loop does not end; one round more than there are
  characters is enough.
\<close>

primrec rounds :: "nat \<Rightarrow> ('a \<Rightarrow> ('a + 'b) step) \<Rightarrow> 'a \<Rightarrow> 'b step" where
  "rounds 0 f a = (\<lambda>c. OutOfFuel)"
| "rounds (Suc n) f a = then_do (f a) (\<lambda>r. case r of Inl a' \<Rightarrow> rounds n f a' | Inr b \<Rightarrow> give b)"

definition loop :: "('a \<Rightarrow> ('a + 'b) step) \<Rightarrow> 'a \<Rightarrow> 'b step" where
  "loop f a c = rounds (Suc (length (ctext c))) f a c"

section \<open>Tokens of the text\<close>

text \<open>The first result is 0, or 1 at the end of the text, where the token stays as it was.\<close>

definition get_tok :: "Token \<Rightarrow> (int \<times> Token) step" where
  "get_tok tok c =
     and_parse (getToken (cenv c) None tok (ctext c, cmods c)) (\<lambda>(res, t, s, ms).
       Parsed ((res, t), c\<lparr>ctext := s, cmods := ms\<rparr>))"

definition peek_tok :: "Token \<Rightarrow> (int \<times> Token) step" where
  "peek_tok tok c =
     and_parse (peekToken (cenv c) tok (ctext c, cmods c)) (\<lambda>(res, t, s, ms).
       Parsed ((res, t), c\<lparr>ctext := s, cmods := ms\<rparr>))"

text \<open>A token that must be there, and one that must be a certain one.\<close>

definition need_tok :: "Token \<Rightarrow> Token step" where
  "need_tok tok = then_do (get_tok tok) (\<lambda>(res, t). if res = 0 then give t else fail)"

definition eatToken :: "BTokenId \<Rightarrow> unit step" where
  "eatToken i = then_do (get_tok Token0) (\<lambda>(res, t). check (tid t = i))"

definition skip_blanks :: "unit step" where
  "skip_blanks c =
     (case skipcomments (ctext c) of
        Lexed (_, t) \<Rightarrow> Parsed ((), c\<lparr>ctext := t\<rparr>)
      | Err e \<Rightarrow> Failed e
      | Over \<Rightarrow> Undef)"

section \<open>Code\<close>

definition next_pc :: "compiler \<Rightarrow> nat" where
  "next_pc c = length (tokens (eprog c))"

definition on_program :: "(eprog \<Rightarrow> eprog parsed) \<Rightarrow> unit step" where
  "on_program f c = and_parse (f (eprog c)) (\<lambda>p. Parsed ((), c\<lparr>eprog := p\<rparr>))"

text \<open>An instruction of \<^verbatim>\<open>Mod_Basic\<close>; the result is its position.\<close>

definition append_code :: "BTokenId \<Rightarrow> BTokenType \<Rightarrow> nat \<Rightarrow> nat step" where
  "append_code i ty off =
     look (\<lambda>c. then_do (on_program (append_tok 0 i (type_code ty) off)) (\<lambda>_. give (next_pc c)))"

definition append_symbol :: "(string \<Rightarrow> nat \<times> string) \<Rightarrow> nat step" where
  "append_symbol add c =
     (let (pos, s) = add (syms (eprog c)) in Parsed (pos, c\<lparr>eprog := (eprog c)\<lparr>syms := s\<rparr>\<rparr>))"

definition atGet1 :: "nat \<Rightarrow> stored_token step" where
  "atGet1 i = look (\<lambda>c. if i < next_pc c then give (tokens (eprog c) ! i)
                        else throw ''Retrieving token at invalid position'')"

definition atPut1 :: "stored_token \<Rightarrow> nat \<Rightarrow> unit step" where
  "atPut1 st i =
     look (\<lambda>c. if i < next_pc c
               then modify (\<lambda>c. c\<lparr>eprog := (eprog c)\<lparr>tokens := (tokens (eprog c))[i := st]\<rparr>\<rparr>)
               else throw ''Assigning token at invalid position'')"

text \<open>The offset is cut to two bytes here, not checked.\<close>

definition patchoffset :: "nat \<Rightarrow> nat \<Rightarrow> unit step" where
  "patchoffset i off = then_do (atGet1 i) (\<lambda>st. atPut1 (st\<lparr>st_offset := off mod 2 ^ 16\<rparr>) i)"

text \<open>A jump of \<^verbatim>\<open>Mod_Basic\<close> that replaces the instruction there.\<close>

definition put_jump :: "BTokenId \<Rightarrow> nat \<Rightarrow> nat \<Rightarrow> unit step" where
  "put_jump i off pos c =
     and_parse (StoredToken 0 i (type_code TYP_RESERVED) off) (\<lambda>st. atPut1 st pos c)"

primrec patch_all :: "nat list \<Rightarrow> nat \<Rightarrow> unit step" where
  "patch_all [] off = give ()"
| "patch_all (i # is) off = then_do (patchoffset i off) (\<lambda>_. patch_all is off)"

section \<open>Blocks and variables\<close>

definition inGlobalScope :: "compiler \<Rightarrow> bool" where
  "inGlobalScope c \<longleftrightarrow> blocks c = []"

definition enterblock :: "bool \<Rightarrow> bool \<Rightarrow> bool \<Rightarrow> unit step" where
  "enterblock label_ok brk cont =
     modify (\<lambda>c. c\<lparr>blocks := \<lparr>varcount = 0, break_ok = brk, continue_ok = cont,
                                block_label = (if label_ok then latest_label c else ''''),
                                break_tokens = [], continue_tokens = []\<rparr> # blocks c,
                    latest_label := (if label_ok then '''' else latest_label c)\<rparr>)"

definition in_block :: "(BlockDesc \<Rightarrow> 'a step) \<Rightarrow> 'a step" where
  "in_block f = look (\<lambda>c. case blocks c of [] \<Rightarrow> (\<lambda>c. Undef) | bd # _ \<Rightarrow> f bd)"

definition set_locals :: "(string list \<Rightarrow> string list) \<Rightarrow> compiler \<Rightarrow> compiler" where
  "set_locals f c = c\<lparr>cenv := (cenv c)\<lparr>localscope := f (localscope (cenv c))\<rparr>\<rparr>"

definition popblock :: "bool \<Rightarrow> unit step" where
  "popblock varsOnly =
     in_block (\<lambda>bd. modify (\<lambda>c.
       set_locals (\<lambda>vs. take (length vs - varcount bd) vs)
         (c\<lparr>blocks := (if varsOnly then bd\<lparr>varcount := 0\<rparr> # tl (blocks c) else tl (blocks c))\<rparr>)))"

definition addvar :: "string \<Rightarrow> unit step" where
  "addvar x =
     in_block (\<lambda>bd. look (\<lambda>c.
       let vs = localscope (cenv c)
       in if ci_key x \<in> ci_key ` set (drop (length vs - varcount bd) vs)
          then throw ''Variable is already in scope.''
          else modify (\<lambda>c. set_locals (\<lambda>vs. vs @ [x])
                 (c\<lparr>blocks := bd\<lparr>varcount := varcount bd + 1\<rparr> # tl (blocks c)\<rparr>))))"

definition emit_leaveblock :: "unit step" where
  "emit_leaveblock =
     in_block (\<lambda>bd. if varcount bd = 0 then give ()
       else then_do (append_code (TOK_OTHER CTRL_LEAVE_BLOCK) TYP_CONTROL (varcount bd)) (\<lambda>_. give ()))"

definition patchblock_breaks :: "nat \<Rightarrow> unit step" where
  "patchblock_breaks pc = in_block (\<lambda>bd. patch_all (break_tokens bd) pc)"

definition patchblock_continues :: "nat \<Rightarrow> unit step" where
  "patchblock_continues pc = in_block (\<lambda>bd. patch_all (continue_tokens bd) pc)"

definition leaveblock :: "nat \<Rightarrow> nat \<Rightarrow> unit step" where
  "leaveblock breakPC continuePC =
     then_do emit_leaveblock (\<lambda>_. then_do (patchblock_breaks breakPC) (\<lambda>_.
       then_do (patchblock_continues continuePC) (\<lambda>_. popblock False)))"

text \<open>
  The block that a jump with a label leaves or repeats, and the number of variables of the
  blocks up to it. The jump is remembered there.
\<close>

fun find_block :: "(BlockDesc \<Rightarrow> bool) \<Rightarrow> (BlockDesc \<Rightarrow> BlockDesc) \<Rightarrow> nat \<Rightarrow> BlockDesc list \<Rightarrow> (nat \<times> BlockDesc list) option" where
  "find_block ok f kill [] = None"
| "find_block ok f kill (bd # bds) =
     (if ok bd then Some (kill + varcount bd, f bd # bds)
      else map_option (\<lambda>(k, bds'). (k, bd # bds')) (find_block ok f (kill + varcount bd) bds))"

definition jump_out :: "(BlockDesc \<Rightarrow> bool) \<Rightarrow> (nat \<Rightarrow> BlockDesc \<Rightarrow> BlockDesc) \<Rightarrow> string \<Rightarrow> unit step" where
  "jump_out ok remember label =
     look (\<lambda>c.
       let here = (\<lambda>bd. ok bd \<and> (label = [] \<or> label = block_label bd))
       in case find_block here id 0 (blocks c) of
            None \<Rightarrow> fail
          | Some (kill, _) \<Rightarrow>
              then_do (if kill = 0 then give 0 else append_code (TOK_OTHER CTRL_LEAVE_BLOCK) TYP_CONTROL kill) (\<lambda>_.
              then_do (append_code (TOK_OTHER RSV_GOTO) TYP_RESERVED 0) (\<lambda>posn.
              modify (\<lambda>c. c\<lparr>blocks :=
                case find_block here (remember posn) 0 (blocks c) of Some (_, bds) \<Rightarrow> bds | None \<Rightarrow> blocks c\<rparr>))))"

definition insertBreak :: "string \<Rightarrow> unit step" where
  "insertBreak = jump_out break_ok (\<lambda>posn bd. bd\<lparr>break_tokens := break_tokens bd @ [posn]\<rparr>)"

definition insertContinue :: "string \<Rightarrow> unit step" where
  "insertContinue = jump_out continue_ok (\<lambda>posn bd. bd\<lparr>continue_tokens := continue_tokens bd @ [posn]\<rparr>)"

text \<open>\<^verbatim>\<open>break\<close> and \<^verbatim>\<open>continue\<close> are followed by a label or not.\<close>

definition handle_jump :: "(string \<Rightarrow> unit step) \<Rightarrow> unit step" where
  "handle_jump jump =
     then_do (need_tok Token0) (\<lambda>tk.
       if tid tk = TOK_OTHER TOK_IDENT
       then then_do (need_tok tk) (\<lambda>tk2. if tid tk2 = TOK_SEMICOLON then jump (tokval tk) else fail)
       else if tid tk = TOK_SEMICOLON then jump [] else fail)"

definition handleBreak :: "unit step" where "handleBreak = handle_jump insertBreak"

definition handleContinue :: "unit step" where "handleContinue = handle_jump insertContinue"

section \<open>Expressions in place\<close>

text \<open>Five calls of the parser for each character and three more are enough (\<open>ParserEnds\<close>).\<close>

definition read_expr :: "expr_flag set \<Rightarrow> token list step" where
  "read_expr flags c =
     and_parse (readexpr (parser_at (5 * length (ctext c) + 3)) (cenv c) flags (ctext c, cmods c)) (\<lambda>(ts, s, ms).
       Parsed (ts, c\<lparr>ctext := s, cmods := ms\<rparr>))"

definition inject :: "token list \<Rightarrow> unit step" where
  "inject ts = on_program (addTokens ts)"

definition getExpr :: "expr_flag set \<Rightarrow> token list step" where
  "getExpr flags = then_do (read_expr flags) (\<lambda>ts. then_do (inject ts) (\<lambda>_. give ts))"

definition getExprInParens :: "token list step" where
  "getExprInParens =
     then_do (get_tok Token0) (\<lambda>(_, t).
     then_do (check (tid t = TOK_LPAREN)) (\<lambda>_.
     then_do (getExpr {RIGHTPAREN_TERM_ALLOWED}) (\<lambda>ts.
     then_do (get_tok t) (\<lambda>(_, t').
     then_do (check (tid t' = TOK_RPAREN)) (\<lambda>_. give ts)))))"

definition getSimpleExpr :: "unit step" where
  "getSimpleExpr =
     then_do (peek_tok Token0) (\<lambda>(_, t).
       if tid t = TOK_LPAREN then then_do getExprInParens (\<lambda>_. give ())
       else if tid t \<in> {TOK_OTHER TOK_IDENT, TOK_FUNC, TOK_USERFUNC, TOK_OTHER TOK_ARRAY, TOK_LBRACE}
       then then_do (getExpr {SINGLE_ELEMENT}) (\<lambda>_. give ())
       else fail)"

section \<open>Variables, constants and enumerations\<close>

definition set_env :: "(compile_env \<Rightarrow> compile_env) \<Rightarrow> unit step" where
  "set_env f = modify (\<lambda>c. c\<lparr>cenv := f (cenv c)\<rparr>)"

text \<open>The number of the variable: among the globals, or in its block.\<close>

definition declare_variable :: "string \<Rightarrow> nat step" where
  "declare_variable x =
     look (\<lambda>c.
       if inGlobalScope c
       then (if globalexists (cenv c) x \<noteq> None then fail
             else then_do (set_env (\<lambda>e. e\<lparr>globalvars := globalvars e @ [x]\<rparr>)) (\<lambda>_.
               give (length (globalvars (cenv c)))))
       else in_block (\<lambda>bd. then_do (addvar x) (\<lambda>_. give (varcount bd))))"

text \<open>
  The tokens of the name and of the delimiter keep their values when the text ends, so both
  go from one round to the next.
\<close>

definition handleVarDeclare :: "bool \<Rightarrow> unit step" where
  "handleVarDeclare global =
     look (\<lambda>c. then_do (check (global = inGlobalScope c)) (\<lambda>_. loop (\<lambda>(name, delim).
       then_do (get_tok name) (\<lambda>(_, name1).
       then_do (check (tid name1 = TOK_OTHER TOK_IDENT)) (\<lambda>_.
       look (\<lambda>c.
       then_do (check (map_of (constants (cenv c)) (tokval name1) = None)) (\<lambda>_.
       then_do (declare_variable (tokval name1)) (\<lambda>varindex.
       then_do (get_tok delim) (\<lambda>(_, delim1).
       then_do (append_code (TOK_OTHER (if global then RSV_GLOBAL else RSV_LOCAL)) TYP_RESERVED varindex) (\<lambda>_.
       then_do
         (if tid delim1 = TOK_OTHER TOK_ARRAY
          then then_do (append_code (TOK_OTHER INS_DECLARE_ARRAY) TYP_RESERVED 0) (\<lambda>_. get_tok delim1)
          else if tid delim1 = TOK_ASSIGN
          then then_do (getExpr {SEMICOLON_TERM_ALLOWED, COMMA_TERM_ALLOWED}) (\<lambda>_.
               then_do (append_code TOK_ASSIGN TYP_OPERATOR 0) (\<lambda>_. get_tok delim1))
          else give (0, delim1)) (\<lambda>(_, delim2).
       then_do (append_code TOK_CONSUMER TYP_UNARY_OPERATOR 0) (\<lambda>_.
         if tid delim2 = TOK_COMMA then give (Inl (name1, delim2))
         else if tid delim2 = TOK_SEMICOLON then give (Inr ())
         else fail)))))))))) (Token0, Token0)))"

text \<open>A constant is one token; \<open>insert\<close> of a map does not replace an entry.\<close>

definition add_constant :: "string \<Rightarrow> token \<Rightarrow> unit step" where
  "add_constant x t =
     set_env (\<lambda>e. e\<lparr>constants := constants e @ [(x, token.extend t (Token.fields (-1)))]\<rparr>)"

definition constant_value :: "expr_flag set \<Rightarrow> token step" where
  "constant_value flags =
     then_do (read_expr flags) (\<lambda>ts. case ts of [t] \<Rightarrow> give t | _ \<Rightarrow> fail)"

definition handleConstDeclare :: "unit step" where
  "handleConstDeclare =
     then_do (get_tok Token0) (\<lambda>(_, name).
     then_do (check (tid name = TOK_OTHER TOK_IDENT)) (\<lambda>_.
     look (\<lambda>c.
     then_do (check (map_of (constants (cenv c)) (tokval name) = None)) (\<lambda>_.
     then_do (eatToken TOK_ASSIGN) (\<lambda>_.
     then_do (constant_value {SEMICOLON_TERM_ALLOWED}) (\<lambda>t.
       add_constant (tokval name) t))))))"

definition handleEnumDeclare :: "unit step" where
  "handleEnumDeclare =
     then_do (get_tok Token0) (\<lambda>(_, tag).
     then_do (check (tid tag = TOK_OTHER TOK_IDENT)) (\<lambda>_.
     loop (\<lambda>counter :: int32.
       then_do (get_tok Token0) (\<lambda>(_, name).
       if tid name = RSV_ENDENUM then give (Inr ())
       else
         let plain = plain_token ((new_Token TOK_LONG TYP_OPERAND)\<lparr>tlval := counter\<rparr>)
         in then_do (check (tid name = TOK_OTHER TOK_IDENT)) (\<lambda>_.
            then_do (peek_tok Token0) (\<lambda>(_, tmp).
            if tid tmp = TOK_ASSIGN
            then then_do (get_tok Token0) (\<lambda>(_, tmp1).
                 then_do (read_expr {COMMA_TERM_ALLOWED, ENDENUM_TERM_ALLOWED}) (\<lambda>ts.
                 then_do (peek_tok tmp1) (\<lambda>(res, tmp2).
                 then_do (if res = 0 \<and> tid tmp2 = TOK_COMMA then get_tok tmp2 else give (0, tmp2)) (\<lambda>_.
                   case ts of
                     [t] \<Rightarrow> then_do (add_constant (tokval name) t) (\<lambda>_.
                              give (Inl (if tid t = TOK_LONG then tlval t + 1 else counter + 1)))
                   | _ \<Rightarrow> fail))))
            else if tid tmp = TOK_COMMA
            then then_do (get_tok tmp) (\<lambda>_.
                 then_do (add_constant (tokval name) plain) (\<lambda>_. give (Inl (counter + 1))))
            else if tid tmp = RSV_ENDENUM
            then then_do (add_constant (tokval name) plain) (\<lambda>_. give (Inl (counter + 1)))
            else fail)))) 0))"

section \<open>Functions\<close>

definition skip_to :: "BTokenId \<Rightarrow> unit step" where
  "skip_to i =
     loop (\<lambda>_. look (\<lambda>c. if ctext c = [] then fail
       else then_do (get_tok Token0) (\<lambda>(_, t). give (if tid t = i then Inr () else Inl ())))) ()"

text \<open>The default value of a parameter.\<close>

definition default_value :: "bool \<Rightarrow> Token \<Rightarrow> (token option \<times> Token) step" where
  "default_value unused tok =
     (if tid tok = TOK_ASSIGN
      then then_do (check (\<not> unused)) (\<lambda>_.
           then_do (get_tok tok) (\<lambda>(_, t1).
           then_do (constant_value {RIGHTPAREN_TERM_ALLOWED, COMMA_TERM_ALLOWED}) (\<lambda>d.
           then_do (check (ttype d = TYP_OPERAND)) (\<lambda>_.
           then_do (peek_tok t1) (\<lambda>(_, t2). give (Some d, t2))))))
      else if tid tok = TOK_EQUAL1 then fail
      else give (None, tok))"

definition mk_param :: "string \<Rightarrow> token option \<Rightarrow> UserParam" where
  "mk_param x d =
     \<lparr>pname = x, have_default = (d \<noteq> None),
      dflt_value = (case d of Some t \<Rightarrow> token.extend t (Token.fields (-1)) | None \<Rightarrow> Token0)\<rparr>"

text \<open>The name, the parameters, and which of them are references.\<close>

definition readFunctionDeclaration :: "(UserFunction \<times> bool list) step" where
  "readFunctionDeclaration =
     then_do (need_tok Token0) (\<lambda>name.
     then_do (check (tid name = TOK_OTHER TOK_IDENT)) (\<lambda>_.
     then_do (need_tok Token0) (\<lambda>lparen.
     then_do (check (tid lparen = TOK_LPAREN)) (\<lambda>_.
     then_do (peek_tok Token0) (\<lambda>(_, tok).
     loop (\<lambda>(tok, ps, refs).
       then_do (need_tok tok) (\<lambda>t1.
       if tid t1 = TOK_RPAREN then give (Inr (\<lparr>uname = tokval name, parameters = ps\<rparr>, refs))
       else
         then_do (if tid t1 = TOK_REFTO then need_tok t1 else give t1) (\<lambda>t2.
         then_do (if tid t2 = TOK_UNUSED then need_tok t2 else give t2) (\<lambda>t3.
         then_do (check (tid t3 = TOK_OTHER TOK_IDENT)) (\<lambda>_.
         then_do (peek_tok t3) (\<lambda>(_, t4).
         then_do (default_value (tid t2 = TOK_UNUSED) t4) (\<lambda>(d, t5).
           let next = Inl (t5, ps @ [mk_param (tokval t3) d], refs @ [tid t1 = TOK_REFTO])
           in if tid t5 = TOK_COMMA
              then then_do (get_tok t5) (\<lambda>(_, t6).
                   give (Inl (t6, ps @ [mk_param (tokval t3) d], refs @ [tid t1 = TOK_REFTO])))
              else if tid t5 = TOK_RPAREN then give next
              else fail)))))))
       (tok, [], []))))))"

definition mk_info :: "bool list \<Rightarrow> bool \<Rightarrow> string \<Rightarrow> function_info" where
  "mk_info refs exp body =
     \<lparr>pass_by_reference = refs, exported = exp, function_body = body, position = 0, emitted = False\<rparr>"

text \<open>
  \<^verbatim>\<open>userFunctions[ name ] = userfunc\<close>: the map is ordered by the names without their case,
  and a function of the same name is replaced.
\<close>

definition add_function :: "UserFunction \<Rightarrow> function_info \<Rightarrow> compiler \<Rightarrow> compiler" where
  "add_function uf info c =
     c\<lparr>cenv := (cenv c)\<lparr>funcs := funcs (cenv c) @ [uf]\<rparr>, infos := infos c @ [info]\<rparr>"

definition define_function :: "UserFunction \<Rightarrow> function_info \<Rightarrow> compiler \<Rightarrow> compiler" where
  "define_function uf info c =
     (let key = ci_key (uname uf); ufs = userFunctions (cenv c)
      in case map_of (map (\<lambda>(n, f). (ci_key n, f)) ufs) key of
           Some f \<Rightarrow> c\<lparr>cenv := (cenv c)\<lparr>funcs := (funcs (cenv c))[f := uf]\<rparr>, infos := (infos c)[f := info]\<rparr>
         | None \<Rightarrow>
             let smaller = (\<lambda>(n, _). str_lt (ci_key n) key)
             in (add_function uf info c)\<lparr>cenv := (cenv (add_function uf info c))
                  \<lparr>userFunctions := takeWhile smaller ufs @ (uname uf, length (funcs (cenv c))) # dropWhile smaller ufs\<rparr>\<rparr>)"

text \<open>The body goes to the end of its last token.\<close>

definition read_to :: "BTokenId \<Rightarrow> string step" where
  "read_to i =
     look (\<lambda>c0. then_do (skip_to i) (\<lambda>_. look (\<lambda>c.
       give (take (length (ctext c0) - length (ctext c)) (ctext c0)))))"

definition forward_read_function :: "unit step" where
  "forward_read_function =
     then_do (need_tok Token0) (\<lambda>tok.
     then_do (if tid tok = RSV_EXPORTED
              then then_do (need_tok tok) (\<lambda>t. check (tid t = RSV_FUNCTION)) else give ()) (\<lambda>_.
     then_do readFunctionDeclaration (\<lambda>(uf, refs).
     then_do (read_to RSV_ENDFUNCTION) (\<lambda>body.
       modify (define_function uf (mk_info refs (tid tok = RSV_EXPORTED) body))))))"

text \<open>The second pass skips a function; its argument is a type, which no identifier is.\<close>

definition handleBracketedFunction2 :: "BTokenType \<Rightarrow> unit step" where
  "handleBracketedFunction2 tokentype =
     then_do (if type_code tokentype = id_code RSV_EXPORTED
              then then_do (need_tok Token0) (\<lambda>t. check (tid t = RSV_FUNCTION)) else give ()) (\<lambda>_.
     look (\<lambda>c.
     then_do (check (\<not> inFunction c)) (\<lambda>_.
     then_do (get_tok Token0) (\<lambda>_. skip_to RSV_ENDFUNCTION))))"

definition handleProgram :: "unit step" where
  "handleProgram =
     look (\<lambda>c.
     then_do (check (program_text c = None)) (\<lambda>_.
     then_do (read_to RSV_ENDPROGRAM) (\<lambda>body.
       modify (\<lambda>c. c\<lparr>program_text := Some body\<rparr>))))"

definition handleDeclare :: "unit step" where
  "handleDeclare =
     then_do (need_tok Token0) (\<lambda>f.
     then_do (check (tid f = RSV_FUNCTION)) (\<lambda>_.
     then_do (need_tok Token0) (\<lambda>name.
     then_do (if tid name = TOK_OTHER TOK_IDENT then give ()
              else throw ''Tried to declare a non-identifier'') (\<lambda>_.
     then_do (need_tok Token0) (\<lambda>lparen.
     then_do (check (tid lparen = TOK_LPAREN)) (\<lambda>_.
     then_do (loop (\<lambda>tok.
       then_do (need_tok tok) (\<lambda>t1.
       if tid t1 = TOK_RPAREN then give (Inr t1)
       else then_do (check (tid t1 = TOK_OTHER TOK_IDENT)) (\<lambda>_.
            then_do (peek_tok t1) (\<lambda>(_, t2).
              if tid t2 = TOK_COMMA then then_do (get_tok t2) (\<lambda>(_, t3). give (Inl t3))
              else if tid t2 = TOK_RPAREN then give (Inl t2)
              else fail)))) f) (\<lambda>last_tok.
     then_do (get_tok last_tok) (\<lambda>(_, t). check (tid t = TOK_SEMICOLON)))))))))"

section \<open>Modules and files\<close>

definition getpathof :: "string \<Rightarrow> string" where
  "getpathof file =
     (let r = dropWhile (\<lambda>ch. ch \<noteq> CHR 0x5C \<and> ch \<noteq> CHR ''/'') (rev file)
      in if r = [] then ''./'' else rev r)"

text \<open>A byte order mark is left out, an empty file cannot be read.\<close>

definition getFileContents :: "sources \<Rightarrow> string \<Rightarrow> string option" where
  "getFileContents src file =
     (case files src file of
        None \<Rightarrow> None
      | Some bytes \<Rightarrow>
          (let rest = (if take 3 bytes = [CHR 0xEF, CHR 0xBB, CHR 0xBF] then drop 3 bytes else bytes)
           in if rest = [] then None else Some (c_str rest)))"

definition first_file :: "sources \<Rightarrow> string \<Rightarrow> string \<Rightarrow> string" where
  "first_file src full alternative =
     (if files src full = None \<and> files src alternative \<noteq> None then alternative else full)"

definition module_file :: "sources \<Rightarrow> string \<Rightarrow> string \<Rightarrow> string" where
  "module_file src path name =
     first_file src (path @ name @ ''.em'') (ModuleDirectory src @ name @ ''.em'')"

definition include_file :: "sources \<Rightarrow> string \<Rightarrow> string \<Rightarrow> string option" where
  "include_file src path name =
     (let part = name @ ''.inc''
      in if hd part = CHR '':''
         then (case pkgdef_split src part of
                 None \<Rightarrow> None
               | Some (Some dir, rest) \<Rightarrow> Some (first_file src (dir @ rest) (dir @ ''include/'' @ rest))
               | Some (None, rest) \<Rightarrow> Some (PolScriptRoot src @ rest))
         else Some (first_file src (path @ part) (IncludeDirectory src @ part)))"

text \<open>A step on the text of a file; the text and the path of before come back.\<close>

definition in_file :: "string \<Rightarrow> string \<Rightarrow> 'a step \<Rightarrow> 'a step" where
  "in_file text path m c =
     and_parse (m (c\<lparr>ctext := text, current_file_path := path\<rparr>)) (\<lambda>(a, c').
       Parsed (a, c'\<lparr>ctext := ctext c, current_file_path := current_file_path c\<rparr>))"

text \<open>
  A constant that fails to compile makes the code leave the module out and go on; that is
  \<open>Undef\<close> here, since the functions that the constant mentions are not known then.
\<close>

definition unless_failed :: "'a step \<Rightarrow> 'a step" where
  "unless_failed m c = (case m c of Failed e \<Rightarrow> Undef | r \<Rightarrow> r)"

definition module_function :: "FunctionalityModule \<Rightarrow> FunctionalityModule step" where
  "module_function m =
     then_do readFunctionDeclaration (\<lambda>(uf, refs).
     then_do (need_tok Token0) (\<lambda>t.
     then_do (check (tid t = TOK_SEMICOLON)) (\<lambda>_.
     look (\<lambda>c.
     then_do (modify (add_function uf (mk_info refs False []))) (\<lambda>_.
       give (addFunction (uname uf) (Some (length (funcs (cenv c)))) m))))))"

definition read_module :: "string \<Rightarrow> unit step" where
  "read_module name =
     loop (\<lambda>m.
       then_do (peek_tok Token0) (\<lambda>(res, t).
       if res = 1 then then_do (modify (\<lambda>c. c\<lparr>cmods := cmods c @ [m]\<rparr>)) (\<lambda>_. give (Inr ()))
       else if tid t = RSV_CONST
       then then_do (get_tok t) (\<lambda>_. then_do (unless_failed handleConstDeclare) (\<lambda>_. give (Inl m)))
       else then_do (module_function m) (\<lambda>m'. give (Inl m'))))
     \<lparr>modulename = name, declared = [], functions_of = [], used_functions = []\<rparr>"

definition useModule :: "sources \<Rightarrow> string \<Rightarrow> unit step" where
  "useModule src name =
     look (\<lambda>c.
       if name \<in> modulename ` set (cmods c) then give ()
       else let full = module_file src (current_file_path c) name
            in case getFileContents src full of
                 None \<Rightarrow> fail
               | Some text \<Rightarrow> in_file text (getpathof full) (read_module name))"

definition handleUse :: "sources \<Rightarrow> unit step" where
  "handleUse src =
     then_do (need_tok Token0) (\<lambda>name.
     then_do (check (tid name = TOK_OTHER TOK_IDENT)) (\<lambda>_.
     then_do (need_tok Token0) (\<lambda>t.
     then_do (check (tid t = TOK_SEMICOLON \<and> length (tokval name) \<le> 10)) (\<lambda>_.
       useModule src (tokval name)))))"

text \<open>Each file is included once. The step is done on the text of the file.\<close>

definition include_once :: "sources \<Rightarrow> unit step \<Rightarrow> string \<Rightarrow> unit step" where
  "include_once src m name =
     look (\<lambda>c.
       case include_file src (current_file_path c) name of
         None \<Rightarrow> fail
       | Some full \<Rightarrow>
           if FullPath src full \<in> set (included c) then give ()
           else then_do (modify (\<lambda>c. c\<lparr>included := FullPath src full # included c\<rparr>)) (\<lambda>_.
                case getFileContents src full of
                  None \<Rightarrow> fail
                | Some text \<Rightarrow> in_file text (getpathof full) m))"

definition handleInclude :: "sources \<Rightarrow> unit step \<Rightarrow> unit step" where
  "handleInclude src m =
     then_do (need_tok Token0) (\<lambda>name.
     then_do (check (tid name = TOK_OTHER TOK_IDENT \<or> tid name = TOK_STRING)) (\<lambda>_.
     then_do (need_tok Token0) (\<lambda>t.
     then_do (check (tid t = TOK_SEMICOLON)) (\<lambda>_.
       include_once src m (tokval name)))))"

end
