(* ===== verification/Statements.thy ===== *)
theory Statements
  imports Declarations
begin

text \<open>
  The statements of \<^verbatim>\<open>pol-core/bscript/compiler.cpp\<close>: loops, conditions, the
  \<^verbatim>\<open>case\<close> statement and the dispatch on the first token of a statement. Jumps
  forward are emitted with the offset zero and patched when their target is known. A handler
  takes the compilation of the statements in it as its argument; \<open>getStatement_at\<close> gives it with
  a bound on their nesting.
\<close>

section \<open>Blocks of statements\<close>

text \<open>The result is the first token of the last statement, if there is a statement.\<close>

definition readblock :: "unit step \<Rightarrow> BTokenId \<Rightarrow> BTokenId option step" where
  "readblock S endtoken =
     loop (\<lambda>last_id. look (\<lambda>c. if ctext c = [] then fail
       else then_do (peek_tok Token0) (\<lambda>(_, t).
         if tid t = endtoken then then_do (get_tok Token0) (\<lambda>_. give (Inr last_id))
         else then_do S (\<lambda>_. give (Inl (Some (tid t))))))) None"

text \<open>Statements up to a token that is not taken; the result is the last token looked at.\<close>

definition statements_until :: "unit step \<Rightarrow> BTokenId set \<Rightarrow> BTokenId set \<Rightarrow> Token \<Rightarrow> Token step" where
  "statements_until S ends mismatched =
     loop (\<lambda>tok. look (\<lambda>c. if ctext c = [] then give (Inr tok)
       else then_do (peek_tok tok) (\<lambda>(_, t).
         if tid t \<in> ends then give (Inr t)
         else if tid t \<in> mismatched then fail
         else then_do S (\<lambda>_. give (Inl t)))))"

definition plain_block :: "unit step" where
  "plain_block = enterblock False False False"

definition labelled_block :: "unit step" where
  "labelled_block = enterblock True True True"

section \<open>Loops\<close>

text \<open>\<^verbatim>\<open>do\<close> and \<^verbatim>\<open>repeat\<close>, with the jump back if the condition holds or not.\<close>

definition until_loop :: "unit step \<Rightarrow> BTokenId \<Rightarrow> other_id \<Rightarrow> unit step" where
  "until_loop S endtoken jump =
     look (\<lambda>c0.
     then_do labelled_block (\<lambda>_.
     then_do (readblock S endtoken) (\<lambda>_.
     then_do emit_leaveblock (\<lambda>_.
     look (\<lambda>c1.
     then_do (patchblock_continues (next_pc c1)) (\<lambda>_.
     then_do (popblock True) (\<lambda>_.
     then_do (getExpr {SEMICOLON_TERM_ALLOWED}) (\<lambda>_.
     then_do (append_code (TOK_OTHER jump) TYP_RESERVED (next_pc c0)) (\<lambda>_.
     look (\<lambda>c2.
     then_do (patchblock_breaks (next_pc c2)) (\<lambda>_.
       popblock False)))))))))))"

definition handleDoClause :: "unit step \<Rightarrow> unit step" where
  "handleDoClause S = until_loop S RSV_DOWHILE RSV_JMPIFTRUE"

definition handleRepeatUntil :: "unit step \<Rightarrow> unit step" where
  "handleRepeatUntil S = until_loop S RSV_UNTIL RSV_JMPIFFALSE"

definition handleBracketedWhile :: "unit step \<Rightarrow> unit step" where
  "handleBracketedWhile S =
     look (\<lambda>c0. let conditional_expr_posn = next_pc c0 in
     then_do getExprInParens (\<lambda>_.
     then_do (append_code (TOK_OTHER RSV_JMPIFFALSE) TYP_RESERVED 0) (\<lambda>test_posn.
     then_do labelled_block (\<lambda>_.
     then_do (readblock S RSV_ENDWHILE) (\<lambda>_.
     then_do emit_leaveblock (\<lambda>_.
     then_do (append_code (TOK_OTHER RSV_GOTO) TYP_RESERVED conditional_expr_posn) (\<lambda>_.
     look (\<lambda>c1.
     then_do (put_jump (TOK_OTHER RSV_JMPIFFALSE) (next_pc c1) test_posn) (\<lambda>_.
     then_do (patchblock_continues conditional_expr_posn) (\<lambda>_.
     then_do (patchblock_breaks (next_pc c1)) (\<lambda>_.
       popblock False)))))))))))"

text \<open>
  The iterator, the value and the counter are variables of a hidden block, so that a break
  leaves only the block inside. An iterator that is not a name is reported, but the result is
  that of reading it.
\<close>

definition handleForEach :: "unit step \<Rightarrow> unit step" where
  "handleForEach S =
     then_do (get_tok Token0) (\<lambda>(_, itr).
     if tid itr \<noteq> TOK_OTHER TOK_IDENT then give ()
     else
       then_do (eatToken (TOK_OTHER TOK_IN)) (\<lambda>_.
       then_do getSimpleExpr (\<lambda>_.
       then_do plain_block (\<lambda>_.
       then_do (append_code INS_INITFOREACH TYP_RESERVED 0) (\<lambda>init_posn.
       then_do (addvar (tokval itr)) (\<lambda>_.
       then_do (addvar (''_'' @ tokval itr @ ''_expr'')) (\<lambda>_.
       then_do (addvar (''_'' @ tokval itr @ ''_iter'')) (\<lambda>_.
       look (\<lambda>c0.
       then_do labelled_block (\<lambda>_.
       then_do (readblock S RSV_ENDFOREACH) (\<lambda>_.
       then_do emit_leaveblock (\<lambda>_.
       then_do (append_code INS_STEPFOREACH TYP_RESERVED (next_pc c0)) (\<lambda>step_posn.
       then_do (patchoffset init_posn step_posn) (\<lambda>_.
       then_do (patchblock_continues step_posn) (\<lambda>_.
       look (\<lambda>c1.
       then_do (patchblock_breaks (next_pc c1)) (\<lambda>_.
       then_do (popblock False) (\<lambda>_.
         leaveblock 0 0))))))))))))))))))"

definition handleBracketedFor_basic :: "unit step \<Rightarrow> unit step" where
  "handleBracketedFor_basic S =
     then_do (get_tok Token0) (\<lambda>(_, itr).
     if tid itr \<noteq> TOK_OTHER TOK_IDENT then give ()
     else look (\<lambda>c.
       then_do (check (localexists (cenv c) (tokval itr) = None)) (\<lambda>_.
       then_do (eatToken TOK_ASSIGN) (\<lambda>_.
       then_do (getExpr {TO_TERM_ALLOWED}) (\<lambda>_.
       then_do (eatToken RSV_TO) (\<lambda>_.
       then_do (getExpr {AUTO_TERM_ALLOWED}) (\<lambda>_.
       then_do plain_block (\<lambda>_.
       then_do (append_code (TOK_OTHER INS_INITFOR) TYP_RESERVED 0) (\<lambda>initfor_posn.
       then_do (addvar (tokval itr)) (\<lambda>_.
       then_do (addvar (''_'' @ tokval itr @ ''_end'')) (\<lambda>_.
       look (\<lambda>c0.
       then_do labelled_block (\<lambda>_.
       then_do (readblock S RSV_ENDFOR) (\<lambda>_.
       then_do emit_leaveblock (\<lambda>_.
       then_do (append_code (TOK_OTHER INS_NEXTFOR) TYP_RESERVED (next_pc c0)) (\<lambda>nextfor_posn.
       then_do (patchblock_continues nextfor_posn) (\<lambda>_.
       look (\<lambda>c1.
       then_do (patchblock_breaks (next_pc c1)) (\<lambda>_.
       then_do (popblock False) (\<lambda>_.
       then_do (leaveblock 0 0) (\<lambda>_.
       look (\<lambda>c2. patchoffset initfor_posn (next_pc c2)))))))))))))))))))))))"

definition handleBracketedFor_c :: "unit step \<Rightarrow> unit step" where
  "handleBracketedFor_c S =
     then_do (eatToken TOK_LPAREN) (\<lambda>_.
     then_do labelled_block (\<lambda>_.
     then_do (read_expr {SEMICOLON_TERM_ALLOWED}) (\<lambda>initial_expr.
     then_do (read_expr {SEMICOLON_TERM_ALLOWED}) (\<lambda>predicate_expr.
     then_do (read_expr {RIGHTPAREN_TERM_ALLOWED}) (\<lambda>iterate_expr.
     then_do (need_tok Token0) (\<lambda>t.
     then_do (check (tid t = TOK_RPAREN)) (\<lambda>_.
     then_do (inject initial_expr) (\<lambda>_.
     then_do (append_code TOK_CONSUMER TYP_UNARY_OPERATOR 0) (\<lambda>_.
     look (\<lambda>c0. let againPC = next_pc c0 in
     then_do (inject predicate_expr) (\<lambda>_.
     then_do (append_code (TOK_OTHER RSV_JMPIFFALSE) TYP_RESERVED 0) (\<lambda>if_posn.
     then_do plain_block (\<lambda>_.
     then_do (readblock S RSV_ENDFOR) (\<lambda>_.
     then_do (leaveblock 0 0) (\<lambda>_.
     look (\<lambda>c1. let continuePC = next_pc c1 in
     then_do (inject iterate_expr) (\<lambda>_.
     then_do (append_code TOK_CONSUMER TYP_UNARY_OPERATOR 0) (\<lambda>_.
     then_do (append_code (TOK_OTHER RSV_GOTO) TYP_RESERVED againPC) (\<lambda>_.
     look (\<lambda>c2.
     then_do (patchoffset if_posn (next_pc c2)) (\<lambda>_.
       leaveblock (next_pc c2) continuePC)))))))))))))))))))))"

definition handleFor :: "unit step \<Rightarrow> unit step" where
  "handleFor S =
     then_do (peek_tok Token0) (\<lambda>(res, t).
     then_do (check (res = 0)) (\<lambda>_.
       if tid t = TOK_LPAREN then handleBracketedFor_c S else handleBracketedFor_basic S))"

section \<open>Leaving\<close>

definition append_instruction :: "BTokenId \<Rightarrow> BTokenType \<Rightarrow> nat \<Rightarrow> unit step" where
  "append_instruction i ty off = then_do (append_code i ty off) (\<lambda>_. give ())"

definition handleReturn :: "unit step" where
  "handleReturn =
     then_do (peek_tok Token0) (\<lambda>(res, t).
     if res \<noteq> 0 then give ()
     else
       then_do
         (if tid t = TOK_SEMICOLON
          then then_do (get_tok t) (\<lambda>_. then_do (append_symbol (append_string [])) (\<lambda>posn.
               append_instruction TOK_STRING TYP_OPERAND posn))
          else then_do (getExpr {SEMICOLON_TERM_ALLOWED}) (\<lambda>_. give ())) (\<lambda>_.
       look (\<lambda>c.
         if inFunction c then append_instruction (TOK_OTHER RSV_RETURN) TYP_RESERVED 0
         else append_instruction (TOK_OTHER CTRL_PROGEND) TYP_CONTROL 0)))"

definition handleExit :: "unit step" where
  "handleExit = then_do (eatToken TOK_SEMICOLON) (\<lambda>_. append_instruction (TOK_OTHER RSV_EXIT) TYP_RESERVED 0)"

section \<open>Conditions\<close>

text \<open>What a rollback goes back to.\<close>

record checkpoint =
  module_count :: nat
  tokens_count :: nat
  symbols_length :: nat

definition commit :: "compiler \<Rightarrow> checkpoint" where
  "commit c =
     \<lparr>module_count = length (cmods c), tokens_count = next_pc c, symbols_length = length (syms (eprog c))\<rparr>"

definition rollback :: "checkpoint \<Rightarrow> unit step" where
  "rollback cp =
     modify (\<lambda>c. c\<lparr>cmods := take (module_count cp) (cmods c),
       eprog := \<lparr>tokens = take (tokens_count cp) (tokens (eprog c)),
                 syms = take (symbols_length cp) (syms (eprog c)),
                 callers = filter (\<lambda>(_, pos). pos < tokens_count cp) (callers (eprog c))\<rparr>\<rparr>)"

text \<open>
  The variables of the loop over the parts of a condition. \<open>if_token_posn\<close> is \<open>None\<close> for the
  position of -1; it keeps its value when the jump there is rolled back.
\<close>

record if_state =
  if_token :: Token
  jumpend :: "nat list"
  jumpend_size :: nat
  checkpt :: checkpoint
  discard_rest :: bool
  included_any_tests :: bool
  if_token_posn :: "nat option"

definition mismatched_ends :: "BTokenId set" where
  "mismatched_ends =
     {RSV_ENDFOREACH, RSV_DOWHILE, RSV_ENDWHILE, RSV_UNTIL, RSV_ENDFOR, RSV_ENDFUNCTION, RSV_ENDSWITCH,
      RSV_ENDPROGRAM, RSV_ENDENUM}"

text \<open>
  A condition and its jump. A condition that is a number is rolled back, and no jump is
  patched then; the result says whether one is and whether the part is left out.
\<close>

definition if_condition :: "if_state \<Rightarrow> (bool \<times> bool \<times> if_state) step" where
  "if_condition st =
     look (\<lambda>c0.
     then_do getExprInParens (\<lambda>ex.
     if ex = [] then (\<lambda>c. Undef)
     else
       then_do
         (if tid (List.last ex) = TOK_LOG_NOT
          then look (\<lambda>c. then_do (put_jump (TOK_OTHER RSV_JMPIFTRUE) 0 (next_pc c - 1)) (\<lambda>_. give (next_pc c - 1)))
          else append_code (TOK_OTHER RSV_JMPIFFALSE) TYP_RESERVED 0) (\<lambda>posn.
       let st1 = st\<lparr>if_token_posn := Some posn\<rparr>
       in if \<not> discard_rest st \<and> length ex = 1 \<and> tid (hd ex) = TOK_LONG
          then then_do (rollback (commit c0)) (\<lambda>_.
            if tlval (hd ex) \<noteq> 0 then give (False, False, st1\<lparr>discard_rest := True\<rparr>)
            else give (False, True, st1))
          else give (True, discard_rest st,
                 if discard_rest st then st1 else st1\<lparr>included_any_tests := True\<rparr>))))"

text \<open>The statements of a part, after an optional \<^verbatim>\<open>then\<close>; the result is the token after them.\<close>

definition if_block :: "unit step \<Rightarrow> Token \<Rightarrow> Token step" where
  "if_block S tok =
     then_do (peek_tok tok) (\<lambda>(_, t1).
     then_do (if tid t1 = RSV_THEN then get_tok t1 else give (0, t1)) (\<lambda>(_, t2).
     then_do plain_block (\<lambda>_.
     then_do (statements_until S {RSV_ELSEIF, RSV_ELSE, RSV_ENDIF} {} t2) (\<lambda>t3.
     then_do (leaveblock 0 0) (\<lambda>_.
     look (\<lambda>c. if ctext c = [] then fail else give t3))))))"

text \<open>The end of a part: the jump to the end of the statement, and the jump of the condition.\<close>

definition if_jump_end :: "if_state \<Rightarrow> if_state step" where
  "if_jump_end st =
     (if tid (if_token st) = RSV_ELSEIF \<or> tid (if_token st) = RSV_ELSE
      then then_do (append_code (TOK_OTHER RSV_GOTO) TYP_RESERVED 0) (\<lambda>posn.
           let st1 = st\<lparr>jumpend := jumpend st @ [posn]\<rparr>
           in if tid (if_token st) = RSV_ELSEIF
              then then_do skip_blanks (\<lambda>_. then_do (get_tok (if_token st)) (\<lambda>(_, t). give (st1\<lparr>if_token := t\<rparr>)))
              else give st1)
      else give st)"

definition discard_part :: "nat option \<Rightarrow> if_state \<Rightarrow> if_state step" where
  "discard_part last_posn st =
     then_do (rollback (checkpt st)) (\<lambda>_.
     look (\<lambda>c.
     then_do
       (case last_posn of
          Some posn \<Rightarrow> if posn < next_pc c then patchoffset posn (next_pc c) else give ()
        | None \<Rightarrow> give ()) (\<lambda>_.
       give (st\<lparr>jumpend := take (jumpend_size st) (jumpend st)\<rparr>))))"

definition if_part :: "unit step \<Rightarrow> if_state \<Rightarrow> (if_state + if_state) step" where
  "if_part S st0 =
     then_do (if_condition st0) (\<lambda>(patch_if, discard_this, st1).
     then_do (if_block S (if_token st1)) (\<lambda>tok.
     look (\<lambda>c.
     let st2 = st1\<lparr>if_token := tok\<rparr>;
         st3 = (if discard_this then st2 else st2\<lparr>checkpt := commit c, jumpend_size := length (jumpend st2)\<rparr>)
     in then_do (if_jump_end st3) (\<lambda>st4.
        then_do (case (patch_if, if_token_posn st4) of
                   (True, Some posn) \<Rightarrow> look (\<lambda>c. patchoffset posn (next_pc c))
                 | _ \<Rightarrow> give ()) (\<lambda>_.
        then_do (if discard_this then discard_part (if_token_posn st0) st4 else give st4) (\<lambda>st5.
          give (if tid (if_token st5) \<in> {RSV_ST_IF, RSV_ELSEIF} then Inl st5 else Inr st5)))))))"

primrec jumps_end :: "nat list \<Rightarrow> unit step" where
  "jumps_end [] = give ()"
| "jumps_end (pc # pcs) =
     then_do (look (\<lambda>c. put_jump (TOK_OTHER RSV_GOTO) (next_pc c) pc)) (\<lambda>_. jumps_end pcs)"

definition handleBracketedIf :: "unit step \<Rightarrow> unit step" where
  "handleBracketedIf S =
     look (\<lambda>c0.
     then_do (loop (if_part S)
       \<lparr>if_token = Token0\<lparr>tid := RSV_ST_IF\<rparr>, jumpend = [], jumpend_size = 0, checkpt = commit c0,
        discard_rest = False, included_any_tests = False, if_token_posn = None\<rparr>) (\<lambda>st.
     then_do (peek_tok (if_token st)) (\<lambda>(_, t1).
     then_do (check (tid t1 = RSV_ENDIF \<or> tid t1 = RSV_ELSE)) (\<lambda>_.
     then_do
       (if tid t1 = RSV_ELSE
        then then_do (get_tok t1) (\<lambda>(_, t2).
             then_do plain_block (\<lambda>_.
             then_do (statements_until S {RSV_ENDIF} mismatched_ends t2) (\<lambda>t3.
             then_do (leaveblock 0 0) (\<lambda>_. give t3))))
        else give t1) (\<lambda>t4.
     look (\<lambda>c1.
     then_do (check (ctext c1 \<noteq> [])) (\<lambda>_.
     then_do (get_tok t4) (\<lambda>(_, t5).
     then_do (check (tid t5 = RSV_ENDIF)) (\<lambda>_.
       if discard_rest st \<and> \<not> included_any_tests st
       then then_do (rollback (checkpt st)) (\<lambda>_. jumps_end (rev (take (jumpend_size st) (jumpend st))))
       else jumps_end (rev (jumpend st)))))))))))"

section \<open>The case statement\<close>

text \<open>The identifier and the value of a token that may be a constant.\<close>

definition constant_of :: "compile_env \<Rightarrow> token \<Rightarrow> token" where
  "constant_of env t = (case map_of (constants env) (tokval t) of Some k \<Rightarrow> plain_token k | None \<Rightarrow> t)"

definition is_default :: "Token \<Rightarrow> bool" where
  "is_default t \<longleftrightarrow> tid t = CTRL_LABEL \<and> ci_key (tokval t) = ''default''"

text \<open>The entry of a value: none when the value is neither a number nor a string.\<close>

definition option_entry :: "nat \<Rightarrow> token \<Rightarrow> string option" where
  "option_entry pc t =
     (if tid t = TOK_LONG then Some (le_bytes 2 pc @ char_of CASE_TYPE_LONG # le_bytes 4 (unat (tlval t)))
      else if tid t = TOK_STRING
      then (if length (c_str (tokval t)) \<ge> 254 then None
            else Some (le_bytes 2 pc @ char_of (length (c_str (tokval t))) # c_str (tokval t)))
      else Some [])"

text \<open>
  The values before some code: whether the statement ends, the position of the default (zero
  for none), the entries, and whether there is a value.
\<close>

type_synonym options = "bool \<times> nat \<times> string \<times> bool"

definition add_option :: "token \<Rightarrow> nat \<Rightarrow> string \<Rightarrow> (options + options) step" where
  "add_option t default_posn block =
     look (\<lambda>c. case option_entry (next_pc c) t of
       None \<Rightarrow> fail
     | Some entry \<Rightarrow> give (Inl (False, default_posn, block @ entry, True)))"

definition switch_option :: "options \<Rightarrow> (options + options) step" where
  "switch_option opts =
     (case opts of (_, default_posn, block, anycases) \<Rightarrow>
      then_do (peek_tok Token0) (\<lambda>(_, t).
        if is_default t
        then then_do (get_tok t) (\<lambda>_. look (\<lambda>c.
             if default_posn \<noteq> 0 then fail else give (Inl (False, next_pc c, block, True))))
        else if tid t = CTRL_LABEL
        then look (\<lambda>c. let k = constant_of (cenv c) (plain_token t)
             in if tid k = CTRL_LABEL then give (Inr (False, default_posn, block, anycases))
                else then_do (get_tok Token0) (\<lambda>_. add_option k default_posn block))
        else if tid t = TOK_LONG \<or> tid t = TOK_STRING
        then then_do (get_tok t) (\<lambda>(_, t'). then_do (eatToken RSV_COLON) (\<lambda>_.
             add_option (plain_token t') default_posn block))
        else if tid t = RSV_ENDSWITCH \<and> anycases
        then then_do (get_tok t) (\<lambda>_. give (Inr (True, default_posn, block, anycases)))
        else give (Inr (False, default_posn, block, anycases))))"

definition switch_statements :: "unit step \<Rightarrow> bool \<Rightarrow> bool step" where
  "switch_statements S anycases =
     loop (\<lambda>_. look (\<lambda>c. if ctext c = [] then give (Inr False)
       else then_do (peek_tok Token0) (\<lambda>(_, t).
         if tid t = RSV_ENDSWITCH \<and> anycases then then_do (get_tok t) (\<lambda>_. give (Inr True))
         else if tid t = TOK_LONG \<or> tid t = TOK_STRING \<or> is_default t \<or>
              tid t = CTRL_LABEL \<and> tid (constant_of (cenv c) (plain_token t)) \<noteq> CTRL_LABEL
         then give (Inr False)
         else if \<not> anycases then fail
         else then_do S (\<lambda>_. give (Inl ()))))) ()"

definition switch_group ::
  "unit step \<Rightarrow> nat \<times> string \<times> nat list \<Rightarrow> (nat \<times> string \<times> nat list + nat \<times> string \<times> nat list) step" where
  "switch_group S st =
     (case st of (default_posn, block, jmpend) \<Rightarrow>
      then_do (loop switch_option (False, default_posn, block, False)) (\<lambda>(done1, default1, block1, anycases).
      if done1 then give (Inr (default1, block1, jmpend))
      else
        then_do (enterblock True True False) (\<lambda>_.
        then_do (switch_statements S anycases) (\<lambda>done2.
        then_do emit_leaveblock (\<lambda>_.
        look (\<lambda>c.
        then_do (patchblock_breaks (next_pc c)) (\<lambda>_.
        then_do (popblock False) (\<lambda>_.
          if done2 then give (Inr (default1, block1, jmpend))
          else then_do (append_code (TOK_OTHER RSV_GOTO) TYP_RESERVED 0) (\<lambda>posn.
               give (Inl (default1, block1, jmpend @ [posn])))))))))))"

definition handleSwitch :: "unit step \<Rightarrow> unit step" where
  "handleSwitch S =
     then_do getExprInParens (\<lambda>_.
     then_do (append_code (TOK_OTHER INS_CASEJMP) TYP_RESERVED 0) (\<lambda>casecmp_posn.
     then_do (loop (switch_group S) (0, [], [])) (\<lambda>(default_posn, block, jmpend).
     look (\<lambda>c.
     let default_at = (if default_posn = 0 then next_pc c else default_posn)
     in then_do (patch_all (rev jmpend) (next_pc c)) (\<lambda>_.
        then_do (append_symbol (append_data (block @ le_bytes 2 default_at @ [char_of CASE_TYPE_DEFAULT]))) (\<lambda>posn.
          patchoffset casecmp_posn posn))))))"

section \<open>Statements\<close>

definition compileContext :: "unit step \<Rightarrow> unit step" where
  "compileContext S =
     loop (\<lambda>_. look (\<lambda>c. if ctext c = [] then give (Inr ()) else then_do S (\<lambda>_. give (Inl ())))) ()"

text \<open>The last instructions of an expression are looked at to warn of one without an effect.\<close>

definition expression_statement :: "unit step" where
  "expression_statement =
     then_do (getExpr {SEMICOLON_TERM_ALLOWED, CONSUME_RESULT}) (\<lambda>ts.
     if ts = [] then give ()
     else look (\<lambda>c.
       then_do (if next_pc c = 0 then throw ''Retrieving token at invalid position'' else atGet1 (next_pc c - 1)) (\<lambda>st.
         if st_id st = TOK_CONSUMER \<and> next_pc c = 1 then throw ''Retrieving token at invalid position''
         else give ())))"

definition labelled_statement :: "Token \<Rightarrow> unit step" where
  "labelled_statement t =
     then_do (get_tok t) (\<lambda>(_, label).
     then_do (peek_tok Token0) (\<lambda>(res, precedes).
     then_do (check (res = 0 \<and> tid precedes \<in> {RSV_SWITCH, RSV_FOREACH, RSV_REPEAT, RSV_WHILE, RSV_DO, RSV_FOR})) (\<lambda>_.
       modify (\<lambda>c. c\<lparr>latest_label := tokval label\<rparr>))))"

definition reserved_statement :: "sources \<Rightarrow> unit step \<Rightarrow> Token \<Rightarrow> unit step" where
  "reserved_statement src S t =
     (if tid t = RSV_OPTION_BRACKETED then give ()
      else if tid t = RSV_DECLARE then handleDeclare
      else if tid t = RSV_EXPORTED \<or> tid t = RSV_FUNCTION then handleBracketedFunction2 (ttype t)
      else if tid t = RSV_USE_MODULE then handleUse src
      else if tid t = RSV_INCLUDE_FILE then handleInclude src (compileContext S)
      else if tid t = RSV_PROGRAM then handleProgram
      else if tid t = TOK_OTHER RSV_RETURN then handleReturn
      else if tid t = TOK_OTHER RSV_EXIT then handleExit
      else if tid t = RSV_ST_IF then handleBracketedIf S
      else if tid t = RSV_FOR then handleFor S
      else if tid t = RSV_FOREACH then handleForEach S
      else if tid t = RSV_SWITCH then handleSwitch S
      else if tid t = RSV_REPEAT then handleRepeatUntil S
      else if tid t = RSV_DO then handleDoClause S
      else if tid t = RSV_WHILE then handleBracketedWhile S
      else if tid t = RSV_BREAK then handleBreak
      else if tid t = RSV_CONTINUE then handleContinue
      else if tid t = RSV_VAR then look (\<lambda>c. handleVarDeclare (inGlobalScope c))
      else if tid t = RSV_CONST then handleConstDeclare
      else if tid t = RSV_ENUM then handleEnumDeclare
      else fail)"

text \<open>An exception ends here as an error.\<close>

definition catching :: "'a step \<Rightarrow> 'a step" where
  "catching m c = (case m c of Thrown e \<Rightarrow> Failed None | r \<Rightarrow> r)"

definition getStatement :: "sources \<Rightarrow> unit step \<Rightarrow> unit step" where
  "getStatement src S =
     catching
       (then_do skip_blanks (\<lambda>_.
        then_do (peek_tok Token0) (\<lambda>(res, t).
        if res = 1 then then_do (get_tok t) (\<lambda>_. give ())
        else if ttype t = TYP_RESERVED
        then then_do (get_tok t) (\<lambda>(_, t'). reserved_statement src S t')
        else if ttype t = TYP_LABEL then labelled_statement t
        else expression_statement)))"

primrec getStatement_at :: "sources \<Rightarrow> nat \<Rightarrow> unit step" where
  "getStatement_at src 0 = (\<lambda>c. OutOfFuel)"
| "getStatement_at src (Suc n) = getStatement src (getStatement_at src n)"

end
