(* ===== verification/Compiler.thy ===== *)
theory Compiler
  imports Statements
begin

text \<open>
  The compilation of a whole script in \<^verbatim>\<open>pol-core/bscript/compiler.cpp\<close>: a first
  pass reads the declarations of constants and functions in it and in the files it includes, a
  second one compiles the statements, then the program, and then the functions that are called.
  At the end the calls get the addresses of the functions.
\<close>

section \<open>Web pages\<close>

text \<open>
  A page becomes a script that writes the text outside \<open><%\<close> and \<open>%>\<close>. The first argument
  tells text from script, the second a script whose value is written.
\<close>

definition write_raw :: "string \<Rightarrow> string" where
  "write_raw acc = (if acc = [] then [] else ''WriteHtmlRaw( '' @ CHR 0x22 # acc @ CHR 0x22 # '');'' @ [CHR 0x0A])"

function web_source :: "bool \<Rightarrow> bool \<Rightarrow> string \<Rightarrow> string \<Rightarrow> string" where
  "web_source html emits acc [] = write_raw acc"
| "web_source html emits acc (ch # s) =
     (if html
      then (if ch = CHR ''<'' \<and> take 1 s = ''%''
            then write_raw acc @
                 (if take 1 (drop 1 s) = ''='' then ''WriteHtmlRaw( '' @ web_source False True [] (drop 2 s)
                  else web_source False False [] (drop 1 s))
            else web_source True emits
                   (acc @ (if ch = CHR 0x22 then [CHR 0x5C, CHR 0x22]
                           else if ch = CHR 0x0D then []
                           else if ch = CHR 0x0A then [CHR 0x5C, CHR ''n'']
                           else [ch])) s)
      else if ch = CHR ''%'' \<and> take 1 s = ''>''
      then (if emits then '' );'' @ [CHR 0x0A] else []) @ web_source True emits acc (drop 1 s)
      else ch # web_source False emits acc s)"
  by pat_completeness auto
termination
  by (relation "measure (\<lambda>(_, _, _, s). length s)") auto

definition preprocess_web_script :: "string \<Rightarrow> string" where
  "preprocess_web_script s = ''use http;'' @ CHR 0x0A # web_source True False [] s"

definition is_web_script :: "string \<Rightarrow> bool" where
  "is_web_script file \<longleftrightarrow>
     (let ends = (\<lambda>ext. case find_sub ext file of Some i \<Rightarrow> drop i file = ext | None \<Rightarrow> False)
      in ends ''.hsr'' \<or> ends ''.asp'')"

section \<open>The first pass\<close>

text \<open>A token, or nothing when there is none or it cannot be read.\<close>

definition try_tok :: "Token \<Rightarrow> Token option step" where
  "try_tok tok c =
     (case get_tok tok c of
        Failed e \<Rightarrow> Parsed (None, c)
      | Parsed ((res, t), c') \<Rightarrow> Parsed (if res = 0 then Some t else None, c')
      | Thrown e \<Rightarrow> Thrown e | Undef \<Rightarrow> Undef | OutOfFuel \<Rightarrow> OutOfFuel)"

definition on_named :: "(string \<Rightarrow> unit step) \<Rightarrow> unit step" where
  "on_named f =
     then_do (try_tok Token0) (\<lambda>t. case t of
         Some name \<Rightarrow> if tid name = TOK_OTHER TOK_IDENT \<or> tid name = TOK_STRING then f (tokval name) else give ()
       | None \<Rightarrow> give ())"

definition inner_read_function_declarations :: "sources \<Rightarrow> unit step \<Rightarrow> unit step" where
  "inner_read_function_declarations src R =
     loop (\<lambda>tkn. look (\<lambda>c0.
       then_do (try_tok tkn) (\<lambda>t. case t of
         None \<Rightarrow> give (Inr ())
       | Some t \<Rightarrow>
           then_do
             (if tid t = RSV_CONST then handleConstDeclare
              else if tid t = RSV_ENUM then handleEnumDeclare
              else if tid t = RSV_FUNCTION \<or> tid t = RSV_EXPORTED
              then then_do (modify (\<lambda>c. c\<lparr>ctext := ctext c0\<rparr>)) (\<lambda>_. forward_read_function)
              else if tid t = RSV_INCLUDE_FILE then on_named (include_once src R)
              else if tid t = RSV_USE_MODULE then on_named (useModule src)
              else give ()) (\<lambda>_. give (Inl t))))) Token0"

primrec read_declarations_at :: "sources \<Rightarrow> nat \<Rightarrow> unit step" where
  "read_declarations_at src 0 = (\<lambda>c. OutOfFuel)"
| "read_declarations_at src (Suc n) = inner_read_function_declarations src (read_declarations_at src n)"

definition read_function_declarations :: "sources \<Rightarrow> nat \<Rightarrow> unit step" where
  "read_function_declarations src n =
     look (\<lambda>c0. then_do (read_declarations_at src n) (\<lambda>_.
       modify (\<lambda>c. c\<lparr>ctext := ctext c0, included := [], cmods := [], cenv := (cenv c)\<lparr>constants := []\<rparr>\<rparr>)))"

section \<open>The program\<close>

text \<open>
  The result of using a standard module is not looked at. A file that is missing changes
  nothing; one with an error is \<open>Undef\<close>, since what has been read of it stays.
\<close>

definition use_standard :: "sources \<Rightarrow> string \<Rightarrow> unit step" where
  "use_standard src name =
     look (\<lambda>c.
       if getFileContents src (module_file src (current_file_path c) name) = None then give ()
       else unless_failed (useModule src name))"

definition program_argument :: "Token \<Rightarrow> unit step" where
  "program_argument t =
     look (\<lambda>c.
     then_do (check (localexists (cenv c) (tokval t) = None)) (\<lambda>_.
     then_do (append_symbol (append_string (tokval t))) (\<lambda>posn.
     then_do (append_code (TOK_OTHER INS_GET_ARG) TYP_OPERATOR posn) (\<lambda>_.
     then_do (addvar (tokval t)) (\<lambda>_.
     then_do (peek_tok t) (\<lambda>(_, t1).
       if tid t1 = TOK_COMMA then then_do (get_tok t1) (\<lambda>_. give ()) else give ()))))))"

definition handleProgram2 :: "unit step \<Rightarrow> unit step" where
  "handleProgram2 S =
     then_do (get_tok Token0) (\<lambda>(_, name).
     then_do (check (tid name = TOK_OTHER TOK_IDENT)) (\<lambda>_.
     then_do plain_block (\<lambda>_.
     then_do (eatToken TOK_LPAREN) (\<lambda>_.
     then_do (loop (\<lambda>n.
       then_do (need_tok Token0) (\<lambda>t1.
       then_do (if tid t1 = TOK_UNUSED then need_tok t1 else give t1) (\<lambda>t.
         if tid t = TOK_RPAREN then give (Inr n)
         else if tid t = TOK_OTHER TOK_IDENT
         then then_do (program_argument t) (\<lambda>_. give (Inl (n + 1)))
         else fail))) 0) (\<lambda>n.
     then_do (modify (\<lambda>c. c\<lparr>program_args := Some n\<rparr>)) (\<lambda>_.
     then_do (readblock S RSV_ENDPROGRAM) (\<lambda>_.
       leaveblock 0 0)))))))"

definition compile :: "sources \<Rightarrow> unit step \<Rightarrow> unit step" where
  "compile src S =
     then_do (append_symbol (append_string [])) (\<lambda>_.
     then_do (use_standard src ''basic'') (\<lambda>_.
     then_do (use_standard src ''basicio'') (\<lambda>_.
     then_do (compileContext S) (\<lambda>_.
     look (\<lambda>c.
     then_do (case program_text c of
                None \<Rightarrow> give ()
              | Some body \<Rightarrow> in_file body (current_file_path c) (handleProgram2 S)) (\<lambda>_.
       append_instruction (TOK_OTHER CTRL_PROGEND) TYP_CONTROL 0))))))"

section \<open>Functions\<close>

definition set_info :: "nat \<Rightarrow> (function_info \<Rightarrow> function_info) \<Rightarrow> unit step" where
  "set_info f g = modify (\<lambda>c. c\<lparr>infos := (infos c)[f := g (infos c ! f)]\<rparr>)"

text \<open>The code that pops the parameters, the last one first.\<close>

primrec pop_params :: "(string \<times> bool) list \<Rightarrow> unit step" where
  "pop_params [] = give ()"
| "pop_params (p # ps) =
     (case p of (name, by_reference) \<Rightarrow>
      then_do (append_symbol (append_string name)) (\<lambda>posn.
      then_do (append_code (TOK_OTHER (if by_reference then INS_POP_PARAM_BYREF else INS_POP_PARAM)) TYP_OPERATOR posn) (\<lambda>_.
      then_do (addvar name) (\<lambda>_. pop_params ps))))"

text \<open>What an exported function is called through.\<close>

definition export_stub :: "string \<Rightarrow> nat \<Rightarrow> unit step" where
  "export_stub name nargs =
     look (\<lambda>c.
     then_do (modify (\<lambda>c. c\<lparr>exported_functions := exported_functions c @ [(name, nargs, next_pc c)]\<rparr>)) (\<lambda>_.
     then_do (append_instruction CTRL_MAKELOCAL TYP_CONTROL 0) (\<lambda>_.
     then_do (append_instruction CTRL_JSR_USERFUNC TYP_CONTROL (next_pc c + 3)) (\<lambda>_.
       append_instruction (TOK_OTHER CTRL_PROGEND) TYP_CONTROL 0))))"

text \<open>
  The first token of the last statement tells whether the function ends with a return. In a
  function without a statement the code reads it uninitialised.
\<close>

definition handleBracketedFunction3 :: "unit step \<Rightarrow> nat \<Rightarrow> unit step" where
  "handleBracketedFunction3 S f =
     look (\<lambda>c0. let uf = funcs (cenv c0) ! f; info = infos c0 ! f in
     then_do (modify (\<lambda>c. c\<lparr>inFunction := True\<rparr>)) (\<lambda>_.
     then_do (if exported info then export_stub (uname uf) (length (parameters uf)) else give ()) (\<lambda>_.
     then_do (look (\<lambda>c. set_info f (\<lambda>i. i\<lparr>position := next_pc c\<rparr>))) (\<lambda>_.
     then_do plain_block (\<lambda>_.
     then_do (pop_params (rev (zip (map pname (parameters uf)) (pass_by_reference info)))) (\<lambda>_.
     then_do (readblock S RSV_ENDFUNCTION) (\<lambda>last_statement_id.
     case last_statement_id of
       None \<Rightarrow> (\<lambda>c. Undef)
     | Some i \<Rightarrow>
         look (\<lambda>c.
         then_do (atGet1 (next_pc c - 1)) (\<lambda>_.
         then_do
           (if i \<noteq> TOK_OTHER RSV_RETURN
            then then_do (append_symbol (append_int 0)) (\<lambda>posn.
                 then_do (append_instruction TOK_LONG TYP_OPERAND posn) (\<lambda>_.
                   append_instruction (TOK_OTHER RSV_RETURN) TYP_RESERVED 0))
            else give ()) (\<lambda>_.
         then_do (popblock False) (\<lambda>_.
           modify (\<lambda>c. c\<lparr>inFunction := False\<rparr>))))))))))))"

definition emit_function :: "unit step \<Rightarrow> nat \<Rightarrow> unit step" where
  "emit_function S f =
     look (\<lambda>c.
     then_do (in_file (function_body (infos c ! f)) (current_file_path c) (handleBracketedFunction3 S f)) (\<lambda>_.
       set_info f (\<lambda>i. i\<lparr>emitted := True\<rparr>)))"

primrec emit_round :: "sources \<Rightarrow> unit step \<Rightarrow> nat list \<Rightarrow> bool \<Rightarrow> bool step" where
  "emit_round src S [] any = give any"
| "emit_round src S (f # fs) any =
     look (\<lambda>c. let info = infos c ! f in
       if (exported info \<or> compiling_include src \<or> f \<in> fst ` set (callers (eprog c))) \<and> \<not> emitted info
       then then_do (emit_function S f) (\<lambda>_. emit_round src S fs True)
       else emit_round src S fs any)"

definition patch_callers :: "nat \<Rightarrow> unit step" where
  "patch_callers f =
     look (\<lambda>c. if emitted (infos c ! f)
       then patch_all (map snd (filter (\<lambda>(g, _). g = f) (callers (eprog c)))) (position (infos c ! f))
       else give ())"

primrec each_function :: "(nat \<Rightarrow> unit step) \<Rightarrow> nat list \<Rightarrow> unit step" where
  "each_function m [] = give ()"
| "each_function m (f # fs) = then_do (m f) (\<lambda>_. each_function m fs)"

text \<open>Each round but the last emits a function.\<close>

definition emit_functions :: "sources \<Rightarrow> unit step \<Rightarrow> unit step" where
  "emit_functions src S =
     look (\<lambda>c. let fs = map snd (userFunctions (cenv c)) in
     then_do (rounds (Suc (length fs)) (\<lambda>_. then_do (emit_round src S fs False) (\<lambda>any.
                give (if any then Inl () else Inr ()))) ()) (\<lambda>_.
       each_function patch_callers fs))"

section \<open>Scripts\<close>

definition file_text :: "string \<Rightarrow> string \<Rightarrow> string" where
  "file_text path bytes =
     (let rest = (if take 3 bytes = [CHR 0xEF, CHR 0xBB, CHR 0xBF] then drop 3 bytes else bytes)
      in c_str (if is_web_script path then preprocess_web_script (c_str rest) else rest))"

definition new_compiler :: "bool \<Rightarrow> string \<Rightarrow> string \<Rightarrow> compiler" where
  "new_compiler opt path text =
     \<lparr>ctext = text, cmods = [],
      cenv = \<lparr>funcs = [], userFunctions = [], constants = [], localscope = [], globalvars = [],
              OptimizeObjectMembers = opt\<rparr>,
      infos = [], blocks = [], latest_label = [], inFunction = False, program_text = None,
      program_args = None, exported_functions = [], current_file_path = path, included = [],
      eprog = \<lparr>tokens = [], syms = [], callers = []\<rparr>\<rparr>"

definition compile_text :: "sources \<Rightarrow> nat \<Rightarrow> unit step" where
  "compile_text src n =
     then_do (read_function_declarations src n) (\<lambda>_.
     then_do (compile src (getStatement_at src n)) (\<lambda>_.
       emit_functions src (getStatement_at src n)))"

text \<open>An exception is an error here, as a file that cannot be opened is.\<close>

definition compileFile :: "sources \<Rightarrow> bool \<Rightarrow> nat \<Rightarrow> string \<Rightarrow> compiler parsed" where
  "compileFile src opt n in_file_name =
     (let path = FullPath src in_file_name
      in case files src path of
           None \<Rightarrow> Failed None
         | Some bytes \<Rightarrow>
             and_parse (catching (compile_text src n) (new_compiler opt (getpathof path) (file_text path bytes)))
               (\<lambda>(_, c). Parsed c))"

end
