(* ===== verification/ParserEnds.thy ===== *)
theory ParserEnds
  imports Parser
begin

text \<open>
  The expression parser ends on every text. Every call of its functions takes at least one
  token from the text or goes a bounded number of calls deeper, so that a bound linear in the
  length of the text is enough fuel.
\<close>

section \<open>Tokens are not empty\<close>

lemma eatToEndOfLine_length: "length (eatToEndOfLine s) \<le> length s"
  by (simp add: eatToEndOfLine_def length_dropWhile_le)

lemma eatToCommentEnd_length: "eatToCommentEnd n s = Lexed t \<Longrightarrow> length t \<le> length s"
proof (induction n arbitrary: s t)
  case (Suc n)
  have IH: "eatToCommentEnd n u = Lexed v \<Longrightarrow> length v \<le> length u" for u v by (rule Suc.IH)
  show ?case
  proof (cases "s = [] \<or> starts_with ''*/'' s")
    case True
    then show ?thesis using Suc.prems by (auto split: if_splits)
  next
    case False
    let ?inner = "if starts_with ''/*'' s then eatToCommentEnd n (drop 2 s)
           else if starts_with ''//'' s then Lexed (eatToEndOfLine s) else Lexed s"
    obtain u where u: "?inner = Lexed u" "u \<noteq> []" "eatToCommentEnd n (tl u) = Lexed t"
      using Suc.prems False by (simp only: eatToCommentEnd.simps Let_def) (auto split: lexed.splits if_splits)
    have "length u \<le> length s"
      using u(1) IH[of "drop 2 s" u] eatToEndOfLine_length[of s] by (auto split: if_splits)
    then show ?thesis using IH[OF u(3)] by simp
  qed
qed simp

lemma skipcomments_from_length:
  "skipcomments_from n s = Lexed (b, t) \<Longrightarrow> length t \<le> length s \<and> (b \<longleftrightarrow> t = [])"
proof (induction n arbitrary: s)
  case (Suc n)
  define u where "u = dropWhile isspace s"
  have step: "skipcomments_from (Suc n) s =
      (if u = [] then Lexed (True, u)
       else if starts_with ''/*'' u
       then (case eatToCommentEnd (length u) (drop 2 u) of
               Lexed t' \<Rightarrow> skipcomments_from n t' | Err e \<Rightarrow> Err e | Over \<Rightarrow> Over)
       else if starts_with ''//'' u then skipcomments_from n (eatToEndOfLine u)
       else Lexed (False, u))"
    by (simp only: skipcomments_from.simps Let_def u_def)
  have u: "length u \<le> length s" by (simp add: u_def length_dropWhile_le)
  have comment: "eatToCommentEnd m (drop 2 u) = Lexed v \<Longrightarrow> length v \<le> length s" for m v
    using eatToCommentEnd_length[of m "drop 2 u" v] u by simp
  have line: "length (eatToEndOfLine u) \<le> length s" using eatToEndOfLine_length[of u] u by linarith
  have IH: "skipcomments_from n v = Lexed (b, t) \<Longrightarrow> length v \<le> length s \<Longrightarrow> length t \<le> length s \<and> (b \<longleftrightarrow> t = [])" for v
    using Suc.IH[of v] by linarith
  show ?case using Suc.prems u comment line IH
    unfolding step by (auto split: if_splits lexed.splits)
qed simp

lemma skipcomments_length: "skipcomments s = Lexed (b, t) \<Longrightarrow> length t \<le> length s \<and> (b \<longleftrightarrow> t = [])"
  unfolding skipcomments_def by (rule skipcomments_from_length)

lemma match_one_code: "match_one ops c n m = (k, Some op) \<Longrightarrow> (\<And>q. m = Some q \<Longrightarrow> fst q \<noteq> []) \<Longrightarrow> fst op \<noteq> []"
proof (induction ops arbitrary: n m)
  case (Cons p ops)
  obtain code i prec t ambig where p: "p = (code, i, prec, t, ambig)" by (cases p) auto
  show ?case using Cons.prems Cons.IH[of n m] Cons.IH[of n "Some p"] Cons.IH[of "n + 1" m]
    by (auto simp: p split: if_splits)
qed auto

lemma matchOperators_code: "matchOperators ops b = (k, Some op) \<Longrightarrow> b \<noteq> [] \<Longrightarrow> fst op \<noteq> []"
proof (cases "length b = 1")
  case True
  then obtain c where "b = [c]" by (cases b) auto
  moreover assume "matchOperators ops b = (k, Some op)"
  ultimately show ?thesis using match_one_code[of ops c 0 None k op] by (simp add: matchOperators_def)
next
  case False
  assume a: "matchOperators ops b = (k, Some op)" "b \<noteq> []"
  then have "(case b of [c] \<Rightarrow> match_one ops c 0 None | _ \<Rightarrow> (0, find (\<lambda>(code, _). take 2 code = take 2 b) ops)) =
      (0, find (\<lambda>(code, _). take 2 code = take 2 b) ops)"
    using False by (auto split: list.splits)
  then have "find (\<lambda>(code, _). take 2 code = take 2 b) ops = Some op" using a(1) by (simp add: matchOperators_def)
  then have "take 2 (fst op) = take 2 b" by (auto simp: find_Some_iff)
  then show ?thesis using a(2) by (cases b) auto
qed

lemma operator_loop_code:
  "operator_loop ops s b pLast pMatch = Lexed (Some op) \<Longrightarrow>
     (\<And>q. pLast = Some q \<Longrightarrow> fst q \<noteq> []) \<Longrightarrow> (\<And>q. pMatch = Some q \<Longrightarrow> fst q \<noteq> []) \<Longrightarrow> fst op \<noteq> []"
proof (induction s arbitrary: b pLast pMatch)
  case (Cons c t)
  obtain n m where m: "matchOperators ops (b @ [c]) = (n, m)" by (cases "matchOperators ops (b @ [c])")
  have code: "m = Some q \<Longrightarrow> fst q \<noteq> []" for q using matchOperators_code m by auto
  show ?case using Cons.prems code Cons.IH[of "b @ [c]" "if m \<noteq> None then m else pLast" m]
    by (auto simp: m Let_def split: if_splits)
qed (auto split: if_splits)

lemma tryOperator_shorter:
  assumes "tryOperator ops tok s = Lexed (Some (t, r))" "s \<noteq> []"
  shows "length r < length s"
proof -
  obtain op where op: "operator_loop ops s [] None None = Lexed (Some op)" "r = drop (length (fst op)) s"
    using assms(1) by (auto simp: tryOperator_def split: lexed.splits option.splits)
  have "fst op \<noteq> []" using operator_loop_code[OF op(1)] by simp
  then show ?thesis using op(2) assms(2) by simp
qed

lemma read_string_length: "read_string s lit b h = Lexed (l, r) \<Longrightarrow> length r \<le> length s"
proof (induction s arbitrary: lit b h)
  case (Cons c t)
  have IH: "read_string t lit b h = Lexed (l, r) \<Longrightarrow> length r \<le> Suc (length t)" for lit b h
    using Cons.IH[of lit b h] by simp
  show ?case
  proof (cases b)
    case True
    then show ?thesis using Cons.prems by (auto split: if_splits dest: IH)
  next
    case not_escape: False
    show ?thesis
    proof (cases h)
      case None
      then show ?thesis using Cons.prems not_escape by (auto split: if_splits dest: IH)
    next
      case (Some x)
      show ?thesis
      proof (cases x)
        case Nil
        then show ?thesis using Cons.prems not_escape Some by (auto dest: IH)
      next
        case (Cons y ys)
        then show ?thesis using \<open>read_string (c # t) lit b h = Lexed (l, r)\<close> not_escape Some
          by (cases "strtol 16 (y # ys @ [c])") (auto split: if_splits dest: IH)
      qed
    qed
  qed
qed simp

lemma Parser_tryLiteral_shorter:
  assumes "Parser_tryLiteral tok s = Lexed (Some (t, r))"
  shows "length r < length s"
proof -
  obtain c u where s: "s = c # u" using assms by (cases s) (auto simp: Parser_tryLiteral_def)
  show ?thesis
  proof (cases "c = CHR 0x22")
    case True
    then show ?thesis using assms read_string_length[of u "[]" False None]
      by (fastforce simp: s Parser_tryLiteral_def split: lexed.splits)
  next
    case False
    then have "ident_allowed c" using assms by (auto simp: s Parser_tryLiteral_def ident_allowed_def split: if_splits)
    then show ?thesis using assms False
      by (auto simp: s Parser_tryLiteral_def Let_def split: if_splits)
  qed
qed

lemma tryLiteral_shorter:
  assumes "tryLiteral tok s = Lexed (Some (t, r))" shows "length r < length s"
proof (cases "Parser_tryLiteral tok s")
  case (Lexed res)
  then obtain t' r' where r': "res = Some (t', r')" using assms by (cases res) (auto simp: tryLiteral_def)
  have "length r \<le> length r'" using assms by (auto simp: tryLiteral_def Lexed r' split: if_splits)
  then show ?thesis using Parser_tryLiteral_shorter[of tok s t' r'] Lexed r' by simp
qed (use assms in \<open>simp_all add: tryLiteral_def\<close>)

lemma hex_val_base: "hex_val c < 8 \<Longrightarrow> is_digit c" "is_digit c \<Longrightarrow> hex_val c < 10"
  by (auto simp: hex_val_def is_digit_def digit_val_def split: if_splits)

lemma strtol_shorter:
  assumes "is_digit (hd s)" "s \<noteq> []"
  shows "length (snd (strtol 0 s)) < length s"
proof -
  obtain c t where s: "s = c # t" using assms(2) by (cases s) auto
  have c: "is_digit c" "\<not> isspace c" "c \<noteq> CHR ''-''" "c \<noteq> CHR ''+''"
    using assms(1) by (auto simp: s isspace_def is_digit_def byte_def)
  have start: "dropWhile isspace s = s" "scan_sign s = (False, s)" using c by (simp_all add: s scan_sign_def)
  show ?thesis
  proof (cases "hex_prefix s")
    case True
    then obtain a b d u where u: "s = a # b # d # u" "hex_val d < 16"
      by (cases s; cases "tl s"; cases "tl (tl s)") (auto simp: hex_prefix_def)
    have "length (drop (length (takeWhile (\<lambda>c. hex_val c < 16) (d # u))) (d # u)) < length s" by (simp add: u)
    then show ?thesis using start True u by (simp add: strtol_def Let_def)
  next
    case False
    have zero: "c = CHR ''0'' \<Longrightarrow> hex_val c < 8" by (simp add: hex_val_def is_digit_def digit_val_def byte_def)
    show ?thesis using start False c hex_val_base(2)[OF c(1)] zero by (auto simp: strtol_def Let_def s)
  qed
qed

lemma tryNumeric_shorter:
  assumes "tryNumeric tok s = Some (t, r)" "s \<noteq> []" "hd s \<noteq> CHR ''.''"
  shows "length r < length s"
proof -
  have d: "is_digit (hd s)" using assms by (auto simp: tryNumeric_def split: if_splits)
  obtain l e1 where l: "strtol 0 s = (l, e1)" by (cases "strtol 0 s")
  obtain x e2 where x: "strtod s = (x, e2)" by (cases "strtod s")
  have "length e1 < length s" using strtol_shorter[OF d assms(2)] l by simp
  then show ?thesis using assms(1) by (auto simp: tryNumeric_def l x split: if_splits)
qed

lemma first_match:
  "matchOperators ops [c] = (k, Some p) \<Longrightarrow> operator_loop ops (c # t) [] None None \<noteq> Lexed None"
proof -
  have later: "operator_loop ops u b (Some p) q \<noteq> Lexed None" for u b p q
    by (induction u arbitrary: b p q) (auto simp: Let_def split: prod.splits)
  assume "matchOperators ops [c] = (k, Some p)"
  then show ?thesis using later[of t "[c]" p "Some p"] by (simp add: Let_def)
qed

lemma point_operator: "operator_loop binary_operators (CHR ''.'' # t) [] None None \<noteq> Lexed None"
proof (rule first_match)
  show "matchOperators binary_operators ''.'' = (3, Some (''.'', TOK_MEMBER, PREC_PAREN, TYP_OPERATOR, True))" by code_simp
qed


section \<open>The next token takes text, but for the end of the text\<close>

definition at_end :: "string \<Rightarrow> bool" where
  "at_end s \<longleftrightarrow> (\<exists>t. skipcomments s = Lexed (True, t))"

lemma at_end_Nil [simp]: "at_end []"
  by (simp add: at_end_def skipcomments_def)

lemma Parser_getToken_progress:
  assumes "Parser_getToken tok s = Lexed (res, t, r)"
  shows "if at_end s then r = [] \<and> t = tok \<and> res = 1 else length r < length s \<and> res = 0"
proof -
  obtain b u where u: "skipcomments s = Lexed (b, u)"
    using assms by (cases "skipcomments s") (auto simp: Parser_getToken_def)
  show ?thesis
  proof (cases b)
    case True
    then show ?thesis using assms u skipcomments_length[OF u] by (simp add: Parser_getToken_def at_end_def)
  next
    case False
    then have ue: "u \<noteq> []" "length u \<le> length s" using skipcomments_length[OF u] by auto
    have notend: "\<not> at_end s" using u False by (simp add: at_end_def)
    have tail: "length (tl u) < length u" using ue(1) by simp
    have literal: "tryLiteral tok u = Lexed (Some (t', r')) \<Longrightarrow> length r' < length u" for t' r'
      by (rule tryLiteral_shorter)
    have operator: "tryOperator ops tok u = Lexed (Some (t', r')) \<Longrightarrow> length r' < length u" for ops t' r'
      using tryOperator_shorter ue(1) by blast
    have number: "length r' < length u"
      if "tryOperator binary_operators tok u = Lexed None" "tryNumeric tok u = Some (t', r')" for t' r'
    proof -
      have "operator_loop binary_operators u [] None None = Lexed None"
        using that(1) by (auto simp: tryOperator_def split: lexed.splits option.splits)
      then have "hd u \<noteq> CHR ''.''" using point_operator[of "tl u"] ue(1) by (metis list.collapse)
      then show ?thesis using tryNumeric_shorter[OF that(2) ue(1)] by simp
    qed
    have "length r < length u \<and> res = 0"
    proof (cases "hd u = CHR '';''")
      case True
      then show ?thesis using assms u False tail by (simp add: Parser_getToken_def)
    next
      case not_semicolon: False
      show ?thesis
      proof (cases "tryLiteral tok u")
        case (Lexed p)
        show ?thesis
        proof (cases p)
          case (Some q)
          then show ?thesis using assms u False not_semicolon Lexed literal
            by (cases q) (auto simp: Parser_getToken_def)
        next
          case None
          show ?thesis
          proof (cases "tryOperator binary_operators tok u")
            case binary: (Lexed p2)
            show ?thesis
            proof (cases p2)
              case (Some q)
              then show ?thesis using assms u False not_semicolon Lexed None binary operator
                by (cases q) (auto simp: Parser_getToken_def)
            next
              case no_binary: None
              show ?thesis
              proof (cases "tryOperator unary_operators tok u")
                case unary: (Lexed p3)
                show ?thesis
                proof (cases p3)
                  case (Some q)
                  then show ?thesis using assms u False not_semicolon Lexed None binary no_binary unary operator
                    by (cases q) (auto simp: Parser_getToken_def)
                next
                  case no_unary: None
                  show ?thesis using assms u False not_semicolon Lexed None binary no_binary unary no_unary number tail
                    by (cases "tryNumeric tok u") (auto simp: Parser_getToken_def split: if_splits)
                qed
              qed (use assms u False not_semicolon Lexed None binary no_binary in \<open>simp_all add: Parser_getToken_def\<close>)
            qed
          qed (use assms u False not_semicolon Lexed None in \<open>simp_all add: Parser_getToken_def\<close>)
        qed
      qed (use assms u False not_semicolon in \<open>simp_all add: Parser_getToken_def\<close>)
    qed
    then show ?thesis using notend ue(2) by simp
  qed
qed

text \<open>
  A result that is not out of fuel if there is enough of it, and satisfies a condition if it is
  a value.
\<close>

definition fine :: "bool \<Rightarrow> ('a \<Rightarrow> bool) \<Rightarrow> 'a parsed \<Rightarrow> bool" where
  "fine enough Q r = (case r of Parsed a \<Rightarrow> Q a | OutOfFuel \<Rightarrow> \<not> enough | _ \<Rightarrow> True)"

lemma fine_simps [simp]:
  "fine b Q (Parsed a) \<longleftrightarrow> Q a" "fine b Q (Failed e)" "fine b Q (Thrown x)" "fine b Q parsed.Undef"
  "fine b Q OutOfFuel \<longleftrightarrow> \<not> b"
  by (simp_all add: fine_def)

lemma fine_bind: "fine b Q r \<Longrightarrow> (\<And>a. Q a \<Longrightarrow> fine b R (f a)) \<Longrightarrow> fine b R (and_parse r f)"
  by (cases r) (simp_all add: and_parse_def)

lemma fine_mono: "fine b Q r \<Longrightarrow> (c \<Longrightarrow> b) \<Longrightarrow> (\<And>a. Q a \<Longrightarrow> R a) \<Longrightarrow> fine c R r"
  by (cases r) auto

text \<open>What a token that was taken from a text and an older token have in common.\<close>

definition taken_from :: "string \<Rightarrow> BTokenId \<Rightarrow> int \<times> Token \<times> position \<Rightarrow> bool" where
  "taken_from s old a =
     (case a of (res, t, r, m) \<Rightarrow>
        if at_end s then r = [] \<and> tid t \<in> {old, TOK_STRING, TOK_FUNC, TOK_USERFUNC} \<and>
             (old \<noteq> TOK_OTHER TOK_IDENT \<longrightarrow> res = 1)
        else length r < length s)"

lemma isFunc_tid: "isFunc env tok mods = (found, t, m) \<Longrightarrow> tid t \<in> {tid tok, TOK_FUNC} \<and> (found = 0 \<longrightarrow> t = tok)"
  by (auto simp: isFunc_def Let_def with_function_def split: if_splits prod.splits list.splits)

lemma isUserFunc_tid: "isUserFunc env tok = Some t \<Longrightarrow> tid t = TOK_USERFUNC"
  by (auto simp: isUserFunc_def with_function_def split: if_splits option.splits)

lemma getToken_fine: "fine b (taken_from (fst pos) (tid tok)) (getToken env txtop tok pos)"
proof -
  obtain s mods where pos: "pos = (s, mods)" by (cases pos)
  show ?thesis
  proof (cases "Parser_getToken tok s")
    case (Lexed a)
    obtain res t r where a: "a = (res, t, r)" by (cases a)
    have p: "if at_end s then r = [] \<and> t = tok \<and> res = 1 else length r < length s \<and> res = 0"
      using Parser_getToken_progress Lexed a by blast
    obtain found t2 m where f: "isFunc env t mods = (found, t2, m)" by (cases "isFunc env t mods")
    show ?thesis
    proof (cases "at_end s")
      case True
      then have t: "t = tok" "r = []" "res = 1" using p by auto
      show ?thesis using True isFunc_tid[OF f[unfolded t(1)]] isUserFunc_tid[of env t2] f[unfolded t(1)]
        by (auto simp: pos getToken_def of_lexed_def and_parse_def Lexed a t taken_from_def split: option.splits)
    next
      case False
      then show ?thesis using p
        by (auto simp: pos getToken_def of_lexed_def and_parse_def Lexed a f taken_from_def split: option.splits)
    qed
  qed (simp_all add: pos getToken_def of_lexed_def and_parse_def)
qed


text \<open>Text that is left, at most \<open>L\<close> characters of it.\<close>

abbreviation left :: "nat \<Rightarrow> position \<Rightarrow> bool" where "left L pos \<equiv> length (fst pos) \<le> L"

definition peeked_from :: "position \<Rightarrow> BTokenId \<Rightarrow> int \<times> Token \<times> position \<Rightarrow> bool" where
  "peeked_from pos old a =
     (case a of (res, t, pos') \<Rightarrow> fst pos' = fst pos \<and>
        (at_end (fst pos) \<longrightarrow> tid t \<in> {old, TOK_STRING, TOK_FUNC, TOK_USERFUNC} \<and> (old \<noteq> TOK_OTHER TOK_IDENT \<longrightarrow> res = 1)))"

lemma peekToken_fine: "fine b (peeked_from pos (tid tok)) (peekToken env tok pos)"
  unfolding peekToken_def
  by (rule fine_bind[OF getToken_fine]) (auto simp: taken_from_def peeked_from_def split: if_splits)

lemma taken_left: "taken_from s old (res, t, pos) \<Longrightarrow> left (length s) pos"
  by (cases pos) (auto simp: taken_from_def split: if_splits)

lemma taken_shorter: "taken_from s old (res, t, pos) \<Longrightarrow> \<not> at_end s \<Longrightarrow> length (fst pos) < length s"
  by (cases pos) (auto simp: taken_from_def)

lemma taken_new: "taken_from s old (res, t, pos) \<Longrightarrow> tid t \<notin> {old, TOK_STRING, TOK_FUNC, TOK_USERFUNC} \<Longrightarrow>
    \<not> at_end s \<and> length (fst pos) < length s"
  by (cases pos) (auto simp: taken_from_def split: if_splits)

lemma callingMethod_fine: "fine b (\<lambda>(c, pos'). fst pos' = fst pos) (callingMethod env pos)"
proof (cases "getToken env None Token0 pos")
  case (Parsed a)
  obtain res t pos1 where a: "a = (res, t, pos1)" by (cases a)
  show ?thesis
  proof (cases "getToken env None Token0 pos1")
    case (Parsed a2)
    then show ?thesis using \<open>getToken env None Token0 pos = Parsed a\<close> a by (cases a2) (simp add: callingMethod_def)
  qed (use Parsed a in \<open>simp_all add: callingMethod_def\<close>)
qed (simp_all add: callingMethod_def)

lemma parseToken_fine: "fine b (\<lambda>_. True) (parseToken tok tx ca)"
proof (induction tok tx ca rule: parseToken.induct)
  case (2 tok prev tx ca)
  have *: "fine b (\<lambda>_. True) (parseToken tok tx (ca @ [plain_token prev]))" if "ttype prev = TYP_UNARY_OPERATOR \<or> ttype prev = TYP_OPERATOR"
    using 2 that by blast
  show ?case by (subst parseToken.simps) (auto simp: Let_def *)
qed simp

lemma parse_token_fine: "fine b (\<lambda>_. True) (parse_token tok e)"
  unfolding parse_token_def by (rule parseToken_fine)

lemma validate_from_fine: "fine b (\<lambda>_. True) (validate_from env ts is)"
proof (induction "is")
  case (Cons i js)
  have "fine b (\<lambda>_. True) (validate_token env ts i)" by (simp add: validate_token_def Let_def split: option.split)
  then show ?case using fine_bind[of b "\<lambda>_. True" _ "\<lambda>_. True"] Cons by simp
qed simp

lemma finish_expr_fine: "fine b (\<lambda>_. True) (finish_expr env flags ca)"
proof -
  have "fine b (\<lambda>_. True) (and_parse (validate env opt) (\<lambda>_. Parsed opt))" for opt
    by (rule fine_bind[of b "\<lambda>_. True"]) (simp_all add: validate_def validate_from_fine)
  then show ?thesis by (simp add: finish_expr_def Let_def split: outcome.split)
qed

lemma pass_params_fine: "fine b (\<lambda>_. True) (pass_params ps passed)"
proof (induction ps passed rule: pass_params.induct)
  case (2 p ps passed)
  have "fine b (\<lambda>_. True) (and_parse r (\<lambda>ts. Parsed (f ts)))" if "fine b (\<lambda>_. True) r" for r :: "token list parsed" and f :: "token list \<Rightarrow> token list"
    by (rule fine_bind[OF that]) simp
  then show ?case using 2 by (auto split: option.splits)
qed simp

lemma move_method_fine: "fine b (\<lambda>_. True) (move_method opt name nargs e)"
  by (simp add: move_method_def split: list.split)


section \<open>Every function of the parser\<close>

definition parser_ends :: "nat \<Rightarrow> parser \<Rightarrow> bool" where
  "parser_ends n P \<longleftrightarrow>
     (\<forall>env flags e pos. fine (5 * length (fst pos) + 2 \<le> n) (\<lambda>(_, p). left (length (fst pos)) p) (IIP P env flags e pos)) \<and>
     (\<forall>env flags e pos lt l b. fine (5 * length (fst pos) + 1 \<le> n) (\<lambda>(_, p). left (length (fst pos)) p) (iip_loop P env flags e pos lt l b)) \<and>
     (\<forall>env flags t tok e pos. fine (5 * length (fst pos) + 5 \<le> n)
        (\<lambda>(stop, _, p, _, _). left (max (length t) (length (fst pos))) p \<and> (stop = 0 \<longrightarrow> left (length (fst pos)) p))
        (iip_token P env flags t tok e pos)) \<and>
     (\<forall>env flags pos. fine (5 * length (fst pos) + 3 \<le> n) (\<lambda>(_, p). left (length (fst pos)) p) (readexpr P env flags pos)) \<and>
     (\<forall>env inject u e pos. fine (5 * length (fst pos) + 3 \<le> n) (\<lambda>(_, _, p). left (length (fst pos)) p) (getUserArgs P env inject u e pos)) \<and>
     (\<forall>env uf passed named pos. fine (5 * length (fst pos) + 4 \<le> n) (\<lambda>(_, _, p). left (length (fst pos)) p) (user_args_loop P env uf passed named pos)) \<and>
     (\<forall>env close flags tok e pos. fine (5 * length (fst pos) + 4 \<le> n) (\<lambda>(_, p). left (length (fst pos)) p) (array_loop P env close flags tok e pos)) \<and>
     (\<forall>env tok e pos. fine (5 * length (fst pos) + 4 \<le> n) (\<lambda>(_, p). left (length (fst pos)) p) (struct_loop P env tok e pos)) \<and>
     (\<forall>env tok e pos. fine (5 * length (fst pos) + 4 \<le> n) (\<lambda>(_, p). left (length (fst pos)) p) (dictionary_loop P env tok e pos)) \<and>
     (\<forall>env tok nargs e pos. fine (5 * length (fst pos) + 4 \<le> n) (\<lambda>(_, _, p). left (length (fst pos)) p) (method_loop P env tok nargs e pos))"

lemma parser_endsD:
  assumes "parser_ends n P"
  shows "fine (5 * length (fst pos) + 2 \<le> n) (\<lambda>(_, p). left (length (fst pos)) p) (IIP P env flags e pos)"
    and "fine (5 * length (fst pos) + 1 \<le> n) (\<lambda>(_, p). left (length (fst pos)) p) (iip_loop P env flags e pos lt l br)"
    and "fine (5 * length (fst pos) + 5 \<le> n)
        (\<lambda>(stop, _, p, _, _). left (max (length t) (length (fst pos))) p \<and> (stop = 0 \<longrightarrow> left (length (fst pos)) p))
        (iip_token P env flags t tok e pos)"
    and "fine (5 * length (fst pos) + 3 \<le> n) (\<lambda>(_, p). left (length (fst pos)) p) (readexpr P env flags pos)"
    and "fine (5 * length (fst pos) + 3 \<le> n) (\<lambda>(_, _, p). left (length (fst pos)) p) (getUserArgs P env inject u e pos)"
    and "fine (5 * length (fst pos) + 4 \<le> n) (\<lambda>(_, _, p). left (length (fst pos)) p) (user_args_loop P env uf passed named pos)"
    and "fine (5 * length (fst pos) + 4 \<le> n) (\<lambda>(_, p). left (length (fst pos)) p) (array_loop P env close flags tok e pos)"
    and "fine (5 * length (fst pos) + 4 \<le> n) (\<lambda>(_, p). left (length (fst pos)) p) (struct_loop P env tok e pos)"
    and "fine (5 * length (fst pos) + 4 \<le> n) (\<lambda>(_, p). left (length (fst pos)) p) (dictionary_loop P env tok e pos)"
    and "fine (5 * length (fst pos) + 4 \<le> n) (\<lambda>(_, _, p). left (length (fst pos)) p) (method_loop P env tok nargs e pos)"
proof -
  note a1 = assms[unfolded parser_ends_def]
  note a2 = conjunct2[OF a1] note a3 = conjunct2[OF a2] note a4 = conjunct2[OF a3] note a5 = conjunct2[OF a4]
  note a6 = conjunct2[OF a5] note a7 = conjunct2[OF a6] note a8 = conjunct2[OF a7] note a9 = conjunct2[OF a8]
  show "fine (5 * length (fst pos) + 2 \<le> n) (\<lambda>(_, p). left (length (fst pos)) p) (IIP P env flags e pos)"
    by (rule conjunct1[OF a1, rule_format])
  show "fine (5 * length (fst pos) + 1 \<le> n) (\<lambda>(_, p). left (length (fst pos)) p) (iip_loop P env flags e pos lt l br)"
    by (rule conjunct1[OF a2, rule_format])
  show "fine (5 * length (fst pos) + 5 \<le> n)
        (\<lambda>(stop, _, p, _, _). left (max (length t) (length (fst pos))) p \<and> (stop = 0 \<longrightarrow> left (length (fst pos)) p))
        (iip_token P env flags t tok e pos)"
    by (rule conjunct1[OF a3, rule_format])
  show "fine (5 * length (fst pos) + 3 \<le> n) (\<lambda>(_, p). left (length (fst pos)) p) (readexpr P env flags pos)"
    by (rule conjunct1[OF a4, rule_format])
  show "fine (5 * length (fst pos) + 3 \<le> n) (\<lambda>(_, _, p). left (length (fst pos)) p) (getUserArgs P env inject u e pos)"
    by (rule conjunct1[OF a5, rule_format])
  show "fine (5 * length (fst pos) + 4 \<le> n) (\<lambda>(_, _, p). left (length (fst pos)) p) (user_args_loop P env uf passed named pos)"
    by (rule conjunct1[OF a6, rule_format])
  show "fine (5 * length (fst pos) + 4 \<le> n) (\<lambda>(_, p). left (length (fst pos)) p) (array_loop P env close flags tok e pos)"
    by (rule conjunct1[OF a7, rule_format])
  show "fine (5 * length (fst pos) + 4 \<le> n) (\<lambda>(_, p). left (length (fst pos)) p) (struct_loop P env tok e pos)"
    by (rule conjunct1[OF a8, rule_format])
  show "fine (5 * length (fst pos) + 4 \<le> n) (\<lambda>(_, p). left (length (fst pos)) p) (dictionary_loop P env tok e pos)"
    by (rule conjunct1[OF a9, rule_format])
  show "fine (5 * length (fst pos) + 4 \<le> n) (\<lambda>(_, _, p). left (length (fst pos)) p) (method_loop P env tok nargs e pos)"
    by (rule conjunct2[OF a9, rule_format])
qed

lemma fine_if: "(c \<Longrightarrow> fine b Q x) \<Longrightarrow> (\<not> c \<Longrightarrow> fine b Q y) \<Longrightarrow> fine b Q (if c then x else y)"
  by simp

text \<open>A call with enough fuel, whose text is short enough, in a longer function.\<close>

lemma fine_call:
  assumes "fine (k \<le> n) Q r" "c \<Longrightarrow> k \<le> n" "\<And>a. Q a \<Longrightarrow> fine c R (f a)"
  shows "fine c R (and_parse r f)"
  using assms by (cases r) (auto simp: and_parse_def)

lemma IIP_body_ends:
  assumes "parser_ends n P"
  shows "fine (5 * length (fst pos) + 2 \<le> Suc n) (\<lambda>(_, p). left (length (fst pos)) p) (IIP_body P env flags e pos)"
  unfolding IIP_body_def
  by (rule fine_call[OF parser_endsD(2)[OF assms]], simp)
    (auto intro!: fine_bind[OF parse_token_fine])

lemma readexpr_body_ends:
  assumes "parser_ends n P"
  shows "fine (5 * length (fst pos) + 3 \<le> Suc n) (\<lambda>(_, p). left (length (fst pos)) p) (readexpr_body P env flags pos)"
  unfolding readexpr_body_def
  by (rule fine_call[OF parser_endsD(1)[OF assms]], simp)
    (auto intro!: fine_bind[OF finish_expr_fine])

lemma iip_loop_body_ends:
  assumes "parser_ends n P"
  shows "fine (5 * length (fst pos) + 1 \<le> Suc n) (\<lambda>(_, p). left (length (fst pos)) p) (iip_loop_body P env flags e pos lt l br)"
  unfolding iip_loop_body_def
proof (rule fine_bind[OF peekToken_fine], clarify, goal_cases)
  case (1 res tok0 s0 m0)
  note peek = 1
  show ?case
  proof (cases "res \<noteq> 0 \<or> ends_before flags br tok0")
    case True
    then show ?thesis using peek by (auto simp: peeked_from_def)
  next
    case False
    have notend: "\<not> at_end s0" "s0 = fst pos" using peek False by (auto simp: peeked_from_def Token0_def new_Token_def)
    show ?thesis unfolding if_not_P[OF False]
    proof (rule fine_bind[OF getToken_fine], clarify, goal_cases)
      case (1 res1 tok1 s1 m1)
      have shorter: "length s1 < length (fst pos)" using taken_shorter[OF 1] notend by simp
      have rest: "fine (5 * length (fst pos) + 1 \<le> Suc n) (\<lambda>(_, p). left (length (fst pos)) p)
          (and_parse (iip_token P env flags (fst pos) tok e (s1, m1)) (\<lambda>(stop, e', pos', last_type', last_token').
            if stop \<noteq> 0 \<or> SINGLE_ELEMENT \<in> flags then Parsed (e', pos')
            else iip_loop P env flags e' pos' last_type' last_token' brackets'))" for tok brackets'
      proof (rule fine_call[OF parser_endsD(3)[OF assms]], goal_cases)
        case 1
        then show ?case using shorter by simp
      next
        case (2 a)
        then show ?case using shorter
          by (cases a) (auto intro!: fine_mono[OF parser_endsD(2)[OF assms]] simp: max_def split: if_splits)
      qed
      show ?case using shorter notend(2) by (auto simp: Let_def rest[simplified])
    qed
  qed
qed


lemma getFunctionPArgument_fine: "fine b (\<lambda>(_, p). left (length (fst pos)) p) (getFunctionPArgument env tok pos)"
  unfolding getFunctionPArgument_def
  by (rule fine_bind[OF getToken_fine]) (auto dest!: taken_left)

lemma open_braced_fine: "fine b (\<lambda>(_, p). left (length (fst pos)) p) (open_braced env pos)"
  unfolding open_braced_def
  by (rule fine_bind[OF peekToken_fine])
    (auto simp: peeked_from_def dest!: taken_left intro!: fine_bind[OF getToken_fine])

lemma open_list_fine: "fine b (\<lambda>(_, p). left (length (fst pos)) p) (open_list env opening close pos)"
  unfolding open_list_def
proof (rule fine_bind[OF peekToken_fine], clarify, goal_cases)
  case (1 res t s1 m1)
  have s1: "s1 = fst pos" using 1 by (simp add: peeked_from_def)
  show ?case
  proof (cases "tid t \<noteq> opening")
    case True
    then show ?thesis using s1 by simp
  next
    case False
    show ?thesis unfolding if_not_P[OF False]
  proof (rule fine_bind[OF getToken_fine], clarify, goal_cases)
    case (1 res2 t2 s2 m2)
    have s2: "length s2 \<le> length (fst pos)" using taken_left[OF 1] s1 by simp
    show ?case
    proof (rule fine_bind[OF peekToken_fine], clarify, goal_cases)
      case (1 res3 t3 s3 m3)
      then have "s3 = s2" by (simp add: peeked_from_def)
      then show ?case using s2 by (auto dest!: taken_left intro!: fine_bind[OF getToken_fine])
    qed
  qed
  qed
qed

lemma getUserArgs_body_ends:
  assumes "parser_ends n P"
  shows "fine (5 * length (fst pos) + 3 \<le> Suc n) (\<lambda>(_, _, p). left (length (fst pos)) p) (getUserArgs_body P env inject u e pos)"
proof (cases u)
  case (Some f)
  let ?got = "case getToken env None Token0 pos of Failed _ \<Rightarrow> Failed (Some PERR_MISSLPAREN) | r \<Rightarrow> r"
  have got: "fine b (taken_from (fst pos) TOK_TERM) ?got" for b
    using getToken_fine[of b pos Token0 env None]
    by (cases "getToken env None Token0 pos") (simp_all add: Token0_def new_Token_def)
  show ?thesis unfolding getUserArgs_body_def Some option.case
  proof (rule fine_if, simp, rule fine_bind[OF got], clarify, goal_cases)
    case (1 res t s1 m1)
    show ?case
    proof (cases "tid t \<noteq> TOK_LPAREN")
      case False
      then have s1: "length s1 < length (fst pos)" using taken_new[OF 1(2)] by simp
      show ?thesis unfolding if_not_P[OF False]
      proof (rule fine_call[OF parser_endsD(6)[OF assms]], goal_cases)
        case 1
        then show ?case using s1 by simp
      next
        case (2 a)
        then show ?case using s1
          by (cases a) (auto dest!: taken_left intro!: fine_bind[OF pass_params_fine] fine_bind[OF getToken_fine])
      qed
    qed simp
  qed
qed (simp add: getUserArgs_body_def)

lemma user_args_loop_body_ends:
  assumes "parser_ends n P"
  shows "fine (5 * length (fst pos) + 4 \<le> Suc n) (\<lambda>(_, _, p). left (length (fst pos)) p) (user_args_loop_body P env uf passed named pos)"
  unfolding user_args_loop_body_def
proof (rule fine_bind[OF getToken_fine], clarify, goal_cases)
  case (1 res tk s1 m1)
  have s1: "length s1 \<le> length (fst pos)" using taken_left[OF 1] by simp
  let ?named = "if tid tk \<noteq> TOK_OTHER TOK_IDENT then Parsed (None, fst pos, snd (s1, m1))
          else and_parse (getToken env None Token0 (s1, m1)) (\<lambda>(_, tk2, tpos2).
            if tid tk2 = TOK_ASSIGN then Parsed (Some (tokval tk), tpos2)
            else if tid tk2 = TOK_EQUAL1 then Failed None
            else Parsed (None, fst pos, snd tpos2))"
  have named: "fine b (\<lambda>(_, p). left (length (fst pos)) p) ?named" for b
    using s1 by (auto dest!: taken_left intro!: fine_bind[OF getToken_fine])
  have loop: "fine (5 * length (fst pos) + 4 \<le> Suc n) (\<lambda>(_, _, p). left (length (fst pos)) p)
      (and_parse (IIP P env argument_flags e (s2, m2)) (\<lambda>(arg, pos2).
         and_parse (peekToken env Token0 pos2) (\<lambda>(res, tmp, pos3).
           if res \<noteq> 0 then Parsed (res, f arg, pos3)
           else if tid tmp = TOK_COMMA
           then and_parse (getToken env None tmp pos3) (\<lambda>(_, _, pos4). user_args_loop P env uf (f arg) any pos4)
           else if tid tmp = TOK_RPAREN then Parsed (0, f arg, pos3)
           else Failed None)))"
    if s2: "length s2 \<le> length (fst pos)" for e s2 m2 f any
  proof (rule fine_call[OF parser_endsD(1)[OF assms]], goal_cases)
    case 1
    then show ?case using s2 by simp
  next
    case (2 a)
    obtain arg s3 m3 where a: "a = (arg, s3, m3)" by (cases a)
    then have s3: "length s3 \<le> length (fst pos)" using 2 s2 by simp
    show ?case unfolding a prod.case
    proof (rule fine_bind[OF peekToken_fine], clarify, goal_cases)
      case (1 res tmp s4 m4)
      show ?case
      proof (cases "res = 0 \<and> tid tmp = TOK_COMMA")
        case True
        then have notend: "\<not> at_end s4" "s4 = s3" using 1 by (auto simp: peeked_from_def Token0_def new_Token_def)
        have "fine (5 * length (fst pos) + 4 \<le> Suc n) (\<lambda>(_, _, p). left (length (fst pos)) p)
            (and_parse (getToken env None tmp (s4, m4)) (\<lambda>(_, _, pos4). user_args_loop P env uf (f arg) any pos4))"
        proof (rule fine_bind[OF getToken_fine], clarify, goal_cases)
          case (1 res5 t5 s5 m5)
          then have "length s5 < length (fst pos)" using taken_shorter[OF 1] notend s3 by simp
          then show ?case by (auto intro!: fine_mono[OF parser_endsD(6)[OF assms]])
        qed
        then show ?thesis using True by simp
      next
        case False
        then show ?thesis using 1 s3 by (auto simp: peeked_from_def)
      qed
    qed
  qed
  show ?case
  proof (cases "tid tk = TOK_RPAREN \<or> length passed \<ge> length (parameters uf)")
    case True
    then show ?thesis using s1 by auto
  next
    case False
    have "fine (5 * length (fst pos) + 4 \<le> Suc n) (\<lambda>(_, _, p). left (length (fst pos)) p)
      (and_parse ?named (\<lambda>(nm, pos1).
         if nm = None \<and> named then Failed None
         else let name = (case nm of Some v \<Rightarrow> v | None \<Rightarrow> pname (parameters uf ! length passed))
              in if name \<in> fst ` set passed then Failed None
                 else and_parse (IIP P env argument_flags \<lparr>TX = [], CA = []\<rparr> pos1) (\<lambda>(arg, pos2).
                   let passed' = passed @ [(name, CA arg)]
                   in and_parse (peekToken env Token0 pos2) (\<lambda>(res, tmp, pos3).
                     if res \<noteq> 0 then Parsed (res, passed', pos3)
                     else if tid tmp = TOK_COMMA
                     then and_parse (getToken env None tmp pos3) (\<lambda>(_, _, pos4).
                       user_args_loop P env uf passed' (named \<or> nm \<noteq> None) pos4)
                     else if tid tmp = TOK_RPAREN then Parsed (0, passed', pos3)
                     else Failed None))))"
    proof (rule fine_bind[OF named], clarify, goal_cases)
      case (1 nm s2 m2)
      then have s2: "length s2 \<le> length (fst pos)" by simp
      show ?case using loop[OF s2, where f = "\<lambda>arg. passed @ [(_, CA arg)]"] by (simp add: Let_def)
    qed
    then show ?thesis using False by simp
  qed
qed


lemma peeked_same: "peeked_from pos old (res, t, pos') \<Longrightarrow> fst pos' = fst pos"
  by (simp add: peeked_from_def)

lemma array_loop_body_ends:
  assumes "parser_ends n P"
  shows "fine (5 * length (fst pos) + 4 \<le> Suc n) (\<lambda>(_, p). left (length (fst pos)) p) (array_loop_body P env close flags tok e pos)"
  unfolding array_loop_body_def
proof (rule fine_bind[OF peekToken_fine], clarify, goal_cases)
  case (1 res t1 s1 m1)
  have s1: "s1 = fst pos" using peeked_same[OF 1] by simp
  show ?case
  proof (cases "tid t1 = close \<or> tid t1 = TOK_COMMA")
    case False
    show ?thesis unfolding if_not_P[OF False]
    proof (rule fine_call[OF parser_endsD(4)[OF assms]], goal_cases)
      case (2 a)
      obtain ts s2 m2 where a: "a = (ts, s2, m2)" by (cases a)
      have s2: "length s2 \<le> length (fst pos)" using 2 s1 by (simp add: a)
      show ?case unfolding a prod.case Let_def
      proof (rule fine_bind[OF getToken_fine], clarify, goal_cases)
        case (1 res2 t2 s3 m3)
        have "length s3 < length (fst pos)" if "tid t2 = TOK_COMMA"
          using taken_new[OF 1] that False s2 by auto
        then show ?case using taken_left[OF 1] s2 by (auto intro!: fine_mono[OF parser_endsD(7)[OF assms]])
      qed
    qed (use s1 in simp)
  qed simp
qed

lemma method_loop_body_ends:
  assumes "parser_ends n P"
  shows "fine (5 * length (fst pos) + 4 \<le> Suc n) (\<lambda>(_, _, p). left (length (fst pos)) p) (method_loop_body P env tok nargs e pos)"
  unfolding method_loop_body_def
proof (rule fine_bind[OF peekToken_fine], clarify, goal_cases)
  case (1 res t1 s1 m1)
  have s1: "s1 = fst pos" using peeked_same[OF 1] by simp
  show ?case
  proof (cases "tid t1 = TOK_RPAREN")
    case True
    then show ?thesis using s1 by (auto dest!: taken_left intro!: fine_bind[OF getToken_fine])
  next
    case not_close: False
    show ?thesis unfolding if_not_P[OF not_close]
    proof (cases "tid t1 = TOK_COMMA")
      case False
      show "fine (5 * length (fst pos) + 4 \<le> Suc n) (\<lambda>(_, _, p). left (length (fst pos)) p)
        (if tid t1 = TOK_COMMA then Failed None
         else and_parse (readexpr P env argument_flags (s1, m1)) (\<lambda>(ts, pos2).
           and_parse (getToken env None t1 pos2) (\<lambda>(_, t2, pos3).
             if tid t2 = TOK_COMMA then method_loop P env t2 (nargs + 1) (emit ts e) pos3
             else if tid t2 = TOK_RPAREN then Parsed (nargs + 1, emit ts e, pos3)
             else Failed None)))"
        unfolding if_not_P[OF False]
      proof (rule fine_call[OF parser_endsD(4)[OF assms]], goal_cases)
        case (2 a)
        obtain ts s2 m2 where a: "a = (ts, s2, m2)" by (cases a)
        have s2: "length s2 \<le> length (fst pos)" using 2 s1 by (simp add: a)
        show ?case unfolding a prod.case
        proof (rule fine_bind[OF getToken_fine], clarify, goal_cases)
          case (1 res2 t2 s3 m3)
          have "length s3 < length (fst pos)" if "tid t2 = TOK_COMMA"
            using taken_new[OF 1] that False s2 by auto
          then show ?case using taken_left[OF 1] s2 by (auto intro!: fine_mono[OF parser_endsD(10)[OF assms]])
        qed
      qed (use s1 in simp)
    qed simp
  qed
qed

lemma lexed_fine: "fine b (\<lambda>(res, t, r). if at_end s then r = [] \<and> t = tok else length r < length s) (of_lexed (Parser_getToken tok s))"
proof (cases "Parser_getToken tok s")
  case (Lexed a)
  then show ?thesis using Parser_getToken_progress[of tok s] by (cases a) (auto simp: of_lexed_def)
qed (simp_all add: of_lexed_def)

lemma struct_loop_body_ends:
  assumes "parser_ends n P"
  shows "fine (5 * length (fst pos) + 4 \<le> Suc n) (\<lambda>(_, p). left (length (fst pos)) p) (struct_loop_body P env tok e pos)"
  unfolding struct_loop_body_def
proof (rule fine_bind[OF peekToken_fine], clarify, goal_cases)
  case (1 res t1 s1 m1)
  have s1: "s1 = fst pos" using peeked_same[OF 1] by simp
  show ?case
  proof (cases "tid t1 \<noteq> TOK_OTHER TOK_IDENT \<and> tid t1 \<noteq> TOK_STRING")
    case False
    show ?thesis unfolding if_not_P[OF False]
    proof (rule fine_bind[OF lexed_fine], clarify, goal_cases)
      case (1 res2 ident_tkn r)
      have r: "length r \<le> length (fst pos)" "r \<noteq> [] \<Longrightarrow> length r < length (fst pos)"
        using 1 s1 by (auto split: if_splits)
      have r_end: "r = [] \<or> length r < length (fst pos)" using r by blast
      let ?next = "case peekToken env t1 (r, snd (s1, m1)) of Failed _ \<Rightarrow> Parsed (1, t1, (r, snd (s1, m1))) | p \<Rightarrow> p"
      have "fine b (\<lambda>(_, t2, p). fst p = r \<and>
          (r = [] \<longrightarrow> tid t2 \<in> {tid t1, TOK_STRING, TOK_FUNC, TOK_USERFUNC})) ?next" for b
        using peekToken_fine[of b "(r, snd (s1, m1))" t1 env]
        by (cases "peekToken env t1 (r, snd (s1, m1))") (auto simp: peeked_from_def)
      then show ?case
      proof (rule fine_bind, clarify, goal_cases)
        case (1 res3 t2 s2 m2)
        then have s2: "s2 = r" and t2: "r = [] \<Longrightarrow> tid t2 \<in> {tid t1, TOK_STRING, TOK_FUNC, TOK_USERFUNC}" by auto
        let ?val = "if tid t2 = TOK_ASSIGN
              then and_parse (getToken env None t2 (s2, m2)) (\<lambda>(_, t3, pos3).
                and_parse (readexpr P env element_flags pos3) (\<lambda>(ts, pos4).
                  Parsed (t3, emit (ts @ [plain_token (ident_tkn\<lparr>tid := INS_ADDMEMBER_ASSIGN\<rparr>)]) e, pos4)))
              else if tid t2 = TOK_EQUAL1 then Failed None
              else Parsed (t2, emit [plain_token (ident_tkn\<lparr>tid := INS_ADDMEMBER2\<rparr>)] e, s2, m2)"
        have val: "fine (5 * length (fst pos) + 4 \<le> Suc n)
            (\<lambda>(t4, _, p). length (fst p) \<le> length r \<and> (r = [] \<longrightarrow> tid t4 \<noteq> TOK_COMMA)) ?val"
        proof (cases "tid t2 = TOK_ASSIGN")
          case True
          show ?thesis unfolding if_P[OF True]
          proof (rule fine_bind[OF getToken_fine], clarify, goal_cases)
            case (1 res4 t3 s3 m3)
            have s3: "length s3 \<le> length r" using taken_left[OF 1] s2 by simp
            have t3: "r = [] \<Longrightarrow> tid t3 \<noteq> TOK_COMMA" using 1 True by (auto simp: taken_from_def s2)
            show ?case
              by (rule fine_call[OF parser_endsD(4)[OF assms]]) (use s3 t3 r in auto)
          qed
        next
          case not_assign: False
          then show ?thesis using t2 s2 False by auto
        qed
        show ?case
        proof (rule fine_bind[OF val], clarify, goal_cases)
          case (1 t4 e1 s5 m5)
          show ?case
          proof (rule fine_bind[OF getToken_fine], clarify, goal_cases)
            case (1 res5 t5 s6 m6)
            have s6: "length s6 \<le> length r" using taken_left[OF 1] \<open>length (fst (s5, m5)) \<le> length r\<close> by simp
            have "length s6 < length (fst pos)" if "tid t5 = TOK_COMMA"
            proof (cases "r = []")
              case True
              then have "at_end s5" "tid t4 \<noteq> TOK_COMMA" using \<open>length (fst (s5, m5)) \<le> length r\<close> \<open>r = [] \<longrightarrow> _\<close> by auto
              then show ?thesis using 1 that by (auto simp: taken_from_def)
            next
              case False
              then show ?thesis using s6 r(2) by simp
            qed
            then show ?case using s6 r(1) by (auto intro!: fine_mono[OF parser_endsD(8)[OF assms]])
          qed
        qed
      qed
    qed
  qed simp
qed


lemma dictionary_loop_body_ends:
  assumes "parser_ends n P"
  shows "fine (5 * length (fst pos) + 4 \<le> Suc n) (\<lambda>(_, p). left (length (fst pos)) p) (dictionary_loop_body P env tok e pos)"
  unfolding dictionary_loop_body_def
proof (rule fine_bind[OF peekToken_fine], clarify, goal_cases)
  case (1 res t1 s1 m1)
  have s1: "s1 = fst pos" using peeked_same[OF 1] by simp
  show ?case
  proof (cases "tid t1 = TOK_RBRACE \<or> tid t1 = TOK_COMMA")
    case False
    then have t1: "tid t1 \<noteq> TOK_COMMA" by simp
    show ?thesis unfolding if_not_P[OF False]
    proof (rule fine_call[OF parser_endsD(4)[OF assms]], goal_cases)
      case (2 a)
      obtain ks s2 m2 where a: "a = (ks, s2, m2)" by (cases a)
      have s2: "length s2 \<le> length (fst pos)" using 2 s1 by (simp add: a)
      show ?case unfolding a prod.case
      proof (rule fine_bind[OF peekToken_fine], clarify, goal_cases)
        case (1 res2 t2 s3 m3)
        have s3: "s3 = s2" and t2: "at_end s2 \<Longrightarrow> tid t2 \<noteq> TOK_COMMA" using 1 t1 by (auto simp: peeked_from_def)
        let ?val = "if tid t2 = TOK_DICTKEY
              then and_parse (getToken env None t2 (s3, m3)) (\<lambda>(_, t3, pos4).
                and_parse (readexpr P env element_flags pos4) (\<lambda>(vs, pos5). Parsed (t3, vs, pos5)))
              else Parsed (t2, [plain_token (new_Token (TOK_OTHER INS_UNINIT) TYP_OPERAND)], s3, m3)"
        have val: "fine (5 * length (fst pos) + 4 \<le> Suc n)
            (\<lambda>(t4, _, p). length (fst p) \<le> length s2 \<and> (at_end s2 \<longrightarrow> tid t4 \<noteq> TOK_COMMA \<and> at_end (fst p)) \<and>
               (\<not> at_end s2 \<longrightarrow> fst p = s2 \<or> length (fst p) < length s2)) ?val"
        proof (cases "tid t2 = TOK_DICTKEY")
          case True
          show ?thesis unfolding if_P[OF True]
          proof (rule fine_bind[OF getToken_fine], clarify, goal_cases)
            case (1 res4 t3 s4 m4)
            have s4: "length s4 \<le> length s2" using taken_left[OF 1] s3 by simp
            have t3: "at_end s2 \<Longrightarrow> tid t3 \<noteq> TOK_COMMA \<and> s4 = []" using 1 True by (auto simp: taken_from_def s3)
            have shorter: "\<not> at_end s2 \<Longrightarrow> length s4 < length s2" using taken_shorter[OF 1] s3 by simp
            show ?case
              by (rule fine_call[OF parser_endsD(4)[OF assms]]) (use s4 t3 shorter s2 in auto)
          qed
        next
          case False
          then show ?thesis using t2 s3 by auto
        qed
        show ?case unfolding Let_def
        proof (rule fine_bind[OF val], clarify, goal_cases)
          case (1 t4 vs s5 m5)
          show ?case
          proof (rule fine_bind[OF getToken_fine], clarify, goal_cases)
            case (1 res5 t5 s6 m6)
            note v = \<open>length (fst (s5, m5)) \<le> length s2\<close>
              \<open>at_end s2 \<longrightarrow> tid t4 \<noteq> TOK_COMMA \<and> at_end (fst (s5, m5))\<close>
              \<open>\<not> at_end s2 \<longrightarrow> fst (s5, m5) = s2 \<or> length (fst (s5, m5)) < length s2\<close>
            have s6: "length s6 \<le> length s5" using taken_left[OF 1] by simp
            have "length s6 < length (fst pos)" if "tid t5 = TOK_COMMA"
            proof (cases "at_end s2")
              case True
              then have "at_end s5" "tid t4 \<noteq> TOK_COMMA" using v by auto
              then show ?thesis using 1 that by (auto simp: taken_from_def)
            next
              case False
              then show ?thesis using v s2 s6 taken_shorter[OF 1] by auto
            qed
            then show ?case using s6 v(1) s2 by (auto intro!: fine_mono[OF parser_endsD(9)[OF assms]])
          qed
        qed
      qed
    qed (use s1 in simp)
  qed simp
qed

text \<open>The token whose text has been taken.\<close>

lemma iip_token_body_ends:
  assumes "parser_ends n P"
  shows "fine (5 * length (fst pos) + 5 \<le> Suc n)
      (\<lambda>(stop, _, p, _, _). left (max (length t) (length (fst pos))) p \<and> (stop = 0 \<longrightarrow> left (length (fst pos)) p))
      (iip_token_body P env flags t tok e pos)"
proof -
  let ?L = "length (fst pos)"
  let ?Q = "\<lambda>(stop :: int, _ :: Expression, p :: position, _ :: BTokenType, _ :: Token). left (max (length t) ?L) p \<and> (stop = 0 \<longrightarrow> left ?L p)"
  let ?enough = "5 * ?L + 5 \<le> Suc n"
  have went: "fine ?enough ?Q (Parsed (0, e', p, ttype tok, tok))" if "left ?L p" for e' p using that by simp
  have push: "fine ?enough ?Q (and_parse (parse_token tok e') (\<lambda>(step, e2).
            if step = UnexRParen
            then (if RIGHTPAREN_TERM_ALLOWED \<in> flags then Parsed (1, e2, (t, snd p), ttype tok, tok)
                  else Failed (Some PERR_UNEXRPAREN))
            else Parsed (0, e2, p, ttype tok, tok)))" if "left ?L p" for e' p
    by (rule fine_bind[OF parse_token_fine]) (use that in \<open>auto simp: le_max_iff_disj\<close>)
  have elements: "fine ?enough ?Q (and_parse opened (\<lambda>(first, pos1).
            case first of
              None \<Rightarrow> Parsed (0, e', pos1, ttype tok, tok)
            | Some t \<Rightarrow> and_parse (elems t e' pos1) (\<lambda>(e2, pos'). Parsed (0, e2, pos', ttype tok, tok))))"
    if "fine ?enough (\<lambda>(_, p). left ?L p) opened"
      and "\<And>t p. left ?L p \<Longrightarrow> fine (5 * length (fst p) + 4 \<le> n) (\<lambda>(_, p'). left (length (fst p)) p') (elems t e' p)"
    for opened e' and elems :: "Token \<Rightarrow> Expression \<Rightarrow> position \<Rightarrow> (Expression \<times> position) parsed"
  proof (rule fine_bind[OF that(1)], clarify, goal_cases)
    case (1 first s1 m1)
    show ?case
    proof (cases first)
      case (Some t1)
      show ?thesis unfolding Some option.case
        by (rule fine_call[OF that(2)]) (use 1 in auto)
    qed (use 1 in simp)
  qed
  have args: "fine ?enough ?Q (and_parse (getUserArgs P env inject u e pos) (\<lambda>(_, e1, pos1). and_parse (parse_token tok e1) (\<lambda>(step, e2).
            if step = UnexRParen
            then (if RIGHTPAREN_TERM_ALLOWED \<in> flags then Parsed (1, e2, (t, snd pos1), ttype tok, tok)
                  else Failed (Some PERR_UNEXRPAREN))
            else Parsed (0, e2, pos1, ttype tok, tok))))" for inject u
    by (rule fine_call[OF parser_endsD(5)[OF assms]]) (use push in auto)
  have array: "fine ?enough ?Q (and_parse (parse_token (new_Token (TOK_OTHER TOK_ARRAY) TYP_OPERAND) e) (\<lambda>(_, e1).
           and_parse (peekToken env Token0 pos) (\<lambda>(res, peek, pos1).
             if res \<noteq> 0 then Parsed (1, e1, pos1, ttype tok, tok)
             else if tid peek = TOK_LPAREN
             then and_parse (open_list env TOK_LPAREN TOK_RPAREN pos1) (\<lambda>(first, pos1).
                case first of
                  None \<Rightarrow> Parsed (0, e1, pos1, ttype tok, tok)
                | Some t \<Rightarrow> and_parse (array_loop P env TOK_RPAREN argument_flags t e1 pos1) (\<lambda>(e', pos'). Parsed (0, e', pos', ttype tok, tok)))
             else if tid peek = TOK_LBRACE
             then and_parse (getToken env None peek pos1) (\<lambda>(_, _, pos2).
               and_parse (open_braced env pos2) (\<lambda>(first, pos1).
                case first of
                  None \<Rightarrow> Parsed (0, e1, pos1, ttype tok, tok)
                | Some t \<Rightarrow> and_parse (array_loop P env TOK_RBRACE element_flags t e1 pos1) (\<lambda>(e', pos'). Parsed (0, e', pos', ttype tok, tok))))
             else Parsed (0, e1, pos1, ttype tok, tok))))"
  proof (rule fine_bind[OF parse_token_fine], clarify, rule fine_bind[OF peekToken_fine], clarify, goal_cases)
    case (1 step e1 res peek s1 m1)
    have s1: "s1 = fst pos" using peeked_same[OF 1(2)] by simp
    have list: "fine ?enough (\<lambda>(_, p). left ?L p) (open_list env TOK_LPAREN TOK_RPAREN (s1, m1))"
      using open_list_fine[of ?enough "(s1, m1)"] s1 by simp
    have braced: "fine ?enough (\<lambda>(_, p). left ?L p) (open_braced env p)" if "left ?L p" for p
      by (rule fine_mono[OF open_braced_fine]) (use that in auto)
    have brace: "fine ?enough ?Q (and_parse (getToken env None peek (s1, m1)) (\<lambda>(_, _, pos2).
               and_parse (open_braced env pos2) (\<lambda>(first, pos1).
                case first of
                  None \<Rightarrow> Parsed (0, e1, pos1, ttype tok, tok)
                | Some t \<Rightarrow> and_parse (array_loop P env TOK_RBRACE element_flags t e1 pos1) (\<lambda>(e', pos'). Parsed (0, e', pos', ttype tok, tok)))))"
    proof (rule fine_bind[OF getToken_fine], clarify, goal_cases)
      case (1 res2 t2 s2 m2)
      have "left ?L (s2, m2)" using taken_left[OF 1] s1 by simp
      then show ?case by (intro elements braced parser_endsD(7)[OF assms])
    qed
    show ?case using s1 brace elements[OF list parser_endsD(7)[OF assms]] by auto
  qed
  have list: "fine ?enough (\<lambda>(_, p). left ?L p) (open_list env opn cls pos)" for opn cls by (rule open_list_fine)
  have calling: "fine ?enough (\<lambda>(_, p). fst p = fst pos) (if tid tok = TOK_MEMBER then callingMethod env pos else Parsed (False, pos))"
    using callingMethod_fine[of ?enough pos env] by simp
  have the_method: "fine ?enough ?Q (and_parse (parse_token tok e) (\<lambda>(_, e1).
             and_parse (getToken env (top_id e1) tok pos0) (\<lambda>(_, t1, pos1).
               let name = map tolower (tokval t1)
               in and_parse (getToken env None Token0 pos1) (\<lambda>(_, t2, pos2).
                 and_parse (method_loop P env t2 0 e1 pos2) (\<lambda>(nargs, e2, pos3).
                   and_parse (move_method (OptimizeObjectMembers env) name nargs e2) (\<lambda>e3.
                     Parsed (0, e3, pos3, TYP_OPERAND, tok\<lparr>ttype := TYP_OPERAND\<rparr>)))))))" if p0: "fst pos0 = fst pos" for pos0
  proof (rule fine_bind[OF parse_token_fine], clarify, rule fine_bind[OF getToken_fine], clarify, goal_cases)
    case (1 step e1 res t1 s1 m1)
    have s1: "length s1 \<le> ?L" using taken_left[OF 1(2)] p0 by simp
    show ?case unfolding Let_def
    proof (rule fine_bind[OF getToken_fine], clarify, goal_cases)
      case (1 res2 t2 s2 m2)
      have s2: "length s2 \<le> ?L" using taken_left[OF 1] s1 by simp
      show ?case
        by (rule fine_call[OF parser_endsD(10)[OF assms]])
          (use s2 in \<open>auto intro!: fine_bind[OF move_method_fine]\<close>)
    qed
  qed
  have last_case: "fine ?enough ?Q (and_parse (if tid tok = TOK_MEMBER then callingMethod env pos else Parsed (False, pos)) (\<lambda>(calling, pos0).
           if \<not> calling then and_parse (parse_token tok e) (\<lambda>(step, e2).
            if step = UnexRParen
            then (if RIGHTPAREN_TERM_ALLOWED \<in> flags then Parsed (1, e2, (t, snd pos0), ttype tok, tok)
                  else Failed (Some PERR_UNEXRPAREN))
            else Parsed (0, e2, pos0, ttype tok, tok))
           else and_parse (parse_token tok e) (\<lambda>(_, e1).
             and_parse (getToken env (top_id e1) tok pos0) (\<lambda>(_, t1, pos1).
               let name = map tolower (tokval t1)
               in and_parse (getToken env None Token0 pos1) (\<lambda>(_, t2, pos2).
                 and_parse (method_loop P env t2 0 e1 pos2) (\<lambda>(nargs, e2, pos3).
                   and_parse (move_method (OptimizeObjectMembers env) name nargs e2) (\<lambda>e3.
                     Parsed (0, e3, pos3, TYP_OPERAND, tok\<lparr>ttype := TYP_OPERAND\<rparr>))))))))"
  proof (rule fine_bind[OF calling], goal_cases)
    case (1 a)
    obtain c p where a: "a = (c, p)" by (cases a)
    then have p: "fst p = fst pos" using 1 by simp
    show ?case using push[of p e] the_method[OF p] p by (cases c) (simp_all add: a)
  qed
  have funcref: "fine ?enough ?Q (and_parse (getFunctionPArgument env tok pos) (\<lambda>(ref, pos1).
      Parsed (0, emit [plain_token ref] e, pos1, ttype tok, tok)))"
    by (rule fine_bind[OF getFunctionPArgument_fine]) auto
  show ?thesis
    unfolding iip_token_body_def Let_def
    by (intro fine_if args array last_case[unfolded Let_def] funcref elements[OF open_braced_fine parser_endsD(7)[OF assms]]
        elements[OF list parser_endsD(8)[OF assms]] elements[OF list parser_endsD(9)[OF assms]])
qed

section \<open>Property\<close>

lemma parser_at_ends: "parser_ends n (parser_at n)"
proof (induction n)
  case 0
  then show ?case by (simp add: parser_ends_def)
next
  case (Suc n)
  show ?case unfolding parser_ends_def parser_at.simps(2) Let_def parser.simps
    using Suc IIP_body_ends iip_loop_body_ends iip_token_body_ends readexpr_body_ends getUserArgs_body_ends
      user_args_loop_body_ends array_loop_body_ends struct_loop_body_ends dictionary_loop_body_ends method_loop_body_ends
    by (intro conjI allI) blast+
qed

text \<open>
  C17. Parsing ends. On every text, however malformed, five calls and rounds for each character
  and three more are enough: the parser then returns an expression, an error or an
  exception, or reads past the end of the text, and what it leaves of the text is no longer
  than the text.
\<close>

theorem parsing_ends:
  assumes "5 * length s + 3 \<le> n"
  shows "readexpr (parser_at n) env flags (s, mods) \<noteq> OutOfFuel \<and>
    (readexpr (parser_at n) env flags (s, mods) = Parsed (ts, r, mods') \<longrightarrow> length r \<le> length s)"
  using parser_endsD(4)[OF parser_at_ends, of "(s, mods)" n env flags] assms
  by (cases "readexpr (parser_at n) env flags (s, mods)") auto

lemma parsing_ends_witness:
  "readexpr (parser_at 48) \<lparr>funcs = [], userFunctions = [], constants = [], localscope = [], globalvars = [],
     OptimizeObjectMembers = False\<rparr> {} (''a[{,(\"'', []) \<noteq> OutOfFuel"
  using parsing_ends[of "''a[{,(\"''" 48] by simp

end
