(* ===== verification/Typed.thy ===== *)
theory Typed
  imports ParserEnds
begin

text \<open>
  A token that is a negation is a unary operator: the lexer makes it so, and the parser, the
  substitution of constants and the optimiser keep it, so that the compiler emits an instruction
  for it.
\<close>

definition typed :: "'a token_scheme \<Rightarrow> bool" where
  "typed t \<longleftrightarrow> (tid t = TOK_LOG_NOT \<longrightarrow> ttype t = TYP_UNARY_OPERATOR)"

lemma typed_simps [simp]:
  "typed (t\<lparr>tlval := v\<rparr>) = typed t" "typed (t\<lparr>tdval := d\<rparr>) = typed t" "typed (t\<lparr>tokval := x\<rparr>) = typed t"
  "typed (t\<lparr>nparams := n\<rparr>) = typed t" "typed (t\<lparr>module := n\<rparr>) = typed t" "typed (t\<lparr>userfunc := u\<rparr>) = typed t"
  "typed (plain_token tok) = typed tok" "typed (tok\<lparr>precedence := p\<rparr>) = typed tok"
  "i \<noteq> TOK_LOG_NOT \<Longrightarrow> typed (t\<lparr>tid := i\<rparr>)" "typed (t\<lparr>ttype := TYP_UNARY_OPERATOR\<rparr>)"
  "typed (t\<lparr>tid := i, ttype := ty\<rparr>) \<longleftrightarrow> (i = TOK_LOG_NOT \<longrightarrow> ty = TYP_UNARY_OPERATOR)"
  by (simp_all add: typed_def token.truncate_def)

abbreviation typed_all :: "token list \<Rightarrow> bool" where "typed_all \<equiv> list_all typed"

section \<open>The optimiser\<close>

definition typed_done :: "token list outcome \<Rightarrow> bool" where
  "typed_done r \<longleftrightarrow> (\<forall>ts. r = Done ts \<longrightarrow> typed_all ts)"

lemma optimize_pair_typed: "optimize_pair l oper r = Done (Some t) \<Longrightarrow> typed l \<Longrightarrow> typed t"
  unfolding optimize_pair_def optimize_long_operation_def optimize_double_operation_def optimize_string_operation_def Let_def
  by (auto split: BTokenId.splits option.splits if_splits)

lemma optimize_single_typed: "optimize_single oper val = Some t \<Longrightarrow> typed val \<Longrightarrow> typed t"
  unfolding optimize_single_def optimize_long_unary_def optimize_double_unary_def optimize_string_unary_def
  by (auto split: BTokenId.splits)

lemma typed_done_simps [simp]: "typed_done (Done ts) \<longleftrightarrow> typed_all ts" "typed_done (Throws e)" "typed_done Undefined"
  by (simp_all add: typed_done_def)

lemma typed_cut: "typed_all ts \<Longrightarrow> typed_all (take j ts @ drop k ts)"
    "typed_all ts \<Longrightarrow> typed t \<Longrightarrow> typed_all (take j ts @ t # drop k ts)"
  by (auto simp: list_all_iff dest: in_set_takeD in_set_dropD)

lemma typed_nth: "typed_all ts \<Longrightarrow> i < length ts \<Longrightarrow> typed (ts ! i)"
  by (simp add: list_all_iff)

lemma optimize_binary_typed: "typed_all ts \<Longrightarrow> typed_done (optimize_binary_from i ts)"
proof (induction i ts rule: optimize_binary_from.induct)
  case (1 i ts)
  have pair: "i < length ts \<Longrightarrow> optimize_pair (ts ! (i - 2)) (ts ! i) (ts ! (i - 1)) = Done (Some t) \<Longrightarrow>
      typed_all (take (i - 2) ts @ t # drop (i + 1) ts)" for t
    by (rule typed_cut(2)[OF "1.prems"], erule optimize_pair_typed, rule typed_nth[OF "1.prems"]) simp
  show ?case
    by (subst optimize_binary_from.simps)
      (simp add: Let_def "1.prems" "1.IH"[simplified] pair[simplified] split: outcome.split option.split)
qed

lemma optimize_unary_typed: "typed_all ts \<Longrightarrow> typed_done (optimize_unary_from i ts)"
proof (induction i ts rule: optimize_unary_from.induct)
  case (1 i ts)
  have single: "i < length ts \<Longrightarrow> optimize_single (ts ! i) (ts ! (i - 1)) = Some t \<Longrightarrow>
      typed_all (take (i - 1) ts @ t # drop (i + 1) ts)" for t
    by (rule typed_cut(2)[OF "1.prems"], erule optimize_single_typed, rule typed_nth[OF "1.prems"]) simp
  have rest: "typed_all (take i ts @ drop (i + 1) ts)" by (rule typed_cut(1)[OF "1.prems"])
  show ?case
    by (subst optimize_unary_from.simps)
      (simp add: Let_def "1.prems" "1.IH"[simplified] single[simplified] rest[simplified] split: option.split)
qed

lemma typed_remove_at: "typed_all ts \<Longrightarrow> typed_all (remove_at k ts)"
  by (auto simp: list_all_iff remove_at_def dest: in_set_takeD in_set_dropD)

lemma typed_update: "typed_all ts \<Longrightarrow> typed t \<Longrightarrow> typed_all (ts[i := t])"
  using set_update_subset_insert[of ts i t] by (auto simp: list_all_iff)

lemma typed_butlast: "typed_all ts \<Longrightarrow> typed_all (butlast ts)"
  by (auto simp: list_all_iff dest: in_set_butlastD)

lemma consumed_form_typed: "consumed_form i = Some j \<Longrightarrow> j \<noteq> TOK_LOG_NOT"
  unfolding consumed_form_def by (auto split: BTokenId.splits)

lemma member_step_typed: "member_step_form i \<noteq> TOK_LOG_NOT"
  unfolding member_step_form_def by (auto split: BTokenId.splits)

lemma compound_form_typed: "compound_member_form i = Some j \<Longrightarrow> j \<noteq> TOK_LOG_NOT"
  unfolding compound_member_form_def by (auto split: BTokenId.splits)

lemma typed_replace:
  "typed_all ts \<Longrightarrow> typed_all (remove_at k (ts[i := t\<lparr>tid := j, ttype := TYP_UNARY_OPERATOR, tlval := v\<rparr>]))"
  "typed_all ts \<Longrightarrow> typed_all (remove_at k (ts[i := t\<lparr>tid := j, ttype := TYP_UNARY_OPERATOR, tokval := x\<rparr>]))"
  "typed_all ts \<Longrightarrow> typed_all (remove_at k (ts[i := t\<lparr>tid := j, ttype := TYP_UNARY_OPERATOR, tokval := x, tlval := v\<rparr>]))"
  "typed_all ts \<Longrightarrow> typed_all (remove_at k (ts[i := t\<lparr>tid := j, ttype := TYP_UNARY_OPERATOR, tlval := v, tokval := x\<rparr>]))"
  by (rule typed_remove_at, erule typed_update, simp add: typed_def)+

lemma optimize_assign_typed: "optimize_assign ts i = Done (p, ts') \<Longrightarrow> typed_all ts \<Longrightarrow> typed_all ts'"
  unfolding optimize_assign_def Let_def
  by (auto split: option.splits if_splits BTokenId.splits intro: typed_replace)

lemma optimize_assign_consume_typed: "optimize_assign_consume ts i = Done (p, ts') \<Longrightarrow> typed_all ts \<Longrightarrow> typed_all ts'"
  unfolding optimize_assign_consume_def Let_def
  by (auto split: option.splits if_splits intro: typed_replace)

lemma optimize_consumer_typed: "optimize_consumer ts i = Done (p, ts') \<Longrightarrow> typed_all ts \<Longrightarrow> typed_all ts'"
  unfolding optimize_consumer_def Let_def
  by (auto split: option.splits if_splits intro!: typed_butlast typed_update dest: consumed_form_typed)

lemma optimize_step_typed: "optimize_step ts i = Done (p, ts') \<Longrightarrow> typed_all ts \<Longrightarrow> typed_all ts'"
  unfolding optimize_step_def Let_def
  by (auto split: if_splits intro!: typed_remove_at typed_update simp: member_step_typed)

lemma optimize_compound_typed: "typed_all ts \<Longrightarrow> typed_all (optimize_compound_member ts i oper)"
  unfolding optimize_compound_member_def Let_def
  by (auto split: option.splits intro!: typed_remove_at typed_butlast dest: compound_form_typed)

lemma optimize_member_typed: "optimize_member known opt ts i = Done (p, ts') \<Longrightarrow> typed_all ts \<Longrightarrow> typed_all ts'"
  unfolding optimize_member_def Let_def
  by (auto split: option.splits if_splits intro!: optimize_compound_typed typed_replace)

lemma optimize_token_typed: "optimize_token known opt ts i = Done (p, ts') \<Longrightarrow> typed_all ts \<Longrightarrow> typed_all ts'"
  unfolding optimize_token_def Let_def
  by (auto split: if_splits dest: optimize_assign_typed optimize_assign_consume_typed optimize_consumer_typed
      optimize_step_typed optimize_member_typed)

lemma optimize_assignments_typed: "typed_all ts \<Longrightarrow> typed_done (optimize_assignments_from known opt i ts)"
proof (induction known opt i ts rule: optimize_assignments_from.induct)
  case (1 known opt i ts)
  show ?case
    by (subst optimize_assignments_from.simps)
      (auto simp: "1.prems" split: outcome.split bool.split intro: "1.IH"[simplified] optimize_token_typed[OF _ "1.prems"])
qed

lemma typed_and_then: "typed_done r \<Longrightarrow> (\<And>ts. typed_all ts \<Longrightarrow> typed_done (f ts)) \<Longrightarrow> typed_done (and_then r f)"
  by (cases r) simp_all

lemma optimize_once_typed: "typed_all ts \<Longrightarrow> typed_done (optimize_once known opt ts)"
  unfolding optimize_once_def optimize_binary_operations_def optimize_unary_operations_def optimize_assignments_def
  by (intro typed_and_then optimize_binary_typed optimize_unary_typed optimize_assignments_typed)

lemma optimize_typed: "typed_all ts \<Longrightarrow> typed_done (optimize known opt ts)"
proof (induction known opt ts rule: optimize.induct)
  case (1 known opt ts)
  have "optimize_once known opt ts = Done ts' \<Longrightarrow> typed_all ts'" for ts'
    using optimize_once_typed[OF "1.prems", of known opt] by (simp add: typed_done_def)
  then show ?case
    by (subst optimize.simps) (auto split: outcome.split intro: "1.IH")
qed

section \<open>The lexer\<close>

lemma match_one_in: "match_one ops c n m = (k, Some op) \<Longrightarrow> m = Some op \<or> op \<in> set ops"
proof (induction ops arbitrary: n m)
  case (Cons p ops)
  obtain code i prec t ambig where p: "p = (code, i, prec, t, ambig)" by (cases p) auto
  show ?case using Cons.prems Cons.IH[of n m] Cons.IH[of n "Some p"] Cons.IH[of "n + 1" m]
    by (auto simp: p split: if_splits)
qed auto

lemma find_in: "find P xs = Some x \<Longrightarrow> x \<in> set xs"
  by (auto simp: find_Some_iff)

lemma matchOperators_in: "matchOperators ops b = (k, Some op) \<Longrightarrow> op \<in> set ops"
  by (auto simp: matchOperators_def split: list.splits dest: match_one_in find_in)

lemma operator_loop_in:
  "operator_loop ops s b pLast pMatch = Lexed (Some op) \<Longrightarrow>
     (\<And>q. pLast = Some q \<Longrightarrow> q \<in> set ops) \<Longrightarrow> (\<And>q. pMatch = Some q \<Longrightarrow> q \<in> set ops) \<Longrightarrow> op \<in> set ops"
proof (induction s arbitrary: b pLast pMatch)
  case (Cons c t)
  obtain n m where m: "matchOperators ops (b @ [c]) = (n, m)" by (cases "matchOperators ops (b @ [c])")
  have found: "m = Some q \<Longrightarrow> q \<in> set ops" for q using matchOperators_in m by auto
  show ?case using Cons.prems found Cons.IH[of "b @ [c]" "if m \<noteq> None then m else pLast" m]
    by (auto simp: m Let_def split: if_splits)
qed (auto split: if_splits)

definition typed_operator :: "Operator \<Rightarrow> bool" where
  "typed_operator op \<longleftrightarrow> (case op of (_, i, _, t, _) \<Rightarrow> i = TOK_LOG_NOT \<longrightarrow> t = TYP_UNARY_OPERATOR)"

lemma operators_typed: "list_all typed_operator binary_operators" "list_all typed_operator unary_operators"
  by (simp_all add: binary_operators_def unary_operators_def typed_operator_def)

lemma operator_token_typed: "typed_operator op \<Longrightarrow> typed (operator_token op tok)"
  by (cases op) (simp add: typed_operator_def operator_token_def typed_def)

lemma tryOperator_typed:
  "tryOperator ops tok s = Lexed (Some (t, r)) \<Longrightarrow> list_all typed_operator ops \<Longrightarrow> typed t"
  by (auto simp: tryOperator_def list_all_iff split: lexed.splits option.splits
      intro!: operator_token_typed dest!: operator_loop_in)

lemma reserved_words_typed: "list_all (\<lambda>(_, i, t, _). i = TOK_LOG_NOT \<longrightarrow> t = TYP_UNARY_OPERATOR) reserved_words"
  by (simp add: reserved_words_def)

lemma reserved_word_typed: "reserved_word x = Some (w, i, t, p) \<Longrightarrow> i = TOK_LOG_NOT \<Longrightarrow> t = TYP_UNARY_OPERATOR"
  using reserved_words_typed by (auto simp: reserved_word_def list_all_iff dest!: map_of_SomeD)

lemma recognize_reserved_word_typed: "typed tok \<Longrightarrow> typed (recognize_reserved_word tok)"
  by (auto simp: recognize_reserved_word_def typed_def dest: reserved_word_typed split: option.splits)

lemma tryLiteral_typed: "tryLiteral tok s = Lexed (Some (t, r)) \<Longrightarrow> typed t"
  by (auto simp: tryLiteral_def Parser_tryLiteral_def Let_def typed_def split: lexed.splits option.splits list.splits if_splits)

lemma tryNumeric_typed: "tryNumeric tok s = Some (t, r) \<Longrightarrow> typed t"
  by (auto simp: tryNumeric_def typed_def split: prod.splits if_splits)

lemma Parser_getToken_typed: "Parser_getToken tok s = Lexed (res, t, r) \<Longrightarrow> typed tok \<Longrightarrow> typed t"
  unfolding Parser_getToken_def
  by (auto split: lexed.splits bool.splits option.splits if_splits
      dest!: tryLiteral_typed tryNumeric_typed intro: recognize_reserved_word_typed
      dest: tryOperator_typed[OF _ operators_typed(1)] tryOperator_typed[OF _ operators_typed(2)])

section \<open>Tokens of the parser\<close>

abbreviation typed_tok :: "int \<times> Token \<times> position \<Rightarrow> bool" where "typed_tok \<equiv> \<lambda>(_, t, _). typed t"

lemma isFunc_typed: "isFunc env tok mods = (found, t, m) \<Longrightarrow> typed tok \<Longrightarrow> typed t"
  by (auto simp: isFunc_def Let_def with_function_def typed_def split: if_splits prod.splits list.splits)

lemma isUserFunc_typed: "isUserFunc env tok = Some t \<Longrightarrow> typed t"
  by (auto simp: isUserFunc_def with_function_def typed_def split: if_splits option.splits)

lemma Token0_typed [simp]: "typed Token0"
  by (simp add: Token0_def new_Token_def typed_def)

lemma getToken_typed: "typed tok \<Longrightarrow> fine False typed_tok (getToken env txtop tok pos)"
  unfolding getToken_def of_lexed_def and_parse_def
  by (auto simp: fine_def split: prod.splits lexed.splits option.splits parsed.splits if_splits
      dest: Parser_getToken_typed isFunc_typed isUserFunc_typed)

lemma peekToken_typed: "typed tok \<Longrightarrow> fine False typed_tok (peekToken env tok pos)"
  unfolding peekToken_def by (rule fine_bind[OF getToken_typed]) auto

end
