(* ===== verification/TypedParser.thy ===== *)
theory TypedParser
  imports Typed
begin

text \<open>The parser keeps the types of negations: every token that it puts out is \<open>typed\<close>.\<close>

definition typed_expr :: "Expression \<Rightarrow> bool" where
  "typed_expr e \<longleftrightarrow> list_all typed (TX e) \<and> typed_all (CA e)"

text \<open>The constants and the default values of parameters are tokens that the parser put out.\<close>

definition typed_function :: "UserFunction \<Rightarrow> bool" where
  "typed_function uf \<longleftrightarrow> (\<forall>p \<in> set (parameters uf). typed (dflt_value p))"

definition typed_env :: "compile_env \<Rightarrow> bool" where
  "typed_env env \<longleftrightarrow> (\<forall>(_, t) \<in> set (constants env). typed t) \<and> (\<forall>uf \<in> set (funcs env). typed_function uf)"

lemma typed_expr_simps [simp]:
  "typed_expr (emit ts e) \<longleftrightarrow> typed_expr e \<and> typed_all ts"
  "typed_expr (e\<lparr>TX := t # TX e\<rparr>) \<longleftrightarrow> typed_expr e \<and> typed t"
  "typed_expr \<lparr>TX = tx, CA = ca\<rparr> \<longleftrightarrow> list_all typed tx \<and> typed_all ca"
  by (auto simp: typed_expr_def emit_def)

lemma new_Token_typed [simp]: "typed (new_Token i t) \<longleftrightarrow> (i = TOK_LOG_NOT \<longrightarrow> t = TYP_UNARY_OPERATOR)"
  by (simp add: new_Token_def typed_def)

section \<open>Single tokens\<close>

lemma parseToken_typed:
  "typed tok \<Longrightarrow> list_all typed tx \<Longrightarrow> typed_all ca \<Longrightarrow> fine False (\<lambda>(_, e). typed_expr e) (parseToken tok tx ca)"
proof (induction tx arbitrary: ca)
  case (Cons prev tx)
  have "fine False (\<lambda>(_, e). typed_expr e) (parseToken tok tx (ca @ [plain_token prev]))"
    using Cons by simp
  then show ?case using Cons.prems by (subst parseToken.simps) (simp add: Let_def)
qed (simp add: parseToken.simps)

lemma parse_token_typed: "typed tok \<Longrightarrow> typed_expr e \<Longrightarrow> fine False (\<lambda>(_, e'). typed_expr e') (parse_token tok e)"
  using parseToken_typed[of tok "TX e" "CA e"] by (simp add: parse_token_def typed_expr_def)

lemma callingMethod_typed: "fine False (\<lambda>_. True) (callingMethod env pos)"
  by (cases "callingMethod env pos") simp_all

lemma reinterpret_typed: "typed tok \<Longrightarrow> typed (reinterpret last_type tok)"
proof -
  assume tok: "typed tok"
  have "typed (recognize_unary tok (tokval tok))"
    using tok operators_typed(2)
    by (auto simp: recognize_unary_def list_all_iff split: option.splits intro!: operator_token_typed dest: find_in)
  then show ?thesis using tok by (simp add: reinterpret_def Let_def)
qed

lemma method_call_typed: "typed (method_call opt name nargs tok)"
  by (auto simp: method_call_def typed_def split: option.splits)

lemma move_method_typed: "typed_expr e \<Longrightarrow> fine False typed_expr (move_method opt name nargs e)"
  by (auto simp: move_method_def method_call_typed typed_expr_def split: list.splits)

lemma call_tokens_typed [simp]: "typed_all (call_tokens env f)"
  by (simp add: call_tokens_def with_function_def)

lemma pass_params_typed:
  "\<forall>p \<in> set ps. typed (dflt_value p) \<Longrightarrow> \<forall>(_, ts) \<in> set passed. typed_all ts \<Longrightarrow> fine False typed_all (pass_params ps passed)"
proof (induction ps arbitrary: passed)
  case (Cons p ps)
  show ?case
  proof (cases "map_of passed (pname p)")
    case None
    then show ?thesis using Cons by (auto intro!: fine_bind[OF Cons.IH])
  next
    case (Some ts)
    then have "typed_all ts" using Cons.prems by (auto dest: map_of_SomeD)
    then show ?thesis using Cons Some by (auto intro!: fine_bind[OF Cons.IH])
  qed
qed simp

lemma finish_expr_typed:
  assumes "typed_env env" "typed_all ca"
  shows "fine False typed_all (finish_expr env flags ca)"
proof -
  define ts where "ts = ca @ (if CONSUME_RESULT \<in> flags \<and> ca \<noteq> [] then [plain_token (new_Token TOK_CONSUMER TYP_UNARY_OPERATOR)] else [])"
  have "typed_all ts" using assms by (simp add: ts_def)
  moreover have "typed t \<Longrightarrow> typed (convert_variable env (substitute_constant env t))" for t
    using assms(1) by (auto simp: convert_variable_def substitute_constant_def typed_env_def split: option.splits dest!: map_of_SomeD)
  ultimately have "typed_all (map (convert_variable env) (map (substitute_constant env) ts))"
    by (simp add: list_all_iff)
  then have "typed_done (optimize member_number (OptimizeObjectMembers env) (map (convert_variable env) (map (substitute_constant env) ts)))"
    by (rule optimize_typed)
  then show ?thesis unfolding finish_expr_def Let_def ts_def[symmetric]
    by (auto split: outcome.split intro!: fine_bind[OF validate_from_fine] simp: validate_def)
qed

lemma getFunctionPArgument_typed: "typed tok \<Longrightarrow> fine False (\<lambda>(t, _). typed t) (getFunctionPArgument env tok pos)"
  unfolding getFunctionPArgument_def by (rule fine_bind[OF getToken_typed]) auto

lemma open_braced_typed: "fine False (\<lambda>(t, _). \<forall>x \<in> set_option t. typed x) (open_braced env pos)"
  unfolding open_braced_def by (rule fine_bind[OF peekToken_typed]) (auto intro!: fine_bind[OF getToken_typed])

lemma open_list_typed: "fine False (\<lambda>(t, _). \<forall>x \<in> set_option t. typed x) (open_list env opening close pos)"
  unfolding open_list_def
  by (rule fine_bind[OF peekToken_typed]) (auto intro!: fine_bind[OF getToken_typed] fine_bind[OF peekToken_typed])

section \<open>The functions of the parser\<close>

definition typed_passed :: "(string \<times> token list) list \<Rightarrow> bool" where
  "typed_passed passed \<longleftrightarrow> (\<forall>(_, ts) \<in> set passed. typed_all ts)"

lemma typed_passed_Nil [simp]: "typed_passed []"
  by (simp add: typed_passed_def)

abbreviation typed_pair :: "Expression \<times> position \<Rightarrow> bool" where "typed_pair \<equiv> \<lambda>(e, _). typed_expr e"

abbreviation typed_triple :: "'a \<times> Expression \<times> 'b \<Rightarrow> bool" where "typed_triple \<equiv> \<lambda>(_, e, _). typed_expr e"

definition typed_parser :: "compile_env \<Rightarrow> parser \<Rightarrow> bool" where
  "typed_parser env P \<longleftrightarrow>
     (\<forall>flags e pos. typed_expr e \<longrightarrow> fine False typed_pair (IIP P env flags e pos)) \<and>
     (\<forall>flags e pos lt l br. typed_expr e \<longrightarrow> fine False typed_pair (iip_loop P env flags e pos lt l br)) \<and>
     (\<forall>flags t tok e pos. typed tok \<longrightarrow> typed_expr e \<longrightarrow> fine False typed_triple (iip_token P env flags t tok e pos)) \<and>
     (\<forall>flags pos. fine False (\<lambda>(ts, _). typed_all ts) (readexpr P env flags pos)) \<and>
     (\<forall>inject u e pos. typed_expr e \<longrightarrow> fine False typed_triple (getUserArgs P env inject u e pos)) \<and>
     (\<forall>uf passed named pos. typed_passed passed \<longrightarrow>
        fine False (\<lambda>(_, passed', _). typed_passed passed') (user_args_loop P env uf passed named pos)) \<and>
     (\<forall>close flags tok e pos. typed tok \<longrightarrow> typed_expr e \<longrightarrow> fine False typed_pair (array_loop P env close flags tok e pos)) \<and>
     (\<forall>tok e pos. typed tok \<longrightarrow> typed_expr e \<longrightarrow> fine False typed_pair (struct_loop P env tok e pos)) \<and>
     (\<forall>tok e pos. typed tok \<longrightarrow> typed_expr e \<longrightarrow> fine False typed_pair (dictionary_loop P env tok e pos)) \<and>
     (\<forall>tok nargs e pos. typed tok \<longrightarrow> typed_expr e \<longrightarrow> fine False typed_triple (method_loop P env tok nargs e pos))"

lemma typed_parserD:
  assumes "typed_parser env P"
  shows "typed_expr e \<Longrightarrow> fine False typed_pair (IIP P env flags e pos)"
    and "typed_expr e \<Longrightarrow> fine False typed_pair (iip_loop P env flags e pos lt l br)"
    and "typed tok \<Longrightarrow> typed_expr e \<Longrightarrow> fine False typed_triple (iip_token P env flags t tok e pos)"
    and "fine False (\<lambda>(ts, _). typed_all ts) (readexpr P env flags pos)"
    and "typed_expr e \<Longrightarrow> fine False typed_triple (getUserArgs P env inject u e pos)"
    and "typed_passed passed \<Longrightarrow>
        fine False (\<lambda>(_, passed', _). typed_passed passed') (user_args_loop P env uf passed named pos)"
    and "typed tok \<Longrightarrow> typed_expr e \<Longrightarrow> fine False typed_pair (array_loop P env close flags tok e pos)"
    and "typed tok \<Longrightarrow> typed_expr e \<Longrightarrow> fine False typed_pair (struct_loop P env tok e pos)"
    and "typed tok \<Longrightarrow> typed_expr e \<Longrightarrow> fine False typed_pair (dictionary_loop P env tok e pos)"
    and "typed tok \<Longrightarrow> typed_expr e \<Longrightarrow> fine False typed_triple (method_loop P env tok nargs e pos)"
  using assms by (simp_all add: typed_parser_def del: split_paired_All)

lemma typed_triple_method [simp]: "typed_expr e \<Longrightarrow> typed_triple (n, e, p)"
  by simp

lemma fine_any: "fine False (\<lambda>_. True) r"
  by (cases r) simp_all

lemma fine_prod: "(\<And>x y. p = (x, y) \<Longrightarrow> fine b Q (f x y)) \<Longrightarrow> fine b Q (case p of (x, y) \<Rightarrow> f x y)"
  by (cases p) simp

lemma fine_option:
  "(p = None \<Longrightarrow> fine b Q r) \<Longrightarrow> (\<And>x. p = Some x \<Longrightarrow> fine b Q (f x)) \<Longrightarrow> fine b Q (case p of None \<Rightarrow> r | Some x \<Rightarrow> f x)"
  by (cases p) simp_all

lemmas typed_rules = fine_prod fine_if fine_bind[OF getToken_typed] fine_bind[OF peekToken_typed]

lemma IIP_body_typed: "typed_parser env P \<Longrightarrow> typed_expr e \<Longrightarrow> fine False typed_pair (IIP_body P env flags e pos)"
  unfolding IIP_body_def
  by (rule fine_bind[OF typed_parserD(2)]) (auto intro!: fine_bind[OF parse_token_typed])

lemma readexpr_body_typed:
  "typed_parser env P \<Longrightarrow> typed_env env \<Longrightarrow> fine False (\<lambda>(ts, _). typed_all ts) (readexpr_body P env flags pos)"
  unfolding readexpr_body_def
  by (rule fine_bind[OF typed_parserD(1)]) (auto intro!: fine_bind[OF finish_expr_typed] simp: typed_expr_def)

lemma iip_loop_body_typed:
  assumes P: "typed_parser env P" and e: "typed_expr e"
  shows "fine False typed_pair (iip_loop_body P env flags e pos lt l br)"
  unfolding iip_loop_body_def Let_def
  by (rule typed_rules fine_bind[OF typed_parserD(3)[OF P]] typed_parserD(2)[OF P] | (simp add: e reinterpret_typed; fail) | (clarsimp simp: e; fail))+

lemma getUserArgs_body_typed:
  assumes P: "typed_parser env P" and env: "typed_env env" and e: "typed_expr e"
  shows "fine False typed_triple (getUserArgs_body P env inject u e pos)"
proof (cases u)
  case (Some f)
  have dflt: "\<not> length (funcs env) \<le> f \<Longrightarrow> \<forall>p \<in> set (parameters (funcs env ! f)). typed (dflt_value p)"
    using env by (auto simp: typed_env_def typed_function_def)
  have passed: "typed_passed passed \<longleftrightarrow> (\<forall>(_, ts) \<in> set passed. typed_all ts)" for passed
    by (rule typed_passed_def)
  show ?thesis unfolding getUserArgs_body_def Some option.case
    by (rule fine_if fine_prod fine_bind[OF typed_parserD(6)[OF P]] fine_bind[OF pass_params_typed] fine_bind[OF fine_any]
        | (simp add: e dflt passed; fail) | (clarsimp simp: e passed; fail))+
qed (simp add: getUserArgs_body_def)

lemma user_args_loop_body_typed:
  assumes P: "typed_parser env P" and passed: "typed_passed passed"
  shows "fine False (\<lambda>(_, passed', _). typed_passed passed') (user_args_loop_body P env uf passed named pos)"
proof -
  have more: "typed_expr x \<Longrightarrow> typed_passed (passed @ [(n, CA x)])" for n x
    using passed by (auto simp: typed_passed_def typed_expr_def)
  show ?thesis unfolding user_args_loop_body_def Let_def
    by (rule fine_if fine_prod fine_bind[OF typed_parserD(1)[OF P]] typed_parserD(6)[OF P] fine_bind[OF fine_any]
        | (simp add: passed; fail) | (clarsimp simp: passed more; fail))+
qed

lemma array_loop_body_typed:
  assumes P: "typed_parser env P" and tok: "typed tok" and e: "typed_expr e"
  shows "fine False typed_pair (array_loop_body P env close flags tok e pos)"
  unfolding array_loop_body_def Let_def
  by (rule typed_rules fine_bind[OF typed_parserD(4)[OF P]] typed_parserD(7)[OF P] | (simp add: tok e; fail) | (clarsimp simp: e; fail))+

lemma method_loop_body_typed:
  assumes P: "typed_parser env P" and tok: "typed tok" and e: "typed_expr e"
  shows "fine False typed_triple (method_loop_body P env tok nargs e pos)"
  unfolding method_loop_body_def Let_def
  by (rule typed_rules fine_bind[OF typed_parserD(4)[OF P]] typed_parserD(10)[OF P] | (simp add: tok e; fail) | (clarsimp simp: e; fail))+

lemma dictionary_loop_body_typed:
  assumes P: "typed_parser env P" and tok: "typed tok" and e: "typed_expr e"
  shows "fine False typed_pair (dictionary_loop_body P env tok e pos)"
proof -
  have val: "fine False (\<lambda>(t4, vs, _). typed t4 \<and> typed_all vs)
       (if tid t2 = TOK_DICTKEY
        then and_parse (getToken env None t2 pos3) (\<lambda>(_, t3, pos4).
          and_parse (readexpr P env element_flags pos4) (\<lambda>(vs, pos5). Parsed (t3, vs, pos5)))
        else Parsed (t2, [plain_token (new_Token (TOK_OTHER INS_UNINIT) TYP_OPERAND)], pos3))" if "typed t2" for t2 pos3
    by (rule typed_rules fine_bind[OF typed_parserD(4)[OF P]] | (simp add: that; fail) | (clarsimp simp: that; fail))+
  show ?thesis unfolding dictionary_loop_body_def Let_def
    by (rule typed_rules fine_bind[OF typed_parserD(4)[OF P]] typed_parserD(9)[OF P] fine_bind[OF val]
        | (simp add: tok e; fail) | (clarsimp simp: e; fail))+
qed

lemma struct_loop_body_typed:
  assumes P: "typed_parser env P" and tok: "typed tok" and e: "typed_expr e"
  shows "fine False typed_pair (struct_loop_body P env tok e pos)"
proof -
  have ident: "fine False (\<lambda>(_, t, _). typed t) (of_lexed (Parser_getToken Token0 s))" for s
    by (auto simp: of_lexed_def dest: Parser_getToken_typed split: lexed.splits)
  have peek: "fine False typed_tok (case peekToken env t1 p of Failed _ \<Rightarrow> Parsed (1, t1, p) | r \<Rightarrow> r)" if "typed t1" for t1 p
    using peekToken_typed[OF that, of env p] that by (auto split: parsed.splits)
  have val: "fine False (\<lambda>(t4, e1, _). typed t4 \<and> typed_expr e1)
       (if tid t2 = TOK_ASSIGN
        then and_parse (getToken env None t2 pos2) (\<lambda>(_, t3, pos3).
          and_parse (readexpr P env element_flags pos3) (\<lambda>(ts, pos4).
            Parsed (t3, emit (ts @ [plain_token (t\<lparr>tid := INS_ADDMEMBER_ASSIGN\<rparr>)]) e, pos4)))
        else if tid t2 = TOK_EQUAL1 then Failed None
        else Parsed (t2, emit [plain_token (t\<lparr>tid := INS_ADDMEMBER2\<rparr>)] e, pos2))" if "typed t2" for t2 t pos2
    by (rule typed_rules fine_bind[OF typed_parserD(4)[OF P]] | (simp add: that e; fail) | (clarsimp simp: that e; fail))+
  show ?thesis unfolding struct_loop_body_def Let_def
    by (rule typed_rules fine_bind[OF ident] fine_bind[OF peek] typed_parserD(8)[OF P] fine_bind[OF val]
        | (simp add: tok e; fail) | (clarsimp simp: e; fail))+
qed

lemma iip_token_body_typed:
  assumes P: "typed_parser env P" and tok: "typed tok" and e: "typed_expr e"
  shows "fine False typed_triple (iip_token_body P env flags t tok e pos)"
  unfolding iip_token_body_def Let_def
  by (rule fine_if fine_prod fine_option fine_bind[OF parse_token_typed] fine_bind[OF typed_parserD(5)[OF P]]
        fine_bind[OF open_list_typed] fine_bind[OF open_braced_typed] fine_bind[OF peekToken_typed] fine_bind[OF getToken_typed]
        fine_bind[OF typed_parserD(7)[OF P]] fine_bind[OF typed_parserD(8)[OF P]] fine_bind[OF typed_parserD(9)[OF P]]
        fine_bind[OF typed_parserD(10)[OF P]] fine_bind[OF getFunctionPArgument_typed] fine_bind[OF move_method_typed]
        fine_bind[OF fine_any] | (simp add: tok e; fail) | (clarsimp simp: tok e; fail))+

lemma parser_at_typed: "typed_env env \<Longrightarrow> typed_parser env (parser_at n)"
proof (induction n)
  case (Suc n)
  then have P: "typed_parser env (parser_at n)" by simp
  show ?case unfolding typed_parser_def parser_at.simps Let_def
    using IIP_body_typed[OF P] iip_loop_body_typed[OF P] iip_token_body_typed[OF P] readexpr_body_typed[OF P Suc.prems]
      getUserArgs_body_typed[OF P Suc.prems] user_args_loop_body_typed[OF P] array_loop_body_typed[OF P]
      struct_loop_body_typed[OF P] dictionary_loop_body_typed[OF P] method_loop_body_typed[OF P]
    by (simp del: split_paired_All)
qed (simp add: typed_parser_def)

lemma readexpr_typed: "typed_env env \<Longrightarrow> readexpr (parser_at n) env flags pos = Parsed (ts, pos') \<Longrightarrow> typed_all ts"
  using typed_parserD(4)[OF parser_at_typed, of env n flags pos] by simp

end
