(* ===== verification/Steady.thy ===== *)
theory Steady
  imports Compiler TypedParser "HOL-Library.Sublist"
begin

text \<open>
  What the compilation of a statement keeps: the code before it, the table of symbols, the
  variables in scope, the blocks around it, and the positions of the calls that wait for an
  address. Each operation keeps a relation \<open>within b k\<close> to an earlier state \<open>b\<close>, after which
  \<open>k\<close> blocks have been opened; the rules below carry it through the handlers.
\<close>

section \<open>The relation\<close>

text \<open>The local variables are those of the blocks.\<close>

definition scoped :: "compiler \<Rightarrow> bool" where
  "scoped c \<longleftrightarrow> length (localscope (cenv c)) = sum_list (map varcount (blocks c))"

text \<open>The calls that wait for an address are instructions, each once, in order.\<close>

definition callers_in_code :: "eprog \<Rightarrow> bool" where
  "callers_in_code p \<longleftrightarrow>
     sorted_wrt (<) (map snd (callers p)) \<and> (\<forall>i \<in> snd ` set (callers p). i < length (tokens p))"

definition jumps :: "BlockDesc \<Rightarrow> nat set" where
  "jumps bd = set (break_tokens bd) \<union> set (continue_tokens bd)"

text \<open>A block around gets variables, and jumps in the code from \<open>pc\<close> on.\<close>

definition grown :: "nat \<Rightarrow> BlockDesc \<Rightarrow> BlockDesc \<Rightarrow> bool" where
  "grown pc bd bd' \<longleftrightarrow>
     varcount bd \<le> varcount bd' \<and> break_ok bd' = break_ok bd \<and> continue_ok bd' = continue_ok bd \<and>
     block_label bd' = block_label bd \<and> jumps bd \<subseteq> jumps bd' \<and> jumps bd' \<subseteq> jumps bd \<union> {pc..}"

definition within :: "compiler \<Rightarrow> nat \<Rightarrow> compiler \<Rightarrow> bool" where
  "within b k c \<longleftrightarrow>
     scoped b \<and> scoped c \<and> callers_in_code (eprog b) \<and> callers_in_code (eprog c) \<and>
     prefix (localscope (cenv b)) (localscope (cenv c)) \<and>
     prefix (tokens (eprog b)) (tokens (eprog c)) \<and> prefix (syms (eprog b)) (syms (eprog c)) \<and>
     prefix (callers (eprog b)) (callers (eprog c)) \<and>
     userFunctions (cenv c) = userFunctions (cenv b) \<and> inFunction c = inFunction b \<and>
     prefix (funcs (cenv b)) (funcs (cenv c)) \<and> prefix (infos b) (infos c) \<and>
     length (infos c) + length (funcs (cenv b)) = length (infos b) + length (funcs (cenv c)) \<and>
     prefix (globalvars (cenv b)) (globalvars (cenv c)) \<and> typed_env (cenv c) \<and>
     k \<le> length (blocks c) \<and> list_all2 (grown (next_pc b)) (blocks b) (drop k (blocks c)) \<and>
     map varcount (drop (Suc k) (blocks c)) = map varcount (tl (blocks b)) \<and>
     (\<forall>bd \<in> set (take k (blocks c)). jumps bd \<subseteq> {next_pc b..})"

lemma grown_refl [simp]: "grown pc bd bd"
  by (simp add: grown_def)

lemma grown_trans: "grown pc x y \<Longrightarrow> grown pc y z \<Longrightarrow> grown pc x z"
  by (auto simp: grown_def)

lemma within_refl: "scoped c \<Longrightarrow> callers_in_code (eprog c) \<Longrightarrow> typed_env (cenv c) \<Longrightarrow> within c 0 c"
  by (simp add: within_def list_all2_refl drop_Suc)

lemma within_next_pc: "within b k c \<Longrightarrow> next_pc b \<le> next_pc c"
  by (auto simp: within_def next_pc_def dest: prefix_length_le)

lemma within_symbols: "within b k c \<Longrightarrow> length (syms (eprog b)) \<le> length (syms (eprog c))"
  by (auto simp: within_def dest: prefix_length_le)

text \<open>A change of what the relation does not mention.\<close>

lemma within_frame:
  "within b k c \<Longrightarrow> eprog c' = eprog c \<Longrightarrow> blocks c' = blocks c \<Longrightarrow> infos c' = infos c \<Longrightarrow>
   inFunction c' = inFunction c \<Longrightarrow> localscope (cenv c') = localscope (cenv c) \<Longrightarrow>
   userFunctions (cenv c') = userFunctions (cenv c) \<Longrightarrow> funcs (cenv c') = funcs (cenv c) \<Longrightarrow>
   globalvars (cenv c') = globalvars (cenv c) \<Longrightarrow> constants (cenv c') = constants (cenv c) \<Longrightarrow> within b k c'"
  by (simp add: within_def scoped_def typed_env_def)

lemma typed_env_frame [simp]: "typed_env (env\<lparr>localscope := vs\<rparr>) = typed_env env"
    "typed_env (env\<lparr>globalvars := vs\<rparr>) = typed_env env"
  by (simp_all add: typed_env_def)

lemma within_typed: "within b k c \<Longrightarrow> typed_env (cenv c)"
  by (simp add: within_def)

section \<open>Rules\<close>

definition keeps :: "compiler \<Rightarrow> nat \<Rightarrow> 'a step \<Rightarrow> ('a \<Rightarrow> bool) \<Rightarrow> nat \<Rightarrow> bool" where
  "keeps b k m F k' \<longleftrightarrow> (\<forall>c a c'. within b k c \<longrightarrow> m c = Parsed (a, c') \<longrightarrow> within b k' c' \<and> F a)"

named_theorems keeps_rules \<open>what steps of the compiler keep\<close>

lemma keepsI: "(\<And>c a c'. within b k c \<Longrightarrow> m c = Parsed (a, c') \<Longrightarrow> within b k' c' \<and> F a) \<Longrightarrow> keeps b k m F k'"
  by (simp add: keeps_def)

lemma keepsD: "keeps b k m F k' \<Longrightarrow> within b k c \<Longrightarrow> m c = Parsed (a, c') \<Longrightarrow> within b k' c' \<and> F a"
  by (simp add: keeps_def)

lemma and_parse_Parsed: "and_parse r f = Parsed y \<longleftrightarrow> (\<exists>x. r = Parsed x \<and> f x = Parsed y)"
  by (cases r) (simp_all add: and_parse_def)

lemma keeps_weaken: "keeps b k m G k' \<Longrightarrow> (\<And>a. G a \<Longrightarrow> F a) \<Longrightarrow> keeps b k m F k'"
  by (auto simp: keeps_def)

lemma keeps_give: "F a \<Longrightarrow> keeps b k (give a) F k"
  by (simp add: keeps_def give_def)

lemma keeps_give_any [keeps_rules]: "keeps b k (give a) (\<lambda>_. True) k"
  by (simp add: keeps_give)

lemma keeps_fail [keeps_rules]: "keeps b k fail F k'" "keeps b k (throw e) F k'"
    "keeps b k (\<lambda>c. parsed.Undef) F k'" "keeps b k (\<lambda>c. OutOfFuel) F k'"
  by (simp_all add: keeps_def fail_def throw_def)

lemma keeps_check [keeps_rules]: "keeps b k (check p) (\<lambda>_. p) k"
  by (simp add: keeps_def check_def fail_def give_def)

lemma keeps_then [keeps_rules]:
  "keeps b k m G k1 \<Longrightarrow> (\<And>a. G a \<Longrightarrow> keeps b k1 (f a) F k2) \<Longrightarrow> keeps b k (then_do m f) F k2"
  by (fastforce simp: keeps_def then_do_def and_parse_Parsed)

lemma keeps_look [keeps_rules]: "(\<And>c. within b k c \<Longrightarrow> keeps b k (f c) F k') \<Longrightarrow> keeps b k (look f) F k'"
  by (auto simp: keeps_def look_def)

lemma keeps_if [keeps_rules]:
  "(p \<Longrightarrow> keeps b k m F k') \<Longrightarrow> (\<not> p \<Longrightarrow> keeps b k m' F k') \<Longrightarrow> keeps b k (if p then m else m') F k'"
  by simp

lemma keeps_prod [keeps_rules]: "(\<And>x y. p = (x, y) \<Longrightarrow> keeps b k (f x y) F k') \<Longrightarrow> keeps b k (case p of (x, y) \<Rightarrow> f x y) F k'"
  by (cases p) simp

lemma keeps_option [keeps_rules]:
  "(p = None \<Longrightarrow> keeps b k m F k') \<Longrightarrow> (\<And>x. p = Some x \<Longrightarrow> keeps b k (f x) F k') \<Longrightarrow>
   keeps b k (case p of None \<Rightarrow> m | Some x \<Rightarrow> f x) F k'"
  by (cases p) simp_all

lemma keeps_list [keeps_rules]:
  "(p = [] \<Longrightarrow> keeps b k m F k') \<Longrightarrow> (\<And>x xs. p = x # xs \<Longrightarrow> keeps b k (f x xs) F k') \<Longrightarrow>
   keeps b k (case p of [] \<Rightarrow> m | x # xs \<Rightarrow> f x xs) F k'"
  by (cases p) simp_all

lemma keeps_let [keeps_rules]: "keeps b k (f e) F k' \<Longrightarrow> keeps b k (let x = e in f x) F k'"
  by simp

lemma keeps_modify: "(\<And>c. within b k c \<Longrightarrow> within b k' (f c)) \<Longrightarrow> keeps b k (modify f) (\<lambda>_. True) k'"
  by (simp add: keeps_def modify_def)

lemma keeps_rounds:
  assumes "\<And>a. I a \<Longrightarrow> keeps b k (f a) (\<lambda>r. case r of Inl x \<Rightarrow> I x | Inr y \<Rightarrow> F y) k"
  shows "I a \<Longrightarrow> keeps b k (rounds n f a) F k"
proof (induction n arbitrary: a)
  case (Suc n)
  show ?case unfolding rounds.simps
  proof (rule keeps_then[OF assms[OF Suc.prems]])
    fix r assume "case r of Inl x \<Rightarrow> I x | Inr y \<Rightarrow> F y"
    then show "keeps b k (case r of Inl a' \<Rightarrow> rounds n f a' | Inr z \<Rightarrow> give z) F k"
      by (cases r) (simp_all add: Suc.IH keeps_give)
  qed
qed (simp add: keeps_def)

lemma keeps_loop_inv:
  "(\<And>a. I a \<Longrightarrow> keeps b k (f a) (\<lambda>r. case r of Inl x \<Rightarrow> I x | Inr y \<Rightarrow> F y) k) \<Longrightarrow> I a \<Longrightarrow> keeps b k (loop f a) F k"
  unfolding keeps_def loop_def using keeps_rounds[of I b k f F a, unfolded keeps_def] by metis

lemma keeps_loop [keeps_rules]: "(\<And>a. keeps b k (f a) (\<lambda>_. True) k) \<Longrightarrow> keeps b k (loop f a) (\<lambda>_. True) k"
  by (rule keeps_loop_inv[where I = "\<lambda>_. True"]) (auto intro!: keeps_weaken[where G = "\<lambda>_. True"] split: sum.splits)

section \<open>The text\<close>

lemma keeps_get_tok [keeps_rules]: "keeps b k (get_tok t) (\<lambda>_. True) k"
  by (auto simp: keeps_def get_tok_def and_parse_Parsed intro: within_frame)

lemma keeps_peek_tok [keeps_rules]: "keeps b k (peek_tok t) (\<lambda>_. True) k"
  by (auto simp: keeps_def peek_tok_def and_parse_Parsed intro: within_frame)

lemma keeps_need_tok [keeps_rules]: "keeps b k (need_tok t) (\<lambda>_. True) k"
  unfolding need_tok_def by (rule keeps_rules)+

lemma keeps_check_any: "keeps b k (check p) (\<lambda>_. True) k"
  by (rule keeps_weaken[OF keeps_check]) simp

lemma keeps_eatToken [keeps_rules]: "keeps b k (eatToken i) (\<lambda>_. True) k"
  unfolding eatToken_def by (rule keeps_check_any keeps_rules)+

lemma keeps_skip_blanks [keeps_rules]: "keeps b k skip_blanks (\<lambda>_. True) k"
  by (auto simp: keeps_def skip_blanks_def intro: within_frame split: lexed.splits)

lemma keeps_read_expr [keeps_rules]: "keeps b k (read_expr flags) typed_all k"
  by (auto simp: keeps_def read_expr_def and_parse_Parsed intro: within_frame readexpr_typed[OF within_typed])

section \<open>Code and symbols\<close>

text \<open>More code and symbols, and calls that wait in the new code.\<close>

definition adds_code :: "eprog \<Rightarrow> eprog \<Rightarrow> bool" where
  "adds_code p q \<longleftrightarrow>
     prefix (tokens p) (tokens q) \<and> prefix (syms p) (syms q) \<and>
     (\<exists>cs. callers q = callers p @ cs \<and> sorted_wrt (<) (map snd cs) \<and>
        (\<forall>i \<in> snd ` set cs. length (tokens p) \<le> i \<and> i < length (tokens q)))"

lemma adds_code_refl [simp]: "adds_code p p"
  by (simp add: adds_code_def)

lemma adds_code_trans:
  assumes "adds_code p q" "adds_code q r"
  shows "adds_code p r"
proof -
  obtain cs ds where c: "callers q = callers p @ cs" "sorted_wrt (<) (map snd cs)"
      "\<forall>i \<in> snd ` set cs. length (tokens p) \<le> i \<and> i < length (tokens q)"
    and d: "callers r = callers q @ ds" "sorted_wrt (<) (map snd ds)"
      "\<forall>i \<in> snd ` set ds. length (tokens q) \<le> i \<and> i < length (tokens r)"
    using assms by (auto simp: adds_code_def)
  have len: "length (tokens p) \<le> length (tokens q)" "length (tokens q) \<le> length (tokens r)"
    using assms by (auto simp: adds_code_def dest: prefix_length_le)
  have "sorted_wrt (<) (map snd (cs @ ds))"
    using c d by (fastforce simp: sorted_wrt_append)
  moreover have "\<forall>i \<in> snd ` set (cs @ ds). length (tokens p) \<le> i \<and> i < length (tokens r)"
    using c(3) d(3) len by fastforce
  ultimately show ?thesis using assms c(1) d(1) by (auto simp: adds_code_def)
qed

lemma adds_code_callers: "adds_code p q \<Longrightarrow> callers_in_code p \<Longrightarrow> callers_in_code q"
  unfolding adds_code_def callers_in_code_def
  by (fastforce simp: sorted_wrt_append dest: prefix_length_le)

lemma within_adds_code: "within b k c \<Longrightarrow> adds_code (eprog c) p \<Longrightarrow> within b k (c\<lparr>eprog := p\<rparr>)"
  using adds_code_callers[of "eprog c" p]
  by (auto simp: within_def scoped_def adds_code_def intro: prefix_order.trans)

definition adds_symbols :: "(string \<Rightarrow> nat \<times> string) \<Rightarrow> bool" where
  "adds_symbols add \<longleftrightarrow> (\<forall>s. prefix s (snd (add s)))"

lemma adds_data [simp]: "adds_symbols (append_data data)"
  by (simp add: adds_symbols_def append_data_def split: option.splits)

lemma adds_string [simp]: "adds_symbols (append_string str)"
  using adds_data[of "c_str str @ [CHR 0x00]"] by (simp add: adds_symbols_def append_string_def)

lemma adds_int [simp]: "adds_symbols (append_int v)"
  by (simp add: adds_symbols_def append_int_def)

lemma adds_double [simp]: "adds_symbols (append_double d)"
  by (simp add: adds_symbols_def append_double_def)

lemma append_tok_adds_code:
  "append_tok m i ty off p = Parsed q \<Longrightarrow> adds_code p q \<and> callers q = callers p \<and> length (tokens q) = Suc (length (tokens p))"
  by (auto simp: append_tok_def and_parse_Parsed adds_code_def)

lemma remember_caller_adds_code:
  assumes "append_tok m i ty off p = Parsed p1" "remember_caller u (length (tokens p)) p1 = Parsed q"
  shows "adds_code p q"
  using append_tok_adds_code[OF assms(1)] assms(2)
  by (auto simp: remember_caller_def adds_code_def split: option.splits)

lemma with_symbol_adds_code:
  assumes "with_symbol add p (put ty) = Parsed q" "adds_symbols add"
    and "\<And>off p q. put ty off p = Parsed q \<Longrightarrow> adds_code p q"
  shows "adds_code p q"
proof -
  obtain pos s where s: "add (syms p) = (pos, s)" by (cases "add (syms p)")
  then have "adds_code (p\<lparr>syms := s\<rparr>) q" using assms by (simp add: with_symbol_def)
  moreover have "prefix (syms p) s" using assms(2) s by (metis adds_symbols_def snd_conv)
  then have "adds_code p (p\<lparr>syms := s\<rparr>)" by (simp add: adds_code_def)
  ultimately show ?thesis by (rule adds_code_trans[rotated])
qed

lemma addToken_adds_code:
  assumes "addToken t p = Parsed q"
  shows "adds_code p q"
proof -
  have put: "append_tok (module t) (tid t) ty off p1 = Parsed p2 \<Longrightarrow> adds_code p1 p2" for ty off p1 p2
    by (simp add: append_tok_adds_code)
  have call: "and_parse (append_tok (module t) (tid t) ty off p) (remember_caller (userfunc t) (length (tokens p))) = Parsed q \<Longrightarrow>
      adds_code p q" for ty off
    by (auto simp: and_parse_Parsed intro: remember_caller_adds_code)
  have sym: "with_symbol add p (append_tok (module t) (tid t) ty) = Parsed q \<Longrightarrow> adds_symbols add \<Longrightarrow> adds_code p q" for add ty
    by (rule with_symbol_adds_code[where put = "append_tok (module t) (tid t)"]) (auto intro: put)
  show ?thesis using assms unfolding addToken_def Let_def
    by (auto split: if_splits option.splits intro: put call sym)
qed

lemma addTokens_adds_code: "addTokens ts p = Parsed q \<Longrightarrow> adds_code p q"
proof (induction ts arbitrary: p)
  case (Cons t ts)
  then obtain p1 where "addToken t p = Parsed p1" "addTokens ts p1 = Parsed q" by (auto simp: and_parse_Parsed)
  then show ?case using addToken_adds_code Cons.IH adds_code_trans by blast
qed simp

lemma keeps_on_program: "(\<And>p q. f p = Parsed q \<Longrightarrow> adds_code p q) \<Longrightarrow> keeps b k (on_program f) (\<lambda>_. True) k"
  by (auto simp: keeps_def on_program_def and_parse_Parsed intro: within_adds_code)

lemma keeps_inject [keeps_rules]: "keeps b k (inject ts) (\<lambda>_. True) k"
  unfolding inject_def by (rule keeps_on_program) (rule addTokens_adds_code)

lemma keeps_append_code [keeps_rules]: "keeps b k (append_code i ty off) (\<lambda>posn. next_pc b \<le> posn) k"
  unfolding append_code_def
proof (rule keeps_look, rule keeps_then)
  fix c assume "within b k c"
  then show "keeps b k (give (next_pc c)) (\<lambda>posn. next_pc b \<le> posn) k" by (simp add: keeps_give within_next_pc)
qed (rule keeps_on_program, simp add: append_tok_adds_code)

lemma keeps_append_any: "keeps b k (append_code i ty off) (\<lambda>_. True) k"
  by (rule keeps_weaken[OF keeps_append_code]) simp

lemma keeps_append_instruction [keeps_rules]: "keeps b k (append_instruction i ty off) (\<lambda>_. True) k"
  unfolding append_instruction_def by (rule keeps_rules)+

lemma keeps_append_symbol: "adds_symbols add \<Longrightarrow> keeps b k (append_symbol add) (\<lambda>_. True) k"
  by (rule keepsI) (auto simp: append_symbol_def adds_symbols_def adds_code_def split: prod.splits intro!: within_adds_code,
      metis snd_conv)

lemmas keeps_append_symbols [keeps_rules] =
  adds_data[THEN keeps_append_symbol] adds_string[THEN keeps_append_symbol] adds_int[THEN keeps_append_symbol]

section \<open>Instructions that are replaced\<close>

lemma prefix_update: "prefix xs ys \<Longrightarrow> length xs \<le> i \<Longrightarrow> prefix xs (ys[i := y])"
  by (auto simp: prefix_def list_update_append)

lemma within_put: "within b k c \<Longrightarrow> next_pc b \<le> i \<Longrightarrow> within b k (c\<lparr>eprog := (eprog c)\<lparr>tokens := (tokens (eprog c))[i := st]\<rparr>\<rparr>)"
  by (auto simp: within_def scoped_def callers_in_code_def next_pc_def intro: prefix_update)

lemma keeps_atGet1 [keeps_rules]: "keeps b k (atGet1 i) (\<lambda>_. True) k"
  unfolding atGet1_def by (rule keeps_rules)+

lemma keeps_atPut1: "next_pc b \<le> i \<Longrightarrow> keeps b k (atPut1 st i) (\<lambda>_. True) k"
  unfolding atPut1_def by (rule keeps_rules keeps_modify within_put | assumption)+

lemma keeps_patchoffset: "next_pc b \<le> i \<Longrightarrow> keeps b k (patchoffset i off) (\<lambda>_. True) k"
  unfolding patchoffset_def by (rule keeps_rules keeps_atPut1 | assumption)+

lemma keeps_put_jump: "next_pc b \<le> i \<Longrightarrow> keeps b k (put_jump j off i) (\<lambda>_. True) k"
  unfolding put_jump_def by (auto simp: keeps_def and_parse_Parsed dest: keepsD[OF keeps_atPut1])

lemma keeps_patch_all: "\<forall>i \<in> set is. next_pc b \<le> i \<Longrightarrow> keeps b k (patch_all is off) (\<lambda>_. True) k"
proof (induction "is")
  case (Cons i "is")
  have "keeps b k (patch_all is off) (\<lambda>_. True) k" "next_pc b \<le> i" using Cons by simp_all
  then show ?case by (auto intro: keeps_then[OF keeps_patchoffset])
qed (simp add: keeps_give)

section \<open>Blocks\<close>

lemma within_depth: "within b k c \<Longrightarrow> k \<le> length (blocks c)"
  by (simp add: within_def)

lemma within_open:
  assumes "within b (Suc k) c"
  obtains bd bds where "blocks c = bd # bds" "jumps bd \<subseteq> {next_pc b..}" "varcount bd \<le> length (localscope (cenv c))"
proof -
  obtain bd bds where "blocks c = bd # bds" using within_depth[OF assms] by (cases "blocks c") simp_all
  then show ?thesis using assms that by (auto simp: within_def scoped_def)
qed

lemma keeps_enterblock [keeps_rules]: "keeps b k (enterblock l brk cont) (\<lambda>_. True) (Suc k)"
  unfolding enterblock_def by (rule keeps_modify) (simp add: within_def scoped_def jumps_def)

lemma keeps_plain_block [keeps_rules]: "keeps b k plain_block (\<lambda>_. True) (Suc k)"
  unfolding plain_block_def by (rule keeps_rules)

lemma keeps_labelled_block [keeps_rules]: "keeps b k labelled_block (\<lambda>_. True) (Suc k)"
  unfolding labelled_block_def by (rule keeps_rules)

lemma keeps_in_block: "(\<And>c bd bds. within b k c \<Longrightarrow> blocks c = bd # bds \<Longrightarrow> keeps b k (f bd) F k') \<Longrightarrow>
   keeps b k (in_block f) F k'"
  unfolding in_block_def by (rule keeps_look, rule keeps_list) (auto intro: keeps_rules)

lemma grown_sum: "list_all2 (grown pc) xs ys \<Longrightarrow> sum_list (map varcount xs) \<le> sum_list (map varcount ys)"
  by (induction rule: list_all2_induct) (auto simp: grown_def)

lemma prefix_take: "prefix xs ys \<Longrightarrow> length xs \<le> n \<Longrightarrow> prefix xs (take n ys)"
  by (auto simp: prefix_def)

text \<open>A block that is left takes its variables with it.\<close>

lemma within_popblock:
  assumes "within b (Suc k) c" "blocks c = bd # bds"
  shows "within b k (set_locals (\<lambda>vs. take (length vs - varcount bd) vs) (c\<lparr>blocks := bds\<rparr>))"
    and "within b (Suc k) (set_locals (\<lambda>vs. take (length vs - varcount bd) vs) (c\<lparr>blocks := bd\<lparr>varcount := 0\<rparr> # bds\<rparr>))"
proof -
  note w = assms(1)[unfolded within_def scoped_def]
  have "sum_list (map varcount (blocks b)) \<le> sum_list (map varcount (drop (Suc k) (blocks c)))"
    using w by (intro grown_sum[of "next_pc b"]) simp
  also have "\<dots> \<le> sum_list (map varcount bds)"
    using append_take_drop_id[of k bds] assms(2)
    by (metis drop_Suc_Cons le_add2 map_append sum_list_append)
  finally have "length (localscope (cenv b)) \<le> length (localscope (cenv c)) - varcount bd"
    using w assms(2) by simp
  then have "prefix (localscope (cenv b)) (take (length (localscope (cenv c)) - varcount bd) (localscope (cenv c)))"
    using w by (intro prefix_take) simp_all
  then show "within b k (set_locals (\<lambda>vs. take (length vs - varcount bd) vs) (c\<lparr>blocks := bds\<rparr>))"
    and "within b (Suc k) (set_locals (\<lambda>vs. take (length vs - varcount bd) vs) (c\<lparr>blocks := bd\<lparr>varcount := 0\<rparr> # bds\<rparr>))"
    using w assms(2) by (simp_all add: within_def scoped_def set_locals_def jumps_def)
qed

lemma keeps_popblock [keeps_rules]: "keeps b (Suc k) (popblock False) (\<lambda>_. True) k"
  by (rule keepsI) (auto simp: popblock_def in_block_def look_def modify_def dest: within_popblock(1) split: list.splits)

lemma keeps_popvariables [keeps_rules]: "keeps b (Suc k) (popblock True) (\<lambda>_. True) (Suc k)"
  by (rule keepsI) (auto simp: popblock_def in_block_def look_def modify_def dest: within_popblock(2) split: list.splits)

text \<open>A variable that is declared belongs to the innermost block.\<close>

lemma within_addvar:
  assumes "within b k c" "blocks c = bd # bds"
  shows "within b k (set_locals (\<lambda>vs. vs @ [x]) (c\<lparr>blocks := bd\<lparr>varcount := varcount bd + 1\<rparr> # bds\<rparr>))"
proof -
  have "grown (next_pc b) y bd \<Longrightarrow> grown (next_pc b) y (bd\<lparr>varcount := varcount bd + 1\<rparr>)" for y
    by (simp add: grown_def jumps_def)
  then have "list_all2 (grown (next_pc b)) (blocks b) (drop k (bd # bds)) \<Longrightarrow>
      list_all2 (grown (next_pc b)) (blocks b) (drop k (bd\<lparr>varcount := varcount bd + 1\<rparr> # bds))"
    by (cases k) (auto simp: list_all2_Cons2)
  then show ?thesis using assms
    by (cases k) (auto simp: within_def scoped_def set_locals_def jumps_def intro: prefix_order.trans)
qed

lemma keeps_addvar [keeps_rules]: "keeps b k (addvar x) (\<lambda>_. True) k"
  by (rule keepsI)
    (auto simp: addvar_def in_block_def look_def modify_def throw_def Let_def within_addvar[simplified]
      split: list.splits if_splits)

lemma keeps_emit_leaveblock [keeps_rules]: "keeps b k emit_leaveblock (\<lambda>_. True) k"
  unfolding emit_leaveblock_def by (rule keeps_in_block keeps_rules)+

lemma keeps_patchblock [keeps_rules]: "keeps b (Suc k) (patchblock_breaks pc) (\<lambda>_. True) (Suc k)"
    "keeps b (Suc k) (patchblock_continues pc) (\<lambda>_. True) (Suc k)"
  unfolding patchblock_breaks_def patchblock_continues_def
  by (auto intro!: keeps_in_block keeps_patch_all elim!: within_open simp: jumps_def)

lemma keeps_leaveblock [keeps_rules]: "keeps b (Suc k) (leaveblock brk cont) (\<lambda>_. True) k"
  unfolding leaveblock_def by (rule keeps_rules)+

section \<open>Jumps out of blocks\<close>

lemma find_block_result:
  "find_block ok f kill bds = Some (n, bds') \<Longrightarrow> \<exists>i < length bds. bds' = bds[i := f (bds ! i)]"
proof (induction bds arbitrary: kill n bds')
  case (Cons bd bds)
  show ?case
  proof (cases "ok bd")
    case True
    then show ?thesis using Cons.prems by (intro exI[of _ 0]) auto
  next
    case False
    then obtain bds1 where "find_block ok f (kill + varcount bd) bds = Some (n, bds1)" "bds' = bd # bds1"
      using Cons.prems by (auto split: prod.splits)
    then obtain i where "i < length bds" "bds' = bd # bds[i := f (bds ! i)]" using Cons.IH by blast
    then show ?thesis by (intro exI[of _ "Suc i"]) simp
  qed
qed simp

lemma grown_update:
  assumes "list_all2 (grown pc) xs ys" "i < length ys" "grown pc (ys ! i) y"
  shows "list_all2 (grown pc) xs (ys[i := y])"
proof -
  have "grown pc (xs ! i) y" using assms grown_trans by (blast dest: list_all2_nthD2)
  then have "list_all2 (grown pc) (xs[i := xs ! i]) (ys[i := y])" by (rule list_all2_update_cong[OF assms(1)])
  then show ?thesis by simp
qed

lemma within_update_block:
  assumes "within b k c" "i < length (blocks c)" "grown (next_pc b) (blocks c ! i) bd" "varcount bd = varcount (blocks c ! i)"
  shows "within b k (c\<lparr>blocks := (blocks c)[i := bd]\<rparr>)"
proof -
  note w = assms(1)[unfolded within_def scoped_def]
  have "map varcount ((blocks c)[i := bd]) = map varcount (blocks c)"
    using assms(4) by (simp add: map_update list_update_same_conv assms(2))
  moreover from this have d: "map varcount (drop (Suc k) ((blocks c)[i := bd])) = map varcount (tl (blocks b))"
    using w by (metis drop_map)
  moreover have "list_all2 (grown (next_pc b)) (blocks b) (drop k ((blocks c)[i := bd]))"
    using w assms(2,3) by (cases "i < k") (auto simp: drop_update_cancel drop_update_swap intro: grown_update)
  moreover have "\<forall>y \<in> set (take k ((blocks c)[i := bd])). jumps y \<subseteq> {next_pc b..}"
  proof (cases "i < k")
    case True
    then have "blocks c ! i \<in> set (take k (blocks c))" using assms(2) by (auto simp: in_set_conv_nth intro!: exI[of _ i])
    then have "jumps bd \<subseteq> {next_pc b..}" using w assms(3) by (fastforce simp: grown_def)
    then show ?thesis using w set_update_subset_insert[of "take k (blocks c)" i bd] by (auto simp: take_update_swap)
  next
    case False
    then show ?thesis using w by (simp add: take_update_cancel)
  qed
  ultimately show ?thesis using w by (simp add: within_def scoped_def)
qed

lemma keeps_jump_out:
  assumes "\<And>posn bd. next_pc b \<le> posn \<Longrightarrow> grown (next_pc b) bd (remember posn bd) \<and> varcount (remember posn bd) = varcount bd"
  shows "keeps b k (jump_out ok remember label) (\<lambda>_. True) k"
proof -
  have "keeps b k (modify (\<lambda>c. c\<lparr>blocks := case find_block p (remember posn) 0 (blocks c) of
        Some (_, bds) \<Rightarrow> bds | None \<Rightarrow> blocks c\<rparr>)) (\<lambda>_. True) k" if "next_pc b \<le> posn" for p posn
    by (rule keeps_modify)
      (auto split: option.splits dest!: find_block_result intro!: within_update_block simp: assms[OF that])
  then show ?thesis
    unfolding jump_out_def Let_def by (auto intro!: keeps_look keeps_option keeps_prod keeps_then keeps_fail keeps_if
      keeps_give_any keeps_append_any keeps_append_code)
qed

lemma keeps_insert_jumps [keeps_rules]: "keeps b k (insertBreak label) (\<lambda>_. True) k"
    "keeps b k (insertContinue label) (\<lambda>_. True) k"
  unfolding insertBreak_def insertContinue_def
  by (rule keeps_jump_out, auto simp: grown_def jumps_def)+

lemma keeps_handle_jumps [keeps_rules]: "keeps b k handleBreak (\<lambda>_. True) k" "keeps b k handleContinue (\<lambda>_. True) k"
  unfolding handleBreak_def handleContinue_def handle_jump_def by (rule keeps_rules)+

section \<open>Expressions and declarations\<close>

lemma keeps_getExpr [keeps_rules]: "keeps b k (getExpr flags) typed_all k"
  unfolding getExpr_def by (rule keeps_rules keeps_give | assumption)+

lemma keeps_getExprInParens [keeps_rules]: "keeps b k getExprInParens typed_all k"
  unfolding getExprInParens_def by (rule keeps_rules keeps_give | assumption)+

lemma keeps_getSimpleExpr [keeps_rules]: "keeps b k getSimpleExpr (\<lambda>_. True) k"
  unfolding getSimpleExpr_def by (rule keeps_rules)+

lemma keeps_set_constants [keeps_rules]: "typed t \<Longrightarrow> keeps b k (add_constant x t) (\<lambda>_. True) k"
  unfolding add_constant_def set_env_def
  by (rule keeps_modify) (auto simp: within_def scoped_def typed_env_def typed_def token.extend_def token.defs)

lemma keeps_new_global [keeps_rules]: "keeps b k (set_env (\<lambda>e. e\<lparr>globalvars := globalvars e @ [x]\<rparr>)) (\<lambda>_. True) k"
  unfolding set_env_def by (rule keeps_modify) (auto simp: within_def scoped_def typed_env_def intro: prefix_order.trans)

lemma keeps_declare_variable [keeps_rules]: "keeps b k (declare_variable x) (\<lambda>_. True) k"
  unfolding declare_variable_def by (rule keeps_in_block keeps_rules)+

lemma keeps_handleVarDeclare [keeps_rules]: "keeps b k (handleVarDeclare global) (\<lambda>_. True) k"
  unfolding handleVarDeclare_def by (rule keeps_append_any keeps_rules)+

lemma keeps_constant_value [keeps_rules]: "keeps b k (constant_value flags) typed k"
  unfolding constant_value_def by (rule keeps_rules keeps_give | simp)+

lemma keeps_handleConstDeclare [keeps_rules]: "keeps b k handleConstDeclare (\<lambda>_. True) k"
  unfolding handleConstDeclare_def by (rule keeps_rules | assumption)+

lemma keeps_handleEnumDeclare [keeps_rules]: "keeps b k handleEnumDeclare (\<lambda>_. True) k"
  unfolding handleEnumDeclare_def by (rule keeps_rules | simp)+

lemma keeps_skip_to [keeps_rules]: "keeps b k (skip_to i) (\<lambda>_. True) k"
  unfolding skip_to_def by (rule keeps_rules)+

lemma keeps_default_value [keeps_rules]: "keeps b k (default_value u t) (\<lambda>(d, _). \<forall>x \<in> set_option d. typed x) k"
  unfolding default_value_def by (rule keeps_rules keeps_give | simp)+

lemma mk_param_typed: "\<forall>t \<in> set_option d. typed t \<Longrightarrow> typed (dflt_value (mk_param x d))"
  by (auto simp: mk_param_def typed_def token.extend_def token.defs Token0_def new_Token_def split: option.splits)

lemma keeps_readFunctionDeclaration [keeps_rules]: "keeps b k readFunctionDeclaration (\<lambda>(uf, _). typed_function uf) k"
  unfolding readFunctionDeclaration_def
  by (rule keeps_loop_inv[where I = "\<lambda>(_, ps, _). \<forall>p \<in> set ps. typed (dflt_value p)"] keeps_rules keeps_give
      | (simp add: typed_function_def; fail) | (clarsimp simp: typed_function_def mk_param_typed; fail))+

lemma keeps_read_to [keeps_rules]: "keeps b k (read_to i) (\<lambda>_. True) k"
  unfolding read_to_def by (rule keeps_rules)+

lemma keeps_handleBracketedFunction2 [keeps_rules]: "keeps b k (handleBracketedFunction2 ty) (\<lambda>_. True) k"
  unfolding handleBracketedFunction2_def by (rule keeps_check_any keeps_rules)+

lemma keeps_handleProgram [keeps_rules]: "keeps b k handleProgram (\<lambda>_. True) k"
  unfolding handleProgram_def by (rule keeps_rules keeps_modify | erule within_frame; simp)+

lemma keeps_handleDeclare [keeps_rules]: "keeps b k handleDeclare (\<lambda>_. True) k"
  unfolding handleDeclare_def by (rule keeps_check_any keeps_rules)+

section \<open>Modules and files\<close>

lemma keeps_in_file [keeps_rules]: "keeps b k m F k' \<Longrightarrow> keeps b k (in_file text path m) F k'"
proof (rule keepsI)
  fix c a c'
  assume m: "keeps b k m F k'" and c: "within b k c" and r: "in_file text path m c = Parsed (a, c')"
  obtain c1 where c1: "m (c\<lparr>ctext := text, current_file_path := path\<rparr>) = Parsed (a, c1)"
      "c' = c1\<lparr>ctext := ctext c, current_file_path := current_file_path c\<rparr>"
    using r by (auto simp: in_file_def and_parse_Parsed)
  have "within b k (c\<lparr>ctext := text, current_file_path := path\<rparr>)" by (rule within_frame[OF c]) simp_all
  then have "within b k' c1 \<and> F a" using keepsD[OF m _ c1(1)] by simp
  then show "within b k' c' \<and> F a" using c1(2) within_frame[of b k' c1 c'] by simp
qed

lemma keeps_unless_failed [keeps_rules]: "keeps b k m F k' \<Longrightarrow> keeps b k (unless_failed m) F k'"
  by (auto simp: keeps_def unless_failed_def split: parsed.splits)

lemma keeps_catching [keeps_rules]: "keeps b k m F k' \<Longrightarrow> keeps b k (catching m) F k'"
  by (auto simp: keeps_def catching_def split: parsed.splits)

lemma keeps_add_function [keeps_rules]: "typed_function uf \<Longrightarrow> keeps b k (modify (add_function uf info)) (\<lambda>_. True) k"
  by (rule keeps_modify) (auto simp: add_function_def within_def scoped_def typed_env_def intro: prefix_order.trans)

lemma keeps_module_function [keeps_rules]: "keeps b k (module_function m) (\<lambda>_. True) k"
  unfolding module_function_def by (rule keeps_rules | (clarsimp; fail))+

lemma keeps_read_module [keeps_rules]: "keeps b k (read_module name) (\<lambda>_. True) k"
  unfolding read_module_def by (rule keeps_rules keeps_modify | erule within_frame; simp)+

lemma keeps_useModule [keeps_rules]: "keeps b k (useModule src name) (\<lambda>_. True) k"
  unfolding useModule_def Let_def by (rule keeps_rules)+

lemma keeps_handleUse [keeps_rules]: "keeps b k (handleUse src) (\<lambda>_. True) k"
  unfolding handleUse_def by (rule keeps_rules)+

lemma keeps_include_once: "keeps b k m (\<lambda>_. True) k \<Longrightarrow> keeps b k (include_once src m name) (\<lambda>_. True) k"
  unfolding include_once_def by (rule keeps_rules keeps_modify | assumption | erule within_frame; simp)+

lemma keeps_handleInclude: "keeps b k m (\<lambda>_. True) k \<Longrightarrow> keeps b k (handleInclude src m) (\<lambda>_. True) k"
  unfolding handleInclude_def by (rule keeps_include_once keeps_rules | assumption)+

section \<open>Statements\<close>

text \<open>The compilation of the statements inside, with any number of open blocks.\<close>

definition steady :: "unit step \<Rightarrow> bool" where
  "steady S \<longleftrightarrow> (\<forall>b k. keeps b k S (\<lambda>_. True) k)"

lemma steadyD: "steady S \<Longrightarrow> keeps b k S (\<lambda>_. True) k"
  by (simp add: steady_def)

lemma keeps_readblock: "steady S \<Longrightarrow> keeps b k (readblock S endtoken) (\<lambda>_. True) k"
  unfolding readblock_def by (rule keeps_rules steadyD | assumption)+

lemma keeps_statements_until: "steady S \<Longrightarrow> keeps b k (statements_until S ends mismatched tok) (\<lambda>_. True) k"
  unfolding statements_until_def by (rule keeps_rules steadyD | assumption)+

lemma keeps_until_loop: "steady S \<Longrightarrow> keeps b k (until_loop S endtoken jump) (\<lambda>_. True) k"
  unfolding until_loop_def by (rule keeps_rules keeps_readblock | assumption)+

lemma keeps_handleRepeatUntil: "steady S \<Longrightarrow> keeps b k (handleRepeatUntil S) (\<lambda>_. True) k"
  unfolding handleRepeatUntil_def by (rule keeps_until_loop)

lemma keeps_handleDoClause: "steady S \<Longrightarrow> keeps b k (handleDoClause S) (\<lambda>_. True) k"
  unfolding handleDoClause_def by (rule keeps_until_loop)

lemma keeps_handleBracketedWhile: "steady S \<Longrightarrow> keeps b k (handleBracketedWhile S) (\<lambda>_. True) k"
  unfolding handleBracketedWhile_def Let_def by (rule keeps_rules keeps_readblock keeps_put_jump | assumption)+

lemma keeps_handleForEach: "steady S \<Longrightarrow> keeps b k (handleForEach S) (\<lambda>_. True) k"
  unfolding handleForEach_def by (rule keeps_rules keeps_readblock keeps_patchoffset | assumption)+

lemma keeps_handleBracketedFor_basic: "steady S \<Longrightarrow> keeps b k (handleBracketedFor_basic S) (\<lambda>_. True) k"
  unfolding handleBracketedFor_basic_def by (rule keeps_rules keeps_readblock keeps_patchoffset | assumption)+

lemma keeps_handleBracketedFor_c: "steady S \<Longrightarrow> keeps b k (handleBracketedFor_c S) (\<lambda>_. True) k"
  unfolding handleBracketedFor_c_def Let_def by (rule keeps_rules keeps_readblock keeps_patchoffset | assumption)+

lemma keeps_handleFor: "steady S \<Longrightarrow> keeps b k (handleFor S) (\<lambda>_. True) k"
  unfolding handleFor_def by (rule keeps_rules keeps_handleBracketedFor_basic keeps_handleBracketedFor_c | assumption)+

lemma keeps_handleReturn [keeps_rules]: "keeps b k handleReturn (\<lambda>_. True) k"
  unfolding handleReturn_def by (rule keeps_rules)+

lemma keeps_handleExit [keeps_rules]: "keeps b k handleExit (\<lambda>_. True) k"
  unfolding handleExit_def by (rule keeps_rules)+

section \<open>Conditions\<close>

text \<open>A rollback to a checkpoint in the new code.\<close>

definition after_start :: "compiler \<Rightarrow> checkpoint \<Rightarrow> bool" where
  "after_start b cp \<longleftrightarrow> next_pc b \<le> tokens_count cp \<and> length (syms (eprog b)) \<le> symbols_length cp"

lemma commit_after_start: "within b k c \<Longrightarrow> after_start b (commit c)"
  using within_next_pc within_symbols by (auto simp: after_start_def commit_def)

lemma sorted_snd_filter: "sorted_wrt (<) (map snd cs) \<Longrightarrow> sorted_wrt (<) (map snd (filter p cs))"
  by (induction cs) auto

lemma within_rollback:
  assumes "within b k c" "after_start b cp"
  shows "within b k (c\<lparr>cmods := ms, eprog := \<lparr>tokens = take (tokens_count cp) (tokens (eprog c)),
      syms = take (symbols_length cp) (syms (eprog c)),
      callers = filter (\<lambda>(_, pos). pos < tokens_count cp) (callers (eprog c))\<rparr>\<rparr>)"
proof -
  note w = assms(1)[unfolded within_def]
  have "\<forall>i \<in> snd ` set (callers (eprog b)). i < tokens_count cp"
    using w assms(2) by (force simp: callers_in_code_def after_start_def next_pc_def)
  then have "filter (\<lambda>(_, pos). pos < tokens_count cp) (callers (eprog b)) = callers (eprog b)"
    by (auto simp: filter_id_conv)
  moreover obtain cs where cs: "callers (eprog c) = callers (eprog b) @ cs" using w by (auto simp: prefix_def)
  ultimately have "prefix (callers (eprog b)) (filter (\<lambda>(_, pos). pos < tokens_count cp) (callers (eprog c)))"
    by simp
  moreover have "callers_in_code \<lparr>tokens = take (tokens_count cp) (tokens (eprog c)), syms = s,
      callers = filter (\<lambda>(_, pos). pos < tokens_count cp) (callers (eprog c))\<rparr>" for s
    using w by (auto simp: callers_in_code_def intro: sorted_snd_filter)
  ultimately show ?thesis
    using w assms(2) by (auto simp: within_def scoped_def after_start_def next_pc_def intro: prefix_take)
qed

lemma keeps_rollback: "after_start b cp \<Longrightarrow> keeps b k (rollback cp) (\<lambda>_. True) k"
  unfolding rollback_def by (rule keeps_modify) (rule within_rollback)

definition if_state_ok :: "compiler \<Rightarrow> if_state \<Rightarrow> bool" where
  "if_state_ok b st \<longleftrightarrow>
     (\<forall>i \<in> set (jumpend st). next_pc b \<le> i) \<and> after_start b (checkpt st) \<and>
     (\<forall>i \<in> set_option (if_token_posn st). next_pc b \<le> i)"

lemma last_emitted: "addTokens ts p = Parsed q \<Longrightarrow> ts \<noteq> [] \<Longrightarrow> ttype (List.last ts) \<noteq> TYP_USERFUNC \<Longrightarrow>
   length (tokens p) < length (tokens q)"
proof (induction ts arbitrary: p)
  case (Cons t ts)
  obtain p1 where p1: "addToken t p = Parsed p1" "addTokens ts p1 = Parsed q" using Cons.prems(1) by (auto simp: and_parse_Parsed)
  then have len: "length (tokens p) \<le> length (tokens p1)" "length (tokens p1) \<le> length (tokens q)"
    using addToken_adds_code[OF p1(1)] addTokens_adds_code[OF p1(2)] by (auto simp: adds_code_def dest: prefix_length_le)
  show ?case
  proof (cases "ts = []")
    case True
    then have "ttype t \<noteq> TYP_USERFUNC" using Cons.prems(3) by simp
    then have "length (tokens p) < length (tokens p1)"
      using p1(1) unfolding addToken_def Let_def
      by (auto simp: append_tok_def and_parse_Parsed with_symbol_def remember_caller_def
          split: if_splits option.splits prod.splits)
    then show ?thesis using len by simp
  next
    case False
    then show ?thesis using Cons.IH[OF p1(2)] Cons.prems(3) len by simp
  qed
qed simp

lemma getExprInParens_emits:
  assumes "getExprInParens c = Parsed (ex, c')" "ex \<noteq> []" "ttype (List.last ex) \<noteq> TYP_USERFUNC"
  shows "next_pc c < next_pc c'"
proof -
  have same: "get_tok t c1 = Parsed (r, c2) \<Longrightarrow> eprog c2 = eprog c1" "read_expr flags c1 = Parsed (ts, c2) \<Longrightarrow> eprog c2 = eprog c1"
    for t r c1 c2 flags ts by (auto simp: get_tok_def read_expr_def and_parse_Parsed)
  obtain c1 c2 where "eprog c1 = eprog c" "getExpr {RIGHTPAREN_TERM_ALLOWED} c1 = Parsed (ex, c2)" "eprog c' = eprog c2"
    using assms(1) by (auto simp: getExprInParens_def then_do_def check_def give_def fail_def and_parse_Parsed split: if_splits dest!: same)
  moreover then have "addTokens ex (eprog c1) = Parsed (eprog c2)"
    by (auto simp: getExpr_def then_do_def inject_def on_program_def give_def and_parse_Parsed dest!: same)
  ultimately show ?thesis using last_emitted[OF _ assms(2,3)] by (simp add: next_pc_def)
qed

lemma keeps_then_state:
  assumes "keeps b k m F k1" "\<And>c a c'. within b k c \<Longrightarrow> m c = Parsed (a, c') \<Longrightarrow> R a c'"
    and "\<And>a c'. F a \<Longrightarrow> R a c' \<Longrightarrow> within b k1 c' \<Longrightarrow> keeps b k1 (\<lambda>c. if c = c' then f a c' else OutOfFuel) G k2"
  shows "keeps b k (then_do m f) G k2"
proof (rule keepsI)
  fix c r c''
  assume c: "within b k c" and r: "then_do m f c = Parsed (r, c'')"
  then obtain a c' where a: "m c = Parsed (a, c')" "f a c' = Parsed (r, c'')" by (auto simp: then_do_def and_parse_Parsed)
  then have "within b k1 c' \<and> F a" "R a c'" using keepsD[OF assms(1) c] assms(2)[OF c] by simp_all
  then show "within b k2 c'' \<and> G r" using keepsD[OF assms(3), of a c' c' r c''] a(2) by simp
qed

lemma keeps_at: "keeps b k m F k' \<Longrightarrow> keeps b k (\<lambda>c. if c = c' then m c' else OutOfFuel) F k'"
  by (auto simp: keeps_def)

definition condition_ok :: "compiler \<Rightarrow> bool \<times> bool \<times> if_state \<Rightarrow> bool" where
  "condition_ok b = (\<lambda>(_, _, st). if_state_ok b st)"

lemma keeps_if_condition:
  assumes st: "if_state_ok b st"
  shows "keeps b k (if_condition st) (condition_ok b) k"
proof -
  let ?R = "\<lambda>ex c'. ex \<noteq> [] \<longrightarrow> ttype (List.last ex) \<noteq> TYP_USERFUNC \<longrightarrow> next_pc b < next_pc c'"
  let ?rest = "\<lambda>ex c0 posn. let st1 = st\<lparr>if_token_posn := Some posn\<rparr>
       in if \<not> discard_rest st \<and> length ex = 1 \<and> tid (hd ex) = TOK_LONG
          then then_do (rollback (commit c0)) (\<lambda>_.
            if tlval (hd ex) \<noteq> 0 then give (False, False, st1\<lparr>discard_rest := True\<rparr>)
            else give (False, True, st1))
          else give (True, discard_rest st,
                 if discard_rest st then st1 else st1\<lparr>included_any_tests := True\<rparr>)"
  have rest: "keeps b k (?rest ex c0 posn) (condition_ok b) k"
    if "next_pc b \<le> posn" "within b k c0" for posn ex c0
    using that st unfolding Let_def
    by (auto intro!: keeps_give keeps_then[OF keeps_rollback] commit_after_start simp: condition_ok_def if_state_ok_def)
  show ?thesis unfolding if_condition_def
  proof (rule keeps_look, rule keeps_then_state[OF keeps_getExprInParens, where R = ?R], goal_cases)
    case (1 c0 c ex c')
    then show ?case using getExprInParens_emits within_next_pc by fastforce
  next
    case (2 c0 ex c')
    show ?case
    proof (cases "ex \<noteq> [] \<and> tid (List.last ex) = TOK_LOG_NOT")
      case True
      then have "typed (List.last ex)" using 2(2) by (simp add: list_all_iff)
      then have pos: "next_pc b \<le> next_pc c' - 1" using True 2(3) by (simp add: typed_def)
      have "keeps b k (then_do (then_do (put_jump (TOK_OTHER RSV_JMPIFTRUE) 0 (next_pc c' - 1)) (\<lambda>_. give (next_pc c' - 1)))
          (?rest ex c0)) (condition_ok b) k"
        by (rule keeps_then[where G = "\<lambda>posn. next_pc b \<le> posn"], rule keeps_then[OF keeps_put_jump[OF pos]], rule keeps_give, rule pos,
            rule rest, assumption, rule 2(1))
      then show ?thesis using True by (simp add: keeps_def then_do_def look_def)
    next
      case False
      then show ?thesis
        by (auto intro!: keeps_at keeps_fail keeps_then[OF keeps_append_code] rest[OF _ 2(1)])
    qed
  qed
qed

lemma keeps_if_block: "steady S \<Longrightarrow> keeps b k (if_block S tok) (\<lambda>_. True) k"
  unfolding if_block_def by (rule keeps_rules keeps_statements_until steadyD | assumption)+

lemma keeps_if_jump_end: "if_state_ok b st \<Longrightarrow> keeps b k (if_jump_end st) (if_state_ok b) k"
  unfolding if_jump_end_def Let_def
  by (rule keeps_if keeps_then keeps_append_code keeps_skip_blanks keeps_get_tok keeps_prod keeps_give | (simp add: if_state_ok_def; fail))+

lemma keeps_discard_part:
  assumes "if_state_ok b st" "\<forall>i \<in> set_option last_posn. next_pc b \<le> i"
  shows "keeps b k (discard_part last_posn st) (if_state_ok b) k"
proof -
  have "after_start b (checkpt st)" using assms(1) by (simp add: if_state_ok_def)
  moreover have "if_state_ok b (st\<lparr>jumpend := take (jumpend_size st) (jumpend st)\<rparr>)"
    using assms(1) by (auto simp: if_state_ok_def dest: in_set_takeD)
  ultimately show ?thesis unfolding discard_part_def
    using assms(2)
    by (auto intro!: keeps_rollback keeps_look keeps_then[where G = "\<lambda>_. True"] keeps_give keeps_patchoffset
        split: option.split)
qed

lemma keeps_if_part:
  assumes S: "steady S" and st0: "if_state_ok b st0"
  shows "keeps b k (if_part S st0) (\<lambda>r. case r of Inl st \<Rightarrow> if_state_ok b st | Inr st \<Rightarrow> if_state_ok b st) k"
proof -
  have posn: "\<forall>i \<in> set_option (if_token_posn st0). next_pc b \<le> i" using st0 by (simp add: if_state_ok_def)
  have patch: "keeps b k (case (patch_if, if_token_posn st) of (True, Some posn) \<Rightarrow> look (\<lambda>c. patchoffset posn (next_pc c)) | _ \<Rightarrow> give ())
      (\<lambda>_. True) k" if "if_state_ok b st" for patch_if st
    using that by (auto simp: if_state_ok_def split: bool.split option.split intro!: keeps_look keeps_patchoffset keeps_give)
  have st3: "if_state_ok b (if d then st\<lparr>if_token := tok\<rparr>
       else (st\<lparr>if_token := tok\<rparr>)\<lparr>checkpt := commit c, jumpend_size := n\<rparr>)"
    if "if_state_ok b st" "within b k c" for d st tok c n
    using that commit_after_start by (simp add: if_state_ok_def)
  show ?thesis unfolding if_part_def Let_def
    by (rule keeps_then[OF keeps_if_condition[OF st0]] keeps_prod keeps_then[OF keeps_if_block[OF S]] keeps_look
        keeps_then[OF keeps_if_jump_end] keeps_then[OF patch] keeps_then[where G = "if_state_ok b", OF keeps_if] keeps_give
        keeps_discard_part[OF _ posn] | (simp add: condition_ok_def; fail) | (rule st3; simp add: condition_ok_def; fail))+
qed

lemma keeps_jumps_end: "\<forall>i \<in> set is. next_pc b \<le> i \<Longrightarrow> keeps b k (jumps_end is) (\<lambda>_. True) k"
proof (induction "is")
  case (Cons i "is")
  then show ?case by (auto intro!: keeps_then[OF keeps_look[OF keeps_put_jump]])
qed (simp add: keeps_give)

lemma keeps_handleBracketedIf:
  assumes S: "steady S"
  shows "keeps b k (handleBracketedIf S) (\<lambda>_. True) k"
proof -
  have jumps: "if_state_ok b st \<Longrightarrow> \<forall>i \<in> set (rev (jumpend st)). next_pc b \<le> i"
      "if_state_ok b st \<Longrightarrow> \<forall>i \<in> set (rev (take n (jumpend st))). next_pc b \<le> i" for st n
    by (auto simp: if_state_ok_def dest: in_set_takeD)
  have begin_ok: "within b k c \<Longrightarrow> if_state_ok b \<lparr>if_token = t, jumpend = [], jumpend_size = n, checkpt = commit c,
      discard_rest = d, included_any_tests = i, if_token_posn = None\<rparr>" for c t n d i
    by (simp add: if_state_ok_def commit_after_start)
  show ?thesis unfolding handleBracketedIf_def
    by (rule keeps_then[OF keeps_loop_inv[where I = "if_state_ok b" and F = "if_state_ok b", OF keeps_if_part[OF S]]]
        keeps_rules keeps_statements_until[OF S] keeps_jumps_end jumps keeps_rollback begin_ok
        | assumption | (simp add: if_state_ok_def; fail))+
qed

section \<open>The case statement\<close>

lemma keeps_add_option [keeps_rules]: "keeps b k (add_option t d block) (\<lambda>_. True) k"
  unfolding add_option_def by (rule keeps_rules)+

lemma keeps_switch_option [keeps_rules]: "keeps b k (switch_option opts) (\<lambda>_. True) k"
  unfolding switch_option_def Let_def by (rule keeps_rules)+

lemma keeps_switch_statements: "steady S \<Longrightarrow> keeps b k (switch_statements S anycases) (\<lambda>_. True) k"
  unfolding switch_statements_def by (rule keeps_rules steadyD | assumption)+

definition ends_ok :: "compiler \<Rightarrow> nat \<times> string \<times> nat list \<Rightarrow> bool" where
  "ends_ok b st \<longleftrightarrow> (case st of (_, _, jmpend) \<Rightarrow> \<forall>i \<in> set jmpend. next_pc b \<le> i)"

lemma keeps_switch_group:
  assumes S: "steady S" and st: "ends_ok b st"
  shows "keeps b k (switch_group S st) (\<lambda>r. case r of Inl st \<Rightarrow> ends_ok b st | Inr st \<Rightarrow> ends_ok b st) k"
  unfolding switch_group_def
  by (insert st) (rule keeps_prod keeps_if keeps_then[where G = "\<lambda>_. True", OF keeps_loop, OF keeps_switch_option]
      keeps_then[OF keeps_enterblock] keeps_then[OF keeps_switch_statements[OF S]] keeps_then[OF keeps_emit_leaveblock]
      keeps_look keeps_then[OF keeps_patchblock(1)] keeps_then[OF keeps_popblock] keeps_then[OF keeps_append_code] keeps_give
      | (simp add: ends_ok_def; fail) | (auto simp: ends_ok_def; fail))+

lemma keeps_handleSwitch:
  assumes S: "steady S"
  shows "keeps b k (handleSwitch S) (\<lambda>_. True) k"
  unfolding handleSwitch_def Let_def
  by (rule keeps_then[OF keeps_loop_inv[where I = "ends_ok b" and F = "ends_ok b", OF keeps_switch_group[OF S]]]
      keeps_rules keeps_patch_all keeps_patchoffset | assumption | (simp add: ends_ok_def; fail))+

section \<open>Every statement\<close>

lemma keeps_compileContext: "steady S \<Longrightarrow> keeps b k (compileContext S) (\<lambda>_. True) k"
  unfolding compileContext_def by (rule keeps_rules steadyD | assumption)+

lemma keeps_expression_statement [keeps_rules]: "keeps b k expression_statement (\<lambda>_. True) k"
  unfolding expression_statement_def by (rule keeps_rules)+

lemma keeps_labelled_statement [keeps_rules]: "keeps b k (labelled_statement t) (\<lambda>_. True) k"
  unfolding labelled_statement_def by (rule keeps_rules keeps_modify | erule within_frame; simp)+

lemma keeps_reserved_statement: "steady S \<Longrightarrow> keeps b k (reserved_statement src S t) (\<lambda>_. True) k"
  unfolding reserved_statement_def
  by (rule keeps_rules keeps_handleInclude keeps_compileContext keeps_handleBracketedIf keeps_handleFor keeps_handleForEach
      keeps_handleSwitch keeps_handleRepeatUntil keeps_handleDoClause keeps_handleBracketedWhile | assumption)+

lemma keeps_getStatement: "steady S \<Longrightarrow> keeps b k (getStatement src S) (\<lambda>_. True) k"
  unfolding getStatement_def by (rule keeps_rules keeps_reserved_statement | assumption)+

lemma getStatement_at_steady: "steady (getStatement_at src n)"
proof (induction n)
  case 0
  then show ?case by (simp add: steady_def keeps_def)
next
  case (Suc n)
  then show ?case
    by (auto simp: steady_def[of "getStatement src (getStatement_at src n)"] intro: keeps_getStatement)
qed

section \<open>What a statement leaves\<close>

lemma getStatement_within:
  assumes "getStatement_at src n c = Parsed ((), c')" "scoped c" "callers_in_code (eprog c)" "typed_env (cenv c)"
  shows "within c 0 c'"
  using keepsD[OF steadyD[OF getStatement_at_steady] within_refl[OF assms(2-4)] assms(1)] by simp

text \<open>A \<^verbatim>\<open>break\<close> in a loop with a variable.\<close>

lemma lex_semicolon: "Parser_getToken tok '';'' =
   Lexed (0, tok\<lparr>module := 0, tid := TOK_SEMICOLON, ttype := TYP_DELIMITER, tokval := '';''\<rparr>, [])"
  by (simp add: Parser_getToken_def skipcomments_def isspace_def starts_with_def byte_def)

lemma word_break: "reserved_word ''break'' = Some (''break'', RSV_BREAK, TYP_RESERVED, -1)"
  by (simp add: reserved_word_def reserved_words_def ci_key_def tolower_def c_str_def byte_def)

lemma lex_break: "Parser_getToken tok ''break;'' =
   Lexed (0, tok\<lparr>module := 0, tid := RSV_BREAK, ttype := TYP_RESERVED, precedence := -1, tokval := ''break''\<rparr>, '';'')"
  by (simp add: Parser_getToken_def skipcomments_def isspace_def starts_with_def byte_def tryLiteral_def Parser_tryLiteral_def
    isalpha_def ident_allowed_def is_digit_def recognize_reserved_word_def word_break)

definition no_files :: sources where
  "no_files = \<lparr>files = \<lambda>_. None, ModuleDirectory = [], IncludeDirectory = [], PolScriptRoot = [],
     pkgdef_split = \<lambda>_. None, FullPath = \<lambda>x. x, compiling_include = False\<rparr>"

definition in_loop :: compiler where
  "in_loop = (new_compiler False [] ''break;'')
     \<lparr>blocks := [\<lparr>varcount = 1, break_ok = True, continue_ok = True, block_label = [], break_tokens = [], continue_tokens = []\<rparr>],
      cenv := (cenv (new_compiler False [] []))\<lparr>localscope := [''i'']\<rparr>,
      eprog := \<lparr>tokens = [\<lparr>st_type = 6, st_id = TOK_OTHER RSV_LOCAL, st_offset = 0, st_module = 0\<rparr>], syms = [], callers = []\<rparr>\<rparr>"

definition after_break :: compiler where
  "after_break = in_loop
     \<lparr>ctext := [], blocks := [\<lparr>varcount = 1, break_ok = True, continue_ok = True, block_label = [], break_tokens = [2], continue_tokens = []\<rparr>],
      eprog := \<lparr>tokens = [\<lparr>st_type = 6, st_id = TOK_OTHER RSV_LOCAL, st_offset = 0, st_module = 0\<rparr>,
          \<lparr>st_type = type_code TYP_CONTROL, st_id = TOK_OTHER CTRL_LEAVE_BLOCK, st_offset = 1, st_module = 0\<rparr>,
          \<lparr>st_type = type_code TYP_RESERVED, st_id = TOK_OTHER RSV_GOTO, st_offset = 0, st_module = 0\<rparr>], syms = [], callers = []\<rparr>\<rparr>"

lemmas step_defs = catching_def then_do_def and_parse_def skip_blanks_def peek_tok_def peekToken_def get_tok_def getToken_def
  of_lexed_def need_tok_def look_def give_def modify_def append_code_def append_tok_def StoredToken_def on_program_def

lemma compile_break: "getStatement_at no_files 1 in_loop = Parsed ((), after_break)"
  by (simp add: getStatement_def step_defs reserved_statement_def handleBreak_def handle_jump_def insertBreak_def jump_out_def
    lex_break lex_semicolon new_compiler_def in_loop_def after_break_def skipcomments_def isspace_def byte_def starts_with_def next_pc_def)

lemma in_loop_ok: "scoped in_loop" "callers_in_code (eprog in_loop)" "typed_env (cenv in_loop)"
  by (simp_all add: in_loop_def scoped_def callers_in_code_def typed_env_def new_compiler_def)

text \<open>
  C14. The compilation of a statement changes nothing that has been compiled before it: the code,
  the symbols and the calls that wait for an address stay in front, so that jumps are only ever
  patched in the code of the statement itself, and the calls that wait are still instructions,
  each once and in order.
\<close>

theorem statement_keeps_code:
  assumes "getStatement_at src n c = Parsed ((), c')" "scoped c" "callers_in_code (eprog c)" "typed_env (cenv c)"
  shows "prefix (tokens (eprog c)) (tokens (eprog c')) \<and> prefix (syms (eprog c)) (syms (eprog c')) \<and>
    prefix (callers (eprog c)) (callers (eprog c')) \<and> callers_in_code (eprog c') \<and> typed_env (cenv c')"
  using getStatement_within[OF assms] by (simp add: within_def)

theorem statement_keeps_code_witness:
  "getStatement_at no_files 1 in_loop = Parsed ((), after_break) \<and> scoped in_loop \<and>
   callers_in_code (eprog in_loop) \<and> typed_env (cenv in_loop) \<and>
   prefix (tokens (eprog in_loop)) (tokens (eprog after_break)) \<and> callers_in_code (eprog after_break)"
  using statement_keeps_code[OF compile_break in_loop_ok] compile_break in_loop_ok by simp

text \<open>
  C15. A statement leaves the blocks it enters: there are as many blocks as before, those around
  the innermost one have their variables, and the variables in scope are the earlier ones with
  those that the statement declared in the innermost block. The jumps that
  it leaves to be patched are no instructions from before it: they are at or after the place where
  its code starts. They need not be in its code, since a jump in a part of an \<^verbatim>\<open>if\<close> that
  is left out is still remembered when its code is gone.
\<close>

theorem statement_leaves_blocks:
  assumes "getStatement_at src n c = Parsed ((), c')" "scoped c" "callers_in_code (eprog c)" "typed_env (cenv c)"
  shows "length (blocks c') = length (blocks c) \<and> map varcount (tl (blocks c')) = map varcount (tl (blocks c)) \<and>
    prefix (localscope (cenv c)) (localscope (cenv c')) \<and> scoped c' \<and>
    list_all2 (\<lambda>bd bd'. jumps bd \<subseteq> jumps bd' \<and> jumps bd' \<subseteq> jumps bd \<union> {next_pc c..}) (blocks c) (blocks c')"
proof -
  have w: "within c 0 c'" by (rule getStatement_within[OF assms])
  then have grown: "list_all2 (grown (next_pc c)) (blocks c) (blocks c')" by (simp add: within_def)
  have "list_all2 (\<lambda>bd bd'. jumps bd \<subseteq> jumps bd' \<and> jumps bd' \<subseteq> jumps bd \<union> {next_pc c..}) (blocks c) (blocks c')"
    by (rule list_all2_mono[OF grown]) (simp add: grown_def)
  then show ?thesis using w list_all2_lengthD[OF grown] by (simp add: within_def drop_Suc)
qed

theorem statement_leaves_blocks_witness:
  "getStatement_at no_files 1 in_loop = Parsed ((), after_break) \<and> scoped in_loop \<and>
   callers_in_code (eprog in_loop) \<and> typed_env (cenv in_loop) \<and> scoped after_break \<and>
   list_all2 (\<lambda>bd bd'. jumps bd \<subseteq> jumps bd' \<and> jumps bd' \<subseteq> jumps bd \<union> {next_pc in_loop..}) (blocks in_loop) (blocks after_break)"
  using statement_leaves_blocks[OF compile_break in_loop_ok] compile_break in_loop_ok by simp

end
