(* ===== verification/Linking.thy ===== *)
theory Linking
  imports Steady
begin

text \<open>
  The addresses of calls. The compiler remembers every instruction that calls a script function
  and writes the address of the function into it at the end, when the functions that are called
  have been compiled. Each such instruction of a compiled script leads to the code of its
  function.
\<close>

section \<open>States between files and functions\<close>

definition parameter_code :: "compiler \<Rightarrow> nat \<Rightarrow> BTokenId list" where
  "parameter_code c f =
     map (\<lambda>(_, by_reference). TOK_OTHER (if by_reference then INS_POP_PARAM_BYREF else INS_POP_PARAM))
       (rev (zip (map pname (parameters (funcs (cenv c) ! f))) (pass_by_reference (infos c ! f))))"

text \<open>At the address of the function its parameters are popped, the last one first.\<close>

definition pops_parameters :: "compiler \<Rightarrow> nat \<Rightarrow> bool" where
  "pops_parameters c f \<longleftrightarrow> prefix (parameter_code c f) (map st_id (drop (position (infos c ! f)) (tokens (eprog c))))"

definition functions_ok :: "compiler \<Rightarrow> bool" where
  "functions_ok c \<longleftrightarrow>
     (\<forall>f \<in> snd ` set (userFunctions (cenv c)). f < length (funcs (cenv c)) \<and>
        (emitted (infos c ! f) \<longrightarrow> pops_parameters c f))"

text \<open>What holds of the compiler between files and between functions.\<close>

definition linkable :: "compiler \<Rightarrow> bool" where
  "linkable c \<longleftrightarrow>
     scoped c \<and> callers_in_code (eprog c) \<and> typed_env (cenv c) \<and> length (infos c) = length (funcs (cenv c)) \<and>
     functions_ok c"

lemma prefix_nth: "prefix xs ys \<Longrightarrow> i < length xs \<Longrightarrow> ys ! i = xs ! i"
  by (auto simp: prefix_def nth_append)

lemma pops_parameters_prefix:
  assumes "pops_parameters c f" "prefix (tokens (eprog c)) (tokens (eprog c'))"
    "funcs (cenv c') ! f = funcs (cenv c) ! f" "infos c' ! f = infos c ! f"
  shows "pops_parameters c' f"
proof -
  obtain ts where "tokens (eprog c') = tokens (eprog c) @ ts" using assms(2) by (auto simp: prefix_def)
  then show ?thesis using assms(1,3,4)
    by (auto simp: pops_parameters_def parameter_code_def intro: prefix_order.trans)
qed

lemma within_functions:
  assumes "within c 0 c'" "f < length (funcs (cenv c))" "length (infos c) = length (funcs (cenv c))"
  shows "funcs (cenv c') ! f = funcs (cenv c) ! f" "infos c' ! f = infos c ! f" "f < length (funcs (cenv c'))"
  using assms by (auto simp: within_def prefix_nth dest: prefix_length_le)

lemma linkable_within:
  assumes "linkable c" "within c 0 c'"
  shows "linkable c'"
proof -
  have "functions_ok c'" unfolding functions_ok_def
  proof (intro ballI)
    fix f assume "f \<in> snd ` set (userFunctions (cenv c'))"
    then have "f \<in> snd ` set (userFunctions (cenv c))" using assms(2) by (simp add: within_def)
    then have f: "f < length (funcs (cenv c))" "emitted (infos c ! f) \<Longrightarrow> pops_parameters c f"
      using assms(1) by (auto simp: linkable_def functions_ok_def)
    have "length (infos c) = length (funcs (cenv c))" using assms(1) by (simp add: linkable_def)
    note kept = within_functions[OF assms(2) f(1) this]
    show "f < length (funcs (cenv c')) \<and> (emitted (infos c' ! f) \<longrightarrow> pops_parameters c' f)"
      using f(2) kept pops_parameters_prefix[of c f c'] assms(2) by (simp add: within_def)
  qed
  then show ?thesis using assms by (auto simp: linkable_def within_def)
qed

text \<open>What the change of other fields keeps.\<close>

lemma linkable_frame:
  "linkable c \<Longrightarrow> eprog c' = eprog c \<Longrightarrow> cenv c' = cenv c \<Longrightarrow> infos c' = infos c \<Longrightarrow> blocks c' = blocks c \<Longrightarrow> linkable c'"
  by (simp add: linkable_def functions_ok_def pops_parameters_def parameter_code_def scoped_def)

lemma linkable_updates [simp]:
  "linkable (c\<lparr>ctext := t\<rparr>) = linkable c" "linkable (c\<lparr>included := names\<rparr>) = linkable c" "linkable (c\<lparr>inFunction := y\<rparr>) = linkable c"
  "linkable (c\<lparr>exported_functions := es\<rparr>) = linkable c" "linkable (c\<lparr>current_file_path := p\<rparr>) = linkable c"
  by (simp_all add: linkable_def functions_ok_def pops_parameters_def parameter_code_def scoped_def)

section \<open>Steps that keep them\<close>

definition holds :: "'a step \<Rightarrow> ('a \<Rightarrow> bool) \<Rightarrow> bool" where
  "holds m F \<longleftrightarrow> (\<forall>c a c'. linkable c \<longrightarrow> m c = Parsed (a, c') \<longrightarrow> linkable c' \<and> F a)"

named_theorems holds_rules \<open>what steps between files keep\<close>

lemma holdsD: "holds m F \<Longrightarrow> linkable c \<Longrightarrow> m c = Parsed (a, c') \<Longrightarrow> linkable c' \<and> F a"
  by (simp add: holds_def)

lemma holds_keeps: "(\<And>b. keeps b 0 m F 0) \<Longrightarrow> holds m F"
  unfolding holds_def using keepsD[of _ 0 m F 0] linkable_within within_refl
  by (metis linkable_def)

lemma holds_give [holds_rules]: "holds (give a) (\<lambda>_. True)"
  by (simp add: holds_def give_def)

lemma then_do_Parsed:
  assumes "then_do m f c = Parsed r"
  obtains a c1 where "m c = Parsed (a, c1)" "f a c1 = Parsed r"
  using assms by (auto simp: then_do_def and_parse_Parsed)

lemma holds_then [holds_rules]:
  assumes "holds m G" "\<And>a. G a \<Longrightarrow> holds (f a) F"
  shows "holds (then_do m f) F"
  unfolding holds_def
proof (intro allI impI)
  fix c a c' assume "linkable c" "then_do m f c = Parsed (a, c')"
  then obtain x c1 where "m c = Parsed (x, c1)" "f x c1 = Parsed (a, c')" by (elim then_do_Parsed)
  then show "linkable c' \<and> F a" using holdsD[OF assms(1) \<open>linkable c\<close>] holdsD[OF assms(2)] by blast
qed

lemma holds_look [holds_rules]: "(\<And>c. linkable c \<Longrightarrow> holds (f c) F) \<Longrightarrow> holds (look f) F"
  unfolding holds_def look_def by metis

lemma holds_if [holds_rules]: "(p \<Longrightarrow> holds m F) \<Longrightarrow> (\<not> p \<Longrightarrow> holds m' F) \<Longrightarrow> holds (if p then m else m') F"
  by simp

lemma holds_option [holds_rules]:
  "(p = None \<Longrightarrow> holds m F) \<Longrightarrow> (\<And>x. p = Some x \<Longrightarrow> holds (f x) F) \<Longrightarrow>
   holds (case p of None \<Rightarrow> m | Some x \<Rightarrow> f x) F"
  by (cases p) simp_all

lemma holds_fail [holds_rules]: "holds fail F"
  by (simp add: holds_def fail_def)

lemma holds_prod [holds_rules]: "(\<And>x y. p = (x, y) \<Longrightarrow> holds (f x y) F) \<Longrightarrow> holds (case p of (x, y) \<Rightarrow> f x y) F"
  by (cases p) simp

lemma holds_modify: "(\<And>c. linkable c \<Longrightarrow> linkable (f c)) \<Longrightarrow> holds (modify f) (\<lambda>_. True)"
  by (simp add: holds_def modify_def)

lemma holds_rounds: "(\<And>a. holds (f a) (\<lambda>_. True)) \<Longrightarrow> holds (rounds n f a) (\<lambda>_. True)"
proof (induction n arbitrary: a)
  case (Suc n)
  show ?case unfolding rounds.simps
  proof (rule holds_then[OF Suc.prems])
    fix r show "holds (case r of Inl a' \<Rightarrow> rounds n f a' | Inr z \<Rightarrow> give z) (\<lambda>_. True)"
      by (cases r) (simp_all add: Suc holds_give)
  qed
qed (simp add: holds_def)

lemma holds_loop [holds_rules]: "(\<And>a. holds (f a) (\<lambda>_. True)) \<Longrightarrow> holds (loop f a) (\<lambda>_. True)"
  unfolding holds_def loop_def using holds_rounds[of f, unfolded holds_def] by metis

lemma holds_in_file:
  assumes "holds m F"
  shows "holds (in_file text path m) F"
  unfolding holds_def
proof (intro allI impI)
  fix c a c' assume c: "linkable c" "in_file text path m c = Parsed (a, c')"
  then obtain c1 where "m (c\<lparr>ctext := text, current_file_path := path\<rparr>) = Parsed (a, c1)"
      "c' = c1\<lparr>ctext := ctext c, current_file_path := current_file_path c\<rparr>"
    by (auto simp: in_file_def and_parse_Parsed)
  then show "linkable c' \<and> F a" using holdsD[OF assms, of "c\<lparr>ctext := text, current_file_path := path\<rparr>"] c(1) by simp
qed

section \<open>The first pass\<close>

lemma linkable_define:
  assumes "linkable c" "typed_function uf"
  shows "linkable (define_function uf (mk_info refs e body) c)"
proof (cases "map_of (map (\<lambda>(n, f). (ci_key n, f)) (userFunctions (cenv c))) (ci_key (uname uf))")
  case None
  let ?P = "\<lambda>(n, _). str_lt (ci_key n) (ci_key (uname uf))"
  have "set (takeWhile ?P (userFunctions (cenv c))) \<union> set (dropWhile ?P (userFunctions (cenv c))) = set (userFunctions (cenv c))"
    by (metis set_append takeWhile_dropWhile_id)
  then show ?thesis using assms None
    by (fastforce simp: linkable_def functions_ok_def define_function_def add_function_def Let_def scoped_def typed_env_def
        nth_append mk_info_def pops_parameters_def parameter_code_def)
next
  case (Some f)
  then have "f \<in> snd ` set (userFunctions (cenv c))" by (force dest: map_of_SomeD)
  then have "f < length (infos c)" "f < length (funcs (cenv c))" using assms(1) by (auto simp: linkable_def functions_ok_def)
  moreover have "\<forall>uf' \<in> set (list_update (funcs (cenv c)) f uf). typed_function uf'"
    using set_update_subset_insert[of "funcs (cenv c)" f uf] assms by (auto simp: linkable_def typed_env_def)
  ultimately show ?thesis using assms Some
    by (simp add: linkable_def functions_ok_def define_function_def scoped_def typed_env_def
        nth_list_update mk_info_def pops_parameters_def parameter_code_def)
qed

lemma holds_forward: "holds forward_read_function (\<lambda>_. True)"
proof -
  have decl: "holds readFunctionDeclaration (\<lambda>(uf, _). typed_function uf)" by (rule holds_keeps) (rule keeps_rules)
  have tok: "holds (need_tok t) (\<lambda>_. True)" "holds (check p) (\<lambda>_. True)" "holds (read_to i) (\<lambda>_. True)" for t p i
    by (rule holds_keeps, rule keeps_rules keeps_check_any)+
  show ?thesis unfolding forward_read_function_def
    by (rule tok decl holds_rules holds_modify linkable_define | assumption | clarsimp; fail)+
qed

lemma holds_try_tok: "holds (try_tok t) (\<lambda>_. True)"
  unfolding holds_def
proof (intro allI impI conjI TrueI)
  fix c a c' assume c: "linkable c" "try_tok t c = Parsed (a, c')"
  have "holds (get_tok t) (\<lambda>_. True)" by (rule holds_keeps) (rule keeps_rules)
  then show "linkable c'" using c holdsD[of "get_tok t" "\<lambda>_. True" c]
    by (auto simp: try_tok_def split: parsed.splits)
qed

lemma holds_include_once: "holds m (\<lambda>_. True) \<Longrightarrow> holds (include_once src m name) (\<lambda>_. True)"
  unfolding include_once_def
  by (rule holds_rules holds_modify holds_in_file | assumption | (simp; fail))+

lemma holds_read_declarations: "holds (read_declarations_at src n) (\<lambda>_. True)"
proof (induction n)
  case 0
  show ?case by (simp add: holds_def)
next
  case (Suc n)
  have steps: "holds handleConstDeclare (\<lambda>_. True)" "holds handleEnumDeclare (\<lambda>_. True)" "holds (useModule src name) (\<lambda>_. True)" for name
    by (rule holds_keeps, rule keeps_rules)+
  show ?case unfolding read_declarations_at.simps inner_read_function_declarations_def on_named_def
    by (rule Suc steps holds_rules holds_try_tok holds_include_once holds_forward holds_modify | assumption | (simp; fail))+
qed

lemma holds_read_function_declarations: "holds (read_function_declarations src n) (\<lambda>_. True)"
  unfolding read_function_declarations_def
  by (rule holds_rules holds_read_declarations holds_modify)+
    (simp add: linkable_def functions_ok_def pops_parameters_def parameter_code_def scoped_def typed_env_def)

section \<open>The program\<close>

lemma keeps_use_standard [keeps_rules]: "keeps b k (use_standard src name) (\<lambda>_. True) k"
  unfolding use_standard_def by (rule keeps_rules)+

lemma keeps_program_argument [keeps_rules]: "keeps b k (program_argument t) (\<lambda>_. True) k"
  unfolding program_argument_def by (rule keeps_check_any keeps_append_any keeps_rules)+

lemma keeps_handleProgram2: "steady S \<Longrightarrow> keeps b k (handleProgram2 S) (\<lambda>_. True) k"
  unfolding handleProgram2_def
  by (rule keeps_check_any keeps_readblock keeps_rules keeps_modify | assumption | erule within_frame; simp)+

lemma keeps_compile: "steady S \<Longrightarrow> keeps b k (compile src S) (\<lambda>_. True) k"
  unfolding compile_def
  by (rule keeps_append_symbol[OF adds_string] keeps_compileContext keeps_handleProgram2 keeps_rules | assumption)+

section \<open>Functions\<close>

lemma pop_params_tokens:
  "pop_params ps c = Parsed (u, c') \<Longrightarrow>
   \<exists>ts. tokens (eprog c') = tokens (eprog c) @ ts \<and>
     map st_id ts = map (\<lambda>(_, by_reference). TOK_OTHER (if by_reference then INS_POP_PARAM_BYREF else INS_POP_PARAM)) ps"
proof (induction ps arbitrary: c)
  case Nil
  then show ?case by (simp add: give_def)
next
  case (Cons p ps)
  obtain name by_reference where p: "p = (name, by_reference)" by (cases p)
  let ?i = "TOK_OTHER (if by_reference then INS_POP_PARAM_BYREF else INS_POP_PARAM)"
  obtain posn c1 c2 posn2 c3 where c1: "append_symbol (append_string name) c = Parsed (posn, c1)"
      and c2: "append_code ?i TYP_OPERATOR posn c1 = Parsed (posn2, c2)"
      and c3: "addvar name c2 = Parsed ((), c3)" "pop_params ps c3 = Parsed (u, c')"
    using Cons.prems by (auto simp: p elim!: then_do_Parsed)
  have "tokens (eprog c1) = tokens (eprog c)" using c1 by (auto simp: append_symbol_def split: prod.splits)
  moreover have "\<exists>st. tokens (eprog c2) = tokens (eprog c1) @ [st] \<and> st_id st = ?i"
    using c2 by (auto simp: append_code_def look_def then_do_def on_program_def append_tok_def StoredToken_def and_parse_Parsed
        give_def split: if_splits)
  moreover have "eprog c3 = eprog c2" using c3(1)
    by (auto simp: addvar_def in_block_def look_def throw_def modify_def Let_def set_locals_def split: list.splits if_splits)
  ultimately show ?case using Cons.IH[OF c3(2)] p by fastforce
qed

lemma keeps_pop_params: "keeps b k (pop_params ps) (\<lambda>_. True) k"
  by (induction ps) (simp, rule keeps_rules, simp, (rule keeps_rules keeps_append_any | assumption)+)

lemma linkable_set_info:
  assumes "linkable c" "f < length (infos c)"
    and "emitted i \<Longrightarrow> pops_parameters (c\<lparr>infos := (infos c)[f := i]\<rparr>) f"
  shows "linkable (c\<lparr>infos := (infos c)[f := i]\<rparr>)"
proof -
  have "functions_ok (c\<lparr>infos := (infos c)[f := i]\<rparr>)"
    unfolding functions_ok_def
  proof (intro ballI)
    fix h assume "h \<in> snd ` set (userFunctions (cenv (c\<lparr>infos := (infos c)[f := i]\<rparr>)))"
    then have h: "h < length (funcs (cenv c)) \<and> (emitted (infos c ! h) \<longrightarrow> pops_parameters c h)"
      using assms(1) by (auto simp: linkable_def functions_ok_def)
    show "h < length (funcs (cenv (c\<lparr>infos := (infos c)[f := i]\<rparr>))) \<and>
        (emitted (infos (c\<lparr>infos := (infos c)[f := i]\<rparr>) ! h) \<longrightarrow> pops_parameters (c\<lparr>infos := (infos c)[f := i]\<rparr>) h)"
    proof (cases "h = f")
      case True
      then show ?thesis using h assms(2,3) by simp
    next
      case False
      then show ?thesis using h by (simp add: pops_parameters_def parameter_code_def)
    qed
  qed
  then show ?thesis using assms(1) by (simp add: linkable_def scoped_def)
qed

lemma keeps_export_stub: "keeps b k (export_stub name nargs) (\<lambda>_. True) k"
  unfolding export_stub_def by (rule keeps_rules keeps_modify | erule within_frame; simp)+

lemma keeps_popblock_code: "popblock False c = Parsed ((), c') \<Longrightarrow> eprog c' = eprog c"
  by (auto simp: popblock_def in_block_def look_def modify_def set_locals_def split: list.splits)

text \<open>The code of a function starts at its address.\<close>

lemma function_compiled:
  assumes S: "steady S" and c: "linkable c" "f \<in> snd ` set (userFunctions (cenv c))" "\<not> emitted (infos c ! f)"
    and r: "handleBracketedFunction3 S f c = Parsed ((), c')"
  shows "linkable c' \<and> pops_parameters c' f \<and> userFunctions (cenv c') = userFunctions (cenv c)"
proof -
  let ?uf = "funcs (cenv c) ! f" and ?info = "infos c ! f"
  let ?ps = "rev (zip (map pname (parameters ?uf)) (pass_by_reference ?info))"
  let ?tail = "\<lambda>i. if i \<noteq> TOK_OTHER RSV_RETURN
            then then_do (append_symbol (append_int 0)) (\<lambda>posn.
                 then_do (append_instruction TOK_LONG TYP_OPERAND posn) (\<lambda>_.
                   append_instruction (TOK_OTHER RSV_RETURN) TYP_RESERVED 0))
            else give ()"
  define c1 where "c1 = c\<lparr>inFunction := True\<rparr>"
  obtain c2 c3 c4 c5 l c6 where c2: "(if exported ?info then export_stub (uname ?uf) (length (parameters ?uf)) else give ()) c1 = Parsed ((), c2)"
    and set: "set_info f (\<lambda>i. i\<lparr>position := next_pc c2\<rparr>) c2 = Parsed ((), c3)"
    and c4: "plain_block c3 = Parsed ((), c4)" and c5: "pop_params ?ps c4 = Parsed ((), c5)"
    and c6: "readblock S RSV_ENDFUNCTION c5 = Parsed (l, c6)"
    and rest: "(case l of None \<Rightarrow> (\<lambda>c. Undef)
      | Some i \<Rightarrow> look (\<lambda>c.
          then_do (atGet1 (next_pc c - 1)) (\<lambda>_.
          then_do (?tail i) (\<lambda>_.
          then_do (popblock False) (\<lambda>_.
            modify (\<lambda>c. c\<lparr>inFunction := False\<rparr>)))))) c6 = Parsed ((), c')"
    using r unfolding handleBracketedFunction3_def look_def Let_def c1_def modify_def
    by (elim then_do_Parsed) simp
  obtain i where l: "l = Some i" using rest by (cases l) simp_all
  obtain st c7 c8 where c7: "?tail i c6 = Parsed ((), c7)" and c8: "popblock False c7 = Parsed ((), c8)"
      and c': "c' = c8\<lparr>inFunction := False\<rparr>"
    using rest unfolding l option.case look_def
    by (elim then_do_Parsed) (simp add: atGet1_def look_def give_def throw_def modify_def split: if_splits)
  have c3: "c3 = c2\<lparr>infos := (infos c2)[f := (infos c2 ! f)\<lparr>position := next_pc c2\<rparr>]\<rparr>"
    using set by (simp add: set_info_def modify_def)
  have "linkable c1" using c(1) by (simp add: c1_def)
  then have refl: "within c1 0 c1" by (simp add: within_refl linkable_def)
  have w2: "within c1 0 c2"
    using c2 keepsD[OF keeps_export_stub refl] refl by (auto simp: give_def split: if_splits)
  have ready2: "linkable c2" by (rule linkable_within[OF \<open>linkable c1\<close> w2])
  have f: "f < length (funcs (cenv c1))" "length (infos c1) = length (funcs (cenv c1))"
    using \<open>linkable c1\<close> c(2) by (auto simp: linkable_def functions_ok_def c1_def)
  note kept = within_functions[OF w2 f]
  have f2: "f < length (infos c2)" using kept(3) ready2 by (simp add: linkable_def)
  have ready3: "linkable c3" unfolding c3
    by (rule linkable_set_info[OF ready2 f2]) (use kept(2) c(3) in \<open>simp add: c1_def\<close>)
  have tail: "keeps b k (?tail i) (\<lambda>_. True) k" for b k by (rule keeps_rules)+
  have w5: "within c3 1 c5"
    using keepsD[OF keeps_pop_params _ c5] keepsD[OF keeps_plain_block _ c4, of c3 0] ready3
    by (simp add: within_refl linkable_def)
  have w7: "within c3 1 c7" using keepsD[OF tail _ c7] keepsD[OF keeps_readblock[OF S] w5 c6] by blast
  then have w8: "within c3 0 c8" using keepsD[OF keeps_popblock _ c8, of c3 0] by simp
  have "scoped c5 \<and> callers_in_code (eprog c5) \<and> typed_env (cenv c5)" using w5 by (simp add: within_def)
  then have "within c5 0 c5" by (simp add: within_refl)
  then have "within c5 0 c7" using keepsD[OF tail _ c7] keepsD[OF keeps_readblock[OF S] _ c6] by blast
  then have p: "prefix (tokens (eprog c5)) (tokens (eprog c8))"
    using keeps_popblock_code[OF c8] by (simp add: within_def)
  have code: "eprog c4 = eprog c3" "eprog c3 = eprog c2"
    using c4 by (auto simp: plain_block_def enterblock_def modify_def c3)
  have f3: "f < length (funcs (cenv c3))" "length (infos c3) = length (funcs (cenv c3))" using ready3 f2 by (auto simp: linkable_def c3)
  note kept3 = within_functions[OF w8 f3]
  have info: "funcs (cenv c8) ! f = ?uf" "pass_by_reference (infos c8 ! f) = pass_by_reference ?info"
      "position (infos c8 ! f) = length (tokens (eprog c3))"
    using kept kept3 f2 code by (simp_all add: c3 c1_def next_pc_def)
  obtain ts where ts: "tokens (eprog c5) = tokens (eprog c3) @ ts" "map st_id ts = parameter_code c8 f"
    using pop_params_tokens[OF c5] code(1) info by (auto simp: parameter_code_def)
  have "pops_parameters c8 f"
    using p ts info(3) by (auto simp: pops_parameters_def prefix_def)
  moreover have "linkable c8" by (rule linkable_within[OF ready3 w8])
  moreover have "userFunctions (cenv c8) = userFunctions (cenv c)"
    using w8 w2 by (simp add: within_def c3 c1_def)
  ultimately show ?thesis by (simp add: c' pops_parameters_def parameter_code_def)
qed

lemma function_emitted:
  assumes S: "steady S" and c: "linkable c" "f \<in> snd ` set (userFunctions (cenv c))" "\<not> emitted (infos c ! f)"
    and r: "emit_function S f c = Parsed ((), c')"
  shows "linkable c' \<and> userFunctions (cenv c') = userFunctions (cenv c)"
proof -
  obtain c1 where c1: "in_file (function_body (infos c ! f)) (current_file_path c) (handleBracketedFunction3 S f) c = Parsed ((), c1)"
    and c': "c' = c1\<lparr>infos := (infos c1)[f := (infos c1 ! f)\<lparr>emitted := True\<rparr>]\<rparr>"
    using r unfolding emit_function_def look_def by (elim then_do_Parsed) (simp add: set_info_def modify_def)
  obtain c2 where c2: "handleBracketedFunction3 S f (c\<lparr>ctext := function_body (infos c ! f), current_file_path := current_file_path c\<rparr>) =
      Parsed ((), c2)" "c1 = c2\<lparr>ctext := ctext c, current_file_path := current_file_path c\<rparr>"
    using c1 by (auto simp: in_file_def and_parse_Parsed)
  have "linkable c2 \<and> pops_parameters c2 f \<and> userFunctions (cenv c2) = userFunctions (cenv c)"
    using function_compiled[OF S _ _ _ c2(1)] c by simp
  then have c1: "linkable c1" "pops_parameters c1 f" "userFunctions (cenv c1) = userFunctions (cenv c)"
    by (simp_all add: c2(2) pops_parameters_def parameter_code_def)
  moreover have f: "f < length (infos c1)" using c1 c(2) by (auto simp: linkable_def functions_ok_def)
  ultimately have "linkable c'" unfolding c'
    by (intro linkable_set_info) (simp_all add: pops_parameters_def parameter_code_def)
  then show ?thesis using c1(3) by (simp add: c')
qed

text \<open>A round that emits nothing finds nothing to emit.\<close>

definition wanted :: "sources \<Rightarrow> compiler \<Rightarrow> nat \<Rightarrow> bool" where
  "wanted src c f \<longleftrightarrow>
     (exported (infos c ! f) \<or> compiling_include src \<or> f \<in> fst ` set (callers (eprog c))) \<and> \<not> emitted (infos c ! f)"

lemma round_emits:
  assumes "steady S" "linkable c" "set fs \<subseteq> snd ` set (userFunctions (cenv c))" "emit_round src S fs any c = Parsed (r, c')"
  shows "linkable c' \<and> userFunctions (cenv c') = userFunctions (cenv c) \<and> (any \<longrightarrow> r) \<and>
    (\<not> r \<longrightarrow> c' = c \<and> (\<forall>f \<in> set fs. \<not> wanted src c f))"
  using assms(2-4)
proof (induction fs arbitrary: c any)
  case Nil
  then show ?case by (simp add: give_def)
next
  case (Cons f fs)
  show ?case
  proof (cases "wanted src c f")
    case True
    then obtain c1 where c1: "emit_function S f c = Parsed ((), c1)" "emit_round src S fs True c1 = Parsed (r, c')"
      using Cons.prems(3) by (auto simp: look_def Let_def wanted_def elim!: then_do_Parsed)
    have "linkable c1 \<and> userFunctions (cenv c1) = userFunctions (cenv c)"
      using function_emitted[OF assms(1) Cons.prems(1) _ _ c1(1)] Cons.prems(2) True by (simp add: wanted_def)
    then show ?thesis using Cons.IH[OF _ _ c1(2)] Cons.prems(2) by auto
  next
    case False
    then have "emit_round src S fs any c = Parsed (r, c')"
      using Cons.prems(3) by (simp add: look_def Let_def wanted_def split: if_splits)
    from Cons.IH[OF Cons.prems(1) _ this] show ?thesis using Cons.prems(2) False by simp
  qed
qed

lemma rounds_emit:
  fixes src S fs
  defines "body \<equiv> \<lambda>_ :: unit. then_do (emit_round src S fs False) (\<lambda>any. give (if any then Inl () else Inr ()))"
  assumes "steady S" "linkable c" "set fs \<subseteq> snd ` set (userFunctions (cenv c))" "rounds n body () c = Parsed (u, c')"
  shows "linkable c' \<and> userFunctions (cenv c') = userFunctions (cenv c) \<and> (\<forall>f \<in> set fs. \<not> wanted src c' f)"
  using assms(3-5)
proof (induction n arbitrary: c)
  case (Suc n)
  obtain r c1 where r: "body () c = Parsed (r, c1)" "(case r of Inl a' \<Rightarrow> rounds n body a' | Inr b \<Rightarrow> give b) c1 = Parsed (u, c')"
    using Suc.prems(3) unfolding rounds.simps by (elim then_do_Parsed)
  obtain any where any: "emit_round src S fs False c = Parsed (any, c1)" "r = (if any then Inl () else Inr ())"
    using r(1) unfolding body_def by (elim then_do_Parsed) (auto simp: give_def)
  note round = round_emits[OF assms(2) Suc.prems(1,2) any(1)]
  show ?case
  proof (cases any)
    case True
    then have "rounds n body () c1 = Parsed (u, c')" using r(2) any(2) by simp
    then show ?thesis using Suc.IH[of c1] round Suc.prems(2) by simp
  next
    case False
    then show ?thesis using r(2) any(2) round by (auto simp: give_def)
  qed
qed simp

section \<open>Addresses\<close>

text \<open>The change of the offsets of some instructions.\<close>

definition with_offsets :: "(nat \<Rightarrow> nat option) \<Rightarrow> stored_token list \<Rightarrow> stored_token list" where
  "with_offsets offs ts =
     map (\<lambda>j. case offs j of None \<Rightarrow> ts ! j | Some off \<Rightarrow> (ts ! j)\<lparr>st_offset := off mod 2 ^ 16\<rparr>) [0..<length ts]"

definition put_tokens :: "stored_token list \<Rightarrow> compiler \<Rightarrow> compiler" where
  "put_tokens ts c = c\<lparr>eprog := (eprog c)\<lparr>tokens := ts\<rparr>\<rparr>"

lemma put_tokens_simps [simp]:
  "tokens (eprog (put_tokens ts c)) = ts" "callers (eprog (put_tokens ts c)) = callers (eprog c)"
  "infos (put_tokens ts c) = infos c" "cenv (put_tokens ts c) = cenv c"
  "put_tokens ts (put_tokens us c) = put_tokens ts c"
  by (simp_all add: put_tokens_def)

lemma with_offsets_length [simp]: "length (with_offsets offs ts) = length ts"
  by (simp add: with_offsets_def)

lemma with_offsets_nth [simp]: "j < length ts \<Longrightarrow> with_offsets offs ts ! j =
   (case offs j of None \<Rightarrow> ts ! j | Some off \<Rightarrow> (ts ! j)\<lparr>st_offset := off mod 2 ^ 16\<rparr>)"
  by (cases "offs j") (simp_all add: with_offsets_def)

lemma with_offsets_none [simp]: "with_offsets (\<lambda>j. None) ts = ts"
  by (simp add: list_eq_iff_nth_eq)

lemma with_offsets_ids [simp]: "map st_id (with_offsets offs ts) = map st_id ts"
  by (simp add: list_eq_iff_nth_eq split: option.split)

lemma with_offsets_twice: "with_offsets g (with_offsets f ts) = with_offsets (f ++ g) ts"
  by (simp add: list_eq_iff_nth_eq map_add_def split: option.split)

lemma patchoffset_result:
  assumes "patchoffset i off c = Parsed (u, c')"
  shows "c' = put_tokens (with_offsets [i \<mapsto> off] (tokens (eprog c))) c"
proof -
  have "i < next_pc c" "c' = put_tokens ((tokens (eprog c))[i := (tokens (eprog c) ! i)\<lparr>st_offset := off mod 2 ^ 16\<rparr>]) c"
    using assms by (auto simp: patchoffset_def atGet1_def atPut1_def look_def give_def throw_def modify_def put_tokens_def
        elim!: then_do_Parsed split: if_splits)
  moreover have "(tokens (eprog c))[i := (tokens (eprog c) ! i)\<lparr>st_offset := off mod 2 ^ 16\<rparr>] =
      with_offsets [i \<mapsto> off] (tokens (eprog c))"
    by (simp add: list_eq_iff_nth_eq nth_list_update)
  ultimately show ?thesis by simp
qed

lemma patch_all_result:
  "patch_all is off c = Parsed (u, c') \<Longrightarrow>
   c' = put_tokens (with_offsets (\<lambda>j. if j \<in> set is then Some off else None) (tokens (eprog c))) c"
proof (induction "is" arbitrary: c)
  case Nil
  then show ?case by (simp add: give_def put_tokens_def)
next
  case (Cons i "is")
  then obtain c1 where c1: "patchoffset i off c = Parsed ((), c1)" "patch_all is off c1 = Parsed (u, c')"
    by (auto elim!: then_do_Parsed)
  have "[i \<mapsto> off] ++ (\<lambda>j. if j \<in> set is then Some off else None) = (\<lambda>j. if j \<in> set (i # is) then Some off else None)"
    by (auto simp: map_add_def fun_eq_iff)
  then show ?case using Cons.IH[OF c1(2)] patchoffset_result[OF c1(1)] by (simp add: with_offsets_twice)
qed

text \<open>The address that an instruction waits for, when its function is among some.\<close>

definition address_for :: "compiler \<Rightarrow> nat list \<Rightarrow> nat \<Rightarrow> nat option" where
  "address_for c fs j =
     (case map_of (map (\<lambda>(f, i). (i, f)) (callers (eprog c))) j of
        Some f \<Rightarrow> if f \<in> set fs \<and> emitted (infos c ! f) then Some (position (infos c ! f)) else None
      | None \<Rightarrow> None)"

lemma callers_lookup:
  "callers_in_code p \<Longrightarrow> map_of (map (\<lambda>(f, i). (i, f)) (callers p)) j = Some f \<longleftrightarrow> (f, j) \<in> set (callers p)"
proof -
  assume "callers_in_code p"
  then have "distinct (map snd (callers p))" by (simp add: callers_in_code_def strict_sorted_iff)
  then have "distinct (map fst (map (\<lambda>(f, i). (i, f)) (callers p)))" by (simp add: comp_def case_prod_beta)
  then show ?thesis by (force simp: map_of_eq_Some_iff image_iff case_prod_beta)
qed

lemma callers_patched:
  assumes "callers_in_code (eprog c)" "each_function patch_callers fs (put_tokens (with_offsets (address_for c done_fs) (tokens (eprog c))) c) = Parsed (u, c')"
  shows "c' = put_tokens (with_offsets (address_for c (done_fs @ fs)) (tokens (eprog c))) c"
  using assms(2)
proof (induction fs arbitrary: done_fs)
  case Nil
  then show ?case by (simp add: give_def)
next
  case (Cons f fs)
  let ?c = "put_tokens (with_offsets (address_for c done_fs) (tokens (eprog c))) c"
  let ?is = "map snd (filter (\<lambda>(g, _). g = f) (callers (eprog c)))"
  obtain c1 where c1: "patch_callers f ?c = Parsed ((), c1)" "each_function patch_callers fs c1 = Parsed (u, c')"
    using Cons.prems by (auto elim!: then_do_Parsed)
  have "c1 = put_tokens (with_offsets (address_for c (done_fs @ [f])) (tokens (eprog c))) c"
  proof (cases "emitted (infos c ! f)")
    case True
    then have "c1 = put_tokens (with_offsets (\<lambda>j. if j \<in> set ?is then Some (position (infos c ! f)) else None)
        (with_offsets (address_for c done_fs) (tokens (eprog c)))) c"
      using c1(1) patch_all_result[of ?is "position (infos c ! f)" ?c "()" c1] by (simp add: patch_callers_def look_def)
    moreover have "address_for c done_fs ++ (\<lambda>j. if j \<in> set ?is then Some (position (infos c ! f)) else None) =
        address_for c (done_fs @ [f])"
    proof
      fix j
      have "j \<in> set ?is \<longleftrightarrow> map_of (map (\<lambda>(f, i). (i, f)) (callers (eprog c))) j = Some f"
        unfolding callers_lookup[OF assms(1)] by force
      then show "(address_for c done_fs ++ (\<lambda>j. if j \<in> set ?is then Some (position (infos c ! f)) else None)) j =
          address_for c (done_fs @ [f]) j"
        using True by (auto simp: map_add_def address_for_def split: option.split)
    qed
    ultimately show ?thesis by (simp add: with_offsets_twice)
  next
    case False
    then have "c1 = ?c" using c1(1) by (simp add: patch_callers_def look_def give_def)
    moreover have "address_for c done_fs = address_for c (done_fs @ [f])"
      using False by (auto simp: address_for_def fun_eq_iff split: option.split)
    ultimately show ?thesis by simp
  qed
  then show ?case using Cons.IH[of "done_fs @ [f]"] c1(2) by simp
qed

lemma functions_linked:
  assumes "steady S" "linkable c" "emit_functions src S c = Parsed (u, c')"
    and "(f, i) \<in> set (callers (eprog c'))" "f \<in> snd ` set (userFunctions (cenv c'))"
  shows "i < length (tokens (eprog c')) \<and> emitted (infos c' ! f) \<and>
    st_offset (tokens (eprog c') ! i) = position (infos c' ! f) mod 2 ^ 16 \<and> pops_parameters c' f"
proof -
  let ?fs = "map snd (userFunctions (cenv c))"
  obtain c1 where c1: "rounds (Suc (length ?fs)) (\<lambda>_. then_do (emit_round src S ?fs False) (\<lambda>any.
      give (if any then Inl () else Inr ()))) () c = Parsed ((), c1)" "each_function patch_callers ?fs c1 = Parsed (u, c')"
    using assms(3) unfolding emit_functions_def look_def Let_def by (elim then_do_Parsed) simp
  have ready1: "linkable c1" "userFunctions (cenv c1) = userFunctions (cenv c)" "\<forall>f \<in> set ?fs. \<not> wanted src c1 f"
    using rounds_emit[OF assms(1,2) _ c1(1)] by simp_all
  have calls: "callers_in_code (eprog c1)" using ready1(1) by (simp add: linkable_def)
  have address_none: "address_for c1 [] = (\<lambda>j. None)"
    by (simp add: address_for_def fun_eq_iff split: option.split)
  have "put_tokens (with_offsets (address_for c1 []) (tokens (eprog c1))) c1 = c1"
    using address_none by (simp add: put_tokens_def)
  then have c': "c' = put_tokens (with_offsets (address_for c1 ?fs) (tokens (eprog c1))) c1"
    using callers_patched[OF calls, of ?fs "[]" u c'] c1(2) by simp
  have f: "f \<in> set ?fs" "(f, i) \<in> set (callers (eprog c1))" "f \<in> snd ` set (userFunctions (cenv c1))"
    using assms(4,5) ready1(2) by (simp_all add: c')
  then have i: "i < length (tokens (eprog c1))" "address_for c1 ?fs i = (if emitted (infos c1 ! f) then Some (position (infos c1 ! f)) else None)"
    using calls callers_lookup[OF calls, of i f] by (force simp: callers_in_code_def, simp add: address_for_def)
  have em: "emitted (infos c1 ! f)" using ready1(3) f(1,2) by (force simp: wanted_def)
  then have "pops_parameters c1 f" using ready1(1) f(3) by (auto simp: linkable_def functions_ok_def)
  then have "pops_parameters c' f"
    unfolding pops_parameters_def parameter_code_def by (simp add: c' drop_map[symmetric])
  then show ?thesis using i em by (simp add: c')
qed

lemma linkable_new: "linkable (new_compiler opt path text)"
  by (simp add: new_compiler_def linkable_def scoped_def callers_in_code_def typed_env_def functions_ok_def)

lemma linkable_compile:
  assumes "steady S" "linkable c" "compile src S c = Parsed (u, c')"
  shows "linkable c'"
  using keepsD[OF keeps_compile[OF assms(1)] _ assms(3), of c 0] linkable_within[OF assms(2)] assms(2)
  by (simp add: within_refl linkable_def[of c])

section \<open>A script with a call\<close>

text \<open>\<^verbatim>\<open>f();function f()exit;endfunction\<close>, step by step.\<close>

lemmas sample_lex_defs = Parser_getToken_def skipcomments_def isspace_def starts_with_def byte_def tryLiteral_def Parser_tryLiteral_def
    isalpha_def ident_allowed_def is_digit_def recognize_reserved_word_def
lemmas sample_word_defs = reserved_word_def reserved_words_def ci_key_def tolower_def c_str_def byte_def

lemma sample_words:
  "reserved_word ''f'' = None"
  "reserved_word ''function'' = Some (''function'', RSV_FUNCTION, TYP_RESERVED, -1)"
  "reserved_word ''exit'' = Some (''exit'', TOK_OTHER RSV_EXIT, TYP_RESERVED, -1)"
  "reserved_word ''endfunction'' = Some (''endfunction'', RSV_ENDFUNCTION, TYP_RESERVED, -1)"
  by (simp_all add: sample_word_defs)

lemma sample_lex_words:
  "Parser_getToken tok (CHR ''f'' # CHR ''('' # s) =
   Lexed (0, tok\<lparr>tid := TOK_OTHER TOK_IDENT, ttype := TYP_OPERAND, tokval := ''f''\<rparr>, CHR ''('' # s)"
  "Parser_getToken tok (CHR '' '' # CHR ''f'' # CHR ''('' # s) = 
    Lexed (0, tok\<lparr>tid := TOK_OTHER TOK_IDENT, ttype := TYP_OPERAND, tokval := ''f''\<rparr>, CHR ''('' # s)"
  "Parser_getToken tok ''exit;endfunction'' =
    Lexed (0, tok\<lparr>module := 0, tid := TOK_OTHER RSV_EXIT, ttype := TYP_RESERVED, precedence := -1, tokval := ''exit''\<rparr>, '';endfunction'')"
  "Parser_getToken tok ''endfunction'' =
    Lexed (0, tok\<lparr>module := 0, tid := RSV_ENDFUNCTION, ttype := TYP_RESERVED, precedence := -1, tokval := ''endfunction''\<rparr>, [])"
  "Parser_getToken tok (CHR ''f'' # CHR ''u'' # CHR ''n'' # CHR ''c'' # CHR ''t'' # CHR ''i'' # CHR ''o'' # CHR ''n'' # CHR '' '' # s) =
    Lexed (0, tok\<lparr>module := 0, tid := RSV_FUNCTION, ttype := TYP_RESERVED, precedence := -1, tokval := ''function''\<rparr>, CHR '' '' # s)"
  "Parser_getToken tok (CHR '';'' # s) =
   Lexed (0, tok\<lparr>module := 0, tid := TOK_SEMICOLON, ttype := TYP_DELIMITER, tokval := '';''\<rparr>, s)"
  "Parser_getToken tok [] = Lexed (1, tok, [])"
  by (simp_all add: sample_lex_defs sample_words)

lemma sample_lex_parens:
  "Parser_getToken tok (CHR ''('' # s) =
   Lexed (0, tok\<lparr>module := 0, tid := TOK_LPAREN, ttype := TYP_LEFTPAREN, precedence := PREC_PAREN, tokval := ''(''\<rparr>, s)"
  "Parser_getToken tok (CHR '')'' # s) =
   Lexed (0, tok\<lparr>module := 0, tid := TOK_RPAREN, ttype := TYP_RIGHTPAREN, precedence := PREC_PAREN, tokval := '')''\<rparr>, s)"
  by (code_simp, simp)+

definition one_call :: sources where
  "one_call = no_files\<lparr>files := \<lambda>path. if path = ''a'' then Some ''f();function f()exit;endfunction'' else None\<rparr>"

definition sample_start :: compiler where "sample_start = new_compiler False ''./'' ''f();function f()exit;endfunction''"

lemmas sample_first_steps = try_tok_def get_tok_def getToken_def and_parse_def of_lexed_def peek_tok_def peekToken_def need_tok_def sample_lex_words sample_lex_parens

lemma sample_key: "ci_key ''f'' = ''f''" by (simp add: ci_key_def tolower_def c_str_def byte_def)

lemma sample_first_pass: "read_function_declarations one_call 1 sample_start = Parsed ((), sample_start\<lparr>cenv := (cenv sample_start)\<lparr>funcs := [\<lparr>uname = ''f'', parameters = []\<rparr>], userFunctions := [(''f'', 0)]\<rparr>,
    infos := [\<lparr>pass_by_reference = [], exported = False, function_body = ''exit;endfunction'', position = 0, emitted = False\<rparr>]\<rparr>)"
  apply (simp add: read_function_declarations_def sample_start_def new_compiler_def look_def then_do_def inner_read_function_declarations_def loop_def
   sample_first_steps Token0_def new_Token_def isFunc_def isUserFunc_def sample_key give_def modify_def forward_read_function_def
   readFunctionDeclaration_def check_def fail_def read_to_def skip_to_def define_function_def add_function_def mk_info_def candidates.simps with_function_def Let_def)
  done

definition linked_env :: compile_env where
  "linked_env = \<lparr>funcs = [\<lparr>uname = ''f'', parameters = []\<rparr>], userFunctions = [(''f'', 0)], constants = [], localscope = [],
    globalvars = [], OptimizeObjectMembers = False\<rparr>"

lemma linked_env_fields [simp]:
  "funcs linked_env = [\<lparr>uname = ''f'', parameters = []\<rparr>]" "userFunctions linked_env = [(''f'', 0)]" "constants linked_env = []"
  by (simp_all add: linked_env_def)

lemma parser_at_fields:
  "IIP (parser_at (Suc n)) = IIP_body (parser_at n)" "iip_loop (parser_at (Suc n)) = iip_loop_body (parser_at n)"
  "iip_token (parser_at (Suc n)) = iip_token_body (parser_at n)" "readexpr (parser_at (Suc n)) = readexpr_body (parser_at n)"
  "getUserArgs (parser_at (Suc n)) = getUserArgs_body (parser_at n)"
  "user_args_loop (parser_at (Suc n)) = user_args_loop_body (parser_at n)"
  by (simp_all add: Let_def)

lemma sample_call_okay: "isOkay \<lparr>tid = TOK_USERFUNC, ttype = TYP_USERFUNC, tlval = l, tdval = d, tokval = x, nparams = p, module = m, userfunc = u, precedence = pr\<rparr>
  \<lparr>tid = TOK_TERM, ttype = TYP_TERMINATOR, tlval = l', tdval = d', tokval = x', nparams = p', module = m', userfunc = u', precedence = pr'\<rparr>"
  by (simp add: isOkay_def as_operand_def allowed_table_def)

lemma and_parse_first: "r = r' \<Longrightarrow> and_parse r f = and_parse r' f" by simp

lemma and_parse_results: "and_parse (Parsed a) f = f a" "and_parse (Failed e) f = Failed e" by (simp_all add: and_parse_def)

lemmas sample_token_steps = try_tok_def get_tok_def getToken_def and_parse_results of_lexed_def peek_tok_def peekToken_def need_tok_def sample_lex_words sample_lex_parens

lemma sample_call_parsed:
  "IIP (parser_at (Suc (Suc (Suc (Suc (Suc n)))))) linked_env {SEMICOLON_TERM_ALLOWED, CONSUME_RESULT} \<lparr>TX = [], CA = []\<rparr> (CHR ''f'' # CHR ''('' # CHR '')'' # CHR '';'' # r, []) =
   Parsed (\<lparr>TX = [], CA = map plain_token [(Token0\<lparr>tid := CTRL_MAKELOCAL, ttype := TYP_CONTROL\<rparr>), Token0\<lparr>tid := CTRL_JSR_USERFUNC, ttype := TYP_CONTROL, userfunc := Some 0\<rparr>,
     (Token0\<lparr>tid := TOK_USERFUNC, ttype := TYP_USERFUNC, tokval := ''f'', userfunc := Some 0\<rparr>)]\<rparr>, r, [])"
  by (simp add: parser_at_fields IIP_body_def iip_loop_body_def sample_token_steps Token0_def new_Token_def isFunc_def isUserFunc_def sample_key linked_env_def
     with_function_def Let_def candidates.simps sample_call_okay ends_before_def top_id_def iip_token_body_def getUserArgs_body_def user_args_loop_body_def parse_token_def call_tokens_def emit_def token.defs cong: and_parse_first let_weak_cong del: parser_at.simps)

definition call_code :: "token list" where
  "call_code = map plain_token [Token0\<lparr>tid := CTRL_MAKELOCAL, ttype := TYP_CONTROL\<rparr>, Token0\<lparr>tid := CTRL_JSR_USERFUNC, ttype := TYP_CONTROL, userfunc := Some 0\<rparr>,
     Token0\<lparr>tid := TOK_USERFUNC, ttype := TYP_USERFUNC, tokval := ''f'', userfunc := Some 0\<rparr>, new_Token TOK_CONSUMER TYP_UNARY_OPERATOR]"

lemma sample_call_finished: "finish_expr linked_env {SEMICOLON_TERM_ALLOWED, CONSUME_RESULT} (take 3 call_code) = Parsed call_code"
  by code_simp

lemma sample_call_read: "5 < n \<Longrightarrow> readexpr (parser_at n) linked_env {SEMICOLON_TERM_ALLOWED, CONSUME_RESULT} (CHR ''f'' # CHR ''('' # CHR '')'' # CHR '';'' # r, []) =
   Parsed (call_code, r, [])"
proof -
  assume "5 < n"
  then obtain k where "n = Suc (Suc (Suc (Suc (Suc (Suc k)))))" using that[of "n - 6"] by simp
  then show ?thesis using sample_call_parsed[of k r] sample_call_finished by (simp add: readexpr_body_def and_parse_def call_code_def parser_at_fields(4) del: parser_at.simps)
qed

definition sample_state :: "string \<Rightarrow> eprog \<Rightarrow> compiler" where
  "sample_state text p = \<lparr>ctext = text, cmods = [], cenv = linked_env, 
    infos = [\<lparr>pass_by_reference = [], exported = False, function_body = ''exit;endfunction'', position = 0, emitted = False\<rparr>],
      blocks = [], latest_label = [], inFunction = False, program_text = None,
      program_args = None, exported_functions = [], current_file_path = ''./'', included = [], eprog = p\<rparr>"

definition empty_program :: eprog where "empty_program = \<lparr>tokens = [], syms = [CHR 0x00], callers = []\<rparr>"

definition code_of :: "(BTokenType \<times> BTokenId \<times> nat) list \<Rightarrow> stored_token list" where
  "code_of = map (\<lambda>(ty, i, off). \<lparr>st_type = type_code ty, st_id = i, st_offset = off, st_module = 0\<rparr>)"

definition sample_called :: eprog where "sample_called = \<lparr>tokens = code_of [(TYP_CONTROL, CTRL_MAKELOCAL, 0), (TYP_CONTROL, CTRL_JSR_USERFUNC, 0), (TYP_UNARY_OPERATOR, TOK_CONSUMER, 0)],
   syms = [CHR 0x00], callers = [(0, 1)]\<rparr>"

lemma sample_codes: "\<not> 255 < id_code CTRL_MAKELOCAL" "\<not> 255 < id_code CTRL_JSR_USERFUNC" "\<not> 255 < id_code TOK_USERFUNC"
    "\<not> 255 < id_code TOK_CONSUMER"
  by code_simp+

lemma sample_call_added: "addTokens call_code empty_program = Parsed sample_called"
  by (simp add: addToken_def call_code_def sample_codes Let_def append_tok_def StoredToken_def remember_caller_def and_parse_def
      empty_program_def sample_called_def code_of_def token.defs Token0_def new_Token_def)

lemmas sample_step_defs = catching_def then_do_def skip_blanks_def look_def give_def modify_def append_code_def append_tok_def StoredToken_def on_program_def
   sample_token_steps skipcomments_def isspace_def byte_def starts_with_def

lemma sample_call_compiled: "getStatement_at one_call 1 (sample_state (''f();'' @ r) empty_program) = Parsed ((), sample_state r sample_called)"
  apply (simp add: getStatement_def sample_state_def expression_statement_def getExpr_def read_expr_def inject_def sample_step_defs sample_call_read sample_call_added
    isFunc_def candidates.simps isUserFunc_def sample_key with_function_def Token0_def new_Token_def atGet1_def next_pc_def cong: and_parse_first let_weak_cong del: parser_at.simps)
  apply (simp add: sample_called_def call_code_def code_of_def)
  done

lemma sample_exported_code: "id_code RSV_EXPORTED \<noteq> 8" by code_simp

lemma sample_function_skipped: "getStatement_at one_call 1 (sample_state ''function f()exit;endfunction'' p) = Parsed ((), sample_state [] p)"
  by (simp add: getStatement_def sample_state_def sample_step_defs reserved_statement_def handleBracketedFunction2_def sample_exported_code skip_to_def loop_def check_def
    isFunc_def candidates.simps isUserFunc_def sample_key with_function_def Token0_def new_Token_def cong: and_parse_first let_weak_cong del: parser_at.simps)

lemma sample_context_compiled: "compileContext (getStatement_at one_call 1) (sample_state ''f();function f()exit;endfunction'' empty_program) = Parsed ((), sample_state [] sample_called)"
proof -
  have the_text: "ctext (sample_state t p) = t" for t p by (simp add: sample_state_def)
  show ?thesis
    using sample_call_compiled[of "''function f()exit;endfunction''"]
    by (simp add: compileContext_def loop_def the_text look_def then_do_def sample_function_skipped and_parse_def give_def del: getStatement_at.simps One_nat_def)
qed

lemma sample_no_modules: "use_standard one_call ''basic'' (sample_state t p) = Parsed ((), sample_state t p)"
  "use_standard one_call ''basicio'' (sample_state t p) = Parsed ((), sample_state t p)"
  by (simp_all add: use_standard_def look_def sample_state_def one_call_def no_files_def module_file_def getFileContents_def first_file_def give_def)

definition main_code :: eprog where
  "main_code = \<lparr>tokens = code_of [(TYP_CONTROL, CTRL_MAKELOCAL, 0), (TYP_CONTROL, CTRL_JSR_USERFUNC, 0), (TYP_UNARY_OPERATOR, TOK_CONSUMER, 0),
     (TYP_CONTROL, TOK_OTHER CTRL_PROGEND, 0)], syms = [CHR 0x00], callers = [(0, 1)]\<rparr>"

lemma sample_program_compiled: "compile one_call (getStatement_at one_call 1) (sample_state ''f();function f()exit;endfunction'' \<lparr>tokens = [], syms = [], callers = []\<rparr>) =
   Parsed ((), sample_state [] main_code)"
proof -
  have s: "append_symbol (append_string []) (sample_state t \<lparr>tokens = [], syms = [], callers = []\<rparr>) = Parsed (0, sample_state t empty_program)" for t
    by (simp add: append_symbol_def append_string_def append_data_def findexisting_def c_str_def sample_state_def empty_program_def)
  have e: "append_instruction (TOK_OTHER CTRL_PROGEND) TYP_CONTROL 0 (sample_state [] sample_called) = Parsed ((), sample_state [] main_code)"
    by (simp add: append_instruction_def append_code_def sample_step_defs sample_state_def sample_called_def main_code_def code_of_def)
  have p: "program_text (sample_state t p) = None" for t p by (simp add: sample_state_def)
  show ?thesis
    by (simp add: compile_def then_do_def s sample_no_modules sample_context_compiled p look_def e give_def and_parse_def del: getStatement_at.simps One_nat_def)
qed

definition linked_script :: compiler where
  "linked_script = (sample_state [] \<lparr>tokens = code_of [(TYP_CONTROL, CTRL_MAKELOCAL, 0), (TYP_CONTROL, CTRL_JSR_USERFUNC, 4), (TYP_UNARY_OPERATOR, TOK_CONSUMER, 0),
     (TYP_CONTROL, TOK_OTHER CTRL_PROGEND, 0), (TYP_RESERVED, TOK_OTHER RSV_EXIT, 0), (TYP_OPERAND, TOK_LONG, 1),
     (TYP_RESERVED, TOK_OTHER RSV_RETURN, 0)], syms = CHR 0x00 # replicate 4 (CHR 0x00), callers = [(0, 1)]\<rparr>)
     \<lparr>infos := [\<lparr>pass_by_reference = [], exported = False, function_body = ''exit;endfunction'', position = 4, emitted = True\<rparr>]\<rparr>"

definition emitted_script :: compiler where
  "emitted_script = (sample_state [] \<lparr>tokens = code_of [(TYP_CONTROL, CTRL_MAKELOCAL, 0), (TYP_CONTROL, CTRL_JSR_USERFUNC, 0), (TYP_UNARY_OPERATOR, TOK_CONSUMER, 0),
     (TYP_CONTROL, TOK_OTHER CTRL_PROGEND, 0), (TYP_RESERVED, TOK_OTHER RSV_EXIT, 0), (TYP_OPERAND, TOK_LONG, 1),
     (TYP_RESERVED, TOK_OTHER RSV_RETURN, 0)], syms = CHR 0x00 # replicate 4 (CHR 0x00), callers = [(0, 1)]\<rparr>)
     \<lparr>infos := [\<lparr>pass_by_reference = [], exported = False, function_body = ''exit;endfunction'', position = 4, emitted = True\<rparr>]\<rparr>"

lemma four_zeros: "le_bytes 4 0 = replicate 4 (CHR 0x00)"
  by (simp add: le_bytes_def map_replicate_const) (simp add: char_of_def)

lemma sample_function_compiled: "emit_function (getStatement_at one_call 1) 0 (sample_state [] main_code) = Parsed ((), emitted_script)"
  by (simp add: emit_function_def look_def sample_state_def then_do_def Let_def in_file_def handleBracketedFunction3_def set_info_def modify_def
     plain_block_def enterblock_def readblock_def loop_def emitted_script_def give_def peek_tok_def get_tok_def getToken_def peekToken_def and_parse_results of_lexed_def sample_lex_words
     getStatement_def catching_def skip_blanks_def skipcomments_def starts_with_def isspace_def byte_def reserved_statement_def handleExit_def
     eatToken_def need_tok_def check_def append_instruction_def append_code_def on_program_def append_tok_def StoredToken_def popblock_def in_block_def set_locals_def
     atGet1_def next_pc_def main_code_def code_of_def append_symbol_def append_int_def four_zeros
     cong: and_parse_first let_weak_cong)

lemma sample_emitted: "emit_functions one_call (getStatement_at one_call 1) (sample_state [] main_code) = Parsed ((), linked_script)"
proof -
  have s: "infos (sample_state [] p) = [\<lparr>pass_by_reference = [], exported = False, function_body = ''exit;endfunction'', position = 0, emitted = False\<rparr>]"
    "cenv (sample_state [] p) = linked_env" "callers (eprog (sample_state [] main_code)) = [(0, 1)]" for p
    by (simp_all add: sample_state_def main_code_def)
  have e: "emitted (infos emitted_script ! 0)" by (simp add: emitted_script_def)
  have r1: "emit_round one_call (getStatement_at one_call 1) [0] False (sample_state [] main_code) = Parsed (True, emitted_script)"
    by (simp add: look_def then_do_def Let_def s sample_function_compiled and_parse_results give_def del: getStatement_at.simps One_nat_def)
  have r2: "emit_round one_call (getStatement_at one_call 1) [0] False emitted_script = Parsed (False, emitted_script)"
    by (simp add: look_def Let_def e give_def del: getStatement_at.simps One_nat_def)
  have p: "patch_callers 0 emitted_script = Parsed ((), linked_script)"
    by (simp add: patch_callers_def look_def emitted_script_def linked_script_def sample_state_def patchoffset_def atGet1_def atPut1_def then_do_def and_parse_results
      next_pc_def give_def modify_def code_of_def)
  show ?thesis
    by (simp add: emit_functions_def look_def then_do_def Let_def s r1 r2 p and_parse_results give_def
       del: getStatement_at.simps One_nat_def emit_round.simps)
qed

lemma one_call_compiled: "compileFile one_call False 1 ''a'' = Parsed linked_script"
proof -
  have content: "file_text ''a'' ''f();function f()exit;endfunction'' = ''f();function f()exit;endfunction''" by code_simp
  have path: "getpathof ''a'' = ''./''" by code_simp
  have first: "read_function_declarations one_call 1 (new_compiler False ''./'' ''f();function f()exit;endfunction'') =
    Parsed ((), sample_state ''f();function f()exit;endfunction'' \<lparr>tokens = [], syms = [], callers = []\<rparr>)"
    using sample_first_pass by (simp add: sample_start_def sample_state_def new_compiler_def linked_env_def)
  show ?thesis
    by (simp add: compileFile_def Let_def one_call_def[THEN arg_cong[where f = files]] one_call_def[THEN arg_cong[where f = FullPath]] no_files_def
      content path compile_text_def catching_def then_do_def first sample_program_compiled sample_emitted and_parse_results del: getStatement_at.simps One_nat_def)
qed

section \<open>Property\<close>

text \<open>
  C16. In a compiled script every instruction that calls a function of the script, or makes a
  reference to one, leads to the function: the function has been compiled, the offset of the instruction is its
  address, up to the 16 bits that an offset has, and at this address stand the instructions that
  pop its parameters, the last one first, by value or by reference as declared.
\<close>

theorem calls_lead_to_functions:
  assumes "compileFile src opt n file = Parsed c"
    and "(f, i) \<in> set (callers (eprog c))" "f \<in> snd ` set (userFunctions (cenv c))"
  shows "i < length (tokens (eprog c)) \<and> emitted (infos c ! f) \<and>
    st_offset (tokens (eprog c) ! i) = position (infos c ! f) mod 2 ^ 16 \<and> pops_parameters c f"
proof -
  obtain bytes where "compile_text src n (new_compiler opt (getpathof (FullPath src file)) (file_text (FullPath src file) bytes)) =
      Parsed ((), c)"
    using assms(1) by (auto simp: compileFile_def Let_def and_parse_Parsed catching_def split: option.splits parsed.splits)
  then obtain c1 c2 where c1: "read_function_declarations src n
      (new_compiler opt (getpathof (FullPath src file)) (file_text (FullPath src file) bytes)) = Parsed ((), c1)"
    and c2: "compile src (getStatement_at src n) c1 = Parsed ((), c2)"
    and c3: "emit_functions src (getStatement_at src n) c2 = Parsed ((), c)"
    unfolding compile_text_def by (elim then_do_Parsed) simp
  have "linkable c1" using holdsD[OF holds_read_function_declarations linkable_new c1] by simp
  then have "linkable c2" by (rule linkable_compile[OF getStatement_at_steady _ c2])
  then show ?thesis by (rule functions_linked[OF getStatement_at_steady _ c3 assms(2,3)])
qed

lemma calls_lead_to_functions_witness:
  "compileFile one_call False 1 ''a'' = Parsed linked_script \<and> (0, 1) \<in> set (callers (eprog linked_script)) \<and>
   st_offset (tokens (eprog linked_script) ! 1) = position (infos linked_script ! 0) mod 2 ^ 16 \<and> pops_parameters linked_script 0"
  using calls_lead_to_functions[OF one_call_compiled, of 0 1] one_call_compiled
  by (simp add: linked_script_def sample_state_def)

end
