(* ===== verification/Spec2Isabelle.thy ===== *)
theory Spec2Isabelle
  imports Roundtrip Scheduling Parsing FunctionNumbers ProgramFile Linking
begin

text \<open>
  Verification of the eScript language of the POL server and of its script scheduler.

  \<^bold>\<open>The program.\<close> POL (\<^verbatim>\<open>src/pol-core\<close>) runs game worlds whose rules are
  scripts. A script is compiled to postfix tokens (\<^verbatim>\<open>bscript/compiler.cpp\<close>), which a
  virtual machine executes on a stack of values (\<^verbatim>\<open>bscript/executor.cpp\<close>). The values
  are the classes under \<^verbatim>\<open>BObjectImp\<close> (\<^verbatim>\<open>bscript/object.cpp\<close>,
  \<^verbatim>\<open>blong.cpp\<close>, \<^verbatim>\<open>dbl.cpp\<close>, \<^verbatim>\<open>str.cpp\<close>,
  \<^verbatim>\<open>bstruct.cpp\<close>, \<^verbatim>\<open>dict.cpp\<close>, \<^verbatim>\<open>berror.cpp\<close>).
  Values that outlive a script are packed into text and read back. The server runs all its
  scripts in turns of a few instructions each (\<^verbatim>\<open>pol/globals/script_internals.cpp\<close>,
  \<^verbatim>\<open>pol/scrsched.cpp\<close>, \<^verbatim>\<open>pol/module/osmod.cpp\<close>).

  \<^bold>\<open>The theories.\<close>
  \<^item> \<open>Prelude\<close>, \<open>Streams\<close>, \<open>Doubles\<close>, \<open>OrdMaps\<close>: bytes and 32-bit integers, the
    extraction operators of \<^verbatim>\<open>std::istream\<close>, binary64 reals with rounding, and
    \<^verbatim>\<open>std::map\<close> as an ordered association list over a weak order (a locale,
    interpreted on the order of member names and on the order of dictionary keys).
  \<^item> \<open>Objects\<close>, \<open>Compare\<close>, \<open>Arith\<close>: the values, their text, their comparisons and their
    operators with double dispatch (\<^verbatim>\<open>object.cpp\<close>, \<^verbatim>\<open>blong.cpp\<close>,
    \<^verbatim>\<open>dbl.cpp\<close>, \<^verbatim>\<open>str.cpp\<close>).
  \<^item> \<open>Params\<close>, \<open>Arrays\<close>, \<open>Structs\<close>, \<open>Strings\<close>: parameters of method calls, and the
    subscripts, members, methods and iterators of the containers and of strings.
  \<^item> \<open>Packing\<close>, \<open>Roundtrip\<close>: \<^verbatim>\<open>pack\<close> and \<^verbatim>\<open>unpack\<close> of every class, and
    the proof that they are inverse.
  \<^item> \<open>Instructions\<close>: the instructions of the executor that work on the value stack.
  \<^item> \<open>Optimizer\<close>, \<open>Folding\<close>: the optimiser of expressions, and the proof that folding
    keeps what the executor computes.
  \<^item> \<open>Executor\<close>, \<open>Verifier\<close>, \<open>Execution\<close>: the machine with a store of objects, variables,
    jumps, case blocks, loops, calls and the stops of the debugger
    (\<^verbatim>\<open>executor.cpp\<close>); a checker of programs by annotations of stack depth and
    variables; and the proofs that checked code is safe, that references stay valid and that
    the machine refines the one of \<open>Instructions\<close>.
  \<^item> \<open>Scheduler\<close>, \<open>Scheduling\<close>: the lists of the script scheduler, turns, sleeping, events,
    child scripts and killing, as a step relation; the invariant of the lists, when a turn
    ends, and that sleepers wake. The locale \<open>calm_scripts\<close> states what the instructions of
    the scripts must keep for a turn to end, and is interpreted on the machine.

  \<^item> \<open>Utf8\<close>, \<open>Names\<close>, \<open>Lexer\<close>, \<open>Reading\<close>: the validity of UTF-8 and the repair of
    other text, the tables of member and method names, the tokeniser of the compiler
    (\<^verbatim>\<open>parser.cpp\<close>, \<^verbatim>\<open>compctx.cpp\<close>), and the proof that it reads back
    every token that is printed.
  \<^item> \<open>Parser\<close>, \<open>Parsing\<close>, \<open>ParserEnds\<close>, \<open>FunctionNumbers\<close>: the expression parser with its
    calls into \<^verbatim>\<open>compiler.cpp\<close> and \<^verbatim>\<open>fmodule.cpp\<close>. The text of an
    expression becomes the postfix form of its tree; parsing ends on every text; functions of
    modules keep their numbers.
  \<^item> \<open>Eprog\<close>, \<open>ProgramFile\<close>: the compiled program and its table of symbols
    (\<^verbatim>\<open>eprog2.cpp\<close>, \<^verbatim>\<open>symcont.cpp\<close>), the conversion of tokens to stored
    instructions, and the bytes of the compiled file, written and loaded
    (\<^verbatim>\<open>filefmt.h\<close>, \<^verbatim>\<open>eprog_read.cpp\<close>). A script that fits the format is
    read back as it was written.
  \<^item> \<open>Declarations\<close>, \<open>Statements\<close>, \<open>Compiler\<close>: the compiler (\<^verbatim>\<open>compiler.cpp\<close>)
    as steps on its state: blocks and variables, declarations of constants, enumerations and
    functions, every statement with its back-patched jumps and the parts of an if that are
    rolled back, \<^verbatim>\<open>use\<close> and \<^verbatim>\<open>include\<close>, both passes over a file, the
    functions that are called, the addresses of calls, and web pages. The files, the packages
    and the modules are the parameter \<open>sources\<close>.
  \<^item> \<open>Typed\<close>, \<open>TypedParser\<close>, \<open>Steady\<close>: the types of the tokens that the parser returns, and
    what a statement keeps: the code before it, the symbols, the calls that wait for an address
    and the enclosing blocks. The rules of \<open>keeps\<close> have one lemma for each step and each
    handler.
  \<^item> \<open>Linking\<close>: every call of a compiled script leads to the code of its function.

  \<^bold>\<open>Conventions.\<close> A C++ \<^verbatim>\<open>int\<close> is a 32-bit word read with \<open>sint\<close>. The
  result \<open>None\<close> of an operation on values stands for undefined behaviour of C++ (division of
  the least integer by minus one, a conversion out of range, a step past the end of a string);
  a comparison decided by the addresses of objects has no value. The machine and the scheduler
  give such behaviour a name (\<open>fault\<close>, \<open>sched_fault\<close>), and \<open>None\<close> of a scheduler
  operation means that it does not return. Errors that scripts see are error values,
  exceptions are a constructor of the result. Packing needs a nesting bound: the length of the
  text plus one is enough, which \<open>unpack_returns\<close> states. The scheduler takes what one
  instruction of a script does as a parameter, so that its properties hold for all scripts;
  \<open>run_machine\<close> is the instance for scripts on the machine of \<open>Executor\<close>. The clock is an
  argument of the operations that read it. A position in a source text is the text from it on,
  to its terminating zero. The functions of the parser call each other; \<open>parser_at\<close> bounds the
  nesting of the calls and the rounds of the loops, and \<open>parsing_ends\<close> states that five for
  each character and three more are enough. The loops of the compiler get
  one round for each character of the text and one more, since a round that goes on takes a token
  (a text that ends in a group of a case statement, which the code reads without end, has no
  result), and
  the rounds over the functions one more than there are functions, since each round but the
  last compiles one; the nesting of statements and of files is the argument \<open>n\<close> of
  \<open>getStatement_at\<close>, \<open>compileFile\<close> and the passes. Without fuel the result is
  \<open>OutOfFuel\<close>, never a program.

  \<^bold>\<open>Not modelled.\<close> In the theories of values, values are trees: a copy is the value itself,
  and two references to one container are not told apart; the machine tells variables apart by
  their addresses, but instructions that hand out references into containers are not modelled.
  \<^verbatim>\<open>array.sort\<close> calls \<^verbatim>\<open>std::sort\<close> on an order that may depend on addresses.
  Conversions between UTF-8 and UTF-16, and to upper and lower case, are calls of the
  platform. Loading programs, modules of server functions, logging and profiling are left out
  of the scheduler. The parser and the compiler keep no line numbers, warnings and texts
  of messages. Files of debug information and listings are left out, and so are the handlers of
  the compiler that nothing calls (\<^verbatim>\<open>handleIf\<close>, \<^verbatim>\<open>handleBlock\<close>,
  \<^verbatim>\<open>handleFor_c\<close>, \<^verbatim>\<open>handleFunction\<close>, \<^verbatim>\<open>handleBracketedFunction\<close>).
  The executor does not model \<^verbatim>\<open>foreach\<close> (its instructions end in the fault
  \<open>Not_Modelled\<close>) or the counting of references.
\<close>

end
